(* ===== verification/Js_Prelude.thy ===== *)
theory Js_Prelude
  imports
    Main
    "HOL-Library.Char_ord"
    "HOL-Library.List_Lexorder"
    "HOL-Library.Product_Lexorder"
    "HOL-Library.Sublist"
begin

text \<open>
  The vocabulary the component theories share: the parts of JavaScript's string, array and
  value library that the service calls, the result type of a function that may fail, and the
  row operations of a database table. A JavaScript string is a HOL \<open>string\<close>, one character
  per UTF-16 code unit; the model covers the code units 0 to 255 (ISO 8859-1), so text with
  code units above 255 is outside it. An instant is an \<open>int\<close>, the milliseconds of
  \<open>Date.prototype.getTime\<close>.
\<close>

section \<open>Collections of rewrite rules\<close>

named_theorems js_simps \<open>laws of the JavaScript string and array operations\<close>
named_theorems row_simps \<open>laws of the table operations\<close>

type_synonym instant = int
type_synonym uuid = string

section \<open>Characters\<close>

text \<open>The white space that \<open>trim\<close> strips and \<open>\s\<close> matches, up to code unit 255.\<close>

definition js_space :: "char \<Rightarrow> bool" where
  "js_space c \<longleftrightarrow> c \<in> {CHR 0x09, CHR 0x0A, CHR 0x0B, CHR 0x0C, CHR 0x0D, CHR 0x20, CHR 0xA0}"

text \<open>\<open>toLowerCase\<close> and \<open>toUpperCase\<close> on one code unit. Lower case is exact on the modelled
  range. Upper case leaves the sharp s, the micro sign and y with diaeresis alone: their upper
  case has no single code unit in the range, and the code only compares upper-cased text with
  ASCII words that none of them can become.\<close>

definition lower_char :: "char \<Rightarrow> char" where
  "lower_char c =
     (let n = of_char c :: nat
      in if 65 \<le> n \<and> n \<le> 90 \<or> 192 \<le> n \<and> n \<le> 222 \<and> n \<noteq> 215 then char_of (n + 32) else c)"

definition upper_char :: "char \<Rightarrow> char" where
  "upper_char c =
     (let n = of_char c :: nat
      in if 97 \<le> n \<and> n \<le> 122 \<or> 224 \<le> n \<and> n \<le> 254 \<and> n \<noteq> 247 then char_of (n - 32) else c)"

definition js_toLower :: "string \<Rightarrow> string" where
  "js_toLower = map lower_char"

definition js_toUpper :: "string \<Rightarrow> string" where
  "js_toUpper = map upper_char"

definition is_digit :: "char \<Rightarrow> bool" where
  "is_digit c \<longleftrightarrow> CHR ''0'' \<le> c \<and> c \<le> CHR ''9''"

definition is_lower_alpha :: "char \<Rightarrow> bool" where
  "is_lower_alpha c \<longleftrightarrow> CHR ''a'' \<le> c \<and> c \<le> CHR ''z''"

definition is_lower_hex :: "char \<Rightarrow> bool" where
  "is_lower_hex c \<longleftrightarrow> is_digit c \<or> CHR ''a'' \<le> c \<and> c \<le> CHR ''f''"

lemma of_char_less_256 [simp]: "(of_char c :: nat) < 256"
  using of_char_mod_256 [of c] by (metis mod_less_divisor zero_less_numeral)

lemma char_le_of_char: "c \<le> d \<longleftrightarrow> (of_char c :: nat) \<le> of_char d"
  by (simp add: less_eq_char_def)

lemma of_char_eqI: "(of_char c :: nat) = of_char d \<Longrightarrow> c = d"
  by simp

lemma of_char_lower_char:
  "(of_char (lower_char c) :: nat) =
     (if 65 \<le> (of_char c :: nat) \<and> of_char c \<le> (90 :: nat)
        \<or> 192 \<le> (of_char c :: nat) \<and> of_char c \<le> (222 :: nat) \<and> of_char c \<noteq> (215 :: nat)
      then of_char c + 32 else of_char c)"
  by (auto simp: lower_char_def Let_def of_char_of)

lemma lower_char_idem [simp]: "lower_char (lower_char c) = lower_char c"
  by (rule of_char_eqI) (auto simp: of_char_lower_char)

lemma js_space_of_char:
  "js_space c \<longleftrightarrow> (of_char c :: nat) \<in> {9, 10, 11, 12, 13, 32, 160}"
proof -
  have eq: "c = d \<longleftrightarrow> (of_char c :: nat) = of_char d" for d by simp
  show ?thesis by (simp only: js_space_def insert_iff empty_iff eq) simp
qed

lemma js_space_lower_char [simp]: "js_space (lower_char c) = js_space c"
  by (auto simp: js_space_of_char of_char_lower_char)

lemma lower_char_eq_iff_ascii:
  "(of_char d :: nat) < 65 \<or> 90 < (of_char d :: nat) \<and> of_char d < (97 :: nat)
     \<or> 122 < (of_char d :: nat) \<and> of_char d < (192 :: nat) \<Longrightarrow> lower_char c = d \<longleftrightarrow> c = d"
proof -
  assume d: "(of_char d :: nat) < 65 \<or> 90 < (of_char d :: nat) \<and> of_char d < (97 :: nat)
     \<or> 122 < (of_char d :: nat) \<and> of_char d < (192 :: nat)"
  have "(of_char (lower_char c) :: nat) = of_char d \<longleftrightarrow> (of_char c :: nat) = of_char d"
    unfolding of_char_lower_char using d by (auto split: if_splits)
  then show ?thesis by simp
qed

lemma lower_char_fixed:
  "\<not> (65 \<le> (of_char c :: nat) \<and> of_char c \<le> (90 :: nat)) \<Longrightarrow> (of_char c :: nat) < 128 \<Longrightarrow> lower_char c = c"
  by (rule of_char_eqI) (auto simp: of_char_lower_char)

section \<open>Strings\<close>

definition js_ltrim :: "string \<Rightarrow> string" where
  "js_ltrim = dropWhile js_space"

definition js_rtrim :: "string \<Rightarrow> string" where
  "js_rtrim s = rev (dropWhile js_space (rev s))"

definition js_trim :: "string \<Rightarrow> string" where
  "js_trim s = js_rtrim (js_ltrim s)"

text \<open>No white space at either end: what \<open>trim\<close> leaves.\<close>

definition trimmed :: "string \<Rightarrow> bool" where
  "trimmed s \<longleftrightarrow> s = [] \<or> \<not> js_space (hd s) \<and> \<not> js_space (last s)"

lemma js_rtrim_Nil [simp]: "js_rtrim [] = []"
  by (simp add: js_rtrim_def)

lemma js_rtrim_snoc: "js_rtrim (s @ [c]) = (if js_space c then js_rtrim s else s @ [c])"
  by (simp add: js_rtrim_def)

lemma js_rtrim_last: "js_rtrim s \<noteq> [] \<Longrightarrow> \<not> js_space (last (js_rtrim s))"
  by (induction s rule: rev_induct) (auto simp: js_rtrim_snoc)

lemma js_rtrim_hd: "s \<noteq> [] \<Longrightarrow> js_rtrim s \<noteq> [] \<Longrightarrow> hd (js_rtrim s) = hd s"
  by (induction s rule: rev_induct) (auto simp: js_rtrim_snoc hd_append split: if_splits)

lemma js_rtrim_fixed: "s \<noteq> [] \<Longrightarrow> \<not> js_space (last s) \<Longrightarrow> js_rtrim s = s"
  by (cases s rule: rev_cases) (auto simp: js_rtrim_snoc)

lemma js_ltrim_hd: "js_ltrim s \<noteq> [] \<Longrightarrow> \<not> js_space (hd (js_ltrim s))"
  by (simp add: js_ltrim_def hd_dropWhile)

lemma js_ltrim_fixed: "s = [] \<or> \<not> js_space (hd s) \<Longrightarrow> js_ltrim s = s"
  by (cases s) (auto simp: js_ltrim_def)

lemma trimmed_js_trim [simp]: "trimmed (js_trim s)"
proof (cases "js_trim s = []")
  case False
  then have "js_ltrim s \<noteq> []" by (auto simp: js_trim_def)
  with False show ?thesis
    using js_rtrim_last js_rtrim_hd js_ltrim_hd by (simp add: trimmed_def js_trim_def)
qed (simp add: trimmed_def)

lemma js_trim_trimmed [simp]: "trimmed s \<Longrightarrow> js_trim s = s"
  by (cases "s = []") (auto simp: trimmed_def js_trim_def js_ltrim_fixed js_rtrim_fixed)

lemma js_ltrim_Nil [simp]: "js_ltrim [] = []"
  by (simp add: js_ltrim_def)

lemma js_trim_idem [simp]: "js_trim (js_trim s) = js_trim s"
  by simp

lemma js_trim_Nil [simp]: "js_trim [] = []"
  by (simp add: js_trim_def js_ltrim_def)

lemma set_js_rtrim: "set (js_rtrim s) \<subseteq> set s"
  using set_dropWhileD by (fastforce simp: js_rtrim_def)

lemma set_js_trim: "set (js_trim s) \<subseteq> set s"
  using set_js_rtrim [of "js_ltrim s"] set_dropWhileD by (fastforce simp: js_trim_def js_ltrim_def)

lemma length_js_rtrim: "length (js_rtrim s) \<le> length s"
  by (simp add: js_rtrim_def length_dropWhile_le [of _ "rev s", simplified])

lemma length_js_trim: "length (js_trim s) \<le> length s"
  unfolding js_trim_def js_ltrim_def
  by (rule le_trans [OF length_js_rtrim length_dropWhile_le])

lemma js_toLower_idem [simp]: "js_toLower (js_toLower s) = js_toLower s"
  by (simp add: js_toLower_def comp_def)

lemma length_js_toLower [simp]: "length (js_toLower s) = length s"
  by (simp add: js_toLower_def)

lemma js_toLower_append [simp]: "js_toLower (s @ t) = js_toLower s @ js_toLower t"
  by (simp add: js_toLower_def)

lemma js_toLower_Nil [simp]: "js_toLower [] = []" "js_toLower s = [] \<longleftrightarrow> s = []"
  by (simp_all add: js_toLower_def)

lemma trimmed_js_toLower [simp]: "trimmed (js_toLower s) = trimmed s"
  by (auto simp: trimmed_def js_toLower_def hd_map last_map)

lemma js_toLower_fixed: "\<forall>c \<in> set s. lower_char c = c \<Longrightarrow> js_toLower s = s"
  by (simp add: js_toLower_def map_idI)

text \<open>\<open>lastIndexOf\<close> of one character; \<open>None\<close> is the code's \<open>-1\<close>.\<close>

fun lastIndexOf :: "char \<Rightarrow> string \<Rightarrow> nat option" where
  "lastIndexOf c [] = None"
| "lastIndexOf c (x # xs) =
     (case lastIndexOf c xs of
        Some i \<Rightarrow> Some (Suc i)
      | None \<Rightarrow> if x = c then Some 0 else None)"

lemma lastIndexOf_None: "lastIndexOf c s = None \<longleftrightarrow> c \<notin> set s"
  by (induction s) (auto split: option.splits)

lemma lastIndexOf_split:
  "lastIndexOf c s = Some i \<Longrightarrow>
     i < length s \<and> s = take i s @ c # drop (Suc i) s \<and> c \<notin> set (drop (Suc i) s)"
  by (induction s arbitrary: i) (auto split: option.splits if_splits simp: lastIndexOf_None)

lemma lastIndexOf_append [js_simps]: "c \<notin> set t \<Longrightarrow> lastIndexOf c (s @ c # t) = Some (length s)"
  by (induction s) (auto simp: lastIndexOf_None [THEN iffD2])

text \<open>\<open>lastIndexOf(p, pos)\<close>: the last occurrence of \<open>p\<close> that starts at \<open>pos\<close> or before.\<close>

fun lastIndexOfStr :: "string \<Rightarrow> string \<Rightarrow> nat \<Rightarrow> nat option" where
  "lastIndexOfStr p s 0 = (if prefix p s then Some 0 else None)"
| "lastIndexOfStr p s (Suc n) = (if prefix p (drop (Suc n) s) then Some (Suc n) else lastIndexOfStr p s n)"

lemma lastIndexOfStr_Some:
  "lastIndexOfStr p s n = Some i \<Longrightarrow> i \<le> n \<and> prefix p (drop i s)"
  by (induction n) (auto split: if_splits)

lemma lastIndexOfStr_eq:
  "prefix p (drop i s) \<Longrightarrow> i \<le> n \<Longrightarrow> (\<And>j. i < j \<Longrightarrow> j \<le> n \<Longrightarrow> \<not> prefix p (drop j s)) \<Longrightarrow>
     lastIndexOfStr p s n = Some i"
proof (induction n)
  case (Suc n)
  show ?case
  proof (cases "i = Suc n")
    case True
    with Suc.prems show ?thesis by simp
  next
    case False
    with Suc show ?thesis by auto
  qed
qed simp

text \<open>\<open>split\<close> on a one-character separator: always at least one piece.\<close>

fun js_split :: "char \<Rightarrow> string \<Rightarrow> string list" where
  "js_split d [] = [[]]"
| "js_split d (c # cs) =
     (if c = d then [] # js_split d cs
      else case js_split d cs of p # ps \<Rightarrow> (c # p) # ps | [] \<Rightarrow> [[c]])"

fun js_join :: "string \<Rightarrow> string list \<Rightarrow> string" where
  "js_join sep [] = []"
| "js_join sep [x] = x"
| "js_join sep (x # y # ys) = x @ sep @ js_join sep (y # ys)"

lemma js_split_ne [simp]: "js_split d s \<noteq> []"
  by (cases s) (auto split: list.splits)

lemma js_join_split [js_simps]: "js_join [d] (js_split d s) = s"
proof (induction s)
  case (Cons c cs)
  then show ?case
    by (cases "js_split d cs"; cases "tl (js_split d cs)") auto
qed simp

lemma js_split_no_sep: "p \<in> set (js_split d s) \<Longrightarrow> d \<notin> set p"
  by (induction s arbitrary: p) (auto split: if_splits list.splits)

lemma js_split_subset: "p \<in> set (js_split d s) \<Longrightarrow> set p \<subseteq> set s"
proof (induction s arbitrary: p)
  case (Cons c cs)
  then show ?case by (cases "js_split d cs") (auto split: if_splits, blast+)
qed simp

definition js_remove :: "char \<Rightarrow> string \<Rightarrow> string" where
  \<comment> \<open>\<open>replaceAll(c, '')\<close>\<close>
  "js_remove d = filter (\<lambda>c. c \<noteq> d)"

definition js_replace :: "char \<Rightarrow> string \<Rightarrow> string \<Rightarrow> string" where
  \<comment> \<open>\<open>replaceAll(c, r)\<close>\<close>
  "js_replace d r s = concat (map (\<lambda>c. if c = d then r else [c]) s)"

definition js_or :: "string \<Rightarrow> string \<Rightarrow> string" where
  \<comment> \<open>\<open>a || b\<close> on strings: the empty string is falsy\<close>
  "js_or a b = (if a = [] then b else a)"

definition truthy :: "string option \<Rightarrow> bool" where
  \<comment> \<open>an optional string used as a condition\<close>
  "truthy v \<longleftrightarrow> (case v of None \<Rightarrow> False | Some s \<Rightarrow> s \<noteq> [])"

definition js_coalesce :: "'a option \<Rightarrow> 'a option \<Rightarrow> 'a option" where
  \<comment> \<open>\<open>a ?? b\<close> on values that may be null or undefined\<close>
  "js_coalesce a b = (case a of None \<Rightarrow> b | Some _ \<Rightarrow> a)"

lemma truthy_simps [simp]: "\<not> truthy None" "truthy (Some s) \<longleftrightarrow> s \<noteq> []"
  by (simp_all add: truthy_def)

lemma js_coalesce_simps [simp]: "js_coalesce None b = b" "js_coalesce (Some x) b = Some x"
  by (simp_all add: js_coalesce_def)

section \<open>Arrays\<close>

lemma take_length_append [js_simps]: "take (length a) (a @ b) = a"
  by simp

lemma drop_Suc_length_append [js_simps]: "drop (Suc (length a)) (a @ c # b) = b"
  by simp

text \<open>\<open>[...new Set(xs)]\<close>: the distinct elements in the order of their first occurrence.\<close>

fun js_set :: "'a list \<Rightarrow> 'a list" where
  "js_set [] = []"
| "js_set (x # xs) = x # filter (\<lambda>y. y \<noteq> x) (js_set xs)"

lemma set_js_set [simp]: "set (js_set xs) = set xs"
  by (induction xs) auto

lemma distinct_js_set [simp]: "distinct (js_set xs)"
  by (induction xs) auto

lemma js_set_distinct [simp]: "distinct xs \<Longrightarrow> js_set xs = xs"
proof (induction xs)
  case (Cons x xs)
  then have "filter (\<lambda>y. y \<noteq> x) xs = xs" by (auto simp: filter_id_conv)
  with Cons show ?case by simp
qed simp

lemma js_set_snoc: "js_set (xs @ [x]) = (if x \<in> set xs then js_set xs else js_set xs @ [x])"
  by (induction xs) auto

definition js_at_last :: "'a list \<Rightarrow> 'a option" where
  \<comment> \<open>\<open>xs.at(-1)\<close>\<close>
  "js_at_last xs = (if xs = [] then None else Some (last xs))"

definition js_head :: "'a list \<Rightarrow> 'a option" where
  \<comment> \<open>\<open>xs[0]\<close>\<close>
  "js_head xs = (case xs of [] \<Rightarrow> None | x # _ \<Rightarrow> Some x)"

definition js_keep_last :: "nat \<Rightarrow> 'a list \<Rightarrow> 'a list" where
  \<comment> \<open>\<open>xs.slice(-n)\<close> for a positive \<open>n\<close>\<close>
  "js_keep_last n xs = drop (length xs - n) xs"

lemma js_at_last_simps [simp]:
  "js_at_last [] = None" "js_at_last (xs @ [x]) = Some x" "js_at_last xs = None \<longleftrightarrow> xs = []"
  by (simp_all add: js_at_last_def)

lemma js_at_last_SomeD: "js_at_last xs = Some x \<Longrightarrow> x \<in> set xs"
  by (auto simp: js_at_last_def split: if_splits)

lemma js_head_simps [simp]: "js_head [] = None" "js_head (x # xs) = Some x"
  by (simp_all add: js_head_def)

section \<open>JSON values\<close>

text \<open>What \<open>JSON.parse\<close> returns. A number the code can tell apart is an integer or not an
  integer; the value of the latter is never read. An absent member is \<open>None\<close> (undefined).\<close>

datatype json =
    JNull
  | JBool bool
  | JNumber int
  | JFraction
  | JString string
  | JArray "json list"
  | JObject "(string \<times> json) list"

definition json_member :: "(string \<times> json) list \<Rightarrow> string \<Rightarrow> json option" where
  "json_member fields name = map_of fields name"

definition json_string :: "json option \<Rightarrow> string option" where
  \<comment> \<open>\<open>typeof v === 'string' ? v : undefined\<close>\<close>
  "json_string v = (case v of Some (JString s) \<Rightarrow> Some s | _ \<Rightarrow> None)"

lemma json_string_simps [simp]:
  "json_string None = None" "json_string (Some (JString s)) = Some s"
  "json_string (Some JNull) = None" "json_string (Some (JObject fs)) = None"
  by (simp_all add: json_string_def)

lemma json_string_SomeD: "json_string v = Some s \<Longrightarrow> v = Some (JString s)"
  by (auto simp: json_string_def split: option.splits json.splits)

section \<open>Tables\<close>

text \<open>A table is the list of its rows. \<open>update_where\<close> and \<open>delete_where\<close> are the conditional
  statements of SQL, \<open>count_where\<close> the number of rows a statement reports.\<close>

definition update_where :: "('r \<Rightarrow> bool) \<Rightarrow> ('r \<Rightarrow> 'r) \<Rightarrow> 'r list \<Rightarrow> 'r list" where
  "update_where P f rows = map (\<lambda>r. if P r then f r else r) rows"

definition delete_where :: "('r \<Rightarrow> bool) \<Rightarrow> 'r list \<Rightarrow> 'r list" where
  "delete_where P rows = filter (\<lambda>r. \<not> P r) rows"

definition count_where :: "('r \<Rightarrow> bool) \<Rightarrow> 'r list \<Rightarrow> nat" where
  "count_where P rows = length (filter P rows)"

definition find_by :: "('r \<Rightarrow> 'k) \<Rightarrow> 'k \<Rightarrow> 'r list \<Rightarrow> 'r option" where
  "find_by key k rows = find (\<lambda>r. key r = k) rows"

lemma update_where_simps [simp]:
  "update_where P f [] = []"
  "update_where P f (r # rs) = (if P r then f r else r) # update_where P f rs"
  "length (update_where P f rs) = length rs"
  by (simp_all add: update_where_def)

lemma update_where_none [row_simps]: "(\<And>r. r \<in> set rs \<Longrightarrow> \<not> P r) \<Longrightarrow> update_where P f rs = rs"
  by (induction rs) auto

lemma set_update_where: "set (update_where P f rs) = (\<lambda>r. if P r then f r else r) ` set rs"
  by (simp add: update_where_def)

lemma map_update_where [row_simps]: "(\<And>r. g (f r) = g r) \<Longrightarrow> map g (update_where P f rs) = map g rs"
  by (induction rs) auto

lemma count_where_simps [simp]:
  "count_where P [] = 0"
  "count_where P (r # rs) = (if P r then Suc (count_where P rs) else count_where P rs)"
  by (simp_all add: count_where_def)

lemma count_where_0 [row_simps]: "count_where P rs = 0 \<longleftrightarrow> (\<forall>r \<in> set rs. \<not> P r)"
  by (induction rs) auto

lemma count_where_pos [row_simps]: "0 < count_where P rs \<longleftrightarrow> (\<exists>r \<in> set rs. P r)"
  by (induction rs) auto

lemma delete_where_simps [simp]:
  "delete_where P [] = []"
  "delete_where P (r # rs) = (if P r then delete_where P rs else r # delete_where P rs)"
  by (simp_all add: delete_where_def)

lemma set_delete_where [simp]: "set (delete_where P rs) = {r \<in> set rs. \<not> P r}"
  by (simp add: delete_where_def)

lemma find_by_simps [simp]:
  "find_by key k [] = None"
  "find_by key k (r # rs) = (if key r = k then Some r else find_by key k rs)"
  by (simp_all add: find_by_def)

lemma find_by_SomeD: "find_by key k rs = Some r \<Longrightarrow> r \<in> set rs \<and> key r = k"
  by (induction rs) (auto split: if_splits)

lemma find_by_None [row_simps]: "find_by key k rs = None \<longleftrightarrow> k \<notin> key ` set rs"
  by (induction rs) auto

lemma find_by_distinct: "distinct (map key rs) \<Longrightarrow> r \<in> set rs \<Longrightarrow> find_by key (key r) rs = Some r"
  by (induction rs) (auto simp: image_iff)

lemma find_by_update_where:
  "(\<And>r. key (f r) = key r) \<Longrightarrow>
     find_by key k (update_where P f rs) = map_option (\<lambda>r. if P r then f r else r) (find_by key k rs)"
  by (induction rs) auto

lemma distinct_key_unique:
  "distinct (map key rs) \<Longrightarrow> r \<in> set rs \<Longrightarrow> r' \<in> set rs \<Longrightarrow> key r = key r' \<Longrightarrow> r = r'"
  by (metis find_by_distinct option.inject)

lemma count_where_key:
  "distinct (map key rs) \<Longrightarrow> count_where (\<lambda>r. key r = k) rs = (if k \<in> key ` set rs then 1 else 0)"
  by (induction rs) (auto simp: count_where_0 image_iff)

lemma count_where_le_1: "distinct (map key rs) \<Longrightarrow> (\<And>r. P r \<Longrightarrow> key r = k) \<Longrightarrow> count_where P rs \<le> 1"
proof (induction rs)
  case (Cons r rs)
  then show ?case
    by (cases "P r") (auto simp: image_iff count_where_0 intro!: le_SucI)
qed simp

end
