(* ===== verification/Js_Number.thy ===== *)
theory Js_Number
  imports Js_Prelude
begin

text \<open>
  \<open>Number(s)\<close> on a string, as far as the configuration code looks at it: whether the result is an
  integer, and which. The value is computed exactly instead of as a double, so the model reads a text
  as an integer iff the text denotes one; a double would also round a fraction within 2^-53 of an
  integer. A magnitude that overflows to infinity is no integer.
\<close>

definition digit_value :: "char \<Rightarrow> nat" where
  "digit_value c =
     (let n = of_char c :: nat
      in if n \<le> 57 then n - 48 else if n \<le> 90 then n - 55 else n - 87)"

definition digits_value :: "nat \<Rightarrow> string \<Rightarrow> nat" where
  "digits_value base ds = foldl (\<lambda>v c. v * base + digit_value c) 0 ds"

definition is_hex_digit :: "char \<Rightarrow> bool" where
  "is_hex_digit c \<longleftrightarrow> is_lower_hex (lower_char c)"

definition radix_literal :: "string \<Rightarrow> nat option" where
  "radix_literal s =
     (case s of
        z # x # ds \<Rightarrow>
          if z = CHR ''0'' \<and> ds \<noteq> [] then
            (if lower_char x = CHR ''x'' \<and> list_all is_hex_digit ds then Some (digits_value 16 ds)
             else if lower_char x = CHR ''o'' \<and> list_all (\<lambda>c. CHR ''0'' \<le> c \<and> c \<le> CHR ''7'') ds
               then Some (digits_value 8 ds)
             else if lower_char x = CHR ''b'' \<and> list_all (\<lambda>c. c = CHR ''0'' \<or> c = CHR ''1'') ds
               then Some (digits_value 2 ds)
             else None)
          else None
      | _ \<Rightarrow> None)"

definition split_sign :: "string \<Rightarrow> bool \<times> string" where
  \<comment> \<open>whether a minus sign leads, and the text after the sign\<close>
  "split_sign s =
     (case s of
        c # r \<Rightarrow> if c = CHR ''-'' then (True, r) else if c = CHR ''+'' then (False, r) else (False, s)
      | [] \<Rightarrow> (False, []))"

definition exponent_part :: "string \<Rightarrow> int option" where
  \<comment> \<open>what follows the digits: nothing, or \<open>e\<close>, a sign and digits\<close>
  "exponent_part s =
     (case s of
        [] \<Rightarrow> Some 0
      | c # r \<Rightarrow>
          if lower_char c = CHR ''e'' then
            (let (neg, ds) = split_sign r
             in if ds \<noteq> [] \<and> list_all is_digit ds
                then Some (if neg then - int (digits_value 10 ds) else int (digits_value 10 ds))
                else None)
          else None)"

definition scaled_integer :: "nat \<Rightarrow> int \<Rightarrow> int option" where
  \<comment> \<open>\<open>n * 10^k\<close> where that is an integer below 10^309\<close>
  "scaled_integer n k =
     (if n = 0 then Some 0
      else if 0 \<le> k then (if k \<le> 308 then Some (int n * 10 ^ nat k) else None)
      else if nat (- k) \<le> 400 \<and> 10 ^ nat (- k) dvd n then Some (int n div 10 ^ nat (- k)) else None)"

definition decimal_literal :: "string \<Rightarrow> int option" where
  "decimal_literal s =
     (let whole = takeWhile is_digit s; r = dropWhile is_digit s;
          (frac, e) =
            (case r of
               c # r' \<Rightarrow> if c = CHR ''.'' then (takeWhile is_digit r', dropWhile is_digit r') else ([], r)
             | [] \<Rightarrow> ([], []))
      in if whole = [] \<and> frac = [] then None
         else Option.bind (exponent_part e)
                (\<lambda>k. scaled_integer (digits_value 10 (whole @ frac)) (k - int (length frac))))"

definition js_Number_integer :: "string \<Rightarrow> int option" where
  "js_Number_integer text =
     (let s = js_trim text
      in if s = [] then Some 0
         else case radix_literal s of
                Some n \<Rightarrow> Some (int n)
              | None \<Rightarrow>
                  (let (neg, r) = split_sign s
                   in map_option (\<lambda>v. if neg then - v else v) (decimal_literal r)))"

text \<open>What the service's settings look like.\<close>

lemma js_Number_integer_samples:
  "js_Number_integer '' 100 '' = Some 100" "js_Number_integer ''2.5'' = None" "js_Number_integer ''1e2'' = Some 100"
  "js_Number_integer ''0x1F'' = Some 31" "js_Number_integer ''-7'' = Some (-7)" "js_Number_integer ''12a'' = None"
  "js_Number_integer ''250e-1'' = Some 25" "js_Number_integer ''.'' = None"
  by code_simp+

end
