(* ===== verification/Schema.thy ===== *)
theory Schema
  imports Js_Prelude
begin

text \<open>
  The database (\<open>prisma/schema.prisma\<close>) and the shape of the code that uses it. A table is the
  list of its rows, an enum a datatype, a nullable column an \<open>option\<close>. The bookkeeping columns
  \<open>updated_at\<close>, which no decision reads, are left out. The store also holds what the database
  server adds to a statement: the ids that \<open>uuidv7()\<close> defaults draw, and the server's clock for
  \<open>now()\<close>.

  An operation that awaits the database is a function of type \<open>'a io\<close>: it returns a value or the
  error it throws, and the store it leaves. \<open>transaction\<close> puts the store back when its body throws.
\<close>

section \<open>Enums\<close>

datatype email_direction = INBOUND | OUTBOUND

datatype message_state = RECEIVED | PENDING | ACCEPTED | FAILED | INDETERMINATE

datatype message_kind = CONVERSATION | DIRECT

datatype delivery_state =
    UNKNOWN | DELIVERED | DELIVERY_DELAYED | BOUNCED | COMPLAINED | SUPPRESSED | DELIVERY_FAILED

datatype api_version = V1 | V2

datatype address_role = FROM | REPLY_TO

datatype conversation_state = AWAITING_US | AWAITING_PARTICIPANT | CONCLUDED | TERMINATED

datatype event_kind =
    CREATED | MESSAGE_RECEIVED | MESSAGE_OUTBOUND_INTENDED | STATE_CHANGED | ASSIGNED
  | MESSAGE_DELIVERY_UPDATED | MERGED | DELETED

datatype event_sink = NATS

datatype event_actor = ParticipantActor | ServiceActor | OperatorActor | SystemActor

datatype attachment_state = ATT_PENDING | STORED | ATT_FAILED

datatype attachment_source = ATT_INBOUND | UPLOAD

datatype attachment_disposition = ATTACHMENT | INLINE

section \<open>Rows\<close>

record conversation =
  cv_id :: uuid
  cv_routingToken :: uuid
  cv_apiVersion :: "api_version option"
  cv_topicType :: "string option"
  cv_externalTopicId :: "string option"
  cv_title :: string
  cv_subject :: string
  cv_participantAddress :: string
  cv_participantName :: "string option"
  cv_replyToBaseAddress :: "string option"
  cv_replyToRequiresAllowlist :: bool
  cv_state :: conversation_state
  cv_stateChangedAt :: instant
  cv_lastMessageAt :: instant
  cv_createdAt :: instant
  cv_eventSequence :: nat

record routing_alias =
  ra_id :: uuid
  ra_conversationId :: uuid
  ra_routingToken :: uuid
  ra_baseAddress :: string

record allowlist_entry =
  al_address :: string
  al_role :: address_role

record message =
  ms_id :: uuid
  ms_kind :: message_kind
  ms_conversationId :: "uuid option"
  ms_parentMessageId :: "uuid option"
  ms_direction :: email_direction
  ms_state :: message_state
  ms_stateDetail :: "string option"
  ms_deliveryState :: "delivery_state option"
  ms_deliveryStateDetail :: "string option"
  ms_deliveryStateUpdatedAt :: "instant option"
  ms_deliveredAt :: "instant option"
  ms_resendEmailId :: "string option"
  ms_internetMessageId :: "string option"
  ms_inReplyToInternetMessageId :: "string option"
  ms_referenceInternetMessageIds :: "string list"
  ms_fromAddress :: string
  ms_fromName :: "string option"
  ms_toAddress :: string
  ms_toName :: "string option"
  ms_toRecipients :: "json option"
  ms_replyToAddress :: "string option"
  ms_replyToName :: "string option"
  ms_subject :: string
  ms_textBody :: "string option"
  ms_htmlBody :: "string option"
  ms_tags :: "json option"
  ms_emailCreatedAt :: instant
  ms_idempotencyKey :: "string option"
  ms_requestHash :: "string option"
  ms_createdAt :: instant

record outbox_batch =
  ob_id :: uuid
  ob_nextAttemptAt :: instant
  ob_firstAttemptAt :: "instant option"
  ob_attemptCount :: nat
  ob_leaseToken :: "uuid option"
  ob_leaseUntil :: "instant option"
  ob_lastErrorCode :: "string option"

record outbox_entry =
  oe_messageId :: uuid
  oe_batchId :: "uuid option"
  oe_batchPosition :: "nat option"
  oe_queuedAt :: instant

record attachment =
  at_id :: uuid
  at_messageId :: "uuid option"
  at_source :: attachment_source
  at_state :: attachment_state
  at_stateDetail :: "string option"
  at_filename :: string
  at_contentType :: string
  at_contentDisposition :: attachment_disposition
  at_contentId :: "string option"
  at_sizeBytes :: nat
  at_checksumSha256 :: "string option"
  at_storageKey :: string
  at_resendEmailId :: "string option"
  at_resendAttachmentId :: "string option"
  at_attemptCount :: nat
  at_nextAttemptAt :: instant
  at_leaseToken :: "uuid option"
  at_leaseUntil :: "instant option"
  at_lastErrorCode :: "string option"
  at_createdAt :: instant

record attachment_outbox_entry =
  ao_messageId :: uuid
  ao_queuedAt :: instant
  ao_firstAttemptAt :: "instant option"
  ao_attemptCount :: nat
  ao_nextAttemptAt :: instant
  ao_leaseToken :: "uuid option"
  ao_leaseUntil :: "instant option"
  ao_lastErrorCode :: "string option"

record tombstone =
  tb_id :: uuid
  tb_storageKey :: string
  tb_attemptCount :: nat
  tb_nextAttemptAt :: instant
  tb_leaseToken :: "uuid option"
  tb_leaseUntil :: "instant option"
  tb_lastErrorCode :: "string option"

text \<open>\<open>ConversationEventPayload\<close> of \<open>src/lib/conversation-events.ts\<close>.\<close>

record event_payload =
  ep_schemaVersion :: nat
  ep_id :: uuid
  ep_type :: string
  ep_occurredAt :: instant
  ep_conversationId :: uuid
  ep_sequence :: nat
  ep_topic :: "(string \<times> string) option"
  ep_messageId :: "uuid option"
  ep_actor :: event_actor
  ep_cause :: string
  ep_state :: "(string option \<times> string) option"
  ep_deliveryState :: "string option"
  ep_mergedIntoConversationId :: "uuid option"
  ep_attachmentCount :: "nat option"

record conversation_event =
  ev_id :: uuid
  ev_conversationId :: uuid
  ev_sequence :: nat
  ev_type :: event_kind
  ev_occurredAt :: instant
  ev_payload :: "event_payload option"
  ev_createdAt :: instant

record event_delivery =
  dl_eventId :: uuid
  dl_sink :: event_sink
  dl_attemptCount :: nat
  dl_nextAttemptAt :: instant
  dl_leaseToken :: "uuid option"
  dl_leaseUntil :: "instant option"
  dl_publishedAt :: "instant option"
  dl_lastErrorCode :: "string option"
  dl_createdAt :: instant

record email_webhook_row =
  we_id :: uuid
  we_svixId :: string
  we_eventType :: string
  we_webhookReceivedAt :: instant
  we_eventCreatedAt :: instant
  we_emailId :: string
  we_deliveryDetail :: "string option"

record store =
  conversations :: "conversation list"
  aliases :: "routing_alias list"
  allowlist :: "allowlist_entry list"
  messages :: "message list"
  outbox_batches :: "outbox_batch list"
  outbox_entries :: "outbox_entry list"
  attachments :: "attachment list"
  attachment_outbox :: "attachment_outbox_entry list"
  tombstones :: "tombstone list"
  events :: "conversation_event list"
  deliveries :: "event_delivery list"
  webhook_rows :: "email_webhook_row list"
  id_source :: "nat \<Rightarrow> uuid"
  id_count :: nat
  db_now :: instant

definition draw_id :: "store \<Rightarrow> uuid \<times> store" where
  \<comment> \<open>the default \<open>uuidv7()\<close> of an id column\<close>
  "draw_id s = (id_source s (id_count s), s\<lparr>id_count := Suc (id_count s)\<rparr>)"

text \<open>No id still to be drawn is in use: what makes the generated ids unique.\<close>

definition ids_fresh :: "store \<Rightarrow> uuid set \<Rightarrow> bool" where
  "ids_fresh s used \<longleftrightarrow> inj (id_source s) \<and> (\<forall>n \<ge> id_count s. id_source s n \<notin> used)"

lemma draw_id_fresh: "ids_fresh s used \<Longrightarrow> fst (draw_id s) \<notin> used"
  by (simp add: ids_fresh_def draw_id_def)

lemma ids_fresh_draw: "ids_fresh s used \<Longrightarrow> ids_fresh (snd (draw_id s)) (insert (fst (draw_id s)) used)"
  by (auto simp: ids_fresh_def draw_id_def dest: injD)

text \<open>Rows with their required columns, an empty database and small ones made of them, to try the
  operations on.\<close>

definition plain_message :: "uuid \<Rightarrow> message_state \<Rightarrow> message" where
  "plain_message i st =
     \<lparr>ms_id = i, ms_kind = CONVERSATION, ms_conversationId = Some ''c1'', ms_parentMessageId = None,
      ms_direction = OUTBOUND, ms_state = st, ms_stateDetail = None, ms_deliveryState = None,
      ms_deliveryStateDetail = None, ms_deliveryStateUpdatedAt = None, ms_deliveredAt = None,
      ms_resendEmailId = None, ms_internetMessageId = None, ms_inReplyToInternetMessageId = None,
      ms_referenceInternetMessageIds = [], ms_fromAddress = ''us@x.io'', ms_fromName = None,
      ms_toAddress = ''p@y.io'', ms_toName = None, ms_toRecipients = None, ms_replyToAddress = None,
      ms_replyToName = None, ms_subject = ''s'', ms_textBody = Some ''t'', ms_htmlBody = None, ms_tags = None,
      ms_emailCreatedAt = 0, ms_idempotencyKey = Some (''key-'' @ i), ms_requestHash = None, ms_createdAt = 0\<rparr>"

definition plain_conversation :: "uuid \<Rightarrow> conversation_state \<Rightarrow> conversation" where
  "plain_conversation i st =
     \<lparr>cv_id = i, cv_routingToken = ''r'', cv_apiVersion = Some V2, cv_topicType = Some ''order'',
      cv_externalTopicId = Some ''7'', cv_title = ''t'', cv_subject = ''s'', cv_participantAddress = ''p@y.io'',
      cv_participantName = None, cv_replyToBaseAddress = None, cv_replyToRequiresAllowlist = False,
      cv_state = st, cv_stateChangedAt = 0, cv_lastMessageAt = 0, cv_createdAt = 0, cv_eventSequence = 0\<rparr>"

definition empty_store :: store where
  "empty_store =
     \<lparr>conversations = [], aliases = [], allowlist = [], messages = [], outbox_batches = [], outbox_entries = [],
      attachments = [], attachment_outbox = [], tombstones = [], events = [], deliveries = [], webhook_rows = [],
      id_source = (\<lambda>n. ''id'' @ replicate n (CHR ''x'')), id_count = 0, db_now = 0\<rparr>"

lemma empty_store_ids: "inj (id_source empty_store)" "id_source empty_store n = ''id'' @ replicate n (CHR ''x'')"
  by (auto simp: empty_store_def inj_def)

section \<open>Errors and effects\<close>

text \<open>What the code throws and tells apart: a provider error with its status and code, an error of
  the database client with its code, the errors of its own classes, and any other error.\<close>

datatype js_error =
    ResendApiError int "string option"
  | PrismaError string
  | AttachmentClaimError string
  | IdentityNotAllowedError
  | JsError string string \<comment> \<open>\<open>name\<close> and \<open>message\<close>\<close>
  | NotAnError \<comment> \<open>a thrown value that is not an \<open>Error\<close>\<close>

type_synonym 'a io = "store \<Rightarrow> (js_error + 'a) \<times> store"

definition io_return :: "'a \<Rightarrow> 'a io" where
  "io_return a s = (Inr a, s)"

definition io_throw :: "js_error \<Rightarrow> 'a io" where
  "io_throw e s = (Inl e, s)"

definition io_bind :: "'a io \<Rightarrow> ('a \<Rightarrow> 'b io) \<Rightarrow> 'b io" where
  "io_bind m f s = (case m s of (Inl e, s') \<Rightarrow> (Inl e, s') | (Inr a, s') \<Rightarrow> f a s')"

definition io_catch :: "'a io \<Rightarrow> (js_error \<Rightarrow> 'a io) \<Rightarrow> 'a io" where
  "io_catch m h s = (case m s of (Inl e, s') \<Rightarrow> h e s' | (Inr a, s') \<Rightarrow> (Inr a, s'))"

definition io_modify :: "(store \<Rightarrow> store) \<Rightarrow> unit io" where
  "io_modify f s = (Inr (), f s)"

definition io_when :: "bool \<Rightarrow> unit io \<Rightarrow> unit io" where
  "io_when b m = (if b then m else io_return ())"

fun io_each :: "('a \<Rightarrow> unit io) \<Rightarrow> 'a list \<Rightarrow> unit io" where
  \<comment> \<open>\<open>for (const x of xs) await f(x)\<close>\<close>
  "io_each f [] = io_return ()"
| "io_each f (x # xs) = io_bind (f x) (\<lambda>_. io_each f xs)"

definition transaction :: "'a io \<Rightarrow> 'a io" where
  "transaction m s = (case m s of (Inl e, _) \<Rightarrow> (Inl e, s) | (Inr a, s') \<Rightarrow> (Inr a, s'))"

named_theorems io_simps \<open>evaluation of effectful code\<close>

lemma io_eval [io_simps, simp]:
  "io_return a s = (Inr a, s)"
  "io_throw e s = (Inl e, s)"
  "io_modify f s = (Inr (), f s)"
  by (simp_all add: io_return_def io_throw_def io_modify_def)

lemma io_bind_Inr [simp]: "m s = (Inr a, s') \<Longrightarrow> io_bind m f s = f a s'"
  by (simp add: io_bind_def)

lemma io_bind_Inl [simp]: "m s = (Inl e, s') \<Longrightarrow> io_bind m f s = (Inl e, s')"
  by (simp add: io_bind_def)

lemma transaction_Inl: "fst (transaction m s) = Inl e \<Longrightarrow> snd (transaction m s) = s"
  by (auto simp: transaction_def split: sum.splits prod.splits)

lemma transaction_InrD: "transaction m s = (Inr a, t) \<Longrightarrow> m s = (Inr a, t)"
  by (auto simp: transaction_def split: prod.splits sum.splits)

lemma transaction_InlD: "transaction m s = (Inl e, t) \<Longrightarrow> t = s"
  by (auto simp: transaction_def split: prod.splits sum.splits)

lemma transaction_cases:
  obtains (commit) a s' where "m s = (Inr a, s')" "transaction m s = (Inr a, s')"
  | (rollback) e s' where "m s = (Inl e, s')" "transaction m s = (Inl e, s)"
  by (cases "m s"; cases "fst (m s)") (auto simp: transaction_def)

lemma io_bind_InrE:
  assumes "io_bind m f s = (Inr b, t)"
  obtains a s' where "m s = (Inr a, s')" "f a s' = (Inr b, t)"
  using assms by (cases "m s"; cases "fst (m s)") (auto simp: io_bind_def)

text \<open>An invariant of an effectful operation: kept whether it returns or throws.\<close>

definition io_keeps :: "(store \<Rightarrow> bool) \<Rightarrow> 'a io \<Rightarrow> bool" where
  "io_keeps I m \<longleftrightarrow> (\<forall>s. I s \<longrightarrow> I (snd (m s)))"

named_theorems keeps_intros \<open>composition rules for \<^const>\<open>io_keeps\<close>\<close>

lemma io_keeps_return [keeps_intros]: "io_keeps I (io_return a)"
  by (simp add: io_keeps_def)

lemma io_keeps_throw [keeps_intros]: "io_keeps I (io_throw e)"
  by (simp add: io_keeps_def)

lemma io_keeps_bind [keeps_intros]:
  "io_keeps I m \<Longrightarrow> (\<And>a. io_keeps I (f a)) \<Longrightarrow> io_keeps I (io_bind m f)"
  by (auto simp: io_keeps_def io_bind_def split: sum.splits prod.splits)

lemma io_keeps_catch [keeps_intros]:
  "io_keeps I m \<Longrightarrow> (\<And>e. io_keeps I (h e)) \<Longrightarrow> io_keeps I (io_catch m h)"
  by (auto simp: io_keeps_def io_catch_def split: sum.splits prod.splits)

lemma io_keeps_when [keeps_intros]: "io_keeps I m \<Longrightarrow> io_keeps I (io_when b m)"
  by (simp add: io_when_def io_keeps_return)

lemma io_keeps_each [keeps_intros]: "(\<And>x. x \<in> set xs \<Longrightarrow> io_keeps I (f x)) \<Longrightarrow> io_keeps I (io_each f xs)"
  by (induction xs) (auto intro!: keeps_intros)

lemma io_keeps_modify [keeps_intros]: "(\<And>s. I s \<Longrightarrow> I (f s)) \<Longrightarrow> io_keeps I (io_modify f)"
  by (simp add: io_keeps_def)

lemma io_keeps_transaction [keeps_intros]: "io_keeps I m \<Longrightarrow> io_keeps I (transaction m)"
  by (auto simp: io_keeps_def transaction_def split: sum.splits prod.splits)

lemma io_keepsD: "io_keeps I m \<Longrightarrow> I s \<Longrightarrow> m s = (r, t) \<Longrightarrow> I t"
  by (force simp: io_keeps_def)

end
