(* ===== verification/Threading.thy ===== *)
theory Threading
  imports Js_Prelude
begin

text \<open>
  The pure helpers of \<open>src/lib/email/threading.ts\<close>: message identifiers in RFC headers, header
  lookup, subject normalisation, the References list and display addresses. Every regular
  expression of the file is a recogniser on character lists; the comment beside it says why the
  recogniser takes the match the expression takes.
\<close>

section \<open>Message identifiers\<close>

text \<open>The class of \<open>MESSAGE_ID_PATTERN\<close> between the brackets, and an identifier it accepts.\<close>

definition id_char :: "char \<Rightarrow> bool" where
  "id_char c \<longleftrightarrow> c \<noteq> CHR ''<'' \<and> c \<noteq> CHR ''>'' \<and> \<not> js_space c"

definition is_message_id :: "string \<Rightarrow> bool" where
  "is_message_id s \<longleftrightarrow>
     3 \<le> length s \<and> hd s = CHR ''<'' \<and> last s = CHR ''>'' \<and> list_all id_char (butlast (tl s))"

text \<open>All matches, left to right. The class excludes both brackets, so at an opening bracket only
  the longest run can be followed by the closing one.\<close>

function message_id_matches :: "string \<Rightarrow> string list" where
  "message_id_matches [] = []"
| "message_id_matches (c # cs) =
     (let run = takeWhile id_char cs; rest = dropWhile id_char cs
      in if c = CHR ''<'' \<and> run \<noteq> [] \<and> rest \<noteq> [] \<and> hd rest = CHR ''>''
         then (CHR ''<'' # run @ [CHR ''>'']) # message_id_matches (tl rest)
         else message_id_matches cs)"
  by pat_completeness auto
termination
proof (relation "measure length")
  fix c :: char and cs run rest :: string
  assume "rest = dropWhile id_char cs"
  then have "length rest \<le> length cs" by (simp add: length_dropWhile_le)
  then show "(tl rest, c # cs) \<in> measure length" by simp
qed auto

definition extractMessageIds :: "string option \<Rightarrow> string list" where
  "extractMessageIds v = (case v of None \<Rightarrow> [] | Some s \<Rightarrow> message_id_matches s)"

definition getHeader :: "(string \<times> string) list option \<Rightarrow> string \<Rightarrow> string option" where
  "getHeader headers name =
     (case headers of
        None \<Rightarrow> None
      | Some hs \<Rightarrow> map_option snd (find (\<lambda>h. js_toLower (fst h) = js_toLower name) hs))"

lemma message_id_matches_skip: "c \<noteq> CHR ''<'' \<Longrightarrow> message_id_matches (c # cs) = message_id_matches cs"
  by (simp add: Let_def)

lemma message_id_matches_hit:
  assumes "x \<noteq> []" and "list_all id_char x"
  shows "message_id_matches (CHR ''<'' # x @ CHR ''>'' # r) =
    (CHR ''<'' # x @ [CHR ''>'']) # message_id_matches r"
proof -
  have "takeWhile id_char (x @ CHR ''>'' # r) = x" and "dropWhile id_char (x @ CHR ''>'' # r) = CHR ''>'' # r"
    using assms(2) by (auto simp: takeWhile_append dropWhile_append list_all_iff id_char_def)
  with assms(1) show ?thesis by (simp add: Let_def)
qed

declare message_id_matches.simps(2) [simp del]

lemma is_message_idE:
  assumes "is_message_id s"
  obtains x where "s = CHR ''<'' # x @ [CHR ''>'']" and "x \<noteq> []" and "list_all id_char x"
proof -
  from assms have len: "3 \<le> length s" by (simp add: is_message_id_def)
  then obtain c t where t: "s = c # t" "t \<noteq> []" by (cases s; cases "tl s") auto
  then obtain x d where x: "t = x @ [d]" by (cases t rule: rev_cases) auto
  have "x \<noteq> []" using t x len by auto
  then show thesis using assms t x that [of x] by (simp add: is_message_id_def)
qed

lemma is_message_idI: "x \<noteq> [] \<Longrightarrow> list_all id_char x \<Longrightarrow> is_message_id (CHR ''<'' # x @ [CHR ''>''])"
  by (cases x) (auto simp: is_message_id_def butlast_append)

lemma message_id_matches_id: "is_message_id s \<Longrightarrow> message_id_matches (s @ r) = s # message_id_matches r"
  by (erule is_message_idE) (simp add: message_id_matches_hit)

lemma message_id_matches_sound: "s \<in> set (message_id_matches v) \<Longrightarrow> is_message_id s"
proof (induction v rule: message_id_matches.induct)
  case (2 c cs)
  then show ?case
    by (auto simp: message_id_matches.simps(2) [of c cs] Let_def list_all_iff
          intro!: is_message_idI dest: set_takeWhileD split: if_splits)
qed simp

lemma message_id_matches_join:
  "list_all is_message_id ids \<Longrightarrow> message_id_matches (js_join '' '' ids) = ids"
proof (induction ids)
  case (Cons x xs)
  then show ?case
    using message_id_matches_id [of x "[]"]
    by (cases xs) (simp_all add: message_id_matches_id message_id_matches_skip)
qed simp

section \<open>Subjects\<close>

text \<open>\<open>SUBJECT_PREFIX_PATTERN\<close>, anchored at the start: white space, one of the three tags in any
  case, white space, a colon, white space. None of the parts can match what the next one needs, so
  each takes all it can. The result is the text after the match.\<close>

definition subject_tag :: "string \<Rightarrow> string \<Rightarrow> string option" where
  "subject_tag w s =
     (if js_toLower (take (length w) s) = w
      then case js_ltrim (drop (length w) s) of
             [] \<Rightarrow> None
           | c # r \<Rightarrow> if c = CHR '':'' then Some (js_ltrim r) else None
      else None)"

definition strip_subject_prefix :: "string \<Rightarrow> string option" where
  "strip_subject_prefix s =
     (let t = js_ltrim s
      in js_coalesce (subject_tag ''re'' t) (js_coalesce (subject_tag ''fw'' t) (subject_tag ''fwd'' t)))"

lemma length_js_ltrim: "length (js_ltrim s) \<le> length s"
  by (simp add: js_ltrim_def length_dropWhile_le)

lemma subject_tag_shorter: "subject_tag w s = Some r \<Longrightarrow> length r < length s"
proof -
  assume h: "subject_tag w s = Some r"
  then obtain q where q: "js_ltrim (drop (length w) s) = CHR '':'' # q" and r: "r = js_ltrim q"
    by (auto simp: subject_tag_def split: if_splits list.splits)
  have "length r \<le> length q" using r by (simp add: length_js_ltrim)
  also have "length q < length (js_ltrim (drop (length w) s))" using q by simp
  also have "\<dots> \<le> length s" by (rule le_trans [OF length_js_ltrim]) simp
  finally show ?thesis .
qed

lemma strip_subject_prefix_shorter: "strip_subject_prefix s = Some r \<Longrightarrow> length r < length s"
  using length_js_ltrim [of s]
  by (auto simp: strip_subject_prefix_def Let_def js_coalesce_def split: option.splits
        dest: subject_tag_shorter)

function strip_subject_prefixes :: "string \<Rightarrow> string" where
  "strip_subject_prefixes s =
     (case strip_subject_prefix s of None \<Rightarrow> s | Some r \<Rightarrow> strip_subject_prefixes r)"
  by pat_completeness auto
termination
  by (relation "measure length") (auto simp: strip_subject_prefix_shorter)

declare strip_subject_prefixes.simps [simp del]

definition normalizeSubject :: "string \<Rightarrow> string" where
  "normalizeSubject subject = js_or (strip_subject_prefixes (js_trim subject)) (js_trim subject)"

definition createReplySubject :: "string \<Rightarrow> string" where
  "createReplySubject subject = ''Re: '' @ normalizeSubject subject"

lemma strip_subject_prefixes_done: "strip_subject_prefix (strip_subject_prefixes s) = None"
proof (induction s rule: strip_subject_prefixes.induct)
  case (1 s)
  then show ?case by (subst strip_subject_prefixes.simps) (auto split: option.splits)
qed

lemma strip_subject_prefixes_none: "strip_subject_prefix s = None \<Longrightarrow> strip_subject_prefixes s = s"
  by (simp add: strip_subject_prefixes.simps)

lemma suffix_js_ltrim: "suffix (js_ltrim s) s"
  by (simp add: js_ltrim_def suffix_dropWhile)

lemma subject_tag_suffix: "subject_tag w s = Some r \<Longrightarrow> suffix r s"
proof -
  assume h: "subject_tag w s = Some r"
  then obtain q where q: "js_ltrim (drop (length w) s) = CHR '':'' # q" and r: "r = js_ltrim q"
    by (auto simp: subject_tag_def split: if_splits list.splits)
  have "suffix q (js_ltrim (drop (length w) s))" using q by (simp add: suffix_ConsI)
  then have "suffix q s"
    by (meson suffix_js_ltrim suffix_drop suffix_order.trans)
  then show ?thesis using r suffix_js_ltrim suffix_order.trans by blast
qed

lemma strip_subject_prefix_suffix: "strip_subject_prefix s = Some r \<Longrightarrow> suffix r s"
  using suffix_js_ltrim [of s]
  by (auto simp: strip_subject_prefix_def Let_def js_coalesce_def split: option.splits
        dest!: subject_tag_suffix intro: suffix_order.trans)

lemma strip_subject_prefixes_suffix: "suffix (strip_subject_prefixes s) s"
proof (induction s rule: strip_subject_prefixes.induct)
  case (1 s)
  then show ?case
    by (subst strip_subject_prefixes.simps)
       (auto split: option.splits dest: strip_subject_prefix_suffix intro: suffix_order.trans)
qed

lemma strip_subject_prefix_no_space:
  "strip_subject_prefix s = Some r \<Longrightarrow> r = [] \<or> \<not> js_space (hd r)"
  using js_ltrim_hd
  by (fastforce simp: strip_subject_prefix_def Let_def js_coalesce_def subject_tag_def
        split: option.splits if_splits list.splits)

lemma strip_subject_prefixes_trimmed: "trimmed s \<Longrightarrow> trimmed (strip_subject_prefixes s)"
proof (induction s rule: strip_subject_prefixes.induct)
  case (1 s)
  show ?case
  proof (cases "strip_subject_prefix s")
    case None
    with "1.prems" show ?thesis by (simp add: strip_subject_prefixes.simps)
  next
    case (Some r)
    have "trimmed r"
      using strip_subject_prefix_suffix [OF Some] strip_subject_prefix_no_space [OF Some] "1.prems"
      by (auto simp: trimmed_def suffix_def last_append)
    with "1.IH" Some show ?thesis by (simp add: strip_subject_prefixes.simps [of s])
  qed
qed

lemma trimmed_normalizeSubject: "trimmed (normalizeSubject s)"
  by (simp add: normalizeSubject_def js_or_def strip_subject_prefixes_trimmed)

text \<open>A subject is clean when it is not made of prefixes alone: then normalising leaves no prefix.\<close>

lemma normalizeSubject_idem: "normalizeSubject (normalizeSubject s) = normalizeSubject s"
proof (cases "strip_subject_prefixes (js_trim s) = []")
  case True
  then show ?thesis by (simp add: normalizeSubject_def js_or_def)
next
  case False
  let ?n = "strip_subject_prefixes (js_trim s)"
  have "js_trim ?n = ?n" by (simp add: strip_subject_prefixes_trimmed)
  moreover have "strip_subject_prefixes ?n = ?n"
    by (simp add: strip_subject_prefixes_none strip_subject_prefixes_done)
  ultimately show ?thesis using False by (simp add: normalizeSubject_def js_or_def)
qed

lemma lower_char_R_e: "lower_char (CHR ''R'') = CHR ''r''" "lower_char (CHR ''e'') = CHR ''e''"
  by (rule of_char_eqI, simp add: of_char_lower_char)+

lemma strip_subject_prefix_re: "strip_subject_prefix (''Re: '' @ s) = Some (js_ltrim s)"
  by (simp add: strip_subject_prefix_def subject_tag_def js_toLower_def js_ltrim_def lower_char_R_e
        js_space_def Let_def)

lemma normalizeSubject_reply:
  assumes "strip_subject_prefixes (js_trim s) \<noteq> []"
  shows "normalizeSubject (createReplySubject s) = normalizeSubject s"
proof -
  let ?n = "strip_subject_prefixes (js_trim s)"
  have n: "normalizeSubject s = ?n" using assms by (simp add: normalizeSubject_def js_or_def)
  have t: "trimmed ?n" by (simp add: strip_subject_prefixes_trimmed)
  then have ends: "\<not> js_space (hd ?n)" "\<not> js_space (last ?n)" using assms by (simp_all add: trimmed_def)
  have "trimmed (''Re: '' @ ?n)" using assms ends by (simp add: trimmed_def js_space_def)
  then have "js_trim (''Re: '' @ ?n) = ''Re: '' @ ?n" by (rule js_trim_trimmed)
  moreover have "strip_subject_prefixes (''Re: '' @ ?n) = ?n"
    using ends by (subst strip_subject_prefixes.simps)
      (simp only: strip_subject_prefix_re option.simps js_ltrim_fixed disj_absorb
        strip_subject_prefixes_none strip_subject_prefixes_done simp_thms)
  ultimately show ?thesis
    using assms n by (simp only: createReplySubject_def) (simp add: normalizeSubject_def js_or_def)
qed

section \<open>References and display addresses\<close>

definition buildReferences :: "string list \<Rightarrow> string \<Rightarrow> string list" where
  "buildReferences references parentInternetMessageId = js_set (references @ [parentInternetMessageId])"

record parsed_address =
  pa_address :: string
  pa_name :: "string option"

text \<open>\<open>/^"|"$/g\<close> replaced by nothing: one leading and one trailing quote.\<close>

definition strip_quotes :: "string \<Rightarrow> string" where
  "strip_quotes s =
     (let t = (if s \<noteq> [] \<and> hd s = CHR 0x22 then tl s else s)
      in if t \<noteq> [] \<and> last t = CHR 0x22 then butlast t else t)"

text \<open>\<open>/^(.*?)\s*<([^<>]+)>$/\<close>. The last group excludes both brackets and ends the string, so its
  opening bracket is the last one of the string; the lazy first group then stops where only white
  space is left before that bracket. A dot matches no line terminator.\<close>

definition match_display_address :: "string \<Rightarrow> (string \<times> string) option" where
  "match_display_address v =
     (if v = [] \<or> last v \<noteq> CHR ''>'' then None
      else case lastIndexOf (CHR ''<'') v of
             None \<Rightarrow> None
           | Some i \<Rightarrow>
               (let inner = drop (Suc i) (butlast v); display = js_rtrim (take i v)
                in if inner \<noteq> [] \<and> CHR ''>'' \<notin> set inner
                      \<and> CHR 0x0A \<notin> set display \<and> CHR 0x0D \<notin> set display
                   then Some (display, inner) else None))"

definition parseAddress :: "string \<Rightarrow> parsed_address" where
  "parseAddress value =
     (case match_display_address (js_trim value) of
        None \<Rightarrow> \<lparr>pa_address = js_trim value, pa_name = None\<rparr>
      | Some (display, inner) \<Rightarrow>
          (let name = strip_quotes (js_trim display)
           in \<lparr>pa_address = js_trim inner, pa_name = (if name = [] then None else Some name)\<rparr>))"

lemma set_buildReferences: "set (buildReferences rs p) = insert p (set rs)"
  by (simp add: buildReferences_def)

lemma match_display_address_bare: "CHR ''<'' \<notin> set v \<Longrightarrow> match_display_address v = None"
  by (simp add: match_display_address_def lastIndexOf_None [THEN iffD2])

lemma match_display_address_hit:
  assumes "a \<noteq> []" and "CHR ''<'' \<notin> set a" and "CHR ''>'' \<notin> set a"
    and "CHR 0x0A \<notin> set d" and "CHR 0x0D \<notin> set d" and "d = [] \<or> \<not> js_space (last d)"
  shows "match_display_address (d @ '' <'' @ a @ ''>'') = Some (d, a)"
proof -
  let ?v = "d @ '' <'' @ a @ ''>''"
  have "?v = (d @ '' '') @ CHR ''<'' # (a @ ''>'')" by simp
  then have i: "lastIndexOf (CHR ''<'') ?v = Some (Suc (length d))"
    using assms(2) lastIndexOf_append [of "CHR ''<''" "a @ ''>''" "d @ '' ''"] by simp
  have "js_rtrim (d @ '' '') = d"
  proof (cases "d = []")
    case True
    then show ?thesis by (simp add: js_rtrim_def js_space_def)
  next
    case False
    then have "js_rtrim d = d" using assms(6) by (simp add: js_rtrim_fixed)
    then show ?thesis by (simp add: js_rtrim_snoc js_space_def)
  qed
  then show ?thesis
    using assms i by (simp add: match_display_address_def butlast_append)
qed

lemma parseAddress_bare:
  "trimmed v \<Longrightarrow> CHR ''<'' \<notin> set v \<Longrightarrow> parseAddress v = \<lparr>pa_address = v, pa_name = None\<rparr>"
  by (simp add: parseAddress_def match_display_address_bare)

section \<open>Properties\<close>

text \<open>The References header is read back as it was built. The identifiers the service lists for a
  reply, joined with spaces as the send does, are the identifiers a receiver extracts, in order and
  without duplicates, and the parent is among them.\<close>

theorem references_header_roundtrip:
  assumes "list_all is_message_id references" and "is_message_id parent"
  shows "extractMessageIds (Some (js_join '' '' (buildReferences references parent))) = buildReferences references parent
    \<and> distinct (buildReferences references parent) \<and> parent \<in> set (buildReferences references parent)"
proof -
  have "list_all is_message_id (buildReferences references parent)"
    using assms by (simp add: list_all_iff set_buildReferences)
  then show ?thesis
    by (simp add: extractMessageIds_def message_id_matches_join set_buildReferences) (simp add: buildReferences_def)
qed

theorem references_header_roundtrip_witness:
  "extractMessageIds (Some (js_join '' '' (buildReferences [''<a@x>'', ''<b@x>''] ''<a@x>''))) =
     buildReferences [''<a@x>'', ''<b@x>''] ''<a@x>''
   \<and> distinct (buildReferences [''<a@x>'', ''<b@x>''] ''<a@x>'')
   \<and> ''<a@x>'' \<in> set (buildReferences [''<a@x>'', ''<b@x>''] ''<a@x>'')"
  by (rule references_header_roundtrip) (simp_all add: is_message_id_def id_char_def js_space_def)

text \<open>Normalising a subject is idempotent, leaves no white space at the ends and leaves no reply or
  forward prefix unless the subject consists of prefixes only.\<close>

theorem normalizeSubject_normal_form:
  "normalizeSubject (normalizeSubject subject) = normalizeSubject subject
   \<and> js_trim (normalizeSubject subject) = normalizeSubject subject
   \<and> (strip_subject_prefix (normalizeSubject subject) = None
      \<or> (strip_subject_prefixes (js_trim subject) = [] \<and> normalizeSubject subject = js_trim subject))"
proof (intro conjI)
  show "normalizeSubject (normalizeSubject subject) = normalizeSubject subject" by (rule normalizeSubject_idem)
  show "js_trim (normalizeSubject subject) = normalizeSubject subject"
    by (rule js_trim_trimmed) (rule trimmed_normalizeSubject)
qed (simp add: normalizeSubject_def js_or_def strip_subject_prefixes_done)

text \<open>The subject of a conversation does not grow with its replies: replying to a reply gives the
  same subject as replying to the original, when the original is more than prefixes.\<close>

theorem createReplySubject_stable:
  assumes "strip_subject_prefixes (js_trim subject) \<noteq> []"
  shows "createReplySubject (createReplySubject subject) = createReplySubject subject"
  using normalizeSubject_reply [OF assms] by (simp add: createReplySubject_def)

theorem createReplySubject_stable_witness:
  "createReplySubject (createReplySubject ''Fwd: order 7'') = createReplySubject ''Fwd: order 7''"
proof (rule createReplySubject_stable)
  show "strip_subject_prefixes (js_trim ''Fwd: order 7'') \<noteq> []" by code_simp
qed

end
