(* ===== verification/Routing.thy ===== *)
theory Routing
  imports Js_Prelude
begin

text \<open>
  \<open>src/lib/email/routing.ts\<close>: the Reply-To base address of a conversation, the tagged address
  \<open>local+c_token@domain\<close> generated from it, and the two readers that find tokens in the
  recipients of an inbound message. A thrown \<open>Error\<close> is \<open>Inl\<close> of its message.
\<close>

section \<open>Base mailboxes\<close>

definition ROUTING_TAG_PREFIX :: string where
  "ROUTING_TAG_PREFIX = ''c_''"

definition ROUTING_TOKEN_LENGTH :: nat where
  "ROUTING_TOKEN_LENGTH = 32"

definition TOKEN_PATTERN :: "string \<Rightarrow> bool" where
  "TOKEN_PATTERN s \<longleftrightarrow> length s = 32 \<and> list_all is_lower_hex s"

record mailbox_parts =
  mb_local :: string
  mb_domain :: string

record routing_candidate =
  rc_routingToken :: string
  rc_baseAddress :: string

text \<open>The two character classes of the expressions on the local part and on a domain label.\<close>

definition local_char :: "char \<Rightarrow> bool" where
  "local_char c \<longleftrightarrow> is_lower_alpha c \<or> is_digit c \<or> c \<in> set ''.!#$%&*/=?^_{|}~-'' \<or> c = CHR 0x27 \<or> c = CHR 0x60"

definition alnum_char :: "char \<Rightarrow> bool" where
  "alnum_char c \<longleftrightarrow> is_lower_alpha c \<or> is_digit c"

definition valid_label :: "string \<Rightarrow> bool" where
  "valid_label l \<longleftrightarrow>
     l \<noteq> [] \<and> length l \<le> 63 \<and> alnum_char (hd l) \<and> alnum_char (last l)
     \<and> list_all (\<lambda>c. alnum_char c \<or> c = CHR ''-'') l"

definition parseBaseMailbox :: "string \<Rightarrow> mailbox_parts option" where
  "parseBaseMailbox address =
     (let normalized = js_toLower (js_trim address)
      in case lastIndexOf (CHR ''@'') normalized of
           None \<Rightarrow> None
         | Some at \<Rightarrow>
             if at = 0 \<or> at = length normalized - 1
                \<or> CHR ''<'' \<in> set normalized \<or> CHR ''>'' \<in> set normalized
                \<or> CHR ''+'' \<in> set (take at normalized)
             then None
             else
               (let l = take at normalized;
                    d = drop (Suc at) normalized;
                    generatedLocalLength = length l + 1 + length ROUTING_TAG_PREFIX + ROUTING_TOKEN_LENGTH;
                    domainLabels = js_split (CHR ''.'') d
                in if \<not> (l \<noteq> [] \<and> list_all local_char l)
                      \<or> prefix ''.'' l \<or> suffix ''.'' l \<or> sublist ''..'' l
                      \<or> 64 < generatedLocalLength \<or> 253 < length d
                      \<or> length domainLabels < 2 \<or> \<not> list_all valid_label domainLabels
                      \<or> 254 < generatedLocalLength + length d + 1
                   then None
                   else Some \<lparr>mb_local = l, mb_domain = d\<rparr>))"

definition isValidReplyToBaseAddress :: "string \<Rightarrow> bool" where
  "isValidReplyToBaseAddress address \<longleftrightarrow> parseBaseMailbox address \<noteq> None"

definition invalid_reply_to :: string where
  "invalid_reply_to = ''Invalid conversation Reply-To configuration''"

definition buildConversationReplyTo :: "string \<Rightarrow> string \<Rightarrow> string + string" where
  "buildConversationReplyTo baseAddress routingToken =
     (let token = js_toLower (js_remove (CHR ''-'') routingToken)
      in case parseBaseMailbox baseAddress of
           None \<Rightarrow> Inl invalid_reply_to
         | Some base \<Rightarrow>
             if \<not> TOKEN_PATTERN token then Inl invalid_reply_to
             else Inr (mb_local base @ ''+'' @ ROUTING_TAG_PREFIX @ token @ ''@'' @ mb_domain base))"

text \<open>The dashed form both readers give a token: \<open>slice\<close> at 8, 12, 16 and 20.\<close>

definition dash_token :: "string \<Rightarrow> string" where
  "dash_token t =
     take 8 t @ ''-'' @ take 4 (drop 8 t) @ ''-'' @ take 4 (drop 12 t) @ ''-''
     @ take 4 (drop 16 t) @ ''-'' @ drop 20 t"

definition routing_token_of :: "mailbox_parts \<Rightarrow> string \<Rightarrow> string option" where
  \<comment> \<open>the loop body of \<open>extractRoutingTokens\<close>\<close>
  "routing_token_of base rawAddress =
     (let address = js_toLower (js_trim rawAddress);
          pre = mb_local base @ ''+'' @ ROUTING_TAG_PREFIX
      in case lastIndexOf (CHR ''@'') address of
           None \<Rightarrow> None
         | Some at \<Rightarrow>
             if at = 0 \<or> drop (Suc at) address \<noteq> mb_domain base then None
             else if \<not> prefix pre (take at address) then None
             else (let token = drop (length pre) (take at address)
                   in if TOKEN_PATTERN token then Some (dash_token token) else None))"

definition extractRoutingTokens :: "string list \<Rightarrow> string \<Rightarrow> string + string list" where
  "extractRoutingTokens addresses baseAddress =
     (case parseBaseMailbox baseAddress of
        None \<Rightarrow> Inl invalid_reply_to
      | Some base \<Rightarrow> Inr (js_set (List.map_filter (routing_token_of base) addresses)))"

definition routing_candidate_of :: "string \<Rightarrow> routing_candidate option" where
  \<comment> \<open>the loop body of \<open>extractRoutingCandidates\<close>\<close>
  "routing_candidate_of rawAddress =
     (let address = js_toLower (js_trim rawAddress)
      in case lastIndexOf (CHR ''@'') address of
           None \<Rightarrow> None
         | Some at \<Rightarrow>
             (case lastIndexOfStr (''+'' @ ROUTING_TAG_PREFIX) address at of
                None \<Rightarrow> None
              | Some marker \<Rightarrow>
                  if at = 0 \<or> marker = 0 then None
                  else
                    (let start = marker + length ROUTING_TAG_PREFIX + 1;
                         token = take (at - start) (drop start address);
                         baseAddress = take marker address @ ''@'' @ drop (Suc at) address
                     in if \<not> TOKEN_PATTERN token \<or> parseBaseMailbox baseAddress = None then None
                        else Some \<lparr>rc_routingToken = dash_token token, rc_baseAddress = baseAddress\<rparr>)))"

text \<open>The source keeps the candidates in a map under \<open>token:base\<close>. The token has a fixed length,
  so the key determines the pair and the map is the list without duplicates.\<close>

definition extractRoutingCandidates :: "string list \<Rightarrow> routing_candidate list" where
  "extractRoutingCandidates addresses = js_set (List.map_filter routing_candidate_of addresses)"

text \<open>The canonical text of a UUID, as the database prints it.\<close>

definition canonical_uuid :: "string \<Rightarrow> bool" where
  "canonical_uuid u \<longleftrightarrow>
     length u = 36 \<and> list_all2 (\<lambda>i c. if i \<in> {8, 13, 18, 23} then c = CHR ''-'' else is_lower_hex c) [0..<36] u"

section \<open>The shape of a parsed base\<close>

lemma lower_alpha_fixed: "is_lower_alpha c \<Longrightarrow> lower_char c = c"
  by (rule lower_char_fixed) (auto simp: is_lower_alpha_def char_le_of_char)

lemma digit_fixed: "is_digit c \<Longrightarrow> lower_char c = c"
  by (rule lower_char_fixed) (auto simp: is_digit_def char_le_of_char)

lemma lower_hex_fixed: "is_lower_hex c \<Longrightarrow> lower_char c = c"
  by (rule lower_char_fixed) (auto simp: is_lower_hex_def is_digit_def char_le_of_char)

lemma lower_hex_not [simp]:
  "\<not> is_lower_hex (CHR ''@'')" "\<not> is_lower_hex (CHR ''+'')" "\<not> is_lower_hex (CHR ''-'')"
  "\<not> is_lower_hex (CHR ''<'')" "\<not> is_lower_hex (CHR ''>'')" "\<not> is_lower_hex (CHR ''_'')"
  by (simp_all add: is_lower_hex_def is_digit_def char_le_of_char)

lemma alnum_not_at: "\<not> alnum_char (CHR ''@'')" "\<not> local_char (CHR ''@'')" "\<not> local_char (CHR ''+'')"
  by (simp_all add: alnum_char_def local_char_def is_digit_def is_lower_alpha_def char_le_of_char)

lemma alnum_not_space: "alnum_char c \<Longrightarrow> \<not> js_space c"
  by (auto simp: alnum_char_def js_space_of_char is_digit_def is_lower_alpha_def char_le_of_char)

lemma js_space_not_local: "local_char c \<Longrightarrow> \<not> js_space c"
  by (auto simp: local_char_def js_space_of_char is_digit_def is_lower_alpha_def char_le_of_char)

text \<open>What a successful parse promises: the parts rebuild the normalised address, the local part has
  no tag, and the address generated from them fits the limits of RFC 5321.\<close>

lemma parseBaseMailbox_SomeD:
  assumes "parseBaseMailbox a = Some m"
  shows "js_toLower (js_trim a) = mb_local m @ ''@'' @ mb_domain m"
    and "mb_local m \<noteq> []" and "list_all local_char (mb_local m)"
    and "mb_domain m \<noteq> []" and "\<forall>l \<in> set (js_split (CHR ''.'') (mb_domain m)). valid_label l"
    and "length (mb_local m) + 35 \<le> 64" and "length (mb_local m) + 35 + length (mb_domain m) + 1 \<le> 254"
    and "CHR ''<'' \<notin> set (mb_domain m)" and "CHR ''>'' \<notin> set (mb_domain m)"
proof -
  let ?n = "js_toLower (js_trim a)"
  from assms obtain at where at: "lastIndexOf (CHR ''@'') ?n = Some at"
    by (auto simp: parseBaseMailbox_def Let_def split: option.splits)
  note * = lastIndexOf_split [OF at]
  from assms at show "mb_local m \<noteq> []" "list_all local_char (mb_local m)"
    "\<forall>l \<in> set (js_split (CHR ''.'') (mb_domain m)). valid_label l"
    "length (mb_local m) + 35 \<le> 64" "length (mb_local m) + 35 + length (mb_domain m) + 1 \<le> 254"
    by (auto simp: parseBaseMailbox_def Let_def ROUTING_TAG_PREFIX_def ROUTING_TOKEN_LENGTH_def
        list_all_iff split: option.splits if_splits)
  from assms at have m: "mb_local m = take at ?n" "mb_domain m = drop (Suc at) ?n"
    by (auto simp: parseBaseMailbox_def Let_def split: option.splits if_splits)
  with * show "?n = mb_local m @ ''@'' @ mb_domain m" by simp
  from assms at show "mb_domain m \<noteq> []"
    using * m by (auto simp: parseBaseMailbox_def Let_def split: option.splits if_splits)
  from assms at have "CHR ''<'' \<notin> set ?n" "CHR ''>'' \<notin> set ?n"
    by (auto simp: parseBaseMailbox_def Let_def split: option.splits if_splits)
  then show "CHR ''<'' \<notin> set (mb_domain m)" "CHR ''>'' \<notin> set (mb_domain m)"
    using m by (auto dest: in_set_dropD)
qed

lemma split_char_in_label:
  "c \<in> set s \<Longrightarrow> c = d \<or> (\<exists>p \<in> set (js_split d s). c \<in> set p)"
proof (induction s)
  case (Cons x xs)
  then show ?case by (cases "js_split d xs") auto
qed simp

lemma domain_charD:
  assumes "\<forall>l \<in> set (js_split (CHR ''.'') d). valid_label l" and "c \<in> set d"
  shows "alnum_char c \<or> c = CHR ''-'' \<or> c = CHR ''.''"
  using split_char_in_label [OF assms(2), of "CHR ''.''"] assms(1)
  by (auto simp: valid_label_def list_all_iff)

lemma domain_fixed:
  assumes "\<forall>l \<in> set (js_split (CHR ''.'') d). valid_label l"
  shows "CHR ''@'' \<notin> set d" and "js_toLower d = d"
proof -
  show "CHR ''@'' \<notin> set d"
    using domain_charD [OF assms, of "CHR ''@''"] by (auto simp: alnum_not_at)
  show "js_toLower d = d"
  proof (rule js_toLower_fixed, rule ballI)
    fix c assume "c \<in> set d"
    then have "alnum_char c \<or> c = CHR ''-'' \<or> c = CHR ''.''" by (rule domain_charD [OF assms])
    then show "lower_char c = c"
      by (elim disjE) (auto simp: alnum_char_def lower_alpha_fixed digit_fixed intro: lower_char_fixed)
  qed
qed

lemma local_fixed: "list_all local_char l \<Longrightarrow> js_toLower l = l"
proof (rule js_toLower_fixed, rule ballI)
  fix c assume "list_all local_char l" "c \<in> set l"
  then have "local_char c" by (simp add: list_all_iff)
  then show "lower_char c = c"
    unfolding local_char_def
    by (elim disjE) (auto simp: lower_alpha_fixed digit_fixed intro!: lower_char_fixed)
qed

lemma js_split_last_label: "d \<noteq> [] \<Longrightarrow> last d \<noteq> c \<Longrightarrow> last (last (js_split c d)) = last d \<and> last (js_split c d) \<noteq> []"
proof (induction d)
  case (Cons x xs)
  show ?case
  proof (cases "xs = []")
    case False
    with Cons.IH Cons.prems have "last (last (js_split c xs)) = last xs \<and> last (js_split c xs) \<noteq> []" by simp
    then show ?thesis using False by (cases "js_split c xs") auto
  qed (use Cons.prems in auto)
qed simp

lemma js_split_snoc_sep: "js_split c (s @ [c]) = js_split c s @ [[]]"
  by (induction s) (auto split: list.splits)

lemma domain_last_not_space:
  assumes "d \<noteq> []" and "\<forall>l \<in> set (js_split (CHR ''.'') d). valid_label l"
  shows "\<not> js_space (last d)"
proof -
  have "alnum_char (last d) \<or> last d = CHR ''-'' \<or> last d = CHR ''.''"
    using assms by (intro domain_charD) auto
  then show ?thesis using alnum_not_space by (auto simp: js_space_def)
qed

text \<open>The base address in canonical form: what the database stores and the readers compare with.\<close>

definition base_text :: "mailbox_parts \<Rightarrow> string" where
  "base_text m = mb_local m @ ''@'' @ mb_domain m"

lemma base_text_normal:
  assumes "parseBaseMailbox a = Some m"
  shows "js_toLower (js_trim (base_text m)) = base_text m"
proof -
  have "base_text m = js_toLower (js_trim a)"
    using parseBaseMailbox_SomeD(1) [OF assms] by (simp add: base_text_def)
  then show ?thesis by simp
qed

lemma parseBaseMailbox_base_text:
  assumes "parseBaseMailbox a = Some m"
  shows "parseBaseMailbox (base_text m) = Some m"
proof -
  have "js_toLower (js_trim (base_text m)) = js_toLower (js_trim a)"
    using base_text_normal [OF assms] parseBaseMailbox_SomeD(1) [OF assms] by (simp add: base_text_def)
  with assms show ?thesis unfolding parseBaseMailbox_def by simp
qed

section \<open>Tagged addresses\<close>

definition tagged_text :: "mailbox_parts \<Rightarrow> string \<Rightarrow> string" where
  "tagged_text m t = mb_local m @ ''+c_'' @ t @ ''@'' @ mb_domain m"

lemma buildConversationReplyTo_Inr:
  "buildConversationReplyTo b tok = Inr addr \<longleftrightarrow>
     (\<exists>m. parseBaseMailbox b = Some m \<and> TOKEN_PATTERN (js_toLower (js_remove (CHR ''-'') tok))
          \<and> addr = tagged_text m (js_toLower (js_remove (CHR ''-'') tok)))"
  by (auto simp: buildConversationReplyTo_def Let_def tagged_text_def ROUTING_TAG_PREFIX_def
        split: option.splits if_splits)

lemma token_fixed: "TOKEN_PATTERN t \<Longrightarrow> js_toLower t = t"
  by (rule js_toLower_fixed) (auto simp: TOKEN_PATTERN_def list_all_iff lower_hex_fixed)

lemma tagged_text_normal:
  assumes m: "parseBaseMailbox b = Some m" and t: "TOKEN_PATTERN t"
  shows "js_toLower (tagged_text m t) = tagged_text m t" and "trimmed (tagged_text m t)"
proof -
  note p = parseBaseMailbox_SomeD [OF m]
  have "js_toLower ''+c_'' = ''+c_''" "js_toLower ''@'' = ''@''"
    by (auto simp: js_toLower_def intro!: lower_char_fixed)
  then show "js_toLower (tagged_text m t) = tagged_text m t"
    using local_fixed [OF p(3)] domain_fixed(2) [OF p(5)] token_fixed [OF t]
    by (simp only: tagged_text_def js_toLower_append)
  have "\<not> js_space (hd (mb_local m))"
    using p(2,3) js_space_not_local by (cases "mb_local m") auto
  then show "trimmed (tagged_text m t)"
    using p(2,4) domain_last_not_space [OF p(4,5)] by (simp add: tagged_text_def trimmed_def)
qed

abbreviation tagged_local :: "mailbox_parts \<Rightarrow> string \<Rightarrow> string" where
  "tagged_local m t \<equiv> mb_local m @ ''+c_'' @ t"

lemma tagged_text_split: "tagged_text m t = tagged_local m t @ CHR ''@'' # mb_domain m"
  by (simp add: tagged_text_def)

lemma lastIndexOf_tagged:
  assumes "parseBaseMailbox b = Some m"
  shows "lastIndexOf (CHR ''@'') (tagged_text m t) = Some (length (tagged_local m t))"
  unfolding tagged_text_split
  by (rule lastIndexOf_append) (rule domain_fixed(1) [OF parseBaseMailbox_SomeD(5) [OF assms]])

lemma prefix_drop_hd: "prefix (c # p) (drop j s) \<Longrightarrow> j < length s \<and> s ! j = c"
  by (cases "j < length s") (auto simp: Cons_nth_drop_Suc [symmetric])

lemma lastIndexOfStr_tagged:
  assumes t: "TOKEN_PATTERN t"
  shows "lastIndexOfStr ''+c_'' (tagged_text m t) (length (tagged_local m t)) = Some (length (mb_local m))"
proof (rule lastIndexOfStr_eq)
  let ?s = "tagged_text m t"
  show "prefix ''+c_'' (drop (length (mb_local m)) ?s)" by (simp add: tagged_text_def)
  fix j assume j: "length (mb_local m) < j" "j \<le> length (tagged_local m t)"
  show "\<not> prefix ''+c_'' (drop j ?s)"
  proof
    assume "prefix ''+c_'' (drop j ?s)"
    then have plus: "?s ! j = CHR ''+''" by (auto dest: prefix_drop_hd)
    have "\<forall>c \<in> set t. c \<noteq> CHR ''+''" using t by (auto simp: TOKEN_PATTERN_def list_all_iff)
    then have no: "CHR ''+'' \<notin> set (''c_'' @ t @ ''@'')" by auto
    have s: "?s = (mb_local m @ ''+'') @ (''c_'' @ t @ ''@'') @ mb_domain m" by (simp add: tagged_text_def)
    have k: "j - Suc (length (mb_local m)) < length (''c_'' @ t @ ''@'')" using j by auto
    have "?s ! j = (''c_'' @ t @ ''@'') ! (j - Suc (length (mb_local m)))"
      unfolding s using j k by (simp add: nth_append del: append_assoc append.simps)
    then show False using plus k no by (metis nth_mem)
  qed
qed simp

lemma routing_candidate_of_tagged:
  assumes m: "parseBaseMailbox b = Some m" and t: "TOKEN_PATTERN t"
    and raw: "js_toLower (js_trim raw) = tagged_text m t"
  shows "routing_candidate_of raw = Some \<lparr>rc_routingToken = dash_token t, rc_baseAddress = base_text m\<rparr>"
proof -
  let ?n = "length (tagged_local m t)" and ?k = "length (mb_local m) + length ROUTING_TAG_PREFIX + 1"
  have "take (length (mb_local m)) (tagged_text m t) = mb_local m" by (simp add: tagged_text_def)
  moreover have "drop (Suc ?n) (tagged_text m t) = mb_domain m"
    by (simp only: tagged_text_split drop_Suc_length_append)
  moreover have "take (?n - ?k) (drop ?k (tagged_text m t)) = t"
    by (simp add: tagged_text_def ROUTING_TAG_PREFIX_def)
  moreover have "lastIndexOfStr (''+'' @ ROUTING_TAG_PREFIX) (tagged_text m t) ?n = Some (length (mb_local m))"
    using lastIndexOfStr_tagged [OF t, of m] by (simp add: ROUTING_TAG_PREFIX_def)
  ultimately show ?thesis
    unfolding routing_candidate_of_def raw Let_def lastIndexOf_tagged [OF m]
    using t parseBaseMailbox_SomeD(2) [OF m] parseBaseMailbox_base_text [OF m]
    by (simp add: base_text_def)
qed

lemma routing_token_of_tagged:
  assumes m: "parseBaseMailbox b = Some m" and t: "TOKEN_PATTERN t"
    and raw: "js_toLower (js_trim raw) = tagged_text m t"
  shows "routing_token_of m raw = Some (dash_token t)"
proof -
  let ?n = "length (tagged_local m t)" and ?p = "mb_local m @ ''+'' @ ROUTING_TAG_PREFIX"
  have *: "take ?n (tagged_text m t) = ?p @ t"
    by (simp only: tagged_text_split take_length_append) (simp add: ROUTING_TAG_PREFIX_def)
  have **: "drop (Suc ?n) (tagged_text m t) = mb_domain m"
    by (simp only: tagged_text_split drop_Suc_length_append)
  show ?thesis
    unfolding routing_token_of_def raw Let_def lastIndexOf_tagged [OF m] option.case * **
    using t parseBaseMailbox_SomeD(2) [OF m] by simp
qed

text \<open>Every candidate names a base that is valid and in canonical form.\<close>

lemma routing_candidate_of_base:
  assumes "routing_candidate_of raw = Some c"
  shows "isValidReplyToBaseAddress (rc_baseAddress c)"
  using assms
  by (auto simp: routing_candidate_of_def Let_def isValidReplyToBaseAddress_def
      split: option.splits if_splits)

lemma dash_token_canonical:
  assumes "canonical_uuid u"
  shows "dash_token (js_remove (CHR ''-'') u) = u" and "TOKEN_PATTERN (js_remove (CHR ''-'') u)"
proof -
  have len: "length u = 36" using assms by (simp add: canonical_uuid_def)
  have at: "\<And>i. i < 36 \<Longrightarrow> if i \<in> {8, 13, 18, 23} then u ! i = CHR ''-'' else is_lower_hex (u ! i)"
    using assms by (simp add: canonical_uuid_def list_all2_conv_all_nth)
  have hex: "list_all is_lower_hex (take k (drop n u))"
    if "\<And>i. n \<le> i \<Longrightarrow> i < n + k \<Longrightarrow> i \<notin> {8, 13, 18, 23}" "n + k \<le> 36" for n k
    using at that len by (fastforce simp: list_all_length)
  have nodash: "filter (\<lambda>c. c \<noteq> CHR ''-'') s = s" if "list_all is_lower_hex s" for s
    using that by (auto simp: filter_id_conv list_all_iff)
  define a where "a = take 8 u"
  define b where "b = take 4 (drop 9 u)"
  define c where "c = take 4 (drop 14 u)"
  define d where "d = take 4 (drop 19 u)"
  define e where "e = take 12 (drop 24 u)"
  have one: "drop n u = u ! n # drop (Suc n) u" if "n < 36" for n
    using that len by (simp add: Cons_nth_drop_Suc)
  have u: "u = a @ ''-'' @ b @ ''-'' @ c @ ''-'' @ d @ ''-'' @ e"
  proof -
    have "u = a @ drop 8 u" by (simp add: a_def)
    also have "drop 8 u = ''-'' @ b @ drop 13 u"
      using one [of 8] at [of 8] append_take_drop_id [of 4 "drop 9 u"] by (simp add: b_def)
    also have "drop 13 u = ''-'' @ c @ drop 18 u"
      using one [of 13] at [of 13] append_take_drop_id [of 4 "drop 14 u"] by (simp add: c_def)
    also have "drop 18 u = ''-'' @ d @ drop 23 u"
      using one [of 18] at [of 18] append_take_drop_id [of 4 "drop 19 u"] by (simp add: d_def)
    also have "drop 23 u = ''-'' @ e"
      using one [of 23] at [of 23] len by (simp add: e_def)
    finally show ?thesis by simp
  qed
  have h: "list_all is_lower_hex a" "list_all is_lower_hex b" "list_all is_lower_hex c"
    "list_all is_lower_hex d" "list_all is_lower_hex e"
    using hex [of 0 8] hex [of 9 4] hex [of 14 4] hex [of 19 4] hex [of 24 12]
    by (auto simp: a_def b_def c_def d_def e_def)
  have l: "length a = 8" "length b = 4" "length c = 4" "length d = 4" "length e = 12"
    using len by (simp_all add: a_def b_def c_def d_def e_def)
  have r: "js_remove (CHR ''-'') u = a @ b @ c @ d @ e"
    using h by (subst u) (simp add: js_remove_def nodash)
  show "TOKEN_PATTERN (js_remove (CHR ''-'') u)" using h l by (simp add: r TOKEN_PATTERN_def)
  show "dash_token (js_remove (CHR ''-'') u) = u"
    unfolding r dash_token_def using l by (subst u) simp
qed

text \<open>The candidate a generated address yields, in any letter case and with white space around it.\<close>

lemma generated_candidate:
  assumes "canonical_uuid token" and "js_toLower (js_trim received) = address"
    and "buildConversationReplyTo base token = Inr address"
  obtains m t where "parseBaseMailbox base = Some m" "TOKEN_PATTERN t" "js_toLower (js_trim received) = tagged_text m t"
    "dash_token t = token"
    "routing_candidate_of received = Some \<lparr>rc_routingToken = token, rc_baseAddress = js_toLower (js_trim base)\<rparr>"
proof -
  let ?t = "js_toLower (js_remove (CHR ''-'') token)"
  obtain m where m: "parseBaseMailbox base = Some m" and t: "TOKEN_PATTERN ?t" and a: "address = tagged_text m ?t"
    using assms(3) unfolding buildConversationReplyTo_Inr by blast
  have hex: "TOKEN_PATTERN (js_remove (CHR ''-'') token)" using dash_token_canonical [OF assms(1)] by simp
  have d: "dash_token ?t = token" using dash_token_canonical(1) [OF assms(1)] token_fixed [OF hex] by simp
  have b: "base_text m = js_toLower (js_trim base)"
    using parseBaseMailbox_SomeD(1) [OF m] by (simp add: base_text_def)
  have c: "js_toLower (js_trim received) = tagged_text m ?t" using assms(2) a by simp
  show ?thesis by (rule that [OF m t c d]) (simp add: routing_candidate_of_tagged [OF m t c] d b)
qed

section \<open>Properties\<close>

text \<open>C32: a reply finds its conversation. An address that \<open>buildConversationReplyTo\<close> generated for a
  valid base and a routing token is recognised when it comes back, in any letter case and with white
  space around it: the candidate it yields has that token and the normalised base.\<close>

theorem reply_address_roundtrip:
  assumes "canonical_uuid token" and "isValidReplyToBaseAddress base"
    and "js_toLower (js_trim received) = address" and "buildConversationReplyTo base token = Inr address"
  shows "extractRoutingCandidates [received] =
      [\<lparr>rc_routingToken = token, rc_baseAddress = js_toLower (js_trim base)\<rparr>]
    \<and> extractRoutingTokens [received] base = Inr [token]"
proof -
  obtain m t where g: "parseBaseMailbox base = Some m" "TOKEN_PATTERN t" "js_toLower (js_trim received) = tagged_text m t"
    "dash_token t = token"
    "routing_candidate_of received = Some \<lparr>rc_routingToken = token, rc_baseAddress = js_toLower (js_trim base)\<rparr>"
    using generated_candidate [OF assms(1,3,4)] .
  have "routing_token_of m received = Some token" using routing_token_of_tagged [OF g(1-3)] g(4) by simp
  with g(1,5) show ?thesis
    by (simp add: extractRoutingCandidates_def extractRoutingTokens_def List.map_filter_simps)
qed

theorem reply_address_roundtrip_witness:
  "extractRoutingCandidates [''  Support+C_0190AAAABBBB7CCC8DDDEEEEFFFF0000@Mail.Example.com ''] =
     [\<lparr>rc_routingToken = ''0190aaaa-bbbb-7ccc-8ddd-eeeeffff0000'', rc_baseAddress = js_toLower (js_trim ''support@mail.example.com'')\<rparr>]
   \<and> extractRoutingTokens [''  Support+C_0190AAAABBBB7CCC8DDDEEEEFFFF0000@Mail.Example.com ''] ''support@mail.example.com''
     = Inr [''0190aaaa-bbbb-7ccc-8ddd-eeeeffff0000'']"
proof (rule reply_address_roundtrip)
  show "canonical_uuid ''0190aaaa-bbbb-7ccc-8ddd-eeeeffff0000''" by code_simp
  show "isValidReplyToBaseAddress ''support@mail.example.com''" by code_simp
  show "js_toLower (js_trim ''  Support+C_0190AAAABBBB7CCC8DDDEEEEFFFF0000@Mail.Example.com '') =
    ''support+c_0190aaaabbbb7ccc8dddeeeeffff0000@mail.example.com''" by code_simp
  show "buildConversationReplyTo ''support@mail.example.com'' ''0190aaaa-bbbb-7ccc-8ddd-eeeeffff0000'' =
    Inr ''support+c_0190aaaabbbb7ccc8dddeeeeffff0000@mail.example.com''" by code_simp
qed

text \<open>A generated address is within the limits of SMTP: at most 254 characters, its local part at
  most 64, with exactly the token in hexadecimal behind the tag.\<close>

theorem reply_address_bounds:
  assumes "buildConversationReplyTo base token = Inr address"
  shows "\<exists>localPart domain. address = localPart @ ''@'' @ domain \<and> CHR ''@'' \<notin> set domain
    \<and> length localPart \<le> 64 \<and> length address \<le> 254 \<and> domain \<noteq> []"
proof -
  let ?t = "js_toLower (js_remove (CHR ''-'') token)"
  obtain m where m: "parseBaseMailbox base = Some m" and t: "TOKEN_PATTERN ?t" and a: "address = tagged_text m ?t"
    using assms unfolding buildConversationReplyTo_Inr by blast
  note p = parseBaseMailbox_SomeD [OF m]
  have "length ?t = 32" using t by (simp add: TOKEN_PATTERN_def)
  then show ?thesis
    using p(4,6,7) domain_fixed(1) [OF p(5)] a
    by (intro exI [of _ "mb_local m @ ''+c_'' @ ?t"] exI [of _ "mb_domain m"]) (simp add: tagged_text_def)
qed

theorem reply_address_bounds_witness:
  "\<exists>localPart domain. ''support+c_0190aaaabbbb7ccc8dddeeeeffff0000@mail.example.com'' = localPart @ ''@'' @ domain
    \<and> CHR ''@'' \<notin> set domain \<and> length localPart \<le> 64
    \<and> length ''support+c_0190aaaabbbb7ccc8dddeeeeffff0000@mail.example.com'' \<le> 254 \<and> domain \<noteq> []"
proof (rule reply_address_bounds)
  show "buildConversationReplyTo ''support@mail.example.com'' ''0190aaaa-bbbb-7ccc-8ddd-eeeeffff0000'' =
    Inr ''support+c_0190aaaabbbb7ccc8dddeeeeffff0000@mail.example.com''" by code_simp
qed

end
