(* ===== verification/Conversation_State.thy ===== *)
theory Conversation_State
  imports Schema
begin

text \<open>
  \<open>src/lib/email/conversation-state.ts\<close>: the automatic transitions of a conversation, the state
  a merge leaves, and the text form of a state. The order of \<open>MERGE_PRECEDENCE\<close> is the linear
  order of \<open>conversation_state\<close>, so the merge is a minimum.
\<close>

section \<open>Definitions\<close>

definition CONVERSATION_STATES :: "conversation_state list" where
  "CONVERSATION_STATES = [AWAITING_US, AWAITING_PARTICIPANT, CONCLUDED, TERMINATED]"

definition may_change_to :: "uuid \<Rightarrow> conversation_state \<Rightarrow> conversation \<Rightarrow> bool" where
  \<comment> \<open>the WHERE clause of \<open>applyAutomaticState\<close>\<close>
  "may_change_to conversationId state c \<longleftrightarrow>
     cv_id c = conversationId \<and> cv_state c \<noteq> state \<and> cv_state c \<noteq> TERMINATED"

definition set_state :: "conversation_state \<Rightarrow> instant \<Rightarrow> conversation \<Rightarrow> conversation" where
  \<comment> \<open>the SET clause of both statements\<close>
  "set_state state changedAt c = c\<lparr>cv_state := state, cv_stateChangedAt := changedAt\<rparr>"

definition applyAutomaticState :: "uuid \<Rightarrow> conversation_state \<Rightarrow> instant \<Rightarrow> bool io" where
  "applyAutomaticState conversationId state changedAt s =
     (let guard = may_change_to conversationId state
      in (Inr (0 < count_where guard (conversations s)),
          s\<lparr>conversations := update_where guard (set_state state changedAt) (conversations s)\<rparr>))"

definition markConversationAwaitingUs :: "uuid \<Rightarrow> instant \<Rightarrow> bool io" where
  "markConversationAwaitingUs conversationId changedAt = applyAutomaticState conversationId AWAITING_US changedAt"

definition markConversationAwaitingParticipant :: "uuid \<Rightarrow> instant \<Rightarrow> bool io" where
  "markConversationAwaitingParticipant conversationId changedAt =
     applyAutomaticState conversationId AWAITING_PARTICIPANT changedAt"

definition markConversationTerminated :: "uuid \<Rightarrow> instant \<Rightarrow> bool io" where
  "markConversationTerminated conversationId changedAt s =
     (let guard = (\<lambda>c. cv_id c = conversationId \<and> cv_state c \<noteq> TERMINATED)
      in (Inr (0 < count_where guard (conversations s)),
          s\<lparr>conversations := update_where guard (set_state TERMINATED changedAt) (conversations s)\<rparr>))"

definition MERGE_PRECEDENCE :: "conversation_state list" where
  "MERGE_PRECEDENCE = [TERMINATED, AWAITING_US, AWAITING_PARTICIPANT, CONCLUDED]"

text \<open>The reducer keeps the earlier instant; it starts from null.\<close>

definition earliest_change :: "instant option \<Rightarrow> conversation \<Rightarrow> instant option" where
  "earliest_change earliest row =
     (case earliest of
        Some e \<Rightarrow> if e \<le> cv_stateChangedAt row then Some e else Some (cv_stateChangedAt row)
      | None \<Rightarrow> Some (cv_stateChangedAt row))"

definition mergeConversationState :: "conversation list \<Rightarrow> (conversation_state \<times> instant) option" where
  "mergeConversationState rows =
     (case find (\<lambda>candidate. \<exists>row \<in> set rows. cv_state row = candidate) MERGE_PRECEDENCE of
        None \<Rightarrow> None
      | Some winner \<Rightarrow>
          (case foldl earliest_change None (filter (\<lambda>row. cv_state row = winner) rows) of
             None \<Rightarrow> None
           | Some changedAt \<Rightarrow> Some (winner, changedAt)))"

definition state_name :: "conversation_state \<Rightarrow> string" where
  \<comment> \<open>the string that is the enum's value\<close>
  "state_name st =
     (case st of
        AWAITING_US \<Rightarrow> ''AWAITING_US''
      | AWAITING_PARTICIPANT \<Rightarrow> ''AWAITING_PARTICIPANT''
      | CONCLUDED \<Rightarrow> ''CONCLUDED''
      | TERMINATED \<Rightarrow> ''TERMINATED'')"

definition parseConversationState :: "json option \<Rightarrow> conversation_state option" where
  "parseConversationState value =
     (case json_string value of
        None \<Rightarrow> None
      | Some v \<Rightarrow>
          (let normalized = js_toUpper (js_trim v)
           in find (\<lambda>st. state_name st = normalized) CONVERSATION_STATES))"

definition serializeConversationState :: "conversation_state \<Rightarrow> string" where
  "serializeConversationState state = js_toLower (state_name state)"

definition CONVERSATION_STATE_ERROR :: string where
  "CONVERSATION_STATE_ERROR =
     ''state must be one of '' @ js_join '', '' (map serializeConversationState CONVERSATION_STATES)"

section \<open>Precedence as a linear order\<close>

fun merge_rank :: "conversation_state \<Rightarrow> nat" where
  "merge_rank TERMINATED = 0"
| "merge_rank AWAITING_US = 1"
| "merge_rank AWAITING_PARTICIPANT = 2"
| "merge_rank CONCLUDED = 3"

instantiation conversation_state :: linorder
begin

definition less_eq_conversation_state :: "conversation_state \<Rightarrow> conversation_state \<Rightarrow> bool" where
  "less_eq_conversation_state a b \<longleftrightarrow> merge_rank a \<le> merge_rank b"

definition less_conversation_state :: "conversation_state \<Rightarrow> conversation_state \<Rightarrow> bool" where
  "less_conversation_state a b \<longleftrightarrow> merge_rank a < merge_rank b"

instance
proof
  fix a b :: conversation_state
  show "a \<le> b \<Longrightarrow> b \<le> a \<Longrightarrow> a = b"
    by (cases a; cases b) (simp_all add: less_eq_conversation_state_def)
qed (auto simp: less_eq_conversation_state_def less_conversation_state_def)

end

lemma TERMINATED_least [simp]: "TERMINATED \<le> st"
  by (simp add: less_eq_conversation_state_def)

lemma find_precedence:
  "find P MERGE_PRECEDENCE = Some w \<longleftrightarrow> P w \<and> (\<forall>st. P st \<longrightarrow> w \<le> st)"
proof -
  have all: "(\<forall>st. Q st) \<longleftrightarrow> Q TERMINATED \<and> Q AWAITING_US \<and> Q AWAITING_PARTICIPANT \<and> Q CONCLUDED" for Q
    by (metis conversation_state.exhaust)
  show ?thesis
    unfolding all by (cases w) (auto simp: MERGE_PRECEDENCE_def less_eq_conversation_state_def)
qed

lemma find_precedence_None: "find P MERGE_PRECEDENCE = None \<longleftrightarrow> (\<forall>st. \<not> P st)"
proof -
  have "st \<in> set MERGE_PRECEDENCE" for st by (cases st) (simp_all add: MERGE_PRECEDENCE_def)
  then show ?thesis by (auto simp: find_None_iff)
qed

lemma foldl_earliest_Some:
  "foldl earliest_change (Some e) rows = Some (Min (insert e (set (map cv_stateChangedAt rows))))"
proof (induction rows arbitrary: e)
  case (Cons r rows)
  have "earliest_change (Some e) r = Some (min e (cv_stateChangedAt r))"
    by (simp add: earliest_change_def min_def)
  then show ?case
    by (cases "rows = []") (simp_all add: Cons.IH min.assoc min.left_commute)
qed simp

lemma foldl_earliest:
  "foldl earliest_change None rows =
     (if rows = [] then None else Some (Min (cv_stateChangedAt ` set rows)))"
  by (cases rows) (simp_all add: foldl_earliest_Some, simp add: earliest_change_def foldl_earliest_Some)

section \<open>The transitions\<close>

lemma merge_Some_iff:
  "mergeConversationState rows = Some (w, t) \<longleftrightarrow>
     (\<exists>r \<in> set rows. cv_state r = w) \<and> (\<forall>r \<in> set rows. w \<le> cv_state r)
     \<and> t = Min (cv_stateChangedAt ` {r \<in> set rows. cv_state r = w})"
proof -
  let ?P = "\<lambda>st. \<exists>r \<in> set rows. cv_state r = st"
  have "filter (\<lambda>r. cv_state r = w) rows \<noteq> []" if "?P w"
    using that by (auto simp: filter_empty_conv)
  then show ?thesis
    using find_precedence [of ?P w] find_precedence_None [of ?P]
    by (auto simp: mergeConversationState_def foldl_earliest filter_empty_conv split: option.splits if_splits)
qed

lemma merge_None_iff: "mergeConversationState rows = None \<longleftrightarrow> rows = []"
proof
  assume "mergeConversationState rows = None"
  then show "rows = []"
    using find_precedence_None [of "\<lambda>st. \<exists>r \<in> set rows. cv_state r = st"]
      find_precedence [of "\<lambda>st. \<exists>r \<in> set rows. cv_state r = st"]
    by (auto simp: mergeConversationState_def foldl_earliest filter_empty_conv split: option.splits if_splits)
       (metis list.set_intros(1) neq_Nil_conv)
qed (simp add: mergeConversationState_def MERGE_PRECEDENCE_def)

text \<open>The rows the two statements leave, for the conversation found by its id.\<close>

lemma find_applyAutomaticState:
  "find_by cv_id i (conversations (snd (applyAutomaticState k st t s))) =
     map_option (\<lambda>c. if may_change_to k st c then set_state st t c else c) (find_by cv_id i (conversations s))"
  by (simp add: applyAutomaticState_def Let_def find_by_update_where set_state_def)

lemma find_markTerminated:
  "find_by cv_id i (conversations (snd (markConversationTerminated k t s))) =
     map_option (\<lambda>c. if cv_id c = k \<and> cv_state c \<noteq> TERMINATED then set_state TERMINATED t c else c)
       (find_by cv_id i (conversations s))"
  by (simp add: markConversationTerminated_def Let_def find_by_update_where set_state_def)

lemma state_names_upper: "js_toUpper (js_trim (serializeConversationState st)) = state_name st"
  by (cases st; hypsubst; code_simp)

lemma inj_state_name: "state_name a = state_name b \<Longrightarrow> a = b"
  by (cases a; cases b) (simp_all add: state_name_def)

lemma find_state_name: "find (\<lambda>x. state_name x = state_name st) CONVERSATION_STATES = Some st"
  by (cases st) (simp_all add: CONVERSATION_STATES_def state_name_def)

section \<open>Properties\<close>

text \<open>Merging conversations picks the state of highest precedence. The merged state is the least, in
  the order terminated, awaiting us, awaiting participant, concluded, of the states merged, dated with
  the earliest change into it; the order in which the rows are read does not matter, and only an empty
  merge has no result.\<close>

theorem merge_is_minimum:
  "mergeConversationState rows =
     (if rows = [] then None
      else Some (Min (cv_state ` set rows),
                 Min (cv_stateChangedAt ` {r \<in> set rows. cv_state r = Min (cv_state ` set rows)})))"
proof (cases "rows = []")
  case True
  then show ?thesis using merge_None_iff [of rows] by simp
next
  case False
  let ?w = "Min (cv_state ` set rows)"
  have fin: "finite (cv_state ` set rows)" "cv_state ` set rows \<noteq> {}" using False by simp_all
  have "?w \<in> cv_state ` set rows" using fin by (rule Min_in)
  moreover have "\<forall>r \<in> set rows. ?w \<le> cv_state r" using fin(1) by simp
  ultimately have "mergeConversationState rows =
      Some (?w, Min (cv_stateChangedAt ` {r \<in> set rows. cv_state r = ?w}))"
    unfolding merge_Some_iff by auto
  then show ?thesis using False by simp
qed



text \<open>A state in text form is read back, in any letter case and with white space around it, and a text
  that is read as a state is one of the four names.\<close>

theorem conversation_state_roundtrip:
  "parseConversationState (Some (JString (serializeConversationState st))) = Some st
   \<and> (parseConversationState (Some (JString v)) = Some st \<longleftrightarrow> js_toUpper (js_trim v) = state_name st)"
proof -
  have "find (\<lambda>x. state_name x = n) CONVERSATION_STATES = Some st \<longleftrightarrow> n = state_name st" for n
    using find_state_name [of st] inj_state_name
    by (auto simp: find_Some_iff)
  then show ?thesis by (simp add: parseConversationState_def state_names_upper Let_def)
qed

end
