(* ===== verification/Conversation_Events.thy ===== *)
theory Conversation_Events
  imports Schema Conversation_State "HOL-Library.Multiset"
begin

text \<open>
  \<open>src/lib/conversation-events.ts\<close>: the configured sinks and the append of one lifecycle event,
  which numbers the event within its conversation and queues one delivery per sink. The process
  environment is a function from variable names to values.
\<close>

type_synonym environment = "string \<Rightarrow> string option"

definition CONVERSATION_EVENT_SCHEMA_VERSION :: nat where
  "CONVERSATION_EVENT_SCHEMA_VERSION = 1"

definition CONVERSATION_EVENT_SINKS :: "event_sink list" where
  "CONVERSATION_EVENT_SINKS = [NATS]"

definition sink_name :: "event_sink \<Rightarrow> string" where
  "sink_name sink = (case sink of NATS \<Rightarrow> ''NATS'')"

definition sink_of_name :: "string \<Rightarrow> event_sink option" where
  "sink_of_name name = find (\<lambda>sink. sink_name sink = name) CONVERSATION_EVENT_SINKS"

definition sinks_error :: js_error where
  "sinks_error = JsError ''Error'' ''CONVERSATION_EVENTS_SINKS must contain only nats''"

definition getEnabledConversationEventSinks :: "environment \<Rightarrow> js_error + event_sink list" where
  "getEnabledConversationEventSinks env =
     (case map_option js_trim (env ''CONVERSATION_EVENTS_SINKS'') of
        None \<Rightarrow> Inr []
      | Some raw \<Rightarrow>
          if raw = [] then Inr []
          else
            (let values = js_set (map (\<lambda>v. js_toUpper (js_trim v)) (js_split (CHR '','') raw))
             in if values = [] \<or> (\<exists>v \<in> set values. sink_of_name v = None) then Inl sinks_error
                else Inr (List.map_filter sink_of_name values)))"

definition conversationEventsEnabled :: "environment \<Rightarrow> js_error + bool" where
  "conversationEventsEnabled env =
     (case getEnabledConversationEventSinks env of Inl e \<Rightarrow> Inl e | Inr sinks \<Rightarrow> Inr (0 < length sinks))"

definition event_kind_name :: "event_kind \<Rightarrow> string" where
  \<comment> \<open>the string that is the enum's value\<close>
  "event_kind_name k =
     (case k of
        CREATED \<Rightarrow> ''CREATED'' | MESSAGE_RECEIVED \<Rightarrow> ''MESSAGE_RECEIVED''
      | MESSAGE_OUTBOUND_INTENDED \<Rightarrow> ''MESSAGE_OUTBOUND_INTENDED'' | STATE_CHANGED \<Rightarrow> ''STATE_CHANGED''
      | ASSIGNED \<Rightarrow> ''ASSIGNED'' | MESSAGE_DELIVERY_UPDATED \<Rightarrow> ''MESSAGE_DELIVERY_UPDATED''
      | MERGED \<Rightarrow> ''MERGED'' | DELETED \<Rightarrow> ''DELETED'')"

definition serializeEventType :: "event_kind \<Rightarrow> string" where
  "serializeEventType k = js_replace (CHR ''_'') ''.'' (js_toLower (event_kind_name k))"

record event_input =
  ei_conversationId :: uuid
  ei_type :: event_kind
  ei_occurredAt :: instant
  ei_actor :: event_actor
  ei_cause :: string
  ei_messageId :: "uuid option"
  ei_state :: "(string option \<times> string) option"
  ei_deliveryState :: "string option"
  ei_mergedIntoConversationId :: "uuid option"
  ei_attachmentCount :: "nat option"

text \<open>The optional members of the input an event of this kind leaves out.\<close>

definition plain_event :: "uuid \<Rightarrow> event_kind \<Rightarrow> instant \<Rightarrow> event_actor \<Rightarrow> string \<Rightarrow> event_input" where
  "plain_event conversationId type occurredAt actor cause =
     \<lparr>ei_conversationId = conversationId, ei_type = type, ei_occurredAt = occurredAt, ei_actor = actor,
      ei_cause = cause, ei_messageId = None, ei_state = None, ei_deliveryState = None,
      ei_mergedIntoConversationId = None, ei_attachmentCount = None\<rparr>"

definition keep_truthy :: "string option \<Rightarrow> string option" where
  \<comment> \<open>\<open>...(v ? { k: v } : {})\<close>\<close>
  "keep_truthy v = (if truthy v then v else None)"

definition conversation_topic :: "conversation \<Rightarrow> (string \<times> string) option" where
  \<comment> \<open>\<open>topicType && externalTopicId ? {...} : null\<close>\<close>
  "conversation_topic c =
     (case (keep_truthy (cv_topicType c), keep_truthy (cv_externalTopicId c)) of
        (Some t, Some x) \<Rightarrow> Some (t, x)
      | _ \<Rightarrow> None)"

definition event_payload_of :: "event_input \<Rightarrow> conversation \<Rightarrow> uuid \<Rightarrow> event_payload" where
  "event_payload_of input c eventId =
     \<lparr>ep_schemaVersion = CONVERSATION_EVENT_SCHEMA_VERSION,
      ep_id = eventId,
      ep_type = ''conversation.'' @ serializeEventType (ei_type input),
      ep_occurredAt = ei_occurredAt input,
      ep_conversationId = cv_id c,
      ep_sequence = cv_eventSequence c,
      ep_topic = conversation_topic c,
      ep_messageId = keep_truthy (ei_messageId input),
      ep_actor = ei_actor input,
      ep_cause = ei_cause input,
      ep_state = ei_state input,
      ep_deliveryState = keep_truthy (ei_deliveryState input),
      ep_mergedIntoConversationId = keep_truthy (ei_mergedIntoConversationId input),
      ep_attachmentCount = (case ei_attachmentCount input of Some (Suc n) \<Rightarrow> Some (Suc n) | _ \<Rightarrow> None)\<rparr>"

text \<open>The statements of the append, in their order: number the event, insert it with an empty
  payload, fill the payload in, queue the deliveries. \<open>update\<close> of a missing row throws P2025, a
  second event with the same number P2002.\<close>

definition increment_sequence :: "conversation \<Rightarrow> conversation" where
  "increment_sequence c = c\<lparr>cv_eventSequence := cv_eventSequence c + 1\<rparr>"

definition new_delivery :: "instant \<Rightarrow> uuid \<Rightarrow> event_sink \<Rightarrow> event_delivery" where
  "new_delivery now eventId sink =
     \<lparr>dl_eventId = eventId, dl_sink = sink, dl_attemptCount = 0, dl_nextAttemptAt = now,
      dl_leaseToken = None, dl_leaseUntil = None, dl_publishedAt = None, dl_lastErrorCode = None,
      dl_createdAt = now\<rparr>"

definition insert_event :: "event_input \<Rightarrow> conversation \<Rightarrow> uuid io" where
  "insert_event input c s =
     (let (eventId, s1) = draw_id s
      in if \<exists>e \<in> set (events s). ev_conversationId e = cv_id c \<and> ev_sequence e = cv_eventSequence c
         then (Inl (PrismaError ''P2002''), s1)
         else
           (Inr eventId,
            s1\<lparr>events := events s1 @
              [\<lparr>ev_id = eventId, ev_conversationId = cv_id c, ev_sequence = cv_eventSequence c,
                ev_type = ei_type input, ev_occurredAt = ei_occurredAt input, ev_payload = None,
                ev_createdAt = db_now s1\<rparr>]\<rparr>))"

definition appendConversationEvent :: "environment \<Rightarrow> event_input \<Rightarrow> event_payload option io" where
  "appendConversationEvent env input s =
     (case getEnabledConversationEventSinks env of
        Inl e \<Rightarrow> (Inl e, s)
      | Inr sinks \<Rightarrow>
          if sinks = [] then (Inr None, s)
          else
            (let s1 = s\<lparr>conversations :=
                   update_where (\<lambda>c. cv_id c = ei_conversationId input) increment_sequence (conversations s)\<rparr>
             in case find_by cv_id (ei_conversationId input) (conversations s1) of
                  None \<Rightarrow> (Inl (PrismaError ''P2025''), s)
                | Some c \<Rightarrow>
                    (case insert_event input c s1 of
                       (Inl e, s2) \<Rightarrow> (Inl e, s2)
                     | (Inr eventId, s2) \<Rightarrow>
                         (let payload = event_payload_of input c eventId
                          in (Inr (Some payload),
                              s2\<lparr>events :=
                                   update_where (\<lambda>e. ev_id e = eventId) (\<lambda>e. e\<lparr>ev_payload := Some payload\<rparr>) (events s2),
                                 deliveries := deliveries s2 @ map (new_delivery (db_now s2) eventId) sinks\<rparr>)))))"

section \<open>The configured sinks\<close>

lemma sink_of_name_Some: "sink_of_name v = Some k \<Longrightarrow> k = NATS \<and> v = ''NATS''"
  by (cases k) (auto simp: sink_of_name_def CONVERSATION_EVENT_SINKS_def sink_name_def split: if_splits)

lemma enabled_sinks_cases:
  assumes "getEnabledConversationEventSinks env = Inr sinks"
  shows "sinks = [] \<or> sinks = [NATS]"
proof -
  have ok: "sinks = [] \<or> (\<exists>vals. distinct vals \<and> (\<forall>v \<in> set vals. sink_of_name v \<noteq> None)
      \<and> sinks = List.map_filter sink_of_name vals)"
  proof (cases "map_option js_trim (env ''CONVERSATION_EVENTS_SINKS'')")
    case None
    with assms show ?thesis by (simp add: getEnabledConversationEventSinks_def)
  next
    case (Some raw)
    define vals where "vals = js_set (map (\<lambda>v. js_toUpper (js_trim v)) (js_split (CHR '','') raw))"
    have d: "distinct vals" unfolding vals_def by (rule distinct_js_set)
    have "sinks = [] \<or> (\<not> (\<exists>v \<in> set vals. sink_of_name v = None)
        \<and> sinks = List.map_filter sink_of_name vals)"
      using assms Some
      by (auto simp: getEnabledConversationEventSinks_def Let_def vals_def split: if_splits)
    with d show ?thesis by (auto intro!: exI [of _ vals])
  qed
  have "List.map_filter sink_of_name vals = [] \<or> List.map_filter sink_of_name vals = [NATS]"
    if d: "distinct vals" and v: "\<forall>v \<in> set vals. sink_of_name v \<noteq> None" for vals
  proof -
    have "\<forall>v \<in> set vals. v = ''NATS''" using v sink_of_name_Some by blast
    then have "vals = [] \<or> vals = [''NATS'']" using d
      by (cases vals; cases "tl vals") auto
    then show ?thesis
      by (auto simp: List.map_filter_simps sink_of_name_def CONVERSATION_EVENT_SINKS_def sink_name_def)
  qed
  with ok show ?thesis by blast
qed

section \<open>The event log\<close>

text \<open>The log is numbered without gaps or duplicates: the events of every conversation that exists
  carry the numbers 1 to its counter, each once.\<close>

definition sequences_of :: "uuid \<Rightarrow> conversation_event list \<Rightarrow> nat list" where
  "sequences_of conversationId es = map ev_sequence (filter (\<lambda>e. ev_conversationId e = conversationId) es)"

definition log_numbered :: "store \<Rightarrow> bool" where
  "log_numbered s \<longleftrightarrow>
     distinct (map cv_id (conversations s))
     \<and> (\<forall>c \<in> set (conversations s). mset (sequences_of (cv_id c) (events s)) = mset [1..<Suc (cv_eventSequence c)])"

lemma sequences_of_update [simp]:
  "(\<And>e. ev_conversationId (f e) = ev_conversationId e) \<Longrightarrow> (\<And>e. ev_sequence (f e) = ev_sequence e) \<Longrightarrow>
     sequences_of i (update_where P f es) = sequences_of i es"
  by (induction es) (auto simp: sequences_of_def)

lemma sequences_of_append [simp]: "sequences_of i (es @ fs) = sequences_of i es @ sequences_of i fs"
  by (simp add: sequences_of_def)

lemma set_sequences_of: "n \<in> set (sequences_of i es) \<longleftrightarrow> (\<exists>e \<in> set es. ev_conversationId e = i \<and> ev_sequence e = n)"
  by (auto simp: sequences_of_def)

lemma log_numbered_fresh_number:
  assumes "log_numbered s" and "c \<in> set (conversations s)" and "e \<in> set (events s)"
    and "ev_conversationId e = cv_id c"
  shows "ev_sequence e \<le> cv_eventSequence c"
proof -
  have "mset (sequences_of (cv_id c) (events s)) = mset [1..<Suc (cv_eventSequence c)]"
    using assms(1,2) by (simp add: log_numbered_def)
  then have "set (sequences_of (cv_id c) (events s)) = set [1..<Suc (cv_eventSequence c)]"
    by (rule mset_eq_setD)
  moreover have "ev_sequence e \<in> set (sequences_of (cv_id c) (events s))"
    using assms(3,4) by (auto simp: set_sequences_of)
  ultimately have "ev_sequence e \<in> set [1..<Suc (cv_eventSequence c)]" by blast
  then show ?thesis by auto
qed

text \<open>Where an append goes: it fails on a bad configuration or a missing conversation, does nothing
  when no sink is enabled, and otherwise adds exactly one event.\<close>

definition appended :: "event_input \<Rightarrow> conversation \<Rightarrow> event_sink list \<Rightarrow> store \<Rightarrow> store" where
  "appended input c sinks s =
     (let eventId = id_source s (id_count s);
          c' = increment_sequence c;
          payload = event_payload_of input c' eventId
      in s\<lparr>conversations := update_where (\<lambda>c. cv_id c = ei_conversationId input) increment_sequence (conversations s),
           id_count := Suc (id_count s),
           events := update_where (\<lambda>e. ev_id e = eventId) (\<lambda>e. e\<lparr>ev_payload := Some payload\<rparr>)
             (events s @ [\<lparr>ev_id = eventId, ev_conversationId = cv_id c, ev_sequence = Suc (cv_eventSequence c),
               ev_type = ei_type input, ev_occurredAt = ei_occurredAt input, ev_payload = None,
               ev_createdAt = db_now s\<rparr>]),
           deliveries := deliveries s @ map (new_delivery (db_now s) eventId) sinks\<rparr>)"

lemma increment_sequence_simps [simp]:
  "cv_id (increment_sequence c) = cv_id c"
  "cv_eventSequence (increment_sequence c) = Suc (cv_eventSequence c)"
  "cv_state (increment_sequence c) = cv_state c"
  by (simp_all add: increment_sequence_def)

lemma appendConversationEvent_off:
  "getEnabledConversationEventSinks env = Inr [] \<Longrightarrow> appendConversationEvent env input s = (Inr None, s)"
  by (simp add: appendConversationEvent_def)

lemma appendConversationEvent_on:
  assumes "getEnabledConversationEventSinks env = Inr sinks" and "sinks \<noteq> []"
    and "log_numbered s" and "find_by cv_id (ei_conversationId input) (conversations s) = Some c"
  shows "appendConversationEvent env input s =
    (Inr (Some (event_payload_of input (increment_sequence c) (id_source s (id_count s)))),
     appended input c sinks s)"
proof -
  have c: "c \<in> set (conversations s)" "cv_id c = ei_conversationId input"
    using find_by_SomeD [OF assms(4)] by simp_all
  have "\<not> (\<exists>e \<in> set (events s). ev_conversationId e = cv_id c \<and> ev_sequence e = Suc (cv_eventSequence c))"
    using log_numbered_fresh_number [OF assms(3) c(1)] by fastforce
  then show ?thesis
    using assms(1,2,4) c(2)
    by (simp add: appendConversationEvent_def find_by_update_where insert_event_def draw_id_def
          appended_def Let_def)
qed

lemma appendConversationEvent_missing:
  assumes "getEnabledConversationEventSinks env = Inr sinks" and "sinks \<noteq> []"
    and "find_by cv_id (ei_conversationId input) (conversations s) = None"
  shows "appendConversationEvent env input s = (Inl (PrismaError ''P2025''), s)"
  using assms by (simp add: appendConversationEvent_def find_by_update_where)

lemma log_numbered_appended:
  assumes log: "log_numbered s" and found: "find_by cv_id (ei_conversationId input) (conversations s) = Some c"
  shows "log_numbered (appended input c sinks s)"
proof -
  have c: "c \<in> set (conversations s)" "cv_id c = ei_conversationId input"
    using find_by_SomeD [OF found] by simp_all
  have d: "distinct (map cv_id (conversations s))" using log by (simp add: log_numbered_def)
  have one: "sequences_of i [\<lparr>ev_id = x, ev_conversationId = j, ev_sequence = n, ev_type = k,
      ev_occurredAt = t, ev_payload = p, ev_createdAt = t'\<rparr>] = (if j = i then [n] else [])"
    for i j x n k t p t' by (auto simp: sequences_of_def)
  have num: "mset (sequences_of (cv_id a) (events s)) = mset [1..<Suc (cv_eventSequence a)]"
    if "a \<in> set (conversations s)" for a using log that by (simp add: log_numbered_def)
  have "mset (sequences_of (cv_id b) (events (appended input c sinks s))) = mset [1..<Suc (cv_eventSequence b)]"
    if "b \<in> set (conversations (appended input c sinks s))" for b
  proof -
    from that obtain a where a: "a \<in> set (conversations s)"
      and b: "b = (if cv_id a = ei_conversationId input then increment_sequence a else a)"
      by (auto simp: appended_def Let_def set_update_where)
    show ?thesis
    proof (cases "cv_id a = ei_conversationId input")
      case True
      then have "a = c" using c a by (intro distinct_key_unique [OF d]) simp_all
      then show ?thesis using b num [OF a] True c(2)
        by (simp add: appended_def Let_def one)
    next
      case False
      then show ?thesis using b num [OF a] c(2)
        by (simp add: appended_def Let_def one)
    qed
  qed
  moreover have "distinct (map cv_id (conversations (appended input c sinks s)))"
    using d by (simp add: appended_def Let_def map_update_where)
  ultimately show ?thesis by (simp add: log_numbered_def)
qed

text \<open>So every append keeps the numbering, whichever way it goes.\<close>

lemma appendConversationEvent_keeps: "io_keeps log_numbered (appendConversationEvent env input)"
  unfolding io_keeps_def
proof (intro allI impI)
  fix s assume s: "log_numbered s"
  show "log_numbered (snd (appendConversationEvent env input s))"
  proof (cases "getEnabledConversationEventSinks env")
    case (Inl e)
    then show ?thesis using s by (simp add: appendConversationEvent_def)
  next
    case (Inr sinks)
    show ?thesis
    proof (cases "sinks = []")
      case True
      with Inr s show ?thesis by (simp add: appendConversationEvent_off)
    next
      case False
      then show ?thesis
        using appendConversationEvent_on [OF Inr False s] appendConversationEvent_missing [OF Inr False]
          log_numbered_appended [OF s] s
        by (cases "find_by cv_id (ei_conversationId input) (conversations s)") auto
    qed
  qed
qed

text \<open>What an append leaves alone: every table but the three it writes, and of the conversations
  all but the counter.\<close>

lemma append_cases:
  obtains (unchanged) r where "appendConversationEvent env input s = (r, s)"
  | (written) r cs n es ds where
      "appendConversationEvent env input s =
         (r, s\<lparr>conversations := cs, id_count := n, events := es, deliveries := ds\<rparr>)"
      "cs = update_where (\<lambda>c. cv_id c = ei_conversationId input) increment_sequence (conversations s)"
proof (cases "appendConversationEvent env input s")
  case (Pair r t)
  have "t = s \<or> (\<exists>n es ds. t = s\<lparr>conversations :=
      update_where (\<lambda>c. cv_id c = ei_conversationId input) increment_sequence (conversations s),
      id_count := n, events := es, deliveries := ds\<rparr>)"
    using Pair
    by (cases s) (auto simp: appendConversationEvent_def insert_event_def draw_id_def Let_def
        split: sum.splits if_splits option.splits)
  with Pair that show thesis by (cases s) blast
qed

lemma append_frame:
  assumes "appendConversationEvent env input s = (r, t)"
  shows "messages t = messages s" "webhook_rows t = webhook_rows s" "outbox_batches t = outbox_batches s"
    "outbox_entries t = outbox_entries s" "attachments t = attachments s"
    "attachment_outbox t = attachment_outbox s" "aliases t = aliases s" "allowlist t = allowlist s"
    "tombstones t = tombstones s" "db_now t = db_now s" "id_source t = id_source s"
  using assms by (cases rule: append_cases [of env input s]; auto)+

lemma append_conversations:
  assumes "appendConversationEvent env input s = (r, t)"
  shows "map (\<lambda>c. c\<lparr>cv_eventSequence := 0\<rparr>) (conversations t) =
    map (\<lambda>c. c\<lparr>cv_eventSequence := 0\<rparr>) (conversations s)"
  using assms
  by (cases rule: append_cases [of env input s]) (auto simp: map_update_where increment_sequence_def)

lemma append_states:
  assumes "appendConversationEvent env input s = (r, t)"
  shows "map_option cv_state (find_by cv_id i (conversations t)) =
    map_option cv_state (find_by cv_id i (conversations s))"
  using assms
  by (cases rule: append_cases [of env input s])
    (auto simp: find_by_update_where option.map_comp comp_def increment_sequence_def if_distrib cong: if_cong)

lemma append_id_states:
  assumes "appendConversationEvent env input s = (r, t)"
  shows "map (\<lambda>c. (cv_id c, cv_state c)) (conversations t) = map (\<lambda>c. (cv_id c, cv_state c)) (conversations s)"
  using assms
  by (cases rule: append_cases [of env input s]) (auto simp: map_update_where increment_sequence_def)

section \<open>Properties\<close>

definition nats_on :: environment where
  "nats_on name = (if name = ''CONVERSATION_EVENTS_SINKS'' then Some '' nats '' else None)"

lemma nats_on_enabled: "getEnabledConversationEventSinks nats_on = Inr [NATS]"
  by code_simp

definition sample_log :: store where
  "sample_log = empty_store\<lparr>conversations := [plain_conversation ''c1'' AWAITING_US]\<rparr>"

lemma sample_log_numbered: "log_numbered sample_log"
  by (simp add: log_numbered_def sample_log_def plain_conversation_def empty_store_def sequences_of_def)

text \<open>C33: the event log of every conversation is numbered 1, 2, 3, ... without gaps and duplicates, and an
  append keeps it so, whichever way it goes: with the sinks off, on, misconfigured, or for a
  conversation that does not exist.\<close>

theorem event_log_stays_numbered:
  assumes "distinct (map cv_id (conversations s))"
    and "\<forall>c \<in> set (conversations s). mset (sequences_of (cv_id c) (events s)) = mset [1..<Suc (cv_eventSequence c)]"
  shows "\<forall>c \<in> set (conversations (snd (appendConversationEvent env input s))).
    mset (sequences_of (cv_id c) (events (snd (appendConversationEvent env input s)))) = mset [1..<Suc (cv_eventSequence c)]"
proof -
  have "log_numbered s" using assms by (simp add: log_numbered_def)
  then have "log_numbered (snd (appendConversationEvent env input s))"
    using appendConversationEvent_keeps by (simp add: io_keeps_def)
  then show ?thesis by (simp add: log_numbered_def)
qed

theorem event_log_stays_numbered_witness:
  "\<exists>c \<in> set (conversations (snd (appendConversationEvent nats_on (plain_event ''c1'' CREATED 5 ServiceActor ''x'') sample_log))).
    mset (sequences_of (cv_id c) (events (snd (appendConversationEvent nats_on (plain_event ''c1'' CREATED 5 ServiceActor ''x'') sample_log))))
      = mset [1..<Suc (cv_eventSequence c)]"
proof -
  let ?t = "snd (appendConversationEvent nats_on (plain_event ''c1'' CREATED 5 ServiceActor ''x'') sample_log)"
  have "conversations ?t \<noteq> []" by code_simp
  then have "hd (conversations ?t) \<in> set (conversations ?t)" by simp
  moreover have "\<forall>c \<in> set (conversations ?t). mset (sequences_of (cv_id c) (events ?t)) = mset [1..<Suc (cv_eventSequence c)]"
    by (rule event_log_stays_numbered) (use sample_log_numbered in \<open>simp_all add: log_numbered_def\<close>)
  ultimately show ?thesis by blast
qed

text \<open>An append that returns a payload has written exactly that event. Its number is the next of the
  conversation and the new counter, the stored event carries the payload, and one unpublished
  delivery is queued for the one sink there is.\<close>

theorem append_writes_one_event:
  assumes "log_numbered s" and "appendConversationEvent env input s = (Inr (Some payload), t)"
  shows "\<exists>c e. find_by cv_id (ei_conversationId input) (conversations s) = Some c
    \<and> ep_sequence payload = cv_eventSequence c + 1
    \<and> map_option cv_eventSequence (find_by cv_id (ei_conversationId input) (conversations t)) = Some (ep_sequence payload)
    \<and> length (events t) = length (events s) + 1 \<and> e \<in> set (events t) \<and> ev_id e = ep_id payload
    \<and> ev_sequence e = ep_sequence payload \<and> ev_conversationId e = ep_conversationId payload \<and> ev_payload e = Some payload
    \<and> deliveries t = deliveries s @ [new_delivery (db_now s) (ep_id payload) NATS]"
proof -
  obtain sinks where sinks: "getEnabledConversationEventSinks env = Inr sinks" "sinks \<noteq> []"
    using assms(2) by (auto simp: appendConversationEvent_def split: sum.splits if_splits)
  then have nats: "sinks = [NATS]" using enabled_sinks_cases by blast
  obtain c where c: "find_by cv_id (ei_conversationId input) (conversations s) = Some c"
    using assms(2) appendConversationEvent_missing [OF sinks] by fastforce
  note run = appendConversationEvent_on [OF sinks assms(1) c]
  have cid: "cv_id c = ei_conversationId input" using find_by_SomeD [OF c] by simp
  let ?e = "\<lparr>ev_id = id_source s (id_count s), ev_conversationId = cv_id c, ev_sequence = Suc (cv_eventSequence c),
    ev_type = ei_type input, ev_occurredAt = ei_occurredAt input, ev_payload = Some payload, ev_createdAt = db_now s\<rparr>"
  have "?e \<in> set (events t)"
    using assms(2) run by (auto simp: appended_def Let_def set_update_where)
  then show ?thesis
    using assms(2) run c cid nats
    by (intro exI [of _ c] exI [of _ ?e])
      (auto simp: appended_def Let_def find_by_update_where event_payload_of_def)
qed

theorem append_writes_one_event_witness:
  "\<exists>payload t. appendConversationEvent nats_on (plain_event ''c1'' CREATED 5 ServiceActor ''x'') sample_log = (Inr (Some payload), t)
    \<and> ep_sequence payload = 1 \<and> length (deliveries t) = 1"
proof -
  have c: "find_by cv_id ''c1'' (conversations sample_log) = Some (plain_conversation ''c1'' AWAITING_US)"
    by (simp add: sample_log_def plain_conversation_def)
  obtain payload t where
    run: "appendConversationEvent nats_on (plain_event ''c1'' CREATED 5 ServiceActor ''x'') sample_log = (Inr (Some payload), t)"
    using appendConversationEvent_on [OF nats_on_enabled _ sample_log_numbered,
        of "plain_event ''c1'' CREATED 5 ServiceActor ''x''"] c
    by (simp add: plain_event_def)
  from append_writes_one_event [OF sample_log_numbered run] run show ?thesis
    by (auto simp: sample_log_def plain_conversation_def plain_event_def empty_store_def)
qed

end
