(* ===== verification/Delivery.thy ===== *)
theory Delivery
  imports Conversation_Events
begin

text \<open>
  \<open>src/lib/email/delivery.ts\<close> and the event shapes of \<open>src/lib/email/webhook.ts\<close> it reads: the
  delivery state of an outbound message, recomputed from all webhook rows about it each time one
  arrives. The advisory lock that opens the projection serialises the projections of one email;
  the model runs one projection at a time, so the lock has no effect on the store.
\<close>

section \<open>Webhook events\<close>

record bounce_data =
  bd_message :: "string option"
  bd_diagnosticCode :: "string list option"
  bd_type :: "string option"

record suppressed_data =
  sd_message :: "string option"
  sd_type :: "string option"

record email_webhook_event =
  wh_type :: string
  wh_bounce :: "bounce_data option"
  wh_failed :: "string option option" \<comment> \<open>\<open>failed?.reason\<close>\<close>
  wh_suppressed :: "suppressed_data option"

definition DELIVERY_EVENT_TYPES :: "string list" where
  "DELIVERY_EVENT_TYPES =
     [''email.delivered'', ''email.delivery_delayed'', ''email.bounced'', ''email.complained'',
      ''email.suppressed'', ''email.failed'']"

definition DELIVERY_STATE_BY_EVENT_TYPE :: "(string \<times> delivery_state) list" where
  "DELIVERY_STATE_BY_EVENT_TYPE =
     [(''email.delivered'', DELIVERED), (''email.delivery_delayed'', DELIVERY_DELAYED),
      (''email.bounced'', BOUNCED), (''email.complained'', COMPLAINED),
      (''email.suppressed'', SUPPRESSED), (''email.failed'', DELIVERY_FAILED)]"

definition UNREACHABLE_DELIVERY_STATES :: "delivery_state list" where
  "UNREACHABLE_DELIVERY_STATES = [BOUNCED, COMPLAINED, SUPPRESSED]"

definition isDeliveryEventType :: "string \<Rightarrow> bool" where
  "isDeliveryEventType type \<longleftrightarrow> type \<in> set DELIVERY_EVENT_TYPES"

definition isUnreachableState :: "delivery_state \<Rightarrow> bool" where
  "isUnreachableState state \<longleftrightarrow> state \<in> set UNREACHABLE_DELIVERY_STATES"

definition delivery_state_name :: "delivery_state \<Rightarrow> string" where
  \<comment> \<open>the string that is the enum's value\<close>
  "delivery_state_name st =
     (case st of
        UNKNOWN \<Rightarrow> ''UNKNOWN'' | DELIVERED \<Rightarrow> ''DELIVERED'' | DELIVERY_DELAYED \<Rightarrow> ''DELIVERY_DELAYED''
      | BOUNCED \<Rightarrow> ''BOUNCED'' | COMPLAINED \<Rightarrow> ''COMPLAINED'' | SUPPRESSED \<Rightarrow> ''SUPPRESSED''
      | DELIVERY_FAILED \<Rightarrow> ''FAILED'')"

definition bounce_detail :: "bounce_data \<Rightarrow> string option" where
  "bounce_detail b =
     js_coalesce (bd_message b)
       (js_coalesce (map_option (js_join [CHR 0x0A]) (bd_diagnosticCode b)) (bd_type b))"

definition getDeliveryDetail :: "email_webhook_event \<Rightarrow> string option" where
  "getDeliveryDetail event =
     (if wh_type event = ''email.bounced'' then Option.bind (wh_bounce event) bounce_detail
      else if wh_type event = ''email.failed'' then Option.bind (wh_failed event) (\<lambda>reason. reason)
      else if wh_type event = ''email.suppressed'' then
        Option.bind (wh_suppressed event) (\<lambda>d. js_coalesce (sd_message d) (sd_type d))
      else None)"

section \<open>The projection\<close>

record delivery_status =
  ds_state :: delivery_state
  ds_detail :: "string option"
  ds_eventCreatedAt :: instant

definition earlierDate :: "instant option \<Rightarrow> instant \<Rightarrow> instant" where
  "earlierDate left right = (case left of Some l \<Rightarrow> if l \<le> right then l else right | None \<Rightarrow> right)"

definition reduce_step ::
  "delivery_status option \<times> instant option \<Rightarrow> email_webhook_row \<Rightarrow> delivery_status option \<times> instant option"
where
  "reduce_step acc event =
     (let (current, deliveredAt) = acc
      in if \<not> isDeliveryEventType (we_eventType event) then (current, deliveredAt)
         else
           (case map_of DELIVERY_STATE_BY_EVENT_TYPE (we_eventType event) of
              None \<Rightarrow> (current, deliveredAt) \<comment> \<open>no such key: excluded by the test above\<close>
            | Some state \<Rightarrow>
                (let deliveredAt' =
                       (if state = DELIVERED then Some (earlierDate deliveredAt (we_eventCreatedAt event))
                        else deliveredAt);
                     masked =
                       (state = DELIVERY_DELAYED
                        \<and> (case current of Some c \<Rightarrow> ds_state c \<noteq> DELIVERY_DELAYED | None \<Rightarrow> False))
                 in (if masked then current
                     else Some \<lparr>ds_state = state, ds_detail = we_deliveryDetail event,
                                ds_eventCreatedAt = we_eventCreatedAt event\<rparr>,
                     deliveredAt'))))"

definition reduceDeliveryEvents :: "email_webhook_row list \<Rightarrow> delivery_status option \<times> instant option" where
  "reduceDeliveryEvents rows = foldl reduce_step (None, None) rows"

definition webhook_order :: "email_webhook_row \<Rightarrow> instant \<times> instant \<times> uuid" where
  "webhook_order e = (we_eventCreatedAt e, we_webhookReceivedAt e, we_id e)"

definition delivery_rows :: "string \<Rightarrow> store \<Rightarrow> email_webhook_row list" where
  \<comment> \<open>the \<open>findMany\<close>\<close>
  "delivery_rows resendEmailId s =
     sort_key webhook_order
       (filter (\<lambda>e. we_emailId e = resendEmailId \<and> we_eventType e \<in> set DELIVERY_EVENT_TYPES) (webhook_rows s))"

definition sent_as :: "string \<Rightarrow> message \<Rightarrow> bool" where
  \<comment> \<open>the WHERE clause of the two message statements\<close>
  "sent_as resendEmailId m \<longleftrightarrow> ms_direction m = OUTBOUND \<and> ms_resendEmailId m = Some resendEmailId"

definition record_delivery :: "delivery_status \<Rightarrow> instant option \<Rightarrow> message \<Rightarrow> message" where
  "record_delivery current deliveredAt m =
     m\<lparr>ms_deliveryState := Some (ds_state current), ms_deliveryStateDetail := ds_detail current,
       ms_deliveryStateUpdatedAt := Some (ds_eventCreatedAt current), ms_deliveredAt := deliveredAt\<rparr>"

definition delivery_updated_event :: "uuid \<Rightarrow> message \<Rightarrow> delivery_status \<Rightarrow> event_input" where
  "delivery_updated_event conversationId m current =
     (plain_event conversationId MESSAGE_DELIVERY_UPDATED (ds_eventCreatedAt current) SystemActor
        ''resend_delivery_webhook'')
       \<lparr>ei_messageId := Some (ms_id m), ei_deliveryState := Some (js_toLower (delivery_state_name (ds_state current)))\<rparr>"

definition unreachable_event :: "uuid \<Rightarrow> conversation_state option \<Rightarrow> delivery_status \<Rightarrow> event_input" where
  "unreachable_event conversationId stateBefore current =
     (plain_event conversationId STATE_CHANGED (ds_eventCreatedAt current) SystemActor ''unreachable_delivery'')
       \<lparr>ei_state := Some (map_option (\<lambda>st. js_toLower (state_name st)) stateBefore, ''terminated'')\<rparr>"

definition announce_delivery ::
  "environment \<Rightarrow> message option \<Rightarrow> delivery_status \<Rightarrow> unit io"
where
  "announce_delivery env messageBefore current =
     (case messageBefore of
        Some m \<Rightarrow>
          (case ms_conversationId m of
             Some conversationId \<Rightarrow>
               if ms_deliveryState m \<noteq> Some (ds_state current)
               then io_bind (appendConversationEvent env (delivery_updated_event conversationId m current))
                      (\<lambda>_. io_return ())
               else io_return ()
           | None \<Rightarrow> io_return ())
      | None \<Rightarrow> io_return ())"

definition terminate_unreachable ::
  "environment \<Rightarrow> message option \<Rightarrow> conversation_state option \<Rightarrow> delivery_status \<Rightarrow> unit io"
where
  "terminate_unreachable env messageBefore stateBefore current =
     (if \<not> isUnreachableState (ds_state current) then io_return ()
      else
        (case Option.bind messageBefore ms_conversationId of
           None \<Rightarrow> io_return ()
         | Some conversationId \<Rightarrow>
             io_bind (markConversationTerminated conversationId (ds_eventCreatedAt current))
               (\<lambda>stateChanged.
                  if stateChanged
                  then io_bind (appendConversationEvent env (unreachable_event conversationId stateBefore current))
                         (\<lambda>_. io_return ())
                  else io_return ())))"

definition projectOutboundDeliveryStateForResendEmail :: "environment \<Rightarrow> string \<Rightarrow> unit io" where
  "projectOutboundDeliveryStateForResendEmail env resendEmailId s =
     (case reduceDeliveryEvents (delivery_rows resendEmailId s) of
        (None, _) \<Rightarrow> (Inr (), s)
      | (Some current, deliveredAt) \<Rightarrow>
          (let messageBefore = find (sent_as resendEmailId) (messages s);
               stateBefore =
                 Option.bind (Option.bind messageBefore ms_conversationId)
                   (\<lambda>i. map_option cv_state (find_by cv_id i (conversations s)))
           in io_bind (io_modify (\<lambda>s. s\<lparr>messages :=
                  update_where (sent_as resendEmailId) (record_delivery current deliveredAt) (messages s)\<rparr>))
                (\<lambda>_. io_bind (announce_delivery env messageBefore current)
                  (\<lambda>_. terminate_unreachable env messageBefore stateBefore current)) s))"

definition reconcileOutboundDeliveryState :: "environment \<Rightarrow> string \<Rightarrow> unit io" where
  "reconcileOutboundDeliveryState env resendEmailId = projectOutboundDeliveryStateForResendEmail env resendEmailId"

section \<open>What the reduction computes\<close>

definition is_event :: "delivery_state \<Rightarrow> email_webhook_row \<Rightarrow> bool" where
  "is_event st e \<longleftrightarrow> map_of DELIVERY_STATE_BY_EVENT_TYPE (we_eventType e) = Some st"

definition status_of :: "email_webhook_row \<Rightarrow> delivery_status option" where
  "status_of e =
     map_option (\<lambda>st. \<lparr>ds_state = st, ds_detail = we_deliveryDetail e, ds_eventCreatedAt = we_eventCreatedAt e\<rparr>)
       (map_of DELIVERY_STATE_BY_EVENT_TYPE (we_eventType e))"

text \<open>A decisive event is any delivery event but a delay.\<close>

definition decisive :: "email_webhook_row \<Rightarrow> bool" where
  "decisive e \<longleftrightarrow> isDeliveryEventType (we_eventType e) \<and> \<not> is_event DELIVERY_DELAYED e"

lemma delivery_type_state: "isDeliveryEventType t \<longleftrightarrow> (\<exists>st. map_of DELIVERY_STATE_BY_EVENT_TYPE t = Some st)"
  by (simp add: isDeliveryEventType_def DELIVERY_EVENT_TYPES_def DELIVERY_STATE_BY_EVENT_TYPE_def)

lemma reduce_deliveredAt:
  "snd (reduceDeliveryEvents es) =
     (if filter (is_event DELIVERED) es = [] then None
      else Some (Min (we_eventCreatedAt ` set (filter (is_event DELIVERED) es))))"
proof (induction es rule: rev_induct)
  case (snoc e es)
  obtain cur del where acc: "reduceDeliveryEvents es = (cur, del)" by fastforce
  show ?case
  proof (cases "is_event DELIVERED e")
    case True
    then have "isDeliveryEventType (we_eventType e)" by (auto simp: is_event_def delivery_type_state)
    then have "snd (reduceDeliveryEvents (es @ [e])) = Some (earlierDate del (we_eventCreatedAt e))"
      using True acc by (simp add: reduceDeliveryEvents_def reduce_step_def is_event_def Let_def)
    moreover have "earlierDate del (we_eventCreatedAt e) =
        Min (we_eventCreatedAt ` set (filter (is_event DELIVERED) (es @ [e])))"
    proof (cases "filter (is_event DELIVERED) es = []")
      case False
      then have "finite (we_eventCreatedAt ` set (filter (is_event DELIVERED) es))"
        "we_eventCreatedAt ` set (filter (is_event DELIVERED) es) \<noteq> {}"
        by (auto simp: filter_empty_conv)
      then have "Min (insert (we_eventCreatedAt e) (we_eventCreatedAt ` set (filter (is_event DELIVERED) es))) =
          min (we_eventCreatedAt e) (Min (we_eventCreatedAt ` set (filter (is_event DELIVERED) es)))"
        by (rule Min_insert)
      with False snoc.IH acc True show ?thesis
        by (simp add: earlierDate_def min_def)
    qed (use snoc.IH acc True in \<open>simp add: earlierDate_def\<close>)
    ultimately show ?thesis using True by simp
  next
    case False
    then have "snd (reduceDeliveryEvents (es @ [e])) = snd (reduceDeliveryEvents es)"
      using acc
      by (auto simp: reduceDeliveryEvents_def reduce_step_def is_event_def Let_def split: option.splits)
    with False snoc.IH show ?thesis by simp
  qed
qed (simp add: reduceDeliveryEvents_def)

lemma reduce_current:
  "fst (reduceDeliveryEvents es) =
     (case js_at_last (filter decisive es) of
        Some e \<Rightarrow> status_of e
      | None \<Rightarrow> Option.bind (js_at_last (filter (is_event DELIVERY_DELAYED) es)) status_of)"
proof (induction es rule: rev_induct)
  case (snoc e es)
  obtain cur del where acc: "reduceDeliveryEvents es = (cur, del)" by fastforce
  have step: "fst (reduceDeliveryEvents (es @ [e])) = fst (reduce_step (cur, del) e)"
    using acc by (simp add: reduceDeliveryEvents_def)
  have cur: "case cur of Some c \<Rightarrow> ds_state c \<noteq> DELIVERY_DELAYED \<longleftrightarrow> filter decisive es \<noteq> []
      | None \<Rightarrow> filter decisive es = []"
  proof (cases "js_at_last (filter decisive es)")
    case None
    then show ?thesis using snoc.IH acc
      by (auto simp: status_of_def is_event_def bind_eq_Some_conv split: option.splits
               dest!: js_at_last_SomeD)
  next
    case (Some d)
    then have "decisive d" "filter decisive es \<noteq> []" using js_at_last_SomeD by fastforce+
    then obtain st where "map_of DELIVERY_STATE_BY_EVENT_TYPE (we_eventType d) = Some st" "st \<noteq> DELIVERY_DELAYED"
      by (auto simp: decisive_def delivery_type_state is_event_def)
    moreover have "cur = status_of d" using snoc.IH acc Some by simp
    ultimately show ?thesis using \<open>filter decisive es \<noteq> []\<close> by (simp add: status_of_def)
  qed
  consider (other) "\<not> isDeliveryEventType (we_eventType e)" | (delay) "is_event DELIVERY_DELAYED e"
    | (dec) "decisive e" by (auto simp: decisive_def)
  then show ?case
  proof cases
    case other
    then have "\<not> is_event DELIVERY_DELAYED e" "\<not> decisive e"
      by (auto simp: is_event_def delivery_type_state decisive_def)
    with other snoc.IH acc show ?thesis by (simp add: step reduce_step_def cong: option.case_cong)
  next
    case delay
    then have "isDeliveryEventType (we_eventType e)" "\<not> decisive e"
      by (auto simp: is_event_def delivery_type_state decisive_def)
    moreover have "map_of DELIVERY_STATE_BY_EVENT_TYPE (we_eventType e) = Some DELIVERY_DELAYED"
      using delay by (simp add: is_event_def)
    moreover have "status_of e = Some \<lparr>ds_state = DELIVERY_DELAYED, ds_detail = we_deliveryDetail e,
        ds_eventCreatedAt = we_eventCreatedAt e\<rparr>"
      using delay by (simp add: is_event_def status_of_def)
    ultimately have now: "fst (reduceDeliveryEvents (es @ [e])) =
        (if case cur of Some c \<Rightarrow> ds_state c \<noteq> DELIVERY_DELAYED | None \<Rightarrow> False then cur else status_of e)"
      by (simp add: step reduce_step_def Let_def)
    have fs: "filter decisive (es @ [e]) = filter decisive es"
      "js_at_last (filter (is_event DELIVERY_DELAYED) (es @ [e])) = Some e"
      using delay \<open>\<not> decisive e\<close> by simp_all
    show ?thesis
    proof (cases "filter decisive es = []")
      case True
      with cur have "fst (reduceDeliveryEvents (es @ [e])) = status_of e"
        by (simp add: now split: option.splits)
      with True show ?thesis
        by (simp only: fs js_at_last_simps option.case Option.bind.simps)
    next
      case False
      then obtain d where "js_at_last (filter decisive es) = Some d" by (auto simp: js_at_last_def)
      with False cur snoc.IH acc have "fst (reduceDeliveryEvents (es @ [e])) = status_of d"
        by (auto simp: now split: option.splits)
      with \<open>js_at_last (filter decisive es) = Some d\<close> show ?thesis by (simp only: fs option.case)
    qed
  next
    case dec
    then obtain st where "map_of DELIVERY_STATE_BY_EVENT_TYPE (we_eventType e) = Some st" "st \<noteq> DELIVERY_DELAYED"
      by (auto simp: decisive_def is_event_def delivery_type_state)
    with dec show ?thesis
      by (simp add: step reduce_step_def decisive_def status_of_def Let_def)
  qed
qed (simp add: reduceDeliveryEvents_def)

text \<open>The rows are read in a total order, so only which rows there are matters.\<close>

lemma delivery_rows_permutation:
  assumes "mset (webhook_rows s) = mset (webhook_rows t)" and "distinct (map we_id (webhook_rows s))"
  shows "delivery_rows r s = delivery_rows r t"
  unfolding delivery_rows_def
proof (rule sort_key_inj_key_eq)
  let ?P = "\<lambda>e. we_emailId e = r \<and> we_eventType e \<in> set DELIVERY_EVENT_TYPES"
  show "mset (filter ?P (webhook_rows s)) = mset (sort_key webhook_order (filter ?P (webhook_rows t)))"
    using assms(1) by simp
  show "inj_on webhook_order (set (filter ?P (webhook_rows s)))"
    using assms(2) by (auto simp: webhook_order_def distinct_map inj_on_def)
qed simp

section \<open>What the projection writes\<close>

lemma record_delivery_simps [simp]:
  "ms_id (record_delivery c d m) = ms_id m"
  "ms_conversationId (record_delivery c d m) = ms_conversationId m"
  "ms_state (record_delivery c d m) = ms_state m"
  "ms_deliveryState (record_delivery c d m) = Some (ds_state c)"
  "sent_as r (record_delivery c d m) = sent_as r m"
  "record_delivery c d (record_delivery c d m) = record_delivery c d m"
  by (simp_all add: record_delivery_def sent_as_def)

lemma update_where_idem:
  "(\<And>r. P (f r) = P r) \<Longrightarrow> (\<And>r. f (f r) = f r) \<Longrightarrow> update_where P f (update_where P f rs) = update_where P f rs"
  by (induction rs) auto

lemma find_update_where:
  "(\<And>r. P (f r) = P r) \<Longrightarrow> find P (update_where P f rs) = map_option f (find P rs)"
  by (induction rs) auto

lemma announce_frame:
  assumes "announce_delivery env mb c s = (r, t)"
  shows "messages t = messages s" "webhook_rows t = webhook_rows s"
    "map_option cv_state (find_by cv_id i (conversations t)) = map_option cv_state (find_by cv_id i (conversations s))"
  using assms
  by (auto simp: announce_delivery_def io_bind_def append_frame append_states
      split: option.splits if_splits sum.splits prod.splits)

lemma terminate_frame:
  assumes "terminate_unreachable env mb sb c s = (r, t)"
  shows "messages t = messages s" "webhook_rows t = webhook_rows s"
  using assms
  by (auto simp: terminate_unreachable_def io_bind_def markConversationTerminated_def Let_def append_frame
      split: option.splits if_splits sum.splits prod.splits)

lemma markTerminated_state:
  assumes "markConversationTerminated i now s = (r, t)"
  shows "map_option cv_state (find_by cv_id i (conversations t)) =
    map_option (\<lambda>_. TERMINATED) (find_by cv_id i (conversations s))"
  using find_markTerminated [of i i now s] assms
  by (auto simp: set_state_def option.map_comp comp_def dest: find_by_SomeD intro!: option.map_cong)

text \<open>An unreachable participant terminates the conversation.\<close>

lemma terminate_unreachable_state:
  assumes "terminate_unreachable env (Some m) sb c s = (Inr (), t)"
    and "isUnreachableState (ds_state c)" and "ms_conversationId m = Some i"
  shows "map_option cv_state (find_by cv_id i (conversations t)) =
    map_option (\<lambda>_. TERMINATED) (find_by cv_id i (conversations s))"
proof -
  obtain b s1 where m: "markConversationTerminated i (ds_eventCreatedAt c) s = (Inr b, s1)"
    by (simp add: markConversationTerminated_def Let_def)
  have "map_option cv_state (find_by cv_id i (conversations t)) =
      map_option cv_state (find_by cv_id i (conversations s1))"
    using assms m
    by (auto simp: terminate_unreachable_def io_bind_def append_states
        split: if_splits sum.splits prod.splits)
  with markTerminated_state [OF m] show ?thesis by simp
qed

lemma all_terminated_map:
  "(\<forall>c \<in> set cs. cv_id c = i \<longrightarrow> cv_state c = TERMINATED) \<longleftrightarrow>
     (\<forall>(k, st) \<in> set (map (\<lambda>c. (cv_id c, cv_state c)) cs). k = i \<longrightarrow> st = TERMINATED)"
  by auto

lemma terminate_unreachable_all:
  assumes run: "terminate_unreachable env (Some m) sb c s = (Inr (), t)"
    and "isUnreachableState (ds_state c)" and "ms_conversationId m = Some i"
  shows "\<forall>v \<in> set (conversations t). cv_id v = i \<longrightarrow> cv_state v = TERMINATED"
proof -
  obtain b s1 where m: "markConversationTerminated i (ds_eventCreatedAt c) s = (Inr b, s1)"
    by (simp add: markConversationTerminated_def Let_def)
  have "\<forall>v \<in> set (conversations s1). cv_id v = i \<longrightarrow> cv_state v = TERMINATED"
  proof
    fix v assume "v \<in> set (conversations s1)"
    moreover have "s1 = snd (markConversationTerminated i (ds_eventCreatedAt c) s)" using m by simp
    ultimately have "v \<in> (\<lambda>u. if cv_id u = i \<and> cv_state u \<noteq> TERMINATED
        then set_state TERMINATED (ds_eventCreatedAt c) u else u) ` set (conversations s)"
      by (simp add: markConversationTerminated_def Let_def set_update_where)
    then obtain u where "v = (if cv_id u = i \<and> cv_state u \<noteq> TERMINATED
        then set_state TERMINATED (ds_eventCreatedAt c) u else u)"
      by (rule imageE)
    then show "cv_id v = i \<longrightarrow> cv_state v = TERMINATED" by (simp add: set_state_def)
  qed
  moreover have "map (\<lambda>c. (cv_id c, cv_state c)) (conversations t) = map (\<lambda>c. (cv_id c, cv_state c)) (conversations s1)"
    using assms m
    by (auto simp: terminate_unreachable_def io_bind_def append_id_states
        split: if_splits sum.splits prod.splits)
  ultimately show ?thesis unfolding all_terminated_map by simp
qed

lemma markTerminated_idle:
  "\<forall>v \<in> set (conversations s). cv_id v = i \<longrightarrow> cv_state v = TERMINATED \<Longrightarrow>
     markConversationTerminated i now s = (Inr False, s)"
  by (auto simp: markConversationTerminated_def Let_def count_where_0 update_where_none)

text \<open>A run of the projection, step by step.\<close>

lemma project_InrE:
  assumes "projectOutboundDeliveryStateForResendEmail env r s = (Inr (), t)"
  obtains (nothing) "fst (reduceDeliveryEvents (delivery_rows r s)) = None" "t = s"
  | (projected) c d s1 sb where
      "reduceDeliveryEvents (delivery_rows r s) = (Some c, d)"
      "announce_delivery env (find (sent_as r) (messages s)) c
         (s\<lparr>messages := update_where (sent_as r) (record_delivery c d) (messages s)\<rparr>) = (Inr (), s1)"
      "terminate_unreachable env (find (sent_as r) (messages s)) sb c s1 = (Inr (), t)"
proof (cases "reduceDeliveryEvents (delivery_rows r s)")
  case (Pair cur d)
  show ?thesis
  proof (cases cur)
    case None
    show ?thesis
      by (rule nothing) (use Pair None assms in
          \<open>simp_all add: projectOutboundDeliveryStateForResendEmail_def\<close>)
  next
    case (Some c)
    let ?s0 = "s\<lparr>messages := update_where (sent_as r) (record_delivery c d) (messages s)\<rparr>"
    from Pair Some assms obtain sb where
      run: "io_bind (announce_delivery env (find (sent_as r) (messages s)) c)
        (\<lambda>_. terminate_unreachable env (find (sent_as r) (messages s)) sb c) ?s0 = (Inr (), t)"
      by (simp add: projectOutboundDeliveryStateForResendEmail_def Let_def io_bind_Inr [OF io_eval(3)])
    show ?thesis
      by (rule io_bind_InrE [OF run]) (rule projected [of c d], use Pair Some in simp_all)
  qed
qed

lemma project_messages:
  assumes "projectOutboundDeliveryStateForResendEmail env r s = (Inr (), t)"
    and "reduceDeliveryEvents (delivery_rows r s) = (Some c, d)"
  shows "messages t = update_where (sent_as r) (record_delivery c d) (messages s)"
  using assms(1)
  by (cases rule: project_InrE) (use assms(2) in \<open>auto simp: announce_frame terminate_frame\<close>)

lemma project_webhook_rows:
  assumes "projectOutboundDeliveryStateForResendEmail env r s = (Inr (), t)"
  shows "webhook_rows t = webhook_rows s"
  using assms by (cases rule: project_InrE) (auto simp: announce_frame terminate_frame)

text \<open>Projecting again, with no new webhook row, changes nothing and says nothing.\<close>

lemma project_replay:
  assumes run: "projectOutboundDeliveryStateForResendEmail env r s = (Inr (), t)"
  shows "projectOutboundDeliveryStateForResendEmail env r t = (Inr (), t)"
  using run
proof (cases rule: project_InrE)
  case nothing
  with run show ?thesis by simp
next
  case (projected c d s1 sb)
  have rows: "delivery_rows r t = delivery_rows r s"
    by (simp add: delivery_rows_def project_webhook_rows [OF run])
  have msgs: "messages t = update_where (sent_as r) (record_delivery c d) (messages s)"
    by (rule project_messages [OF run projected(1)])
  have found: "find (sent_as r) (messages t) = map_option (record_delivery c d) (find (sent_as r) (messages s))"
    unfolding msgs by (rule find_update_where) simp
  have same: "t\<lparr>messages := update_where (sent_as r) (record_delivery c d) (messages t)\<rparr> = t"
    unfolding msgs by (subst update_where_idem) (simp_all add: msgs [symmetric])
  have quiet: "announce_delivery env (find (sent_as r) (messages t)) c t = (Inr (), t)"
    unfolding found by (auto simp: announce_delivery_def split: option.splits)
  have "terminate_unreachable env (find (sent_as r) (messages t)) sb' c t = (Inr (), t)" for sb'
  proof (cases "find (sent_as r) (messages s)")
    case None
    then show ?thesis by (simp add: found terminate_unreachable_def)
  next
    case (Some m)
    show ?thesis
    proof (cases "isUnreachableState (ds_state c) \<and> ms_conversationId m \<noteq> None")
      case False
      then show ?thesis using Some by (auto simp: found terminate_unreachable_def)
    next
      case True
      then obtain i where i: "ms_conversationId m = Some i" by auto
      have "\<forall>v \<in> set (conversations t). cv_id v = i \<longrightarrow> cv_state v = TERMINATED"
        using projected(3) True i unfolding Some by (intro terminate_unreachable_all) simp_all
      then show ?thesis using Some True i
        by (simp add: found terminate_unreachable_def io_bind_def markTerminated_idle)
    qed
  qed
  then show ?thesis
    using projected(1) quiet
    by (simp add: projectOutboundDeliveryStateForResendEmail_def rows Let_def io_bind_def same)
qed

text \<open>What any run of the projection, even one that throws, does to the tables of the senders.\<close>

lemma announce_outbox:
  assumes "announce_delivery env mb c s = (r, t)"
  shows "outbox_batches t = outbox_batches s" "outbox_entries t = outbox_entries s"
    "attachment_outbox t = attachment_outbox s" "attachments t = attachments s"
  using assms
  by (auto simp: announce_delivery_def io_bind_def append_frame
      split: option.splits if_splits sum.splits prod.splits)

lemma terminate_outbox:
  assumes "terminate_unreachable env mb sb c s = (r, t)"
  shows "outbox_batches t = outbox_batches s" "outbox_entries t = outbox_entries s"
    "attachment_outbox t = attachment_outbox s" "attachments t = attachments s"
  using assms
  by (auto simp: terminate_unreachable_def io_bind_def markConversationTerminated_def Let_def append_frame
      split: option.splits if_splits sum.splits prod.splits)

lemma reconcile_keeps:
  assumes upd: "\<And>c d s. I s \<Longrightarrow> I (s\<lparr>messages := update_where (sent_as r) (record_delivery c d) (messages s)\<rparr>)"
    and frame: "\<And>s t. I s \<Longrightarrow> messages t = messages s \<Longrightarrow> outbox_batches t = outbox_batches s \<Longrightarrow>
      outbox_entries t = outbox_entries s \<Longrightarrow> attachment_outbox t = attachment_outbox s \<Longrightarrow> I t"
  shows "io_keeps I (reconcileOutboundDeliveryState env r)"
proof -
  have a: "io_keeps I (announce_delivery env mb c)" for mb c
    unfolding io_keeps_def using frame announce_frame(1) announce_outbox(1-3) by (metis prod.collapse)
  have t: "io_keeps I (terminate_unreachable env mb sb c)" for mb sb c
    unfolding io_keeps_def using frame terminate_frame(1) terminate_outbox(1-3) by (metis prod.collapse)
  have "I (snd (projectOutboundDeliveryStateForResendEmail env r s))" if s: "I s" for s
  proof (cases "reduceDeliveryEvents (delivery_rows r s)")
    case (Pair cur d)
    show ?thesis
    proof (cases cur)
      case None
      with Pair s show ?thesis by (simp add: projectOutboundDeliveryStateForResendEmail_def)
    next
      case (Some c)
      have "io_keeps I (io_bind (io_modify (\<lambda>s. s\<lparr>messages :=
          update_where (sent_as r) (record_delivery c d) (messages s)\<rparr>))
        (\<lambda>_. io_bind (announce_delivery env mb c) (\<lambda>_. terminate_unreachable env mb sb c)))" for mb sb
        by (intro keeps_intros upd a t)
      with Pair Some s show ?thesis
        by (simp add: projectOutboundDeliveryStateForResendEmail_def Let_def io_keeps_def)
    qed
  qed
  then show ?thesis by (simp add: io_keeps_def reconcileOutboundDeliveryState_def)
qed

section \<open>Properties\<close>

text \<open>What the stored webhook events mean. The delivery time is the earliest delivered event. The
  current state is that of the last event other than a delay; a delay counts only while nothing else
  is known, so a late delay notice never hides a delivery or a bounce.\<close>

theorem delivery_reduction_meaning:
  "snd (reduceDeliveryEvents es) =
     (if \<exists>e \<in> set es. is_event DELIVERED e
      then Some (Min (we_eventCreatedAt ` {e \<in> set es. is_event DELIVERED e})) else None)
   \<and> fst (reduceDeliveryEvents es) =
     (case js_at_last (filter decisive es) of
        Some e \<Rightarrow> status_of e
      | None \<Rightarrow> Option.bind (js_at_last (filter (is_event DELIVERY_DELAYED) es)) status_of)"
  using reduce_current [of es] reduce_deliveredAt [of es] by (auto simp: filter_empty_conv)

definition sample_webhook :: "uuid \<Rightarrow> string \<Rightarrow> instant \<Rightarrow> email_webhook_row" where
  "sample_webhook i type created =
     \<lparr>we_id = i, we_svixId = i, we_eventType = type, we_webhookReceivedAt = created, we_eventCreatedAt = created,
      we_emailId = ''re1'', we_deliveryDetail = None\<rparr>"

definition sample_delivery :: store where
  "sample_delivery = empty_store\<lparr>
     conversations := [plain_conversation ''c1'' AWAITING_PARTICIPANT],
     messages := [(plain_message ''m1'' ACCEPTED)\<lparr>ms_resendEmailId := Some ''re1''\<rparr>],
     webhook_rows := [sample_webhook ''w1'' ''email.delivery_delayed'' 5, sample_webhook ''w2'' ''email.bounced'' 4]\<rparr>"


lemma sample_delivery_run:
  "\<exists>t. projectOutboundDeliveryStateForResendEmail (\<lambda>_. None) ''re1'' (sample_delivery\<lparr>webhook_rows := ws\<rparr>) = (Inr (), t)"
proof -
  have off: "appendConversationEvent (\<lambda>_. None) input s = (Inr None, s)" for input s
    by (rule appendConversationEvent_off) (simp add: getEnabledConversationEventSinks_def)
  have a: "\<exists>t. announce_delivery (\<lambda>_. None) mb c s = (Inr (), t)" for mb c s
    by (auto simp: announce_delivery_def io_bind_def off split: option.splits)
  have b: "\<exists>t. terminate_unreachable (\<lambda>_. None) mb sb c s = (Inr (), t)" for mb sb c s
    by (auto simp: terminate_unreachable_def io_bind_def off markConversationTerminated_def Let_def split: option.splits)
  have ab: "\<exists>t. io_bind (announce_delivery (\<lambda>_. None) mb c) (\<lambda>_. terminate_unreachable (\<lambda>_. None) mb sb c) s = (Inr (), t)"
    for mb sb c s using a [of mb c s] b [of mb sb c] by (auto simp: io_bind_def)
  show ?thesis
    by (auto simp: projectOutboundDeliveryStateForResendEmail_def Let_def io_bind_Inr [OF io_eval(3)] ab
        split: option.splits prod.splits)
qed


text \<open>The projection is idempotent. Running it again without a new webhook row, as every replayed
  webhook does, changes no row and appends no event.\<close>

theorem delivery_replay_is_idle:
  assumes "projectOutboundDeliveryStateForResendEmail env r s = (Inr (), t)"
  shows "projectOutboundDeliveryStateForResendEmail env r t = (Inr (), t)"
  using assms by (rule project_replay)

theorem delivery_replay_is_idle_witness:
  "\<exists>t. projectOutboundDeliveryStateForResendEmail (\<lambda>_. None) ''re1'' sample_delivery = (Inr (), t)
     \<and> projectOutboundDeliveryStateForResendEmail (\<lambda>_. None) ''re1'' t = (Inr (), t)"
proof -
  obtain t where "projectOutboundDeliveryStateForResendEmail (\<lambda>_. None) ''re1'' sample_delivery = (Inr (), t)"
    using sample_delivery_run [of "webhook_rows sample_delivery"] by auto
  with delivery_replay_is_idle [OF this] show ?thesis by blast
qed

text \<open>C34: an unreachable participant ends the conversation. After a projection whose current state is a
  bounce, a complaint or a suppression, the conversation of the message is terminated, whatever state
  it had.\<close>

theorem unreachable_terminates:
  assumes "projectOutboundDeliveryStateForResendEmail env r s = (Inr (), t)"
    and "reduceDeliveryEvents (delivery_rows r s) = (Some current, d)" and "isUnreachableState (ds_state current)"
    and "find (sent_as r) (messages s) = Some m" and "ms_conversationId m = Some i"
  shows "\<forall>c \<in> set (conversations t). cv_id c = i \<longrightarrow> cv_state c = TERMINATED"
  using assms(1)
proof (cases rule: project_InrE)
  case nothing
  with assms(2) show ?thesis by simp
next
  case (projected c d' s1 sb)
  then show ?thesis using assms terminate_unreachable_all [of env m sb c s1 t i] by simp
qed

theorem unreachable_terminates_witness:
  "\<exists>t. projectOutboundDeliveryStateForResendEmail (\<lambda>_. None) ''re1'' sample_delivery = (Inr (), t)
     \<and> (\<exists>c \<in> set (conversations t). cv_id c = ''c1'' \<and> cv_state c = TERMINATED)"
proof -
  obtain t where run: "projectOutboundDeliveryStateForResendEmail (\<lambda>_. None) ''re1'' sample_delivery = (Inr (), t)"
    using sample_delivery_run [of "webhook_rows sample_delivery"] by auto
  have red: "reduceDeliveryEvents (delivery_rows ''re1'' sample_delivery) =
      (Some \<lparr>ds_state = BOUNCED, ds_detail = None, ds_eventCreatedAt = 4\<rparr>, None)" by code_simp
  have m: "find (sent_as ''re1'') (messages sample_delivery) = Some ((plain_message ''m1'' ACCEPTED)\<lparr>ms_resendEmailId := Some ''re1''\<rparr>)"
    by (simp add: sample_delivery_def sent_as_def plain_message_def)
  have all: "\<forall>c \<in> set (conversations t). cv_id c = ''c1'' \<longrightarrow> cv_state c = TERMINATED"
    by (rule unreachable_terminates [OF run red _ m])
      (simp_all add: isUnreachableState_def UNREACHABLE_DELIVERY_STATES_def plain_message_def)
  have "map cv_id (conversations (snd (projectOutboundDeliveryStateForResendEmail (\<lambda>_. None) ''re1'' sample_delivery))) = [''c1'']"
    by code_simp
  then have "\<exists>c \<in> set (conversations t). cv_id c = ''c1''" using run by (auto simp: map_eq_Cons_conv)
  with run all show ?thesis by blast
qed

end
