(* ===== verification/Send_Input.thy ===== *)
theory Send_Input
  imports Schema Threading
begin

text \<open>
  The rendering half of \<open>src/lib/conversation-service.ts\<close>: the request a stored message becomes
  (\<open>formatAddress\<close>, \<open>getRecipients\<close>, \<open>getTags\<close>, \<open>buildSendEmailInput\<close>), with the shapes of
  \<open>src/lib/email/resend-client.ts\<close>. Base64 content is carried as the string it is.
\<close>

section \<open>Addresses\<close>

definition is_alpha :: "char \<Rightarrow> bool" where
  "is_alpha c \<longleftrightarrow> is_lower_alpha c \<or> CHR ''A'' \<le> c \<and> c \<le> CHR ''Z''"

text \<open>\<open>DISPLAY_NAME_PHRASE_PATTERN\<close>: words of these characters with one space between two words.\<close>

definition phrase_char :: "char \<Rightarrow> bool" where
  "phrase_char c \<longleftrightarrow> is_alpha c \<or> is_digit c \<or> c \<in> set ''!#$%&*+-/=?^_`{|}~'' \<or> c = CHR 0x27"

definition DISPLAY_NAME_PHRASE_PATTERN :: "string \<Rightarrow> bool" where
  "DISPLAY_NAME_PHRASE_PATTERN name \<longleftrightarrow>
     list_all (\<lambda>word. word \<noteq> [] \<and> list_all phrase_char word) (js_split (CHR '' '') name)"

definition escape_quotes :: "string \<Rightarrow> string" where
  "escape_quotes name = js_replace (CHR 0x22) [CHR 0x5C, CHR 0x22] (js_replace (CHR 0x5C) [CHR 0x5C, CHR 0x5C] name)"

definition formatAddress :: "string \<Rightarrow> string option \<Rightarrow> string" where
  "formatAddress address name =
     (case (if truthy name then name else None) of
        None \<Rightarrow> address
      | Some n \<Rightarrow>
          if DISPLAY_NAME_PHRASE_PATTERN n then n @ '' <'' @ address @ ''>''
          else CHR 0x22 # escape_quotes n @ [CHR 0x22] @ '' <'' @ address @ ''>'')"

section \<open>The request\<close>

record send_attachment =
  sa_filename :: string
  sa_content :: string
  sa_content_type :: "string option"
  sa_content_id :: "string option"

record send_email_input =
  se_from :: string
  se_to :: "string list"
  se_reply_to :: "string option"
  se_subject :: string
  se_text :: "string option"
  se_html :: "string option"
  se_headers :: "(string \<times> string) list" \<comment> \<open>empty where the member is left out\<close>
  se_tags :: "(string \<times> string) list" \<comment> \<open>likewise\<close>
  se_attachments :: "send_attachment list" \<comment> \<open>likewise\<close>

definition stored_recipient :: "json \<Rightarrow> (string \<times> string option) option" where
  \<comment> \<open>the filter of \<open>getRecipients\<close> with the default of its map\<close>
  "stored_recipient item =
     (case item of
        JObject members \<Rightarrow>
          (case json_member members ''address'' of
             Some (JString address) \<Rightarrow>
               (case json_member members ''name'' of
                  None \<Rightarrow> Some (address, None)
                | Some JNull \<Rightarrow> Some (address, None)
                | Some (JString name) \<Rightarrow> Some (address, Some name)
                | _ \<Rightarrow> None)
           | _ \<Rightarrow> None)
      | _ \<Rightarrow> None)"

definition getRecipients :: "message \<Rightarrow> (string \<times> string option) list" where
  "getRecipients m =
     (case ms_toRecipients m of
        Some (JArray items) \<Rightarrow>
          (let recipients = List.map_filter stored_recipient items
           in if recipients \<noteq> [] then recipients else [(ms_toAddress m, ms_toName m)])
      | _ \<Rightarrow> [(ms_toAddress m, ms_toName m)])"

definition stored_tag :: "json \<Rightarrow> (string \<times> string) option" where
  \<comment> \<open>the filter of \<open>getTags\<close>\<close>
  "stored_tag item =
     (case item of
        JObject members \<Rightarrow>
          (case (json_member members ''name'', json_member members ''value'') of
             (Some (JString name), Some (JString v)) \<Rightarrow> Some (name, v)
           | _ \<Rightarrow> None)
      | _ \<Rightarrow> None)"

definition getTags :: "message \<Rightarrow> (string \<times> string) list" where
  "getTags m = (case ms_tags m of Some (JArray items) \<Rightarrow> List.map_filter stored_tag items | _ \<Rightarrow> [])"

definition buildSendEmailInput :: "message \<Rightarrow> send_attachment list \<Rightarrow> send_email_input" where
  "buildSendEmailInput m atts =
     \<lparr>se_from = formatAddress (ms_fromAddress m) (ms_fromName m),
      se_to = map (\<lambda>(address, name). formatAddress address name) (getRecipients m),
      se_reply_to = map_option (\<lambda>address. formatAddress address (ms_replyToName m)) (ms_replyToAddress m),
      se_subject = ms_subject m,
      se_text = ms_textBody m,
      se_html = ms_htmlBody m,
      se_headers =
        (case (if truthy (ms_inReplyToInternetMessageId m) then ms_inReplyToInternetMessageId m else None) of
           None \<Rightarrow> []
         | Some parent \<Rightarrow>
             [(''In-Reply-To'', parent),
              (''References'', js_join '' '' (ms_referenceInternetMessageIds m))]),
      se_tags = getTags m,
      se_attachments = atts\<rparr>"

section \<open>Rendered addresses\<close>

lemma phrase_char_plain: "phrase_char c \<Longrightarrow> \<not> js_space c \<and> c \<noteq> CHR 0x22 \<and> c \<noteq> CHR ''<'' \<and> c \<noteq> CHR ''>''"
proof -
  assume c: "phrase_char c"
  let ?n = "of_char c :: nat"
  have "?n \<ge> 33 \<and> ?n \<noteq> 34 \<and> ?n \<noteq> 60 \<and> ?n \<noteq> 62 \<and> ?n < 127"
    using c
    by (auto simp: phrase_char_def is_alpha_def is_lower_alpha_def is_digit_def char_le_of_char)
  then show ?thesis by (auto simp: js_space_of_char)
qed

lemma js_split_first: "js_split d s = p # ps \<Longrightarrow> s \<noteq> [] \<Longrightarrow> p \<noteq> [] \<Longrightarrow> hd s = hd p"
  by (cases s) (auto split: if_splits list.splits)

lemma set_js_split: "set s \<subseteq> insert d (\<Union> (set ` set (js_split d s)))"
proof (induction s)
  case (Cons c cs)
  then show ?case by (cases "js_split d cs") auto
qed simp

lemma js_split_single: "js_split d s = [[]] \<Longrightarrow> s = []"
  using js_join_split [of d s] by simp

lemma js_split_last: "s \<noteq> [] \<Longrightarrow> last (js_split d s) \<noteq> [] \<Longrightarrow> last s = last (last (js_split d s))"
proof (induction s)
  case (Cons c cs)
  then show ?case
    by (cases "js_split d cs"; cases "cs = []"; cases "tl (js_split d cs) = []")
       (auto split: if_splits simp: last_ConsR dest: js_split_single)
qed simp

lemma phrase_pattern_facts:
  assumes "DISPLAY_NAME_PHRASE_PATTERN n"
  shows "n \<noteq> []" "phrase_char (hd n)" "phrase_char (last n)" "\<forall>c \<in> set n. c = CHR '' '' \<or> phrase_char c"
proof -
  let ?ps = "js_split (CHR '' '') n"
  have all: "\<forall>p \<in> set ?ps. p \<noteq> [] \<and> (\<forall>c \<in> set p. phrase_char c)"
    using assms by (auto simp: DISPLAY_NAME_PHRASE_PATTERN_def list_all_iff)
  show ne: "n \<noteq> []" using all by auto
  obtain p ps where p: "?ps = p # ps" by (cases ?ps) auto
  show "phrase_char (hd n)" using all p js_split_first [OF p ne] by simp
  have "last ?ps \<in> set ?ps" by simp
  with all have "last ?ps \<noteq> []" "\<forall>c \<in> set (last ?ps). phrase_char c" by blast+
  then show "phrase_char (last n)" using js_split_last [OF ne] by simp
  show "\<forall>c \<in> set n. c = CHR '' '' \<or> phrase_char c" using all set_js_split [of n "CHR '' ''"] by fastforce
qed

text \<open>A rendered address is read back by \<open>parseAddress\<close>: the address and the display name.\<close>

lemma parse_format_phrase:
  assumes "DISPLAY_NAME_PHRASE_PATTERN n" and "a \<noteq> []" and "trimmed a" and "CHR ''<'' \<notin> set a"
    and "CHR ''>'' \<notin> set a"
  shows "parseAddress (formatAddress a (Some n)) = \<lparr>pa_address = a, pa_name = Some n\<rparr>"
proof -
  note n = phrase_pattern_facts [OF assms(1)]
  let ?v = "n @ '' <'' @ a @ ''>''"
  have "trimmed ?v" using n(1,2) phrase_char_plain by (auto simp: trimmed_def js_space_def)
  then have v: "js_trim ?v = ?v" by (rule js_trim_trimmed)
  have "CHR 0x0A \<notin> set n" "CHR 0x0D \<notin> set n"
    using n(4) phrase_char_plain by (force simp: js_space_def)+
  then have m: "match_display_address ?v = Some (n, a)"
    using assms n(3) phrase_char_plain by (intro match_display_address_hit) auto
  have t: "js_trim n = n"
    by (rule js_trim_trimmed) (use n phrase_char_plain in \<open>simp add: trimmed_def\<close>)
  have "strip_quotes n = n" using n(1-3) phrase_char_plain by (auto simp: strip_quotes_def)
  with v m t n(1) assms(1,3) show ?thesis
    by (simp only: formatAddress_def truthy_simps if_True option.case parseAddress_def prod.case Let_def
        js_trim_trimmed) (simp add: n(1) assms)
qed

lemma parse_format_quoted:
  assumes "\<not> DISPLAY_NAME_PHRASE_PATTERN n" and "n \<noteq> []" and "CHR 0x22 \<notin> set n" and "CHR 0x5C \<notin> set n"
    and "CHR 0x0A \<notin> set n" and "CHR 0x0D \<notin> set n"
    and "a \<noteq> []" and "trimmed a" and "CHR ''<'' \<notin> set a" and "CHR ''>'' \<notin> set a"
  shows "parseAddress (formatAddress a (Some n)) = \<lparr>pa_address = a, pa_name = Some n\<rparr>"
proof -
  have rep: "c \<notin> set x \<Longrightarrow> js_replace c r x = x" for c r x
    by (induction x) (auto simp: js_replace_def)
  have e: "escape_quotes n = n" using assms(3,4) by (simp add: escape_quotes_def rep)
  let ?q = "CHR 0x22 # n @ [CHR 0x22]"
  let ?v = "?q @ '' <'' @ a @ ''>''"
  have f: "formatAddress a (Some n) = ?v" using assms(1,2) e by (simp add: formatAddress_def)
  have "trimmed ?v" by (simp add: trimmed_def js_space_def)
  then have v: "js_trim ?v = ?v" by (rule js_trim_trimmed)
  have m: "match_display_address ?v = Some (?q, a)"
    using assms by (intro match_display_address_hit) (auto simp: js_space_def)
  have t: "js_trim ?q = ?q" by (rule js_trim_trimmed) (simp add: trimmed_def js_space_def)
  have s: "strip_quotes ?q = n" by (simp add: strip_quotes_def)
  show ?thesis
    unfolding f parseAddress_def v m option.case prod.case t s Let_def
    using assms(2,8) by simp
qed

section \<open>Properties\<close>

text \<open>A rendered sender or recipient is read back. For a display name of plain words, and for any
  name without quotes, backslashes and line breaks, parsing the rendered header gives the address and
  the name again.\<close>

theorem formatted_address_roundtrip:
  assumes "address \<noteq> []" and "js_trim address = address" and "CHR ''<'' \<notin> set address" and "CHR ''>'' \<notin> set address"
    and "name \<noteq> []" and "CHR 0x22 \<notin> set name \<and> CHR 0x5C \<notin> set name \<and> CHR 0x0A \<notin> set name \<and> CHR 0x0D \<notin> set name"
  shows "parseAddress (formatAddress address (Some name)) = \<lparr>pa_address = address, pa_name = Some name\<rparr>
    \<and> parseAddress (formatAddress address None) = \<lparr>pa_address = address, pa_name = None\<rparr>"
proof -
  have t: "trimmed address" using trimmed_js_trim [of address] assms(2) by simp
  have "parseAddress (formatAddress address (Some name)) = \<lparr>pa_address = address, pa_name = Some name\<rparr>"
    using parse_format_phrase parse_format_quoted t assms by (cases "DISPLAY_NAME_PHRASE_PATTERN name") blast+
  then show ?thesis using parseAddress_bare [OF t assms(3)] by (simp add: formatAddress_def)
qed

theorem formatted_address_roundtrip_witness:
  "parseAddress (formatAddress ''a@b.io'' (Some ''Doe, Jane'')) = \<lparr>pa_address = ''a@b.io'', pa_name = Some ''Doe, Jane''\<rparr>
    \<and> parseAddress (formatAddress ''a@b.io'' None) = \<lparr>pa_address = ''a@b.io'', pa_name = None\<rparr>"
proof (rule formatted_address_roundtrip)
  show "js_trim ''a@b.io'' = ''a@b.io''" by code_simp
qed simp_all

end
