(* ===== verification/Lease.thy ===== *)
theory Lease
  imports Schema
begin

text \<open>
  The contract the background workers rely on, stated once: a row of a work queue is claimed by
  writing a fresh token and the end of the lease into it, and finished, rescheduled or deleted only
  by a statement whose WHERE clause names that token. The outbox batches, the attachment outbox and
  the event deliveries are instances. A second interface is the ladder of retry delays.
\<close>

locale leased_queue =
  fixes key :: "'r \<Rightarrow> 'k"
    and ready :: "instant \<Rightarrow> 'r \<Rightarrow> bool"
    and owned :: "'k \<Rightarrow> uuid \<Rightarrow> 'r \<Rightarrow> bool"
    and acquire :: "uuid \<Rightarrow> instant \<Rightarrow> 'r \<Rightarrow> 'r"
  assumes key_acquire [simp]: "key (acquire token leaseUntil r) = key r"
    and owned_acquire [simp]: "owned k token (acquire token' leaseUntil r) \<longleftrightarrow> key r = k \<and> token = token'"
    and owned_key: "owned k token r \<Longrightarrow> key r = k"
    and owned_unique: "owned k token r \<Longrightarrow> owned k token' r \<Longrightarrow> token = token'"
    and acquire_busy: "now < leaseUntil \<Longrightarrow> \<not> ready now (acquire token leaseUntil r)"
begin

text \<open>A claimed row is not offered again before its lease ends.\<close>

lemma claimed_not_ready:
  assumes "now < leaseUntil" and "r \<in> set (update_where (\<lambda>r. key r = k) (acquire token leaseUntil) rows)"
    and "ready now r"
  shows "key r \<noteq> k"
  using assms acquire_busy by (auto simp: set_update_where split: if_splits)

text \<open>The claimant owns the row, exactly one row.\<close>

lemma claimed_owned:
  assumes "distinct (map key rows)" and "r \<in> set rows" and "key r = k"
  shows "count_where (owned k token) (update_where (\<lambda>r. key r = k) (acquire token leaseUntil) rows) = 1"
  using assms
proof (induction rows)
  case (Cons a rows)
  have other: "count_where (owned k token) (update_where (\<lambda>r. key r = k) (acquire token leaseUntil) xs) = 0"
    if "k \<notin> key ` set xs" for xs
    using that owned_key by (induction xs) auto
  show ?case
  proof (cases "key a = k")
    case True
    with Cons.prems show ?thesis using other [of rows] by (simp add: image_iff)
  next
    case False
    with Cons show ?thesis using owned_key by auto
  qed
qed simp

text \<open>A later claim by someone else revokes the first: the fenced statements of the first find nothing.\<close>

lemma revoked:
  assumes "token \<noteq> token'"
  shows "count_where (owned k token) (update_where (\<lambda>r. key r = k) (acquire token' leaseUntil) rows) = 0"
  using assms owned_key by (induction rows) auto

lemma fenced_idle: "count_where (owned k token) rows = 0 \<Longrightarrow> update_where (owned k token) f rows = rows"
  by (rule update_where_none) (simp add: count_where_0)

lemma fenced_delete_idle: "count_where (owned k token) rows = 0 \<Longrightarrow> delete_where (owned k token) rows = rows"
  by (induction rows) (auto split: if_splits)

text \<open>Owning is exclusive: of two tokens at most one owns a key.\<close>

lemma owner_exclusive:
  assumes "distinct (map key rows)" and "0 < count_where (owned k token) rows"
    and "0 < count_where (owned k token') rows"
  shows "token = token'"
proof -
  obtain a where a: "a \<in> set rows" "owned k token a" using assms(2) by (auto simp: count_where_pos)
  obtain b where b: "b \<in> set rows" "owned k token' b" using assms(3) by (auto simp: count_where_pos)
  have "a = b" using a b owned_key by (intro distinct_key_unique [OF assms(1)]) metis+
  with a b show ?thesis using owned_unique by blast
qed

lemma owned_at_most_one: "distinct (map key rows) \<Longrightarrow> count_where (owned k token) rows \<le> 1"
  by (rule count_where_le_1 [where key = key and k = k]) (auto dest: owned_key)

end

text \<open>A ladder of retry delays: between a shortest and a longest delay, never shorter after another
  attempt.\<close>

definition ladder_delay :: "int list \<Rightarrow> nat \<Rightarrow> int" where
  \<comment> \<open>\<open>RETRY_DELAYS_MS[Math.min(attemptCount - 1, RETRY_DELAYS_MS.length - 1)]\<close>, an attempt count of
    at least 1\<close>
  "ladder_delay delays attemptCount = delays ! min (attemptCount - 1) (length delays - 1)"

locale retry_ladder =
  fixes delay :: "nat \<Rightarrow> int" and shortest longest :: int
  assumes delay_bounds: "0 < attempts \<Longrightarrow> shortest \<le> delay attempts \<and> delay attempts \<le> longest"
    and delay_mono: "0 < attempts \<Longrightarrow> attempts \<le> attempts' \<Longrightarrow> delay attempts \<le> delay attempts'"
    and shortest_pos: "0 < shortest"
begin

lemma next_attempt_later: "0 < attempts \<Longrightarrow> now < now + delay attempts"
  using delay_bounds [of attempts] shortest_pos by linarith

lemma next_attempt_bounds:
  "0 < attempts \<Longrightarrow> now + shortest \<le> now + delay attempts \<and> now + delay attempts \<le> now + longest"
  using delay_bounds [of attempts] by simp

end

lemma ladder_delay_in: "delays \<noteq> [] \<Longrightarrow> ladder_delay delays n \<in> set delays"
proof -
  assume "delays \<noteq> []"
  then have "min (n - 1) (length delays - 1) < length delays" by (cases delays) auto
  then show ?thesis by (simp add: ladder_delay_def)
qed

lemma ladder_delay_mono:
  assumes "sorted delays" and "delays \<noteq> []" and "n \<le> m"
  shows "ladder_delay delays n \<le> ladder_delay delays m"
proof -
  have "min (m - 1) (length delays - 1) < length delays" using assms(2) by (cases delays) auto
  with assms(1,3) show ?thesis
    unfolding ladder_delay_def by (intro sorted_nth_mono) auto
qed

lemma retry_ladderI:
  assumes "sorted delays" and "delays \<noteq> []" and "0 < hd delays"
  shows "retry_ladder (ladder_delay delays) (hd delays) (last delays)"
proof
  fix n m :: nat
  have "delays ! 0 \<le> ladder_delay delays n \<and> ladder_delay delays n \<le> delays ! (length delays - 1)"
    if "0 < n" for n
  proof -
    have i: "min (n - 1) (length delays - 1) < length delays" using assms(2) by (cases delays) auto
    show ?thesis
      unfolding ladder_delay_def using i assms(2)
      by (auto intro!: sorted_nth_mono [OF assms(1)])
  qed
  then show "0 < n \<Longrightarrow> hd delays \<le> ladder_delay delays n \<and> ladder_delay delays n \<le> last delays"
    using assms(2) by (simp add: hd_conv_nth last_conv_nth)
  show "0 < n \<Longrightarrow> n \<le> m \<Longrightarrow> ladder_delay delays n \<le> ladder_delay delays m"
    by (rule ladder_delay_mono [OF assms(1,2)])
qed (rule assms(3))

end
