(* ===== verification/Provider_Errors.thy ===== *)
theory Provider_Errors
  imports Lease
begin

text \<open>
  How the two drain lanes (\<open>src/lib/outbox-service.ts\<close> and \<open>src/lib/attachment-outbox-service.ts\<close>)
  read an error of the provider, and the delays they wait. The two files hold the same code; the
  definitions here are shared by their theories.
\<close>

section \<open>Reading an error\<close>

fun digits :: "nat \<Rightarrow> string" where
  "digits n = (if n < 10 then [char_of (48 + n)] else digits (n div 10) @ [char_of (48 + n mod 10)])"

declare digits.simps [simp del]

definition show_int :: "int \<Rightarrow> string" where
  "show_int i = (if i < 0 then CHR ''-'' # digits (nat (- i)) else digits (nat i))"

definition error_name :: "js_error \<Rightarrow> string" where
  \<comment> \<open>\<open>error.name\<close> of an \<open>Error\<close>\<close>
  "error_name e =
     (case e of
        ResendApiError _ _ \<Rightarrow> ''ResendApiError''
      | PrismaError _ \<Rightarrow> ''PrismaClientKnownRequestError''
      | AttachmentClaimError _ \<Rightarrow> ''AttachmentClaimError''
      | IdentityNotAllowedError \<Rightarrow> ''Error''
      | JsError name _ \<Rightarrow> name
      | NotAnError \<Rightarrow> [])"

definition getErrorCode :: "js_error \<Rightarrow> string" where
  "getErrorCode e =
     (case e of
        ResendApiError status code \<Rightarrow> (case code of Some c \<Rightarrow> c | None \<Rightarrow> ''http_'' @ show_int status)
      | NotAnError \<Rightarrow> ''unknown_error''
      | _ \<Rightarrow> error_name e)"

definition isRetryableBatchError :: "js_error \<Rightarrow> bool" where
  "isRetryableBatchError e =
     (case e of
        ResendApiError status code \<Rightarrow>
          (status = 429 \<and> code \<noteq> Some ''monthly_quota_exceeded'' \<and> code \<noteq> Some ''daily_quota_exceeded'')
          \<or> 500 \<le> status
          \<or> (status = 409 \<and> code = Some ''concurrent_idempotent_requests'')
      | _ \<Rightarrow> True)"

definition rejected_as_changed :: "js_error \<Rightarrow> bool" where
  \<comment> \<open>the first test of both catch blocks\<close>
  "rejected_as_changed e \<longleftrightarrow> e = ResendApiError 409 (Some ''invalid_idempotent_request'')"

section \<open>Constants of the lanes\<close>

definition OUTBOX_LEASE_MS :: int where "OUTBOX_LEASE_MS = 2 * 60 * 1000"

definition PROVIDER_IDEMPOTENCY_SAFETY_MS :: int where
  "PROVIDER_IDEMPOTENCY_SAFETY_MS = 23 * 60 * 60 * 1000"

definition RETRY_DELAYS_MS :: "int list" where "RETRY_DELAYS_MS = [60000, 120000, 300000]"

definition window_expired :: "instant \<Rightarrow> instant \<Rightarrow> bool" where
  "window_expired now firstAttemptAt \<longleftrightarrow> PROVIDER_IDEMPOTENCY_SAFETY_MS \<le> now - firstAttemptAt"

datatype drain_state = SentAccepted | SentFailed | SentPending | SentIndeterminate

record drain_item =
  di_messageId :: uuid
  di_state :: drain_state
  di_resendEmailId :: "string option"

text \<open>Rows that wait by this ladder are tried again after one to five minutes.\<close>

interpretation outbox_ladder: retry_ladder "ladder_delay RETRY_DELAYS_MS" 60000 300000
  using retry_ladderI [of RETRY_DELAYS_MS] by (simp add: RETRY_DELAYS_MS_def)

lemma changed_not_retryable: "rejected_as_changed e \<Longrightarrow> \<not> isRetryableBatchError e"
  by (simp add: rejected_as_changed_def isRetryableBatchError_def)

end
