(* ===== verification/Outbox.thy ===== *)
theory Outbox
  imports Provider_Errors Delivery Send_Input
begin

text \<open>
  \<open>src/lib/outbox-service.ts\<close>: the batch lane of the outbox. A drain claims one batch under a
  lease, hands its messages to the provider under the key of the batch, and settles or reschedules
  it. What the code reads from outside is an argument: the clock, the lease token, the rows other
  transactions hold locked (\<open>SKIP LOCKED\<close>), the provider, and what other processes do to the
  database while the provider is working.
\<close>

section \<open>The claim\<close>

record claimed_batch =
  cb_id :: uuid
  cb_leaseToken :: uuid
  cb_attemptCount :: nat
  cb_firstAttemptAt :: instant
  cb_messages :: "message list"

definition message_is :: "message_state \<Rightarrow> uuid \<Rightarrow> store \<Rightarrow> bool" where
  \<comment> \<open>the join of an entry with its message\<close>
  "message_is st messageId s \<longleftrightarrow>
     (case find_by ms_id messageId (messages s) of Some m \<Rightarrow> ms_state m = st | None \<Rightarrow> False)"

definition drop_settled_entries :: "store \<Rightarrow> store" where
  \<comment> \<open>the DELETE that opens the claim\<close>
  "drop_settled_entries s =
     s\<lparr>outbox_entries := delete_where
         (\<lambda>e. oe_batchId e = None \<and>
              (case find_by ms_id (oe_messageId e) (messages s) of
                 Some m \<Rightarrow> ms_state m \<noteq> PENDING | None \<Rightarrow> False))
         (outbox_entries s)\<rparr>"

definition batch_ready :: "instant \<Rightarrow> outbox_batch \<Rightarrow> bool" where
  "batch_ready now b \<longleftrightarrow>
     ob_nextAttemptAt b \<le> now \<and> (case ob_leaseUntil b of None \<Rightarrow> True | Some u \<Rightarrow> u \<le> now)"

definition retryable_batch :: "instant \<Rightarrow> (uuid \<Rightarrow> bool) \<Rightarrow> store \<Rightarrow> outbox_batch option" where
  "retryable_batch now locked s =
     js_head (sort_key (\<lambda>b. (ob_nextAttemptAt b, ob_id b))
       (filter (\<lambda>b. batch_ready now b \<and> \<not> locked (ob_id b)) (outbox_batches s)))"

definition queued_messages :: "nat \<Rightarrow> (uuid \<Rightarrow> bool) \<Rightarrow> store \<Rightarrow> uuid list" where
  "queued_messages limit locked s =
     take limit (map oe_messageId (sort_key (\<lambda>e. (oe_queuedAt e, oe_messageId e))
       (filter (\<lambda>e. oe_batchId e = None \<and> message_is PENDING (oe_messageId e) s \<and> \<not> locked (oe_messageId e))
         (outbox_entries s))))"

definition reclaim_batch :: "uuid \<Rightarrow> instant \<Rightarrow> outbox_batch \<Rightarrow> outbox_batch" where
  "reclaim_batch leaseToken leaseUntil b =
     b\<lparr>ob_leaseToken := Some leaseToken, ob_leaseUntil := Some leaseUntil,
       ob_attemptCount := ob_attemptCount b + 1, ob_lastErrorCode := None\<rparr>"

definition assign_batch :: "uuid \<Rightarrow> uuid list \<Rightarrow> outbox_entry \<Rightarrow> outbox_entry" where
  \<comment> \<open>the UPDATE joined with the assignments (message id, index)\<close>
  "assign_batch batchId picked e =
     (if oe_batchId e = None \<and> oe_messageId e \<in> set picked
      then e\<lparr>oe_batchId := Some batchId,
             oe_batchPosition := Some (length (takeWhile (\<lambda>i. i \<noteq> oe_messageId e) picked))\<rparr>
      else e)"

definition create_batch :: "uuid \<Rightarrow> instant \<Rightarrow> instant \<Rightarrow> uuid list \<Rightarrow> store \<Rightarrow> uuid \<times> store" where
  "create_batch leaseToken now leaseUntil picked s =
     (let (batchId, s1) = draw_id s;
          created = \<lparr>ob_id = batchId, ob_nextAttemptAt = db_now s1, ob_firstAttemptAt = Some now,
                     ob_attemptCount = 1, ob_leaseToken = Some leaseToken, ob_leaseUntil = Some leaseUntil,
                     ob_lastErrorCode = None\<rparr>
      in (batchId, s1\<lparr>outbox_batches := outbox_batches s1 @ [created],
                      outbox_entries := map (assign_batch batchId picked) (outbox_entries s1)\<rparr>))"

definition position_order :: "outbox_entry \<Rightarrow> nat \<times> nat" where
  \<comment> \<open>ascending, nulls last\<close>
  "position_order e = (case oe_batchPosition e of Some p \<Rightarrow> (0, p) | None \<Rightarrow> (1, 0))"

definition batch_messages :: "uuid \<Rightarrow> store \<Rightarrow> message list" where
  \<comment> \<open>\<open>include: { entries: { orderBy, include: { message } } }\<close>\<close>
  "batch_messages batchId s =
     List.map_filter (\<lambda>e. find_by ms_id (oe_messageId e) (messages s))
       (sort_key position_order (filter (\<lambda>e. oe_batchId e = Some batchId) (outbox_entries s)))"

definition invalid_state_error :: js_error where
  "invalid_state_error = JsError ''Error'' ''Claimed outbox batch contains invalid message state''"

definition claim_transaction ::
  "uuid \<Rightarrow> instant \<Rightarrow> nat \<Rightarrow> (uuid \<Rightarrow> bool) \<Rightarrow> (uuid \<Rightarrow> bool) \<Rightarrow> (outbox_batch \<times> message list) option io"
where
  "claim_transaction leaseToken now limit lockedBatch lockedEntry s =
     (let leaseUntil = now + OUTBOX_LEASE_MS;
          s1 = drop_settled_entries s;
          fetch = (\<lambda>batchId s2.
            case find_by ob_id batchId (outbox_batches s2) of
              None \<Rightarrow> (Inl (PrismaError ''P2025''), s2)
            | Some b \<Rightarrow> (Inr (Some (b, batch_messages batchId s2)), s2))
      in case retryable_batch now lockedBatch s1 of
           None \<Rightarrow>
             (let picked = queued_messages limit lockedEntry s1
              in if picked = [] then (Inr None, s1)
                 else (let (batchId, s2) = create_batch leaseToken now leaseUntil picked s1
                       in fetch batchId s2))
         | Some b \<Rightarrow>
             fetch (ob_id b)
               (s1\<lparr>outbox_batches := update_where (\<lambda>r. ob_id r = ob_id b)
                     (reclaim_batch leaseToken leaseUntil) (outbox_batches s1)\<rparr>))"

definition claimOutboxBatch ::
  "uuid \<Rightarrow> instant \<Rightarrow> nat \<Rightarrow> (uuid \<Rightarrow> bool) \<Rightarrow> (uuid \<Rightarrow> bool) \<Rightarrow> claimed_batch option io"
where
  "claimOutboxBatch leaseToken now limit lockedBatch lockedEntry =
     io_bind (transaction (claim_transaction leaseToken now limit lockedBatch lockedEntry))
       (\<lambda>found. case found of
          None \<Rightarrow> io_return None
        | Some (b, ms) \<Rightarrow>
            (case ob_firstAttemptAt b of
               None \<Rightarrow> io_throw invalid_state_error
             | Some firstAttemptAt \<Rightarrow>
                 if \<exists>m \<in> set ms. ms_state m \<noteq> PENDING then io_throw invalid_state_error
                 else io_return (Some \<lparr>cb_id = ob_id b, cb_leaseToken = leaseToken,
                   cb_attemptCount = ob_attemptCount b, cb_firstAttemptAt = firstAttemptAt, cb_messages = ms\<rparr>)))"

section \<open>Settling a batch\<close>

record drain_result =
  dn_batchId :: "uuid option"
  dn_claimed :: nat
  dn_accepted :: nat
  dn_failed :: nat
  dn_retryScheduled :: nat
  dn_indeterminate :: nat
  dn_results :: "drain_item list"

definition emptyDrainResult :: drain_result where
  "emptyDrainResult =
     \<lparr>dn_batchId = None, dn_claimed = 0, dn_accepted = 0, dn_failed = 0, dn_retryScheduled = 0,
      dn_indeterminate = 0, dn_results = []\<rparr>"

definition terminalDrainResult :: "claimed_batch \<Rightarrow> drain_state \<Rightarrow> drain_result" where
  "terminalDrainResult batch st =
     \<lparr>dn_batchId = Some (cb_id batch), dn_claimed = length (cb_messages batch), dn_accepted = 0,
      dn_failed = (if st = SentFailed then length (cb_messages batch) else 0), dn_retryScheduled = 0,
      dn_indeterminate = (if st = SentIndeterminate then length (cb_messages batch) else 0),
      dn_results = map (\<lambda>m. \<lparr>di_messageId = ms_id m, di_state = st, di_resendEmailId = None\<rparr>) (cb_messages batch)\<rparr>"

definition batch_owned :: "uuid \<Rightarrow> uuid \<Rightarrow> outbox_batch \<Rightarrow> bool" where
  \<comment> \<open>the WHERE clause of every statement that finishes a claim\<close>
  "batch_owned batchId leaseToken b \<longleftrightarrow> ob_id b = batchId \<and> ob_leaseToken b = Some leaseToken"

definition assertLeaseOwner :: "claimed_batch \<Rightarrow> unit io" where
  "assertLeaseOwner batch s =
     (if \<exists>b \<in> set (outbox_batches s). batch_owned (cb_id batch) (cb_leaseToken batch) b then (Inr (), s)
      else (Inl (JsError ''Error'' ''Outbox batch lease was lost before completion''), s))"

definition deleteOwnedBatch :: "claimed_batch \<Rightarrow> unit io" where
  \<comment> \<open>the entries of a deleted batch go with it (\<open>onDelete: Cascade\<close>)\<close>
  "deleteOwnedBatch batch s =
     (let owned = batch_owned (cb_id batch) (cb_leaseToken batch);
          gone = map ob_id (filter owned (outbox_batches s));
          s' = s\<lparr>outbox_batches := delete_where owned (outbox_batches s),
                 outbox_entries := delete_where (\<lambda>e. \<exists>i \<in> set gone. oe_batchId e = Some i) (outbox_entries s)\<rparr>
      in if count_where owned (outbox_batches s) \<noteq> 1
         then (Inl (JsError ''Error'' ''Outbox batch lease was lost before cleanup''), s')
         else (Inr (), s'))"

definition accept_message :: "string \<Rightarrow> message \<Rightarrow> message" where
  "accept_message resendEmailId m =
     m\<lparr>ms_state := ACCEPTED, ms_stateDetail := None, ms_deliveryState := Some UNKNOWN,
       ms_resendEmailId := Some resendEmailId\<rparr>"

definition resend_ids_unique :: "message list \<Rightarrow> bool" where
  \<comment> \<open>the unique index on \<open>resend_email_id\<close>\<close>
  "resend_ids_unique ms \<longleftrightarrow> distinct (List.map_filter ms_resendEmailId ms)"

definition accept_batch_messages :: "(uuid \<times> string) list \<Rightarrow> nat io" where
  \<comment> \<open>the UPDATE joined with the values (message id, provider id); \<open>Prisma.join\<close> refuses an empty
    list and the database a duplicate provider id\<close>
  "accept_batch_messages pairs s =
     (if pairs = [] then
        (Inl (JsError ''TypeError'' ''Expected `join([])` to be called with an array of multiple elements, but got an empty array''), s)
      else
        (let hit = (\<lambda>m. ms_state m = PENDING \<and> map_of pairs (ms_id m) \<noteq> None);
             ms = update_where hit (\<lambda>m. accept_message (the (map_of pairs (ms_id m))) m) (messages s)
         in if resend_ids_unique ms then (Inr (count_where hit (messages s)), s\<lparr>messages := ms\<rparr>)
            else (Inl (PrismaError ''P2010''), s)))"

definition finalizeAcceptedBatch :: "environment \<Rightarrow> claimed_batch \<Rightarrow> string list \<Rightarrow> drain_result io" where
  "finalizeAcceptedBatch env batch resendEmailIds =
     io_bind
       (transaction
         (io_bind (assertLeaseOwner batch)
           (\<lambda>_. io_bind (accept_batch_messages (zip (map ms_id (cb_messages batch)) resendEmailIds))
             (\<lambda>updated. io_bind
               (if updated \<noteq> length (cb_messages batch)
                then io_throw (JsError ''Error'' ''Outbox message changed before batch completion'')
                else io_return ())
               (\<lambda>_. io_bind (io_each (reconcileOutboundDeliveryState env) resendEmailIds)
                 (\<lambda>_. deleteOwnedBatch batch))))))
       (\<lambda>_. io_return
         \<lparr>dn_batchId = Some (cb_id batch), dn_claimed = length (cb_messages batch),
          dn_accepted = length (cb_messages batch), dn_failed = 0, dn_retryScheduled = 0, dn_indeterminate = 0,
          dn_results = map (\<lambda>(m, i). \<lparr>di_messageId = ms_id m, di_state = SentAccepted, di_resendEmailId = Some i\<rparr>)
            (zip (cb_messages batch) resendEmailIds)\<rparr>)"

definition settle_messages :: "uuid list \<Rightarrow> message_state \<Rightarrow> string \<Rightarrow> store \<Rightarrow> store" where
  "settle_messages ids st detail s =
     s\<lparr>messages := update_where (\<lambda>m. ms_id m \<in> set ids \<and> ms_state m = PENDING)
         (\<lambda>m. m\<lparr>ms_state := st, ms_stateDetail := Some detail\<rparr>) (messages s)\<rparr>"

definition finalize_terminal :: "claimed_batch \<Rightarrow> message_state \<Rightarrow> string \<Rightarrow> unit io" where
  \<comment> \<open>the transaction that \<open>finalizeFailedBatch\<close> and \<open>finalizeIndeterminateBatch\<close> both hold\<close>
  "finalize_terminal batch st detail =
     transaction
       (io_bind (assertLeaseOwner batch)
         (\<lambda>_. io_bind (io_modify (settle_messages (map ms_id (cb_messages batch)) st detail))
           (\<lambda>_. deleteOwnedBatch batch)))"

definition finalizeFailedBatch :: "claimed_batch \<Rightarrow> string \<Rightarrow> drain_result io" where
  "finalizeFailedBatch batch errorCode =
     io_bind (finalize_terminal batch FAILED (''Resend batch request failed ('' @ errorCode @ '')''))
       (\<lambda>_. io_return (terminalDrainResult batch SentFailed))"

definition finalizeIndeterminateBatch :: "claimed_batch \<Rightarrow> string \<Rightarrow> drain_result io" where
  "finalizeIndeterminateBatch batch detail =
     io_bind (finalize_terminal batch INDETERMINATE detail)
       (\<lambda>_. io_return (terminalDrainResult batch SentIndeterminate))"

definition window_detail :: string where
  "window_detail = ''Outbox batch exceeded the provider idempotency window''"

definition reschedule_batch :: "instant \<Rightarrow> string \<Rightarrow> outbox_batch \<Rightarrow> outbox_batch" where
  "reschedule_batch nextAttemptAt errorCode b =
     b\<lparr>ob_nextAttemptAt := nextAttemptAt, ob_leaseToken := None, ob_leaseUntil := None,
       ob_lastErrorCode := Some (take 64 errorCode)\<rparr>"

definition scheduleBatchRetry :: "instant \<Rightarrow> claimed_batch \<Rightarrow> string \<Rightarrow> drain_result io" where
  "scheduleBatchRetry now batch errorCode s =
     (if window_expired now (cb_firstAttemptAt batch)
      then finalizeIndeterminateBatch batch window_detail s
      else
        (let owned = batch_owned (cb_id batch) (cb_leaseToken batch);
             nextAttemptAt = now + ladder_delay RETRY_DELAYS_MS (cb_attemptCount batch);
             s' = s\<lparr>outbox_batches := update_where owned (reschedule_batch nextAttemptAt errorCode) (outbox_batches s)\<rparr>
         in if count_where owned (outbox_batches s) \<noteq> 1
            then (Inl (JsError ''Error'' ''Outbox batch lease was lost before retry scheduling''), s')
            else
              (Inr \<lparr>dn_batchId = Some (cb_id batch), dn_claimed = length (cb_messages batch), dn_accepted = 0,
                    dn_failed = 0, dn_retryScheduled = length (cb_messages batch), dn_indeterminate = 0,
                    dn_results = map (\<lambda>m. \<lparr>di_messageId = ms_id m, di_state = SentPending, di_resendEmailId = None\<rparr>)
                      (cb_messages batch)\<rparr>,
               s')))"

section \<open>One drain\<close>

text \<open>The provider answers with the \<open>id\<close> members of its items, or throws; \<open>meanwhile\<close> is what
  others commit while it works, \<open>now\<close> the clock of the claim and \<open>later\<close> the clock afterwards.\<close>

type_synonym batch_provider = "send_email_input list \<Rightarrow> string \<Rightarrow> js_error + json option list"

definition settle_batch ::
  "environment \<Rightarrow> instant \<Rightarrow> claimed_batch \<Rightarrow> js_error + json option list \<Rightarrow> drain_result io"
where
  \<comment> \<open>the rest of the drain, from the provider's answer\<close>
  "settle_batch env later batch answer =
     (case answer of
        Inr ids \<Rightarrow>
          if length ids \<noteq> length (cb_messages batch) \<or> (\<exists>i \<in> set ids. \<not> truthy (json_string i))
          then scheduleBatchRetry later batch ''invalid_batch_response''
          else finalizeAcceptedBatch env batch (List.map_filter json_string ids)
      | Inl e \<Rightarrow>
          if rejected_as_changed e
          then finalizeIndeterminateBatch batch ''Resend rejected a changed payload for the persisted batch key''
          else if isRetryableBatchError e then scheduleBatchRetry later batch (getErrorCode e)
          else finalizeFailedBatch batch (getErrorCode e))"

definition batch_key :: "uuid \<Rightarrow> string" where
  "batch_key batchId = ''conversation-outbox/'' @ batchId"

definition drainEmailOutbox ::
  "environment \<Rightarrow> batch_provider \<Rightarrow> (store \<Rightarrow> store) \<Rightarrow> uuid \<Rightarrow> instant \<Rightarrow> instant \<Rightarrow> (uuid \<Rightarrow> bool) \<Rightarrow>
     (uuid \<Rightarrow> bool) \<Rightarrow> nat \<Rightarrow> drain_result io"
where
  "drainEmailOutbox env provider meanwhile leaseToken now later lockedBatch lockedEntry limit =
     io_bind (claimOutboxBatch leaseToken now limit lockedBatch lockedEntry)
       (\<lambda>claimed. case claimed of
          None \<Rightarrow> io_return emptyDrainResult
        | Some batch \<Rightarrow>
            if 1 < cb_attemptCount batch \<and> window_expired now (cb_firstAttemptAt batch)
            then finalizeIndeterminateBatch batch window_detail
            else
              io_bind (io_modify meanwhile)
                (\<lambda>_. settle_batch env later batch
                   (provider (map (\<lambda>m. buildSendEmailInput m []) (cb_messages batch)) (batch_key (cb_id batch)))))"

section \<open>The lease\<close>

lemma reclaim_batch_simps [simp]:
  "ob_id (reclaim_batch tk u b) = ob_id b"
  "ob_firstAttemptAt (reclaim_batch tk u b) = ob_firstAttemptAt b"
  "ob_attemptCount (reclaim_batch tk u b) = Suc (ob_attemptCount b)"
  "ob_leaseToken (reclaim_batch tk u b) = Some tk"
  "ob_leaseUntil (reclaim_batch tk u b) = Some u"
  by (simp_all add: reclaim_batch_def)

interpretation batch_lease: leased_queue ob_id batch_ready batch_owned reclaim_batch
  by unfold_locales (auto simp: batch_owned_def batch_ready_def)

lemma OUTBOX_LEASE_pos [simp]: "now < now + OUTBOX_LEASE_MS"
  by (simp add: OUTBOX_LEASE_MS_def)

text \<open>A worker that lost its lease writes nothing, whatever the provider told it.\<close>

lemma lost_lease_terminal:
  "count_where (batch_owned (cb_id batch) (cb_leaseToken batch)) (outbox_batches s) = 0 \<Longrightarrow>
     \<exists>e. finalize_terminal batch st detail s = (Inl e, s)"
  by (simp add: finalize_terminal_def transaction_def io_bind_def assertLeaseOwner_def count_where_0)

lemma io_bind_Inl_ex: "\<exists>e. m s = (Inl e, s') \<Longrightarrow> \<exists>e. io_bind m f s = (Inl e, s')"
  by (auto simp: io_bind_def)

lemma lost_lease_settle:
  assumes lost: "count_where (batch_owned (cb_id batch) (cb_leaseToken batch)) (outbox_batches s) = 0"
  shows "\<exists>e. settle_batch env later batch answer s = (Inl e, s)"
proof -
  note t = lost_lease_terminal [OF lost]
  have retry: "\<exists>e. scheduleBatchRetry later batch code s = (Inl e, s)" for code
    using t [of INDETERMINATE window_detail] batch_lease.fenced_idle [OF lost] lost
    by (auto simp: scheduleBatchRetry_def finalizeIndeterminateBatch_def io_bind_def Let_def)
  have acc: "\<exists>e. finalizeAcceptedBatch env batch ids s = (Inl e, s)" for ids
    using lost
    by (simp add: finalizeAcceptedBatch_def transaction_def io_bind_def assertLeaseOwner_def count_where_0)
  have terminal: "\<exists>e. finalizeFailedBatch batch code s = (Inl e, s)"
    "\<exists>e. finalizeIndeterminateBatch batch code s = (Inl e, s)" for code
    unfolding finalizeFailedBatch_def finalizeIndeterminateBatch_def by (rule io_bind_Inl_ex, rule t)+
  show ?thesis using retry acc terminal by (auto simp: settle_batch_def split: sum.splits)
qed

section \<open>The tally of a drain\<close>

definition tally :: "drain_result \<Rightarrow> bool" where
  "tally r \<longleftrightarrow>
     dn_claimed r = length (dn_results r)
     \<and> dn_accepted r = count_where (\<lambda>i. di_state i = SentAccepted) (dn_results r)
     \<and> dn_failed r = count_where (\<lambda>i. di_state i = SentFailed) (dn_results r)
     \<and> dn_retryScheduled r = count_where (\<lambda>i. di_state i = SentPending) (dn_results r)
     \<and> dn_indeterminate r = count_where (\<lambda>i. di_state i = SentIndeterminate) (dn_results r)"

lemma count_where_map [simp]: "count_where P (map f xs) = count_where (\<lambda>x. P (f x)) xs"
  by (induction xs) auto

lemma count_where_const [simp]: "count_where (\<lambda>_. True) xs = length xs" "count_where (\<lambda>_. False) xs = 0"
  by (induction xs) auto

lemma tally_terminal: "st \<in> {SentFailed, SentIndeterminate} \<Longrightarrow> tally (terminalDrainResult batch st)"
  by (auto simp: tally_def terminalDrainResult_def)

lemma length_map_filter_all: "(\<And>x. x \<in> set xs \<Longrightarrow> f x \<noteq> None) \<Longrightarrow> length (List.map_filter f xs) = length xs"
proof (induction xs)
  case (Cons x xs)
  then obtain y where "f x = Some y" by fastforce
  with Cons show ?case by (simp add: List.map_filter_simps)
qed (simp add: List.map_filter_simps)

lemma tally_settle: "settle_batch env later batch answer s = (Inr r, t) \<Longrightarrow> tally r"
proof -
  assume h: "settle_batch env later batch answer s = (Inr r, t)"
  have acc: "finalizeAcceptedBatch env batch ids s = (Inr r, t) \<Longrightarrow> length ids = length (cb_messages batch) \<Longrightarrow> tally r"
    for ids
    by (auto simp: finalizeAcceptedBatch_def tally_def case_prod_unfold elim!: io_bind_InrE)
  have terminal: "finalizeFailedBatch batch code s = (Inr r, t) \<Longrightarrow> tally r"
    "finalizeIndeterminateBatch batch code s = (Inr r, t) \<Longrightarrow> tally r" for code
    by (auto simp: finalizeFailedBatch_def finalizeIndeterminateBatch_def tally_terminal elim!: io_bind_InrE)
  have retry: "scheduleBatchRetry later batch code s = (Inr r, t) \<Longrightarrow> tally r" for code
    using terminal(2) [of window_detail]
    by (auto simp: scheduleBatchRetry_def Let_def tally_def split: if_splits)
  have len: "length (List.map_filter json_string ids) = length ids" if "\<forall>i \<in> set ids. truthy (json_string i)" for ids
    using that by (intro length_map_filter_all) (metis truthy_simps(1))
  show ?thesis
    using h acc terminal retry len by (auto simp: settle_batch_def split: sum.splits if_splits)
qed

section \<open>Well-formed outboxes\<close>

text \<open>What the keys and foreign keys of the schema give.\<close>

definition outbox_wf :: "store \<Rightarrow> bool" where
  "outbox_wf s \<longleftrightarrow>
     distinct (map ob_id (outbox_batches s)) \<and> distinct (map oe_messageId (outbox_entries s))
     \<and> distinct (map ms_id (messages s))
     \<and> (\<forall>e \<in> set (outbox_entries s). oe_messageId e \<in> ms_id ` set (messages s))
     \<and> (\<forall>e \<in> set (outbox_entries s). \<forall>i. oe_batchId e = Some i \<longrightarrow> i \<in> ob_id ` set (outbox_batches s))
     \<and> ids_fresh s (ob_id ` set (outbox_batches s))"

lemma drop_settled_simps [simp]:
  "outbox_batches (drop_settled_entries s) = outbox_batches s"
  "messages (drop_settled_entries s) = messages s"
  "id_source (drop_settled_entries s) = id_source s"
  "id_count (drop_settled_entries s) = id_count s"
  "db_now (drop_settled_entries s) = db_now s"
  by (simp_all add: drop_settled_entries_def)

lemma set_drop_settled: "set (outbox_entries (drop_settled_entries s)) \<subseteq> set (outbox_entries s)"
  by (auto simp: drop_settled_entries_def)

lemma distinct_map_delete_where: "distinct (map f rs) \<Longrightarrow> distinct (map f (delete_where P rs))"
  by (simp add: delete_where_def distinct_map_filter)

lemma outbox_wf_drop: "outbox_wf s \<Longrightarrow> outbox_wf (drop_settled_entries s)"
  using set_drop_settled [of s]
  by (auto simp: outbox_wf_def ids_fresh_def)
     (simp add: drop_settled_entries_def distinct_map_delete_where)

text \<open>The messages of a batch do not depend on the entries outside batches.\<close>

lemma batch_messages_drop: "batch_messages i (drop_settled_entries s) = batch_messages i s"
proof -
  have "filter (\<lambda>e. oe_batchId e = Some i) (delete_where (\<lambda>e. oe_batchId e = None \<and> P e) es) =
      filter (\<lambda>e. oe_batchId e = Some i) es" for P es
    by (induction es) auto
  note same = this [of "\<lambda>e. case find_by ms_id (oe_messageId e) (messages s) of
    Some m \<Rightarrow> ms_state m \<noteq> PENDING | None \<Rightarrow> False" "outbox_entries s"]
  show ?thesis unfolding batch_messages_def drop_settled_entries_def by (simp add: same)
qed

lemma batch_messages_cong:
  "outbox_entries s = outbox_entries t \<Longrightarrow> messages s = messages t \<Longrightarrow> batch_messages i s = batch_messages i t"
  by (simp add: batch_messages_def)

lemma index_nth: "distinct xs \<Longrightarrow> n < length xs \<Longrightarrow> length (takeWhile (\<lambda>j. j \<noteq> xs ! n) xs) = n"
proof (induction xs arbitrary: n)
  case (Cons x xs)
  then show ?case by (cases n) auto
qed simp

lemma sorted_pair_0: "sorted (map (\<lambda>n. (0 :: nat, n)) ns) \<longleftrightarrow> sorted (ns :: nat list)"
  by (induction ns) auto

text \<open>Assigning a fresh batch id to chosen entries makes a batch of exactly those, in that order.\<close>

lemma sort_entries_eq:
  assumes "distinct picked" and "set picked \<subseteq> oe_messageId ` {e \<in> set es. oe_batchId e = None}"
    and "distinct (map oe_messageId es)" and "\<And>e. e \<in> set es \<Longrightarrow> oe_batchId e \<noteq> Some i"
  shows "map oe_messageId (sort_key position_order
     (filter (\<lambda>e. oe_batchId e = Some i) (map (assign_batch i picked) es))) = picked"
proof -
  let ?idx = "\<lambda>k. length (takeWhile (\<lambda>j. j \<noteq> k) picked)"
  let ?mine = "\<lambda>e. oe_batchId e = None \<and> oe_messageId e \<in> set picked"
  define xs where "xs = filter (\<lambda>e. oe_batchId e = Some i) (map (assign_batch i picked) es)"
  have xs: "xs = map (assign_batch i picked) (filter ?mine es)"
    unfolding xs_def using assms(4) by (induction es) (auto simp: assign_batch_def)
  have key: "map oe_messageId xs = map oe_messageId (filter ?mine es)"
    unfolding xs by (simp add: assign_batch_def)
  have pos: "position_order e = (0, ?idx (oe_messageId e))" if "e \<in> set xs" for e
    using that unfolding xs by (auto simp: assign_batch_def position_order_def)
  have idx: "?idx (picked ! n) = n" if "n < length picked" for n
    by (rule index_nth [OF assms(1) that])
  have inj: "inj_on ?idx (set picked)"
    using idx by (auto simp: inj_on_def in_set_conv_nth)
  have "oe_messageId ` set xs = oe_messageId ` set (filter ?mine es)"
    using arg_cong [OF key, of set] by simp
  then have sub: "oe_messageId ` set xs = set picked"
    using assms(2) by (auto simp: image_iff)
  have d: "distinct (map oe_messageId xs)" unfolding key using assms(3) by (rule distinct_map_filter)
  have s: "sorted (map position_order (sort_key position_order xs))" by simp
  have "sorted (map (\<lambda>e. ?idx (oe_messageId e)) (sort_key position_order xs))"
  proof -
    have "map position_order (sort_key position_order xs) =
        map (\<lambda>n. (0, n)) (map (\<lambda>e. ?idx (oe_messageId e)) (sort_key position_order xs))"
      using pos by simp
    with s have "sorted (map (\<lambda>n. (0::nat, n)) (map (\<lambda>e. ?idx (oe_messageId e)) (sort_key position_order xs)))"
      by simp
    then show ?thesis by (simp only: sorted_pair_0)
  qed
  then have srt: "sorted (map ?idx (map oe_messageId (sort_key position_order xs)))"
    by (simp only: map_map comp_def)
  have ms: "mset (map oe_messageId (sort_key position_order xs)) = mset picked"
    using set_eq_iff_mset_eq_distinct [OF d assms(1)] sub by simp
  have "sorted (map ?idx picked)"
    by (simp add: sorted_iff_nth_mono idx)
  then have "sort_key ?idx picked = picked" by (rule sort_key_id_if_sorted)
  moreover have "sort_key ?idx (map oe_messageId (sort_key position_order xs)) = map oe_messageId (sort_key position_order xs)"
    using srt by (rule sort_key_id_if_sorted)
  moreover have "sort_key ?idx picked = sort_key ?idx (map oe_messageId (sort_key position_order xs))"
    by (rule sort_key_inj_key_eq) (use ms inj in simp_all)
  ultimately show ?thesis by (simp add: xs_def)
qed

section \<open>What a claim returns\<close>

lemma js_head_in: "js_head xs = Some x \<Longrightarrow> x \<in> set xs"
  by (cases xs) auto

lemma retryable_batch_Some:
  assumes "retryable_batch now locked s = Some b"
  shows "b \<in> set (outbox_batches s)" "batch_ready now b" "\<not> locked (ob_id b)"
  using js_head_in [OF assms [unfolded retryable_batch_def]] by auto

lemma retryable_batch_drop: "retryable_batch now locked (drop_settled_entries s) = retryable_batch now locked s"
  by (simp add: retryable_batch_def)

lemma queued_messages_drop: "queued_messages limit locked (drop_settled_entries s) = queued_messages limit locked s"
proof -
  have f: "filter (\<lambda>e. oe_batchId e = None \<and> message_is PENDING (oe_messageId e) s \<and> L e)
      (delete_where (\<lambda>e. oe_batchId e = None \<and>
        (case find_by ms_id (oe_messageId e) (messages s) of Some m \<Rightarrow> ms_state m \<noteq> PENDING | None \<Rightarrow> False)) es)
    = filter (\<lambda>e. oe_batchId e = None \<and> message_is PENDING (oe_messageId e) s \<and> L e) es" for L es
    by (induction es) (auto simp: message_is_def split: option.splits)
  have "message_is st i (drop_settled_entries s) = message_is st i s" for st i by (simp add: message_is_def)
  then show ?thesis
    unfolding queued_messages_def by (simp add: f) (simp add: drop_settled_entries_def f)
qed

lemma queued_messages_facts:
  assumes "distinct (map oe_messageId (outbox_entries s))"
  shows "distinct (queued_messages limit locked s)" "length (queued_messages limit locked s) \<le> limit"
    "set (queued_messages limit locked s) \<subseteq> oe_messageId ` {e \<in> set (outbox_entries s). oe_batchId e = None}"
    "\<forall>i \<in> set (queued_messages limit locked s). message_is PENDING i s \<and> \<not> locked i"
proof -
  let ?q = "\<lambda>e. oe_batchId e = None \<and> message_is PENDING (oe_messageId e) s \<and> \<not> locked (oe_messageId e)"
  let ?k = "\<lambda>e. (oe_queuedAt e, oe_messageId e)"
  have "mset (map oe_messageId (sort_key ?k (filter ?q (outbox_entries s)))) =
      mset (map oe_messageId (filter ?q (outbox_entries s)))" by simp
  moreover have "distinct (map oe_messageId (filter ?q (outbox_entries s)))"
    using assms by (rule distinct_map_filter)
  ultimately have "distinct (map oe_messageId (sort_key ?k (filter ?q (outbox_entries s))))"
    using mset_eq_imp_distinct_iff by blast
  then show "distinct (queued_messages limit locked s)" by (simp add: queued_messages_def)
  show "length (queued_messages limit locked s) \<le> limit" by (simp add: queued_messages_def)
  have "set (queued_messages limit locked s) \<subseteq> set (map oe_messageId (sort_key ?k (filter ?q (outbox_entries s))))"
    unfolding queued_messages_def by (rule set_take_subset)
  then show "set (queued_messages limit locked s) \<subseteq> oe_messageId ` {e \<in> set (outbox_entries s). oe_batchId e = None}"
    "\<forall>i \<in> set (queued_messages limit locked s). message_is PENDING i s \<and> \<not> locked i"
    by auto
qed

lemma map_ids_of_entries:
  "(\<And>e. e \<in> set es \<Longrightarrow> oe_messageId e \<in> ms_id ` set ms) \<Longrightarrow>
     map ms_id (List.map_filter (\<lambda>e. find_by ms_id (oe_messageId e) ms) es) = map oe_messageId es"
proof (induction es)
  case (Cons e es)
  then obtain m where "find_by ms_id (oe_messageId e) ms = Some m"
    by (metis find_by_None list.set_intros(1) not_Some_eq)
  with Cons show ?case using find_by_SomeD by (fastforce simp: List.map_filter_simps)
qed (simp add: List.map_filter_simps)

lemma batch_messages_ids:
  "outbox_wf s \<Longrightarrow> map ms_id (batch_messages i s) =
     map oe_messageId (sort_key position_order (filter (\<lambda>e. oe_batchId e = Some i) (outbox_entries s)))"
  unfolding batch_messages_def by (rule map_ids_of_entries) (auto simp: outbox_wf_def)

lemma assign_batch_id [simp]: "oe_messageId (assign_batch i picked e) = oe_messageId e"
  by (simp add: assign_batch_def)

lemma outbox_wf_create:
  assumes wf: "outbox_wf s"
  shows "outbox_wf (snd (create_batch tk now u picked s))"
proof -
  have fresh: "id_source s (id_count s) \<notin> ob_id ` set (outbox_batches s)"
    using wf by (auto simp: outbox_wf_def ids_fresh_def)
  have "ids_fresh s (ob_id ` set (outbox_batches s))" using wf by (simp add: outbox_wf_def)
  then have "ids_fresh (s\<lparr>id_count := Suc (id_count s)\<rparr>) (insert (id_source s (id_count s)) (ob_id ` set (outbox_batches s)))"
    using ids_fresh_draw by (fastforce simp: draw_id_def)
  moreover have "map oe_messageId (map (assign_batch i picked) es) = map oe_messageId es" for i es by simp
  moreover have "\<forall>e \<in> set (outbox_entries s). \<forall>i. oe_batchId (assign_batch j picked e) = Some i \<longrightarrow>
      i = j \<or> i \<in> ob_id ` set (outbox_batches s)" for j
    using wf by (auto simp: outbox_wf_def assign_batch_def split: if_splits)
  ultimately show ?thesis
    using wf fresh
    by (simp add: outbox_wf_def create_batch_def draw_id_def Let_def ids_fresh_def del: map_map)
qed

lemma image_update_where: "(\<And>r. g (f r) = g r) \<Longrightarrow> g ` set (update_where P f rs) = g ` set rs"
  by (metis map_update_where list.set_map)

lemma outbox_wf_reclaim:
  "outbox_wf s \<Longrightarrow> outbox_wf (s\<lparr>outbox_batches := update_where (\<lambda>r. ob_id r = i) (reclaim_batch tk u) (outbox_batches s)\<rparr>)"
  by (simp add: outbox_wf_def map_update_where ids_fresh_def image_update_where)

lemma claim_InrE:
  assumes "claimOutboxBatch tk now limit lb le s = (Inr (Some batch), t)"
  obtains b ms fa where "claim_transaction tk now limit lb le s = (Inr (Some (b, ms)), t)"
    "ob_firstAttemptAt b = Some fa" "\<forall>m \<in> set ms. ms_state m = PENDING"
    "batch = \<lparr>cb_id = ob_id b, cb_leaseToken = tk, cb_attemptCount = ob_attemptCount b,
       cb_firstAttemptAt = fa, cb_messages = ms\<rparr>"
proof -
  obtain found s1 where f: "transaction (claim_transaction tk now limit lb le) s = (Inr found, s1)"
    and rest: "(case found of
          None \<Rightarrow> io_return None
        | Some (b, ms) \<Rightarrow>
            (case ob_firstAttemptAt b of
               None \<Rightarrow> io_throw invalid_state_error
             | Some firstAttemptAt \<Rightarrow>
                 if \<exists>m \<in> set ms. ms_state m \<noteq> PENDING then io_throw invalid_state_error
                 else io_return (Some \<lparr>cb_id = ob_id b, cb_leaseToken = tk,
                   cb_attemptCount = ob_attemptCount b, cb_firstAttemptAt = firstAttemptAt, cb_messages = ms\<rparr>))) s1
       = (Inr (Some batch), t)"
    using assms unfolding claimOutboxBatch_def by (rule io_bind_InrE)
  have "claim_transaction tk now limit lb le s = (Inr found, s1)"
    using f by (rule transaction_InrD)
  with rest that show thesis by (fastforce split: option.splits prod.splits if_splits)
qed

lemma create_batch_id: "fst (create_batch tk now u picked s) = id_source s (id_count s)"
  by (simp add: create_batch_def draw_id_def Let_def)

lemma created_messages:
  assumes wf: "outbox_wf s" and picked: "picked = queued_messages limit le s"
    and c: "create_batch tk now u picked s = (i, s1)"
  shows "map ms_id (batch_messages i s1) = picked"
    "find_by ob_id i (outbox_batches s1) = Some \<lparr>ob_id = i, ob_nextAttemptAt = db_now s, ob_firstAttemptAt = Some now,
       ob_attemptCount = 1, ob_leaseToken = Some tk, ob_leaseUntil = Some u, ob_lastErrorCode = None\<rparr>"
proof -
  have i: "i = id_source s (id_count s)" using c create_batch_id [of tk now u picked s] by simp
  then have fresh: "i \<notin> ob_id ` set (outbox_batches s)"
    using wf by (auto simp: outbox_wf_def ids_fresh_def)
  have d: "distinct (map oe_messageId (outbox_entries s))" using wf by (simp add: outbox_wf_def)
  have wf1: "outbox_wf s1" using outbox_wf_create [OF wf, of tk now u picked] c by simp
  have "outbox_entries s1 = map (assign_batch i picked) (outbox_entries s)"
    using c by (auto simp: create_batch_def draw_id_def Let_def)
  moreover have "oe_batchId e \<noteq> Some i" if "e \<in> set (outbox_entries s)" for e
    using wf that fresh by (auto simp: outbox_wf_def)
  ultimately show "map ms_id (batch_messages i s1) = picked"
    using sort_entries_eq [of picked "outbox_entries s" i] queued_messages_facts [OF d, of limit le] d
    by (simp add: batch_messages_ids [OF wf1] picked)
  have "find_by ob_id i (outbox_batches s @ [b]) = (if ob_id b = i then Some b else None)" for b
  proof -
    have "find_by ob_id i (bs @ [b]) = (if ob_id b = i then Some b else None)"
      if "i \<notin> ob_id ` set bs" for bs using that by (induction bs) auto
    with fresh show ?thesis by simp
  qed
  then show "find_by ob_id i (outbox_batches s1) = Some \<lparr>ob_id = i, ob_nextAttemptAt = db_now s,
      ob_firstAttemptAt = Some now, ob_attemptCount = 1, ob_leaseToken = Some tk, ob_leaseUntil = Some u,
      ob_lastErrorCode = None\<rparr>"
    using c i by (auto simp: create_batch_def draw_id_def Let_def)
qed

lemma claim_cases:
  assumes wf: "outbox_wf s" and run: "claimOutboxBatch tk now limit lb le s = (Inr (Some batch), t)"
  obtains
    (again) b where "retryable_batch now lb s = Some b" "cb_id batch = ob_id b"
      "cb_attemptCount batch = Suc (ob_attemptCount b)" "ob_firstAttemptAt b = Some (cb_firstAttemptAt batch)"
      "cb_leaseToken batch = tk" "cb_messages batch = batch_messages (ob_id b) s"
      "\<forall>m \<in> set (cb_messages batch). ms_state m = PENDING"
      "t = (drop_settled_entries s)\<lparr>outbox_batches := update_where (\<lambda>r. ob_id r = ob_id b)
         (reclaim_batch tk (now + OUTBOX_LEASE_MS)) (outbox_batches s)\<rparr>"
  | (fresh) "retryable_batch now lb s = None" "queued_messages limit le s \<noteq> []"
      "cb_id batch = id_source s (id_count s)" "map ms_id (cb_messages batch) = queued_messages limit le s"
      "cb_attemptCount batch = 1" "cb_firstAttemptAt batch = now" "cb_leaseToken batch = tk"
      "\<forall>m \<in> set (cb_messages batch). ms_state m = PENDING"
      "t = snd (create_batch tk now (now + OUTBOX_LEASE_MS) (queued_messages limit le s) (drop_settled_entries s))"
proof -
  let ?s1 = "drop_settled_entries s" and ?u = "now + OUTBOX_LEASE_MS"
  have wf1: "outbox_wf ?s1" by (rule outbox_wf_drop [OF wf])
  obtain b ms fa where c: "claim_transaction tk now limit lb le s = (Inr (Some (b, ms)), t)"
    and fa: "ob_firstAttemptAt b = Some fa" and pend: "\<forall>m \<in> set ms. ms_state m = PENDING"
    and batch: "batch = \<lparr>cb_id = ob_id b, cb_leaseToken = tk, cb_attemptCount = ob_attemptCount b,
       cb_firstAttemptAt = fa, cb_messages = ms\<rparr>"
    using run by (rule claim_InrE)
  show thesis
  proof (cases "retryable_batch now lb s")
    case None
    let ?p = "queued_messages limit le s"
    obtain i s2 where cr: "create_batch tk now ?u ?p ?s1 = (i, s2)" by fastforce
    have p: "?p = queued_messages limit le ?s1" by (simp add: queued_messages_drop)
    note made = created_messages [OF wf1 p cr]
    have ne: "?p \<noteq> []" using c None by (auto simp: claim_transaction_def Let_def retryable_batch_drop queued_messages_drop)
    with c None cr made(2) have "ms = batch_messages i s2" "t = s2" "ob_id b = i" "ob_firstAttemptAt b = Some now"
      "ob_attemptCount b = 1"
      by (auto simp: claim_transaction_def Let_def retryable_batch_drop queued_messages_drop)
    moreover have "i = id_source s (id_count s)" using create_batch_id [of tk now ?u ?p ?s1] cr by simp
    ultimately show thesis
      using fresh None ne made(1) fa pend batch cr by simp
  next
    case (Some b0)
    have d: "distinct (map ob_id (outbox_batches s))" using wf by (simp add: outbox_wf_def)
    have f: "find_by ob_id (ob_id b0) (update_where (\<lambda>r. ob_id r = ob_id b0) (reclaim_batch tk ?u) (outbox_batches s))
        = Some (reclaim_batch tk ?u b0)"
      using find_by_distinct [OF d retryable_batch_Some(1) [OF Some]] by (simp add: find_by_update_where)
    let ?t = "?s1\<lparr>outbox_batches := update_where (\<lambda>r. ob_id r = ob_id b0) (reclaim_batch tk ?u) (outbox_batches s)\<rparr>"
    have m: "batch_messages (ob_id b0) ?t = batch_messages (ob_id b0) s"
      by (subst batch_messages_drop [symmetric]) (rule batch_messages_cong; simp)
    from c Some f have "b = reclaim_batch tk ?u b0" "ms = batch_messages (ob_id b0) ?t" "t = ?t"
      by (auto simp: claim_transaction_def Let_def retryable_batch_drop)
    then show thesis using again [OF Some] fa pend batch m by simp
  qed
qed

section \<open>What settling does to the messages\<close>

text \<open>A message that left \<open>PENDING\<close> is out of reach: no later drain changes its state or provider id.\<close>

definition has_outcome :: "message \<Rightarrow> store \<Rightarrow> bool" where
  "has_outcome m s \<longleftrightarrow>
     (\<exists>m' \<in> set (messages s). ms_id m' = ms_id m \<and> ms_state m' = ms_state m
        \<and> ms_stateDetail m' = ms_stateDetail m \<and> ms_resendEmailId m' = ms_resendEmailId m)"

lemma has_outcome_update:
  assumes "has_outcome m s" and "ms_state m \<noteq> PENDING"
    and "\<And>m'. P m' \<Longrightarrow> ms_state m' = PENDING \<or> (ms_id (f m') = ms_id m' \<and> ms_state (f m') = ms_state m'
      \<and> ms_stateDetail (f m') = ms_stateDetail m' \<and> ms_resendEmailId (f m') = ms_resendEmailId m')"
  shows "has_outcome m (s\<lparr>messages := update_where P f (messages s)\<rparr>)"
proof -
  obtain m' where m': "m' \<in> set (messages s)" "ms_id m' = ms_id m" "ms_state m' = ms_state m"
    "ms_stateDetail m' = ms_stateDetail m" "ms_resendEmailId m' = ms_resendEmailId m"
    using assms(1) by (auto simp: has_outcome_def)
  then have "(if P m' then f m' else m') \<in> set (update_where P f (messages s))"
    by (auto simp: set_update_where)
  with m' assms(2) assms(3) [of m'] show ?thesis
    unfolding has_outcome_def by (auto split: if_splits)
qed

lemma has_outcome_frame [simp]:
  "has_outcome m (s\<lparr>outbox_batches := x\<rparr>) = has_outcome m s"
  "has_outcome m (s\<lparr>outbox_entries := y\<rparr>) = has_outcome m s"
  by (simp_all add: has_outcome_def)

lemma record_delivery_outcome [simp]:
  "ms_stateDetail (record_delivery c d m) = ms_stateDetail m"
  "ms_resendEmailId (record_delivery c d m) = ms_resendEmailId m"
  by (simp_all add: record_delivery_def)

lemma reconcile_keeps_outcome:
  assumes "ms_state m \<noteq> PENDING"
  shows "io_keeps (has_outcome m) (reconcileOutboundDeliveryState env r)"
proof (rule reconcile_keeps)
  fix c d s assume "has_outcome m s"
  then show "has_outcome m (s\<lparr>messages := update_where (sent_as r) (record_delivery c d) (messages s)\<rparr>)"
    using assms by (rule has_outcome_update) simp
qed (simp add: has_outcome_def)

lemma deleteOwned_messages: "messages (snd (deleteOwnedBatch batch s)) = messages s"
  by (simp add: deleteOwnedBatch_def Let_def)

lemma settle_keeps_outcome:
  assumes m: "ms_state m \<noteq> PENDING"
  shows "io_keeps (has_outcome m) (settle_batch env later batch answer)"
proof -
  have assert: "io_keeps (has_outcome m) (assertLeaseOwner batch)"
    by (simp add: io_keeps_def assertLeaseOwner_def)
  have del: "io_keeps (has_outcome m) (deleteOwnedBatch batch)"
    by (simp add: io_keeps_def has_outcome_def deleteOwned_messages)
  have settle: "io_keeps (has_outcome m) (io_modify (settle_messages ids st detail))" for ids st detail
    unfolding settle_messages_def by (intro keeps_intros has_outcome_update m) auto
  have accept: "io_keeps (has_outcome m) (accept_batch_messages pairs)" for pairs
    by (auto simp: io_keeps_def accept_batch_messages_def Let_def intro!: has_outcome_update m)
  note rules = keeps_intros assert del settle accept reconcile_keeps_outcome [OF m]
  have terminal: "io_keeps (has_outcome m) (finalize_terminal batch st detail)" for st detail
    unfolding finalize_terminal_def by (intro rules)
  have ind: "io_keeps (has_outcome m) (finalizeIndeterminateBatch batch detail)" for detail
    unfolding finalizeIndeterminateBatch_def by (intro keeps_intros terminal)
  have retry: "io_keeps (has_outcome m) (scheduleBatchRetry later batch code)" for code
    using ind by (auto simp: io_keeps_def scheduleBatchRetry_def Let_def)
  have fail: "io_keeps (has_outcome m) (finalizeFailedBatch batch code)" for code
    unfolding finalizeFailedBatch_def by (intro keeps_intros terminal)
  have ok: "io_keeps (has_outcome m) (finalizeAcceptedBatch env batch ids)" for ids
    unfolding finalizeAcceptedBatch_def by (intro rules) (auto intro: keeps_intros)
  show ?thesis
    using ind retry fail ok by (auto simp: settle_batch_def split: sum.splits)
qed

text \<open>A drain after which every message of the batch is accepted.\<close>

lemma accept_all_hit:
  assumes d: "distinct (map ms_id ms)" and k: "distinct (map fst pairs)"
    and n: "count_where (\<lambda>m. ms_state m = PENDING \<and> map_of pairs (ms_id m) \<noteq> None) ms = length pairs"
    and i: "(i, x) \<in> set pairs"
  shows "\<exists>m \<in> set ms. ms_id m = i \<and> ms_state m = PENDING"
proof -
  let ?hit = "\<lambda>m. ms_state m = PENDING \<and> map_of pairs (ms_id m) \<noteq> None"
  let ?hits = "ms_id ` set (filter ?hit ms)"
  have "card ?hits = length (map ms_id (filter ?hit ms))"
    using distinct_card [OF distinct_map_filter [OF d, of ?hit]] by (simp only: list.set_map)
  also have "\<dots> = card (set (map fst pairs))"
    using n distinct_card [OF k] by (simp add: count_where_def)
  finally have "card ?hits = card (set (map fst pairs))" .
  moreover have "?hits \<subseteq> set (map fst pairs)"
    by (auto simp: map_of_eq_None_iff)
  ultimately have "?hits = set (map fst pairs)" by (intro card_subset_eq) simp_all
  then have "i \<in> ?hits" using i by force
  then show ?thesis by auto
qed

definition accepted_as :: "uuid \<Rightarrow> string \<Rightarrow> store \<Rightarrow> bool" where
  "accepted_as i x s \<longleftrightarrow> (\<exists>m \<in> set (messages s). ms_id m = i \<and> ms_state m = ACCEPTED \<and> ms_resendEmailId m = Some x)"

lemma reconcile_keeps_accepted: "io_keeps (accepted_as i x) (reconcileOutboundDeliveryState env r)"
proof (rule reconcile_keeps)
  fix c d s assume "accepted_as i x s"
  then obtain m where "m \<in> set (messages s)" "ms_id m = i" "ms_state m = ACCEPTED" "ms_resendEmailId m = Some x"
    by (auto simp: accepted_as_def)
  then show "accepted_as i x (s\<lparr>messages := update_where (sent_as r) (record_delivery c d) (messages s)\<rparr>)"
    unfolding accepted_as_def
    by (intro bexI [of _ "if sent_as r m then record_delivery c d m else m"]) (auto simp: set_update_where)
qed (simp add: accepted_as_def)

lemma accept_step:
  assumes run: "accept_batch_messages pairs s = (Inr (length pairs), s1)"
    and d: "distinct (map ms_id (messages s))" and k: "distinct (map fst pairs)" and i: "(i, x) \<in> set pairs"
  shows "accepted_as i x s1"
proof -
  let ?hit = "\<lambda>m. ms_state m = PENDING \<and> map_of pairs (ms_id m) \<noteq> None"
  have n: "count_where ?hit (messages s) = length pairs"
    and s1: "messages s1 = update_where ?hit (\<lambda>m. accept_message (the (map_of pairs (ms_id m))) m) (messages s)"
    using run by (auto simp: accept_batch_messages_def Let_def split: if_splits)
  obtain m where m: "m \<in> set (messages s)" "ms_id m = i" "ms_state m = PENDING"
    using accept_all_hit [OF d k n i] by blast
  have "map_of pairs i = Some x" using k i by simp
  with m show ?thesis
    unfolding accepted_as_def s1
    by (intro bexI [of _ "accept_message x m"]) (auto simp: set_update_where accept_message_def image_iff intro!: bexI [of _ m])
qed

lemma finalize_accepted_effect:
  assumes run: "finalizeAcceptedBatch env batch ids s = (Inr r, t)"
    and wf: "distinct (map ms_id (messages s))" "distinct (map ob_id (outbox_batches s))"
    and ids: "length ids = length (cb_messages batch)" "distinct (map ms_id (cb_messages batch))"
  shows "\<forall>(i, x) \<in> set (zip (map ms_id (cb_messages batch)) ids). accepted_as i x t"
    "\<forall>b \<in> set (outbox_batches t). ob_id b \<noteq> cb_id batch"
    "\<forall>e \<in> set (outbox_entries t). oe_batchId e \<noteq> Some (cb_id batch)"
proof -
  let ?pairs = "zip (map ms_id (cb_messages batch)) ids"
  let ?owned = "batch_owned (cb_id batch) (cb_leaseToken batch)"
  obtain n s1 s2 where a: "accept_batch_messages ?pairs s = (Inr n, s1)" "n = length (cb_messages batch)"
    and e: "io_each (reconcileOutboundDeliveryState env) ids s1 = (Inr (), s2)"
    and del: "deleteOwnedBatch batch s2 = (Inr (), t)"
    using run
    by (auto simp: finalizeAcceptedBatch_def assertLeaseOwner_def elim!: io_bind_InrE
        dest!: transaction_InrD split: if_splits)
  have k: "distinct (map fst ?pairs)" using ids by simp
  have "accepted_as i x t" if i: "(i, x) \<in> set ?pairs" for i x
  proof -
    have "accepted_as i x s1"
      using accept_step [OF _ wf(1) k i] a ids(1) by simp
    then have "accepted_as i x s2"
      using io_keepsD [OF io_keeps_each [OF reconcile_keeps_accepted] _ e] by blast
    then show ?thesis using del deleteOwned_messages [of batch s2] by (simp add: accepted_as_def)
  qed
  then show "\<forall>(i, x) \<in> set ?pairs. accepted_as i x t" by blast
  have "io_keeps (\<lambda>s'. outbox_batches s' = outbox_batches s1) (reconcileOutboundDeliveryState env r)" for r
    by (rule reconcile_keeps) simp_all
  then have b: "outbox_batches s2 = outbox_batches s"
    using io_keepsD [OF io_keeps_each _ e, of "\<lambda>s'. outbox_batches s' = outbox_batches s1"] a(1)
    by (auto simp: accept_batch_messages_def Let_def split: if_splits)
  have one: "count_where ?owned (outbox_batches s) = 1" using del b
    by (simp add: deleteOwnedBatch_def Let_def split: if_splits)
  then obtain w where w: "w \<in> set (outbox_batches s)" "?owned w"
    using count_where_pos [of ?owned "outbox_batches s"] by auto
  show "\<forall>b \<in> set (outbox_batches t). ob_id b \<noteq> cb_id batch"
  proof
    fix v assume "v \<in> set (outbox_batches t)"
    then have v: "v \<in> set (outbox_batches s)" "\<not> ?owned v"
      using del b by (auto simp: deleteOwnedBatch_def Let_def split: if_splits)
    show "ob_id v \<noteq> cb_id batch"
      using distinct_key_unique [OF wf(2) v(1) w(1)] v(2) w(2) by (auto simp: batch_owned_def)
  qed
  show "\<forall>e \<in> set (outbox_entries t). oe_batchId e \<noteq> Some (cb_id batch)"
    using del b w by (auto simp: deleteOwnedBatch_def Let_def batch_owned_def split: if_splits)
qed

section \<open>Claims over time\<close>

lemma claim_post:
  assumes wf: "outbox_wf s" and run: "claimOutboxBatch tk now limit lb le s = (Inr (Some batch), t)"
  shows "outbox_wf t" "cb_messages batch = batch_messages (cb_id batch) t"
    "\<forall>b \<in> set (outbox_batches t). ob_id b = cb_id batch \<longrightarrow>
       ob_leaseToken b = Some tk \<and> ob_leaseUntil b = Some (now + OUTBOX_LEASE_MS)"
    "cb_leaseToken batch = tk" "messages t = messages s"
proof -
  let ?s1 = "drop_settled_entries s"
  have wf1: "outbox_wf ?s1" by (rule outbox_wf_drop [OF wf])
  have "outbox_wf t \<and> cb_messages batch = batch_messages (cb_id batch) t
      \<and> (\<forall>b \<in> set (outbox_batches t). ob_id b = cb_id batch \<longrightarrow>
           ob_leaseToken b = Some tk \<and> ob_leaseUntil b = Some (now + OUTBOX_LEASE_MS))
      \<and> cb_leaseToken batch = tk \<and> messages t = messages s"
    using wf run
  proof (cases rule: claim_cases)
    case (again b)
    have "batch_messages (ob_id b) t = batch_messages (ob_id b) ?s1"
      by (rule batch_messages_cong) (simp_all add: again(8))
    moreover have "outbox_wf t" using outbox_wf_reclaim [OF wf1] again(8) by simp
    ultimately show ?thesis
      using again by (auto simp: set_update_where batch_messages_drop)
  next
    case fresh
    let ?p = "queued_messages limit le s"
    obtain i s2 where cr: "create_batch tk now (now + OUTBOX_LEASE_MS) ?p ?s1 = (i, s2)" by fastforce
    have i: "i = id_source s (id_count s)"
      using create_batch_id [of tk now "now + OUTBOX_LEASE_MS" ?p ?s1] cr by simp
    have t: "t = s2" using fresh(9) cr by simp
    have "outbox_wf t" using outbox_wf_create [OF wf1, of tk now _ ?p] fresh(9) by simp
    obtain b ms fa where c: "claim_transaction tk now limit lb le s = (Inr (Some (b, ms)), t)"
      and b: "batch = \<lparr>cb_id = ob_id b, cb_leaseToken = tk, cb_attemptCount = ob_attemptCount b,
        cb_firstAttemptAt = fa, cb_messages = ms\<rparr>"
      using run by (rule claim_InrE)
    have "ms = batch_messages i t"
      using c fresh(1,2) cr t
      by (auto simp: claim_transaction_def Let_def retryable_batch_drop queued_messages_drop split: option.splits)
    moreover have "cb_id batch = i" using fresh(3) i by simp
    moreover have "\<forall>b \<in> set (outbox_batches t). ob_id b = i \<longrightarrow>
        ob_leaseToken b = Some tk \<and> ob_leaseUntil b = Some (now + OUTBOX_LEASE_MS)"
    proof -
      have "i \<notin> ob_id ` set (outbox_batches s)"
        using wf i by (auto simp: outbox_wf_def ids_fresh_def)
      moreover obtain n where "outbox_batches t = outbox_batches s @ [n]" "ob_leaseToken n = Some tk"
          "ob_leaseUntil n = Some (now + OUTBOX_LEASE_MS)"
        using cr t by (auto simp: create_batch_def draw_id_def Let_def)
      ultimately show ?thesis by auto
    qed
    moreover have "messages t = messages s"
      using cr t by (auto simp: create_batch_def draw_id_def Let_def)
    ultimately show ?thesis
      using \<open>outbox_wf t\<close> b by simp
  qed
  then show "outbox_wf t" "cb_messages batch = batch_messages (cb_id batch) t"
    "\<forall>b \<in> set (outbox_batches t). ob_id b = cb_id batch \<longrightarrow>
       ob_leaseToken b = Some tk \<and> ob_leaseUntil b = Some (now + OUTBOX_LEASE_MS)"
    "cb_leaseToken batch = tk" "messages t = messages s"
    by blast+
qed

lemma batch_ids_set:
  "outbox_wf s \<Longrightarrow> ms_id ` set (batch_messages i s) = oe_messageId ` {e \<in> set (outbox_entries s). oe_batchId e = Some i}"
  using arg_cong [OF batch_messages_ids, of s set i] by simp

lemma entry_of_one_batch:
  assumes "outbox_wf s" and "e \<in> set (outbox_entries s)" and "e' \<in> set (outbox_entries s)"
    and "oe_messageId e = oe_messageId e'"
  shows "e = e'"
  using assms by (auto simp: outbox_wf_def intro: distinct_key_unique)

lemma batches_disjoint:
  assumes "outbox_wf s" and "i \<noteq> j"
  shows "oe_messageId ` {e \<in> set (outbox_entries s). oe_batchId e = i}
    \<inter> oe_messageId ` {e \<in> set (outbox_entries s). oe_batchId e = j} = {}"
proof (rule ccontr)
  assume "\<not> ?thesis"
  then obtain e e' where "e \<in> set (outbox_entries s)" "e' \<in> set (outbox_entries s)"
    "oe_messageId e = oe_messageId e'" "oe_batchId e = i" "oe_batchId e' = j" by auto
  with entry_of_one_batch [OF assms(1)] assms(2) show False by metis
qed

lemma disjoint_part: "A \<subseteq> B \<Longrightarrow> B \<inter> C = {} \<Longrightarrow> A \<inter> C = {}"
  by blast

text \<open>While a lease runs no other drain gets the batch or any of its messages.\<close>

lemma claims_disjoint:
  assumes wf: "outbox_wf s"
    and first: "claimOutboxBatch tk now limit lb le s = (Inr (Some batch), t)"
    and second: "claimOutboxBatch tk' now' limit' lb' le' t = (Inr (Some batch'), u)"
    and lease: "now' < now + OUTBOX_LEASE_MS"
  shows "cb_id batch' \<noteq> cb_id batch \<and>
    ms_id ` set (cb_messages batch') \<inter> ms_id ` set (cb_messages batch) = {}"
proof -
  note p = claim_post [OF wf first]
  have own: "ms_id ` set (cb_messages batch) = oe_messageId ` {e \<in> set (outbox_entries t). oe_batchId e = Some (cb_id batch)}"
    using batch_ids_set [OF p(1)] p(2) by simp
  show ?thesis
    using p(1) second
  proof (cases rule: claim_cases)
    case (again b)
    have "b \<in> set (outbox_batches t)" "batch_ready now' b" using retryable_batch_Some [OF again(1)] by simp_all
    then have "ob_id b \<noteq> cb_id batch" using p(3) lease by (auto simp: batch_ready_def)
    moreover have "ms_id ` set (cb_messages batch') = oe_messageId ` {e \<in> set (outbox_entries t). oe_batchId e = Some (ob_id b)}"
      using batch_ids_set [OF p(1)] again(6) by simp
    ultimately show ?thesis
      using own again(2) batches_disjoint [OF p(1), of "Some (ob_id b)" "Some (cb_id batch)"] by auto
  next
    case fresh
    have d: "distinct (map oe_messageId (outbox_entries t))" using p(1) by (simp add: outbox_wf_def)
    have "cb_id batch' \<notin> ob_id ` set (outbox_batches t)"
      using p(1) fresh(3) by (auto simp: outbox_wf_def ids_fresh_def)
    moreover have "cb_id batch \<in> ob_id ` set (outbox_batches t)"
      using wf first
    proof (cases rule: claim_cases)
      case (again b)
      with retryable_batch_Some(1) [OF again(1)] show ?thesis
        by (simp add: image_update_where)
    next
      case fresh
      then show ?thesis by (simp add: create_batch_def draw_id_def Let_def)
    qed
    moreover have sub: "ms_id ` set (cb_messages batch') \<subseteq> oe_messageId ` {e \<in> set (outbox_entries t). oe_batchId e = None}"
      using arg_cong [OF fresh(4), of set] queued_messages_facts(3) [OF d, of limit' le'] by simp
    moreover have "ms_id ` set (cb_messages batch') \<inter> ms_id ` set (cb_messages batch) = {}"
      unfolding own by (rule disjoint_part [OF sub]) (rule batches_disjoint [OF p(1)], simp)
    ultimately show ?thesis by metis
  qed
qed

text \<open>The queue is served in order of arrival.\<close>

lemma take_sorted_first:
  assumes "x \<in> set (take n (sort_key k xs))" and "y \<in> set xs" and "y \<notin> set (take n (sort_key k xs))"
  shows "k x \<le> k y" "n \<le> length xs"
proof -
  let ?s = "sort_key k xs"
  have y: "y \<in> set (drop n ?s)"
    using assms(2,3) by (metis UnE append_take_drop_id set_append set_sort)
  have "sorted (map k (take n ?s @ drop n ?s))" by (simp only: append_take_drop_id sorted_sort_key)
  then show "k x \<le> k y" using assms(1) y by (auto simp only: map_append sorted_append set_map)
  have "drop n ?s \<noteq> []" using y by auto
  then show "n \<le> length xs" by simp
qed

text \<open>The row of the claimed batch.\<close>

lemma claim_row:
  assumes wf: "outbox_wf s" and run: "claimOutboxBatch tk now limit lb le s = (Inr (Some batch), t)"
  shows "\<exists>b \<in> set (outbox_batches t). ob_id b = cb_id batch \<and> ob_firstAttemptAt b = Some (cb_firstAttemptAt batch)
    \<and> ob_attemptCount b = cb_attemptCount batch \<and> ob_leaseToken b = Some tk"
  using wf run
proof (cases rule: claim_cases)
  case (again b)
  have "reclaim_batch tk (now + OUTBOX_LEASE_MS) b \<in> set (outbox_batches t)"
    using retryable_batch_Some(1) [OF again(1)] again(8) by (auto simp: set_update_where image_iff)
  then show ?thesis using again by (intro bexI) auto
next
  case fresh
  then show ?thesis by (simp add: create_batch_def draw_id_def Let_def)
qed

text \<open>Rescheduling moves the batch row only.\<close>

lemma schedule_retry_effect:
  assumes run: "scheduleBatchRetry later batch code s = (Inr r, t)"
    and open_: "\<not> window_expired later (cb_firstAttemptAt batch)"
  shows "messages t = messages s" "outbox_entries t = outbox_entries s" "id_source t = id_source s"
    "id_count t = id_count s"
    "outbox_batches t = update_where (batch_owned (cb_id batch) (cb_leaseToken batch))
       (reschedule_batch (later + ladder_delay RETRY_DELAYS_MS (cb_attemptCount batch)) code) (outbox_batches s)"
  using assms by (auto simp: scheduleBatchRetry_def Let_def split: if_splits)

lemma reschedule_batch_simps [simp]:
  "ob_id (reschedule_batch at code b) = ob_id b"
  "ob_firstAttemptAt (reschedule_batch at code b) = ob_firstAttemptAt b"
  "ob_attemptCount (reschedule_batch at code b) = ob_attemptCount b"
  "ob_nextAttemptAt (reschedule_batch at code b) = at"
  by (simp_all add: reschedule_batch_def)

lemma outbox_wf_reschedule:
  assumes "outbox_wf s" and "messages t = messages s" "outbox_entries t = outbox_entries s"
    "id_source t = id_source s" "id_count t = id_count s"
    "outbox_batches t = update_where P (reschedule_batch at code) (outbox_batches s)"
  shows "outbox_wf t"
  using assms by (simp add: outbox_wf_def map_update_where ids_fresh_def image_update_where)

text \<open>A batch that comes back after a retry is the same request.\<close>

lemma retry_same_request:
  assumes wf: "outbox_wf s"
    and first: "claimOutboxBatch tk now limit lb le s = (Inr (Some batch), t)"
    and retry: "scheduleBatchRetry later batch code t = (Inr r, t')"
    and open_: "\<not> window_expired later (cb_firstAttemptAt batch)"
    and second: "claimOutboxBatch tk' now' limit' lb' le' t' = (Inr (Some batch'), u)"
    and same: "cb_id batch' = cb_id batch"
  shows "cb_messages batch' = cb_messages batch" "cb_attemptCount batch' = Suc (cb_attemptCount batch)"
    "cb_firstAttemptAt batch' = cb_firstAttemptAt batch"
    "later + ladder_delay RETRY_DELAYS_MS (cb_attemptCount batch) \<le> now'"
proof -
  note p = claim_post [OF wf first]
  note e = schedule_retry_effect [OF retry open_]
  have wf': "outbox_wf t'" by (rule outbox_wf_reschedule [OF p(1) e])
  obtain b where b: "b \<in> set (outbox_batches t)" "ob_id b = cb_id batch"
    "ob_firstAttemptAt b = Some (cb_firstAttemptAt batch)" "ob_attemptCount b = cb_attemptCount batch"
    "ob_leaseToken b = Some tk"
    using claim_row [OF wf first] by blast
  let ?b' = "reschedule_batch (later + ladder_delay RETRY_DELAYS_MS (cb_attemptCount batch)) code b"
  have b': "?b' \<in> set (outbox_batches t')"
    using b p(4) by (auto simp: e(5) set_update_where batch_owned_def image_iff intro!: bexI [of _ b])
  have "cb_messages batch' = cb_messages batch \<and> cb_attemptCount batch' = Suc (cb_attemptCount batch)
      \<and> cb_firstAttemptAt batch' = cb_firstAttemptAt batch
      \<and> later + ladder_delay RETRY_DELAYS_MS (cb_attemptCount batch) \<le> now'"
    using wf' second
  proof (cases rule: claim_cases)
    case (again v)
    note v = retryable_batch_Some [OF again(1)]
    have "distinct (map ob_id (outbox_batches t'))" using wf' by (simp add: outbox_wf_def)
    then have "v = ?b'"
      using v(1) b' again(2) same b(2) by (intro distinct_key_unique [of ob_id "outbox_batches t'"]) simp_all
    moreover have "batch_messages (cb_id batch) t' = batch_messages (cb_id batch) t"
      by (rule batch_messages_cong) (simp_all add: e)
    ultimately show ?thesis
      using again v(2) b p(2) same by (simp add: batch_ready_def)
  next
    case fresh
    then have "cb_id batch' \<notin> ob_id ` set (outbox_batches t')"
      using wf' by (auto simp: outbox_wf_def ids_fresh_def)
    moreover have "cb_id batch' = ob_id ?b'" using same b(2) by simp
    ultimately show ?thesis using b' by blast
  qed
  then show "cb_messages batch' = cb_messages batch" "cb_attemptCount batch' = Suc (cb_attemptCount batch)"
    "cb_firstAttemptAt batch' = cb_firstAttemptAt batch"
    "later + ladder_delay RETRY_DELAYS_MS (cb_attemptCount batch) \<le> now'" by simp_all
qed

section \<open>Properties\<close>

text \<open>A database with two queued messages, to try the lane on.\<close>

definition sample_outbox :: store where
  "sample_outbox = empty_store\<lparr>
     conversations := [plain_conversation ''c1'' AWAITING_PARTICIPANT],
     messages := [plain_message ''m2'' PENDING, plain_message ''m1'' PENDING],
     outbox_entries :=
       [\<lparr>oe_messageId = ''m2'', oe_batchId = None, oe_batchPosition = None, oe_queuedAt = 5\<rparr>,
        \<lparr>oe_messageId = ''m1'', oe_batchId = None, oe_batchPosition = None, oe_queuedAt = 3\<rparr>]\<rparr>"

definition nobody :: "uuid \<Rightarrow> bool" where "nobody i \<longleftrightarrow> False"

lemma sample_outbox_wf: "outbox_wf sample_outbox"
  using empty_store_ids
  by (simp add: outbox_wf_def sample_outbox_def ids_fresh_def plain_message_def empty_store_def)

lemma case_claimE:
  assumes "case x of (Inr (Some b), t) \<Rightarrow> P b t | _ \<Rightarrow> False"
  obtains b t where "x = (Inr (Some b), t)" "P b t"
  using assms by (auto split: prod.splits sum.splits option.splits)

lemma case_returnE:
  assumes "case x of (Inr r, t) \<Rightarrow> P r t | _ \<Rightarrow> False"
  obtains r t where "x = (Inr r, t)" "P r t"
  using assms by (auto split: prod.splits sum.splits)

lemma sample_claim:
  "case claimOutboxBatch ''tk'' 10 1 nobody nobody sample_outbox of
     (Inr (Some b), t) \<Rightarrow> map ms_id (cb_messages b) = [''m1'']
       \<and> (case claimOutboxBatch ''tk2'' 11 9 nobody nobody t of
            (Inr (Some b2), _) \<Rightarrow> map ms_id (cb_messages b2) = [''m2''] | _ \<Rightarrow> False)
   | _ \<Rightarrow> False"
  by code_simp

lemma sample_claim_obtain:
  obtains b t b2 u where "claimOutboxBatch ''tk'' 10 1 nobody nobody sample_outbox = (Inr (Some b), t)"
    "claimOutboxBatch ''tk2'' 11 9 nobody nobody t = (Inr (Some b2), u)"
    "map ms_id (cb_messages b) = [''m1'']" "map ms_id (cb_messages b2) = [''m2'']"
  using sample_claim by (fastforce split: prod.splits sum.splits option.splits)

text \<open>C4: while a lease runs, no two drains hold the same batch or the same message. A second claim
  made before the first lease ends, by any worker at any clock, gets another batch, and no message is
  in both.\<close>

theorem outbox_claims_disjoint:
  assumes "outbox_wf s"
    and "claimOutboxBatch token now limit lockedBatch lockedEntry s = (Inr (Some batch), t)"
    and "claimOutboxBatch token' now' limit' lockedBatch' lockedEntry' t = (Inr (Some batch'), u)"
    and "now' < now + OUTBOX_LEASE_MS"
  shows "cb_id batch' \<noteq> cb_id batch \<and>
    ms_id ` set (cb_messages batch') \<inter> ms_id ` set (cb_messages batch) = {}"
  using assms by (rule claims_disjoint)

theorem outbox_claims_disjoint_witness:
  "\<exists>b t b2 u. claimOutboxBatch ''tk'' 10 1 nobody nobody sample_outbox = (Inr (Some b), t)
     \<and> claimOutboxBatch ''tk2'' 11 9 nobody nobody t = (Inr (Some b2), u) \<and> cb_id b2 \<noteq> cb_id b"
proof -
  obtain b t b2 u where run: "claimOutboxBatch ''tk'' 10 1 nobody nobody sample_outbox = (Inr (Some b), t)"
    "claimOutboxBatch ''tk2'' 11 9 nobody nobody t = (Inr (Some b2), u)"
    by (rule sample_claim_obtain)
  have "cb_id b2 \<noteq> cb_id b"
    using outbox_claims_disjoint [OF sample_outbox_wf run] by (simp add: OUTBOX_LEASE_MS_def)
  with run show ?thesis by blast
qed

text \<open>A new batch takes the queued messages in order of arrival. It holds at most \<open>limit\<close>
  messages, all still pending; a queued pending message that nobody else holds is left out only when
  the batch is full, and then everything in the batch was queued before it.\<close>

theorem outbox_claim_in_order:
  assumes "outbox_wf s"
    and "claimOutboxBatch token now limit lockedBatch lockedEntry s = (Inr (Some batch), t)"
    and "retryable_batch now lockedBatch s = None"
  shows "length (cb_messages batch) \<le> limit \<and> (\<forall>m \<in> set (cb_messages batch). ms_state m = PENDING) \<and>
    (\<forall>e \<in> set (outbox_entries s).
       oe_batchId e = None \<and> message_is PENDING (oe_messageId e) s \<and> \<not> lockedEntry (oe_messageId e)
       \<and> oe_messageId e \<notin> ms_id ` set (cb_messages batch) \<longrightarrow>
       length (cb_messages batch) = limit
       \<and> (\<forall>e' \<in> set (outbox_entries s). oe_messageId e' \<in> ms_id ` set (cb_messages batch) \<longrightarrow>
            (oe_queuedAt e', oe_messageId e') \<le> (oe_queuedAt e, oe_messageId e)))"
  using assms(1,2)
proof (cases rule: claim_cases)
  case (again b)
  with assms(3) show ?thesis by simp
next
  case fresh
  let ?q = "\<lambda>e. oe_batchId e = None \<and> message_is PENDING (oe_messageId e) s \<and> \<not> lockedEntry (oe_messageId e)"
  let ?k = "\<lambda>e. (oe_queuedAt e, oe_messageId e)"
  let ?es = "filter ?q (outbox_entries s)"
  have ids: "map ms_id (cb_messages batch) = map oe_messageId (take limit (sort_key ?k ?es))"
    using fresh(4) by (simp add: queued_messages_def take_map)
  have set: "ms_id ` set (cb_messages batch) = oe_messageId ` set (take limit (sort_key ?k ?es))"
    using arg_cong [OF ids, of set] by (simp only: list.set_map)
  have len: "length (cb_messages batch) = min limit (length ?es)"
    using arg_cong [OF ids, of length] by (simp add: min.commute)
  have "length (cb_messages batch) = limit \<and> (\<forall>e' \<in> set (outbox_entries s).
      oe_messageId e' \<in> ms_id ` set (cb_messages batch) \<longrightarrow> ?k e' \<le> ?k e)"
    if e: "e \<in> set (outbox_entries s)" "?q e" "oe_messageId e \<notin> ms_id ` set (cb_messages batch)" for e
  proof -
    have out: "e \<in> set ?es" "e \<notin> set (take limit (sort_key ?k ?es))" using e set by auto
    have "limit \<le> length ?es"
    proof (rule ccontr)
      assume "\<not> limit \<le> length ?es"
      then have "take limit (sort_key ?k ?es) = sort_key ?k ?es" by simp
      with out show False by simp
    qed
    moreover have "?k e' \<le> ?k e"
      if e': "e' \<in> set (outbox_entries s)" "oe_messageId e' \<in> ms_id ` set (cb_messages batch)" for e'
    proof -
      obtain v where v: "v \<in> set (take limit (sort_key ?k ?es))" "oe_messageId e' = oe_messageId v"
        using e'(2) set by auto
      then have "v \<in> set (outbox_entries s)" using set_take_subset by fastforce
      then have "e' = v" using entry_of_one_batch [OF assms(1) e'(1)] v(2) by blast
      with take_sorted_first(1) [of v limit ?k ?es e] v out show ?thesis by blast
    qed
    ultimately show ?thesis using len by auto
  qed
  with len fresh(8) show ?thesis by auto
qed

theorem outbox_claim_in_order_witness:
  "\<exists>b t. claimOutboxBatch ''tk'' 10 1 nobody nobody sample_outbox = (Inr (Some b), t)
     \<and> length (cb_messages b) \<le> 1"
proof -
  obtain b t b2 u where run: "claimOutboxBatch ''tk'' 10 1 nobody nobody sample_outbox = (Inr (Some b), t)"
    by (rule sample_claim_obtain)
  have "retryable_batch 10 nobody sample_outbox = None"
    by (simp add: retryable_batch_def sample_outbox_def empty_store_def)
  from outbox_claim_in_order [OF sample_outbox_wf run this] run show ?thesis by blast
qed

text \<open>C29: every statement that ends a claim is fenced by the lease token. A worker whose lease was
  taken over while it talked to the provider throws and changes nothing, whatever the provider
  answered.\<close>

theorem outbox_lost_lease_writes_nothing:
  assumes "\<forall>b \<in> set (outbox_batches s). ob_id b = cb_id batch \<longrightarrow> ob_leaseToken b \<noteq> Some (cb_leaseToken batch)"
  shows "\<exists>e. settle_batch env later batch answer s = (Inl e, s)"
proof (rule lost_lease_settle)
  show "count_where (batch_owned (cb_id batch) (cb_leaseToken batch)) (outbox_batches s) = 0"
    using assms by (auto simp: count_where_0 batch_owned_def)
qed

theorem outbox_lost_lease_writes_nothing_witness:
  "\<exists>e. settle_batch (\<lambda>_. None) 0
     \<lparr>cb_id = ''b'', cb_leaseToken = ''old'', cb_attemptCount = 1, cb_firstAttemptAt = 0,
       cb_messages = [plain_message ''m1'' PENDING]\<rparr> (Inr [Some (JString ''re1'')]) sample_outbox = (Inl e, sample_outbox)"
  by (rule outbox_lost_lease_writes_nothing) (simp add: sample_outbox_def empty_store_def)

text \<open>The counts of a drain add up. The result lists each claimed message once, and every counter
  is the number of listed messages in its state.\<close>

theorem outbox_drain_tally:
  assumes "drainEmailOutbox env provider meanwhile token now later lockedBatch lockedEntry limit s = (Inr r, t)"
  shows "dn_claimed r = length (dn_results r)
    \<and> dn_accepted r = count_where (\<lambda>i. di_state i = SentAccepted) (dn_results r)
    \<and> dn_failed r = count_where (\<lambda>i. di_state i = SentFailed) (dn_results r)
    \<and> dn_retryScheduled r = count_where (\<lambda>i. di_state i = SentPending) (dn_results r)
    \<and> dn_indeterminate r = count_where (\<lambda>i. di_state i = SentIndeterminate) (dn_results r)"
proof -
  have "tally r"
    using assms unfolding drainEmailOutbox_def
  proof (rule io_bind_InrE)
    fix claimed s1
    assume rest: "(case claimed of None \<Rightarrow> io_return emptyDrainResult
      | Some batch \<Rightarrow> if 1 < cb_attemptCount batch \<and> window_expired now (cb_firstAttemptAt batch)
          then finalizeIndeterminateBatch batch window_detail
          else io_bind (io_modify meanwhile) (\<lambda>_. settle_batch env later batch
            (provider (map (\<lambda>m. buildSendEmailInput m []) (cb_messages batch)) (batch_key (cb_id batch))))) s1 = (Inr r, t)"
    have "tally r" if "finalizeIndeterminateBatch batch window_detail s1 = (Inr r, t)" for batch
      using that by (auto simp: finalizeIndeterminateBatch_def tally_terminal elim!: io_bind_InrE)
    with rest show "tally r"
      by (auto simp: tally_def emptyDrainResult_def split: option.splits if_splits elim!: io_bind_InrE
          dest: tally_settle [unfolded tally_def])
  qed
  then show ?thesis by (simp add: tally_def)
qed

definition sample_provider :: batch_provider where
  "sample_provider inputs key = Inr (map (\<lambda>i. Some (JString (''re-'' @ se_subject i))) inputs)"

theorem outbox_drain_tally_witness:
  "\<exists>r t. drainEmailOutbox (\<lambda>_. None) sample_provider (\<lambda>s. s) ''tk'' 10 20 nobody nobody 1 sample_outbox = (Inr r, t)
     \<and> dn_claimed r = 1 \<and> length (dn_results r) = 1"
proof -
  have "case drainEmailOutbox (\<lambda>_. None) sample_provider (\<lambda>s. s) ''tk'' 10 20 nobody nobody 1 sample_outbox of
      (Inr r, _) \<Rightarrow> dn_claimed r = 1 | _ \<Rightarrow> False"
    by code_simp
  then obtain r t where
    "drainEmailOutbox (\<lambda>_. None) sample_provider (\<lambda>s. s) ''tk'' 10 20 nobody nobody 1 sample_outbox = (Inr r, t)"
    "dn_claimed r = 1"
    by (auto split: prod.splits sum.splits)
  with outbox_drain_tally [OF this(1)] show ?thesis by auto
qed

text \<open>C30: an accepted batch is settled completely. When the provider accepts a batch, every one of its
  messages is \<open>ACCEPTED\<close> under the provider id at its own position, and the batch and its entries are
  gone; if any message could not be moved from \<open>PENDING\<close>, nothing is written.\<close>

theorem outbox_accept_settles_all:
  assumes "distinct (map ms_id (messages s))" and "distinct (map ob_id (outbox_batches s))"
    and "length ids = length (cb_messages batch)" and "distinct (map ms_id (cb_messages batch))"
  shows "(\<forall>r t. finalizeAcceptedBatch env batch ids s = (Inr r, t) \<longrightarrow>
      (\<forall>(i, x) \<in> set (zip (map ms_id (cb_messages batch)) ids).
         \<exists>m \<in> set (messages t). ms_id m = i \<and> ms_state m = ACCEPTED \<and> ms_resendEmailId m = Some x)
      \<and> (\<forall>b \<in> set (outbox_batches t). ob_id b \<noteq> cb_id batch)
      \<and> (\<forall>e \<in> set (outbox_entries t). oe_batchId e \<noteq> Some (cb_id batch)))
    \<and> (\<forall>e t. finalizeAcceptedBatch env batch ids s = (Inl e, t) \<longrightarrow> t = s)"
proof (intro conjI allI impI)
  fix e t assume "finalizeAcceptedBatch env batch ids s = (Inl e, t)"
  then show "t = s"
    by (auto simp: finalizeAcceptedBatch_def io_bind_def transaction_def split: sum.splits prod.splits)
qed (use finalize_accepted_effect [OF _ assms] in \<open>auto simp: accepted_as_def\<close>)

lemma sample_accept:
  "case claimOutboxBatch ''tk'' 10 1 nobody nobody sample_outbox of
     (Inr (Some b), t) \<Rightarrow>
       (case finalizeAcceptedBatch (\<lambda>_. None) b [''re1''] t of (Inr r, u) \<Rightarrow> map ms_id (cb_messages b) = [''m1''] | _ \<Rightarrow> False)
   | _ \<Rightarrow> False"
  by code_simp

theorem outbox_accept_settles_all_witness:
  "\<exists>b t r u. claimOutboxBatch ''tk'' 10 1 nobody nobody sample_outbox = (Inr (Some b), t)
     \<and> finalizeAcceptedBatch (\<lambda>_. None) b [''re1''] t = (Inr r, u)
     \<and> (\<exists>m \<in> set (messages u). ms_id m = ''m1'' \<and> ms_state m = ACCEPTED \<and> ms_resendEmailId m = Some ''re1'')"
proof -
  obtain b t r u where run: "claimOutboxBatch ''tk'' 10 1 nobody nobody sample_outbox = (Inr (Some b), t)"
    "finalizeAcceptedBatch (\<lambda>_. None) b [''re1''] t = (Inr r, u)" "map ms_id (cb_messages b) = [''m1'']"
    using sample_accept by (elim case_claimE case_returnE) (rule that)
  have wf: "outbox_wf t" by (rule claim_post(1) [OF sample_outbox_wf run(1)])
  have "length [''re1''] = length (cb_messages b)" using arg_cong [OF run(3), of length] by simp
  then show ?thesis
    using outbox_accept_settles_all [of t "[''re1'']" b "\<lambda>_. None"] wf run
    by (auto simp: outbox_wf_def)
qed

text \<open>C13: a settled message is settled for good. Whatever a drain writes once the provider has
  answered, a message that was no longer \<open>PENDING\<close> keeps its state, its detail and its provider id,
  so it cannot be accepted twice or lose its outcome.\<close>

theorem outbox_outcome_is_final:
  assumes "m \<in> set (messages s)" and "ms_state m \<noteq> PENDING"
  shows "\<exists>m' \<in> set (messages (snd (settle_batch env later batch answer s))).
    ms_id m' = ms_id m \<and> ms_state m' = ms_state m \<and> ms_stateDetail m' = ms_stateDetail m
    \<and> ms_resendEmailId m' = ms_resendEmailId m"
proof -
  have "has_outcome m s" using assms(1) by (auto simp: has_outcome_def)
  then have "has_outcome m (snd (settle_batch env later batch answer s))"
    using settle_keeps_outcome [OF assms(2)] by (simp add: io_keeps_def)
  then show ?thesis by (simp add: has_outcome_def)
qed

theorem outbox_outcome_is_final_witness:
  "\<exists>m' \<in> set (messages (snd (settle_batch (\<lambda>_. None) 0
     \<lparr>cb_id = ''b'', cb_leaseToken = ''tk'', cb_attemptCount = 1, cb_firstAttemptAt = 0,
       cb_messages = [plain_message ''m1'' FAILED]\<rparr> (Inl (ResendApiError 422 None))
     (empty_store\<lparr>messages := [plain_message ''m1'' FAILED]\<rparr>)))). ms_id m' = ''m1'' \<and> ms_state m' = FAILED"
  using outbox_outcome_is_final [of "plain_message ''m1'' FAILED" "empty_store\<lparr>messages := [plain_message ''m1'' FAILED]\<rparr>"
    "\<lambda>_. None" 0 "\<lparr>cb_id = ''b'', cb_leaseToken = ''tk'', cb_attemptCount = 1, cb_firstAttemptAt = 0,
       cb_messages = [plain_message ''m1'' FAILED]\<rparr>" "Inl (ResendApiError 422 None)"]
  by (simp add: plain_message_def) blast


lemma sample_retry:
  "case claimOutboxBatch ''tk'' 10 1 nobody nobody sample_outbox of
     (Inr (Some b), t) \<Rightarrow>
       (case settle_batch (\<lambda>_. None) 20 b (Inl (ResendApiError 503 None)) t of
          (Inr r, t') \<Rightarrow>
            (case claimOutboxBatch ''tk2'' 60020 1 nobody nobody t' of
               (Inr (Some b2), u) \<Rightarrow> cb_id b2 = cb_id b \<and> cb_firstAttemptAt b = 10
             | _ \<Rightarrow> False)
        | _ \<Rightarrow> False)
   | _ \<Rightarrow> False"
  by code_simp


text \<open>C31: a batch past the provider's idempotency window is never sent again. 23 hours after its
  first attempt the drain does not depend on the provider at all: the batch ends indeterminate, and
  none of it is reported accepted or rescheduled.\<close>

theorem outbox_expired_not_sent:
  assumes "outbox_wf s" and "retryable_batch now lockedBatch s = Some b"
    and "ob_firstAttemptAt b = Some firstAttemptAt" and "PROVIDER_IDEMPOTENCY_SAFETY_MS \<le> now - firstAttemptAt"
    and "0 < ob_attemptCount b"
  shows "drainEmailOutbox env provider meanwhile token now later lockedBatch lockedEntry limit s =
      drainEmailOutbox env provider' meanwhile' token now later' lockedBatch lockedEntry limit s
    \<and> (\<forall>r t. drainEmailOutbox env provider meanwhile token now later lockedBatch lockedEntry limit s = (Inr r, t) \<longrightarrow>
        dn_accepted r = 0 \<and> dn_retryScheduled r = 0 \<and> dn_indeterminate r = dn_claimed r)"
proof -
  obtain x s1 where run: "claimOutboxBatch token now limit lockedBatch lockedEntry s = (x, s1)" by fastforce
  have found: "x = Inl e \<or> (\<exists>batch. x = Inr (Some batch) \<and> 1 < cb_attemptCount batch
      \<and> window_expired now (cb_firstAttemptAt batch))" if "\<nexists>e. x = Inl e" for e
  proof -
    from that obtain c where c: "x = Inr c" by (cases x) auto
    obtain batch where batch: "c = Some batch"
      using run c assms(2)
      by (cases c) (auto simp: claimOutboxBatch_def claim_transaction_def Let_def retryable_batch_drop
          split: option.splits if_splits elim!: io_bind_InrE dest!: transaction_InrD)
    have "claimOutboxBatch token now limit lockedBatch lockedEntry s = (Inr (Some batch), s1)"
      using run c batch by simp
    with assms(1) show ?thesis
    proof (cases rule: claim_cases)
      case (again v)
      then have "v = b" using assms(2) by simp
      with again assms(3-5) c batch show ?thesis by (simp add: window_expired_def)
    next
      case fresh
      with assms(2) show ?thesis by simp
    qed
  qed
  show ?thesis
  proof (cases "\<exists>e. x = Inl e")
    case True
    with run show ?thesis by (auto simp: drainEmailOutbox_def io_bind_def)
  next
    case False
    then obtain batch where "x = Inr (Some batch)" "1 < cb_attemptCount batch"
      "window_expired now (cb_firstAttemptAt batch)"
      using found by blast
    then have "drainEmailOutbox env p mw token now l lockedBatch lockedEntry limit s =
        finalizeIndeterminateBatch batch window_detail s1" for p mw l
      using run by (simp add: drainEmailOutbox_def)
    then show ?thesis
      by (auto simp: finalizeIndeterminateBatch_def terminalDrainResult_def elim!: io_bind_InrE)
  qed
qed

definition stale_outbox :: store where
  "stale_outbox = sample_outbox\<lparr>
     outbox_batches := [\<lparr>ob_id = ''b0'', ob_nextAttemptAt = 0, ob_firstAttemptAt = Some 0, ob_attemptCount = 1,
       ob_leaseToken = None, ob_leaseUntil = None, ob_lastErrorCode = None\<rparr>],
     outbox_entries := [\<lparr>oe_messageId = ''m1'', oe_batchId = Some ''b0'', oe_batchPosition = Some 0, oe_queuedAt = 0\<rparr>]\<rparr>"

theorem outbox_expired_not_sent_witness:
  "drainEmailOutbox (\<lambda>_. None) sample_provider (\<lambda>s. s) ''tk'' 82800000 82800001 nobody nobody 1 stale_outbox =
   drainEmailOutbox (\<lambda>_. None) (\<lambda>_ _. Inl NotAnError) (\<lambda>s. s) ''tk'' 82800000 82800001 nobody nobody 1 stale_outbox"
proof -
  let ?b = "\<lparr>ob_id = ''b0'', ob_nextAttemptAt = 0, ob_firstAttemptAt = Some 0, ob_attemptCount = 1,
    ob_leaseToken = None, ob_leaseUntil = None, ob_lastErrorCode = None\<rparr>"
  have wf: "outbox_wf stale_outbox"
    using empty_store_ids
    by (auto simp: outbox_wf_def stale_outbox_def sample_outbox_def ids_fresh_def plain_message_def empty_store_def)
  have "retryable_batch 82800000 nobody stale_outbox = Some ?b"
    by (simp add: retryable_batch_def stale_outbox_def batch_ready_def nobody_def)
  from outbox_expired_not_sent [OF wf this, of 0] show ?thesis
    by (simp add: PROVIDER_IDEMPOTENCY_SAFETY_MS_def)
qed

end
