(* ===== verification/Attachment_Config.thy ===== *)
theory Attachment_Config
  imports Js_Number Conversation_Events
begin

text \<open>
  \<open>src/lib/attachments/config.ts\<close>: the switch, the limits and the storage settings of attachments,
  read from the environment.
\<close>

definition DEFAULT_MAX_ATTACHMENT_BYTES :: int where "DEFAULT_MAX_ATTACHMENT_BYTES = 26214400"
definition DEFAULT_MAX_TOTAL_ATTACHMENT_BYTES :: int where "DEFAULT_MAX_TOTAL_ATTACHMENT_BYTES = 29360128"
definition DEFAULT_MAX_ATTACHMENT_COUNT :: int where "DEFAULT_MAX_ATTACHMENT_COUNT = 20"
definition DEFAULT_PRESIGNED_URL_TTL_SECONDS :: int where "DEFAULT_PRESIGNED_URL_TTL_SECONDS = 300"
definition MAX_PRESIGNED_URL_TTL_SECONDS :: int where "MAX_PRESIGNED_URL_TTL_SECONDS = 900"

record attachment_limits =
  al_maxBytes :: int
  al_maxTotalBytes :: int
  al_maxCount :: int

record storage_config =
  sc_bucket :: string
  sc_region :: string
  sc_accessKeyId :: string
  sc_secretAccessKey :: string
  sc_endpoint :: "string option"
  sc_forcePathStyle :: bool
  sc_keyPrefix :: string

definition env_or :: "environment \<Rightarrow> string \<Rightarrow> string" where
  \<comment> \<open>\<open>environment.NAME ?? ''\<close>\<close>
  "env_or env name = (case env name of None \<Rightarrow> [] | Some v \<Rightarrow> v)"

definition attachmentsEnabled :: "environment \<Rightarrow> bool" where
  "attachmentsEnabled env \<longleftrightarrow> js_toLower (js_trim (env_or env ''ATTACHMENTS_ENABLED'')) = ''true''"

definition readPositiveInteger :: "string option \<Rightarrow> int \<Rightarrow> int" where
  "readPositiveInteger v fallback =
     (case js_Number_integer (js_trim (case v of None \<Rightarrow> [] | Some t \<Rightarrow> t)) of
        Some n \<Rightarrow> if 0 < n then n else fallback
      | None \<Rightarrow> fallback)"

definition resolveAttachmentLimits :: "environment \<Rightarrow> attachment_limits" where
  "resolveAttachmentLimits env =
     \<lparr>al_maxBytes = readPositiveInteger (env ''ATTACHMENTS_MAX_BYTES'') DEFAULT_MAX_ATTACHMENT_BYTES,
      al_maxTotalBytes = readPositiveInteger (env ''ATTACHMENTS_MAX_TOTAL_BYTES'') DEFAULT_MAX_TOTAL_ATTACHMENT_BYTES,
      al_maxCount = readPositiveInteger (env ''ATTACHMENTS_MAX_COUNT'') DEFAULT_MAX_ATTACHMENT_COUNT\<rparr>"

definition resolveAttachmentPresignedUrlTtlSeconds :: "environment \<Rightarrow> js_error + int" where
  "resolveAttachmentPresignedUrlTtlSeconds env =
     (case (case env ''ATTACHMENTS_PRESIGNED_URL_TTL_SECONDS'' of None \<Rightarrow> [] | Some v \<Rightarrow> js_trim v) of
        [] \<Rightarrow> Inr DEFAULT_PRESIGNED_URL_TTL_SECONDS
      | raw \<Rightarrow>
          (case js_Number_integer raw of
             Some n \<Rightarrow>
               if n < 1 \<or> MAX_PRESIGNED_URL_TTL_SECONDS < n
               then Inl (JsError ''Error'' ''ATTACHMENTS_PRESIGNED_URL_TTL_SECONDS must be an integer between 1 and 900'')
               else Inr n
           | None \<Rightarrow>
               Inl (JsError ''Error'' ''ATTACHMENTS_PRESIGNED_URL_TTL_SECONDS must be an integer between 1 and 900'')))"

definition strip_slashes :: "string \<Rightarrow> string" where
  \<comment> \<open>slashes removed at both ends, \<open>/^\/+|\/+$/g\<close>\<close>
  "strip_slashes s =
     rev (dropWhile (\<lambda>c. c = CHR ''/'') (rev (dropWhile (\<lambda>c. c = CHR ''/'') s)))"

definition normalizeKeyPrefix :: "string option \<Rightarrow> string" where
  "normalizeKeyPrefix v =
     (let stripped = strip_slashes (js_trim (case v of None \<Rightarrow> [] | Some t \<Rightarrow> t))
      in if stripped = [] then [] else stripped @ ''/'')"

definition resolveAttachmentStorageConfig :: "environment \<Rightarrow> js_error + storage_config" where
  "resolveAttachmentStorageConfig env =
     (let bucket = map_option js_trim (env ''ATTACHMENTS_S3_BUCKET'');
          region = map_option js_trim (env ''ATTACHMENTS_S3_REGION'');
          accessKeyId = map_option js_trim (env ''ATTACHMENTS_S3_ACCESS_KEY_ID'');
          secretAccessKey = env ''ATTACHMENTS_S3_SECRET_ACCESS_KEY'';
          endpoint = map_option js_trim (env ''ATTACHMENTS_S3_ENDPOINT'')
      in if \<not> truthy bucket \<or> \<not> truthy region \<or> \<not> truthy accessKeyId \<or> \<not> truthy secretAccessKey
         then Inl (JsError ''Error'' ''Missing attachment storage configuration'')
         else Inr
           \<lparr>sc_bucket = the bucket, sc_region = the region, sc_accessKeyId = the accessKeyId,
            sc_secretAccessKey = the secretAccessKey, sc_endpoint = keep_truthy endpoint,
            sc_forcePathStyle = (js_toLower (js_trim (env_or env ''ATTACHMENTS_S3_FORCE_PATH_STYLE'')) = ''true''),
            sc_keyPrefix = normalizeKeyPrefix (env ''ATTACHMENTS_S3_KEY_PREFIX'')\<rparr>)"

lemma limits_positive:
  "0 < al_maxBytes (resolveAttachmentLimits env)" "0 < al_maxTotalBytes (resolveAttachmentLimits env)"
  "0 < al_maxCount (resolveAttachmentLimits env)"
  by (auto simp: resolveAttachmentLimits_def readPositiveInteger_def DEFAULT_MAX_ATTACHMENT_BYTES_def
      DEFAULT_MAX_TOTAL_ATTACHMENT_BYTES_def DEFAULT_MAX_ATTACHMENT_COUNT_def split: option.splits)

end
