(* ===== verification/Attachments.thy ===== *)
theory Attachments
  imports Attachment_Config Send_Input Provider_Errors
begin

text \<open>
  \<open>src/lib/attachments/claim.ts\<close>, \<open>projection.ts\<close> and \<open>download.ts\<close>: binding uploads to a
  message, the lane a queued message takes, the metadata of inbound attachments and the names a
  download is served under. Object storage is an argument: \<open>getBuffer\<close> maps a storage key to the
  bytes, or to the error it throws.
\<close>

section \<open>Claiming uploads\<close>

record attachment_ref =
  ar_id :: uuid
  ar_contentId :: "string option"

type_synonym get_buffer = "string \<Rightarrow> js_error + string"

definition claimable :: "uuid list \<Rightarrow> attachment \<Rightarrow> bool" where
  "claimable ids a \<longleftrightarrow>
     at_id a \<in> set ids \<and> at_messageId a = None \<and> at_source a = UPLOAD \<and> at_state a = STORED"

definition inline_content :: "uuid \<Rightarrow> attachment_ref \<Rightarrow> unit io" where
  \<comment> \<open>the body of the loop over the references with a content id\<close>
  "inline_content messageId ref =
     io_modify (\<lambda>s. s\<lparr>attachments :=
       update_where (\<lambda>a. at_id a = ar_id ref \<and> at_messageId a = Some messageId)
         (\<lambda>a. a\<lparr>at_contentId := ar_contentId ref, at_contentDisposition := INLINE\<rparr>) (attachments s)\<rparr>)"

definition message_bytes :: "uuid \<Rightarrow> store \<Rightarrow> int" where
  "message_bytes messageId s =
     sum_list (map (\<lambda>a. int (at_sizeBytes a)) (filter (\<lambda>a. at_messageId a = Some messageId) (attachments s)))"

definition claimAttachmentsForMessage :: "environment \<Rightarrow> uuid \<Rightarrow> attachment_ref list \<Rightarrow> nat io" where
  \<comment> \<open>the empty list stands for absent references\<close>
  "claimAttachmentsForMessage env messageId refs s =
     (if refs = [] then (Inr 0, s)
      else if \<not> attachmentsEnabled env then (Inl (AttachmentClaimError ''Attachments are disabled''), s)
      else
        (let ids = map ar_id refs;
             n = count_where (claimable ids) (attachments s);
             s1 = s\<lparr>attachments := update_where (claimable ids) (\<lambda>a. a\<lparr>at_messageId := Some messageId\<rparr>) (attachments s)\<rparr>;
             maxTotalBytes = al_maxTotalBytes (resolveAttachmentLimits env)
         in if n \<noteq> length ids
            then (Inl (AttachmentClaimError ''One or more attachments are unknown, already used, or not stored''), s1)
            else
              io_bind (io_each (inline_content messageId) (filter (\<lambda>r. truthy (ar_contentId r)) refs))
                (\<lambda>_ s2. if maxTotalBytes < message_bytes messageId s2
                   then (Inl (AttachmentClaimError (''Attachments exceed the '' @ show_int maxTotalBytes @ '' byte total for one message'')), s2)
                   else (Inr n, s2)) s1))"

definition listMessageAttachments :: "uuid \<Rightarrow> store \<Rightarrow> attachment list" where
  "listMessageAttachments messageId s =
     sort_key at_id (filter (\<lambda>a. at_messageId a = Some messageId) (attachments s))"

definition base64_char :: "nat \<Rightarrow> char" where
  "base64_char n = ''ABCDEFGHIJKLMNOPQRSTUVWXYZabcdefghijklmnopqrstuvwxyz0123456789+/'' ! (n mod 64)"

fun base64 :: "string \<Rightarrow> string" where
  "base64 [] = []"
| "base64 [a] =
     (let n = of_char a * 65536 :: nat
      in [base64_char (n div 262144), base64_char (n div 4096), CHR ''='', CHR ''=''])"
| "base64 [a, b] =
     (let n = of_char a * 65536 + of_char b * 256 :: nat
      in [base64_char (n div 262144), base64_char (n div 4096), base64_char (n div 64), CHR ''=''])"
| "base64 (a # b # c # cs) =
     (let n = of_char a * 65536 + of_char b * 256 + of_char c :: nat
      in base64_char (n div 262144) # base64_char (n div 4096) # base64_char (n div 64) # base64_char n # base64 cs)"

fun prepare_attachments :: "get_buffer \<Rightarrow> attachment list \<Rightarrow> js_error + send_attachment list" where
  \<comment> \<open>the loop of \<open>buildSendAttachments\<close>\<close>
  "prepare_attachments getBuffer [] = Inr []"
| "prepare_attachments getBuffer (a # as) =
     (if at_state a \<noteq> STORED then Inl (AttachmentClaimError (''Attachment '' @ at_id a @ '' is not stored''))
      else case getBuffer (at_storageKey a) of
             Inl e \<Rightarrow> Inl e
           | Inr body \<Rightarrow>
               (case prepare_attachments getBuffer as of
                  Inl e \<Rightarrow> Inl e
                | Inr rest \<Rightarrow>
                    Inr (\<lparr>sa_filename = at_filename a, sa_content = base64 body,
                          sa_content_type = Some (at_contentType a),
                          sa_content_id = keep_truthy (at_contentId a)\<rparr> # rest)))"

definition buildSendAttachments ::
  "environment \<Rightarrow> get_buffer \<Rightarrow> uuid \<Rightarrow> store \<Rightarrow> js_error + send_attachment list"
where
  "buildSendAttachments env getBuffer messageId s =
     (if \<not> attachmentsEnabled env then Inr []
      else
        (let rows = listMessageAttachments messageId s
         in if rows = [] then Inr []
            else case resolveAttachmentStorageConfig env of
                   Inl e \<Rightarrow> Inl e
                 | Inr _ \<Rightarrow> prepare_attachments getBuffer rows))"

datatype outbox_lane = NoLane | AttachmentLane | BatchLane

definition outboxRelationData :: "bool \<Rightarrow> bool \<Rightarrow> outbox_lane" where
  "outboxRelationData queued hasAttachments =
     (if \<not> queued then NoLane else if hasAttachments then AttachmentLane else BatchLane)"

section \<open>Inbound metadata\<close>

definition MAX_FILENAME_LENGTH :: nat where "MAX_FILENAME_LENGTH = 512"
definition MAX_CONTENT_TYPE_LENGTH :: nat where "MAX_CONTENT_TYPE_LENGTH = 255"
definition MAX_CONTENT_ID_LENGTH :: nat where "MAX_CONTENT_ID_LENGTH = 255"
definition DEFAULT_CONTENT_TYPE :: string where "DEFAULT_CONTENT_TYPE = ''application/octet-stream''"
definition DEFAULT_FILENAME :: string where "DEFAULT_FILENAME = ''attachment''"

definition stripControlCharacters :: "string \<Rightarrow> string" where
  "stripControlCharacters =
     filter (\<lambda>c. 32 \<le> (of_char c :: nat) \<and> of_char c \<noteq> (127 :: nat) \<and> c \<noteq> CHR 0x22)"

definition normalizeFilename :: "json option \<Rightarrow> string" where
  "normalizeFilename v =
     (case json_string v of
        None \<Rightarrow> DEFAULT_FILENAME
      | Some name \<Rightarrow>
          (let sanitized = js_trim (stripControlCharacters
                 (last (js_split (CHR ''/'') (js_replace (CHR 0x5C) ''/'' name))))
           in if sanitized = [] \<or> sanitized = ''.'' \<or> sanitized = ''..'' then DEFAULT_FILENAME
              else take MAX_FILENAME_LENGTH sanitized))"

definition type_char :: "char \<Rightarrow> bool" where
  "type_char c \<longleftrightarrow> is_lower_alpha c \<or> is_digit c \<or> c \<in> set ''!#$&^_.+-''"

definition type_token :: "string \<Rightarrow> bool" where
  "type_token t \<longleftrightarrow>
     t \<noteq> [] \<and> (is_lower_alpha (hd t) \<or> is_digit (hd t)) \<and> list_all type_char (tl t)"

definition CONTENT_TYPE_PATTERN :: "string \<Rightarrow> bool" where
  \<comment> \<open>two tokens and one slash; the tokens have no slash\<close>
  "CONTENT_TYPE_PATTERN s \<longleftrightarrow>
     (case js_split (CHR ''/'') s of [a, b] \<Rightarrow> type_token a \<and> type_token b | _ \<Rightarrow> False)"

definition normalizeContentType :: "json option \<Rightarrow> string" where
  "normalizeContentType v =
     (case json_string v of
        None \<Rightarrow> DEFAULT_CONTENT_TYPE
      | Some t \<Rightarrow>
          (let sanitized = js_toLower (js_trim (hd (js_split (CHR '';'') t)))
           in if \<not> CONTENT_TYPE_PATTERN sanitized then DEFAULT_CONTENT_TYPE
              else take MAX_CONTENT_TYPE_LENGTH sanitized))"

definition CONTENT_ID_REJECTED :: "string \<Rightarrow> bool" where
  "CONTENT_ID_REJECTED s \<longleftrightarrow> (\<exists>c \<in> set s. js_space c \<or> c = CHR ''<'' \<or> c = CHR ''>'')"

definition normalizeContentId :: "json option \<Rightarrow> string option" where
  "normalizeContentId v =
     (case json_string v of
        None \<Rightarrow> None
      | Some t \<Rightarrow>
          (let a = (if t \<noteq> [] \<and> hd t = CHR ''<'' then tl t else t);
               b = (if a \<noteq> [] \<and> last a = CHR ''>'' then butlast a else a);
               sanitized = js_trim b
           in if sanitized = [] \<or> CONTENT_ID_REJECTED sanitized then None
              else Some (take MAX_CONTENT_ID_LENGTH sanitized)))"

definition normalizeDisposition :: "json option \<Rightarrow> attachment_disposition" where
  "normalizeDisposition v =
     (case json_string v of
        Some t \<Rightarrow> if js_toLower (js_trim t) = ''inline'' then INLINE else ATTACHMENT
      | None \<Rightarrow> ATTACHMENT)"

text \<open>\<open>buildStorageKey\<close> with the random id as an argument.\<close>

definition buildStorageKey :: "environment \<Rightarrow> uuid \<Rightarrow> string" where
  "buildStorageKey env i =
     (let pre = strip_slashes (js_trim (env_or env ''ATTACHMENTS_S3_KEY_PREFIX''))
      in if pre = [] then i else pre @ ''/'' @ i)"

text \<open>An attachment of the provider: the members the projection reads, as JSON.\<close>

record received_attachment =
  rv_id :: "json option"
  rv_filename :: "json option"
  rv_size :: "json option"
  rv_content_type :: "json option"
  rv_content_disposition :: "json option"
  rv_content_id :: "json option"

definition stored_size :: "json option \<Rightarrow> nat" where
  \<comment> \<open>a size that is no integer is no size the provider sends\<close>
  "stored_size v = (case v of Some (JNumber n) \<Rightarrow> if 0 < n then nat n else 0 | _ \<Rightarrow> 0)"

definition inbound_row ::
  "environment \<Rightarrow> uuid \<Rightarrow> string \<Rightarrow> uuid \<Rightarrow> received_attachment \<times> uuid \<Rightarrow> instant \<Rightarrow> attachment"
where
  \<comment> \<open>one element of the data of \<open>createMany\<close>, with the random storage id beside the attachment\<close>
  "inbound_row env messageId resendEmailId rowId src now =
     \<lparr>at_id = rowId, at_messageId = Some messageId, at_source = ATT_INBOUND, at_state = ATT_PENDING,
      at_stateDetail = None, at_filename = normalizeFilename (rv_filename (fst src)),
      at_contentType = normalizeContentType (rv_content_type (fst src)),
      at_contentDisposition = normalizeDisposition (rv_content_disposition (fst src)),
      at_contentId = normalizeContentId (rv_content_id (fst src)),
      at_sizeBytes = stored_size (rv_size (fst src)), at_checksumSha256 = None,
      at_storageKey = buildStorageKey env (snd src), at_resendEmailId = Some resendEmailId,
      at_resendAttachmentId = json_string (rv_id (fst src)), at_attemptCount = 0, at_nextAttemptAt = now,
      at_leaseToken = None, at_leaseUntil = None, at_lastErrorCode = None, at_createdAt = now\<rparr>"

definition duplicates_attachment :: "attachment \<Rightarrow> attachment \<Rightarrow> bool" where
  \<comment> \<open>the unique keys that \<open>skipDuplicates\<close> skips on\<close>
  "duplicates_attachment a b \<longleftrightarrow>
     at_storageKey a = at_storageKey b
     \<or> (at_resendEmailId a \<noteq> None \<and> at_resendAttachmentId a \<noteq> None
        \<and> at_resendEmailId a = at_resendEmailId b \<and> at_resendAttachmentId a = at_resendAttachmentId b)"

fun insert_inbound ::
  "environment \<Rightarrow> uuid \<Rightarrow> string \<Rightarrow> (received_attachment \<times> uuid) list \<Rightarrow> nat \<Rightarrow> store \<Rightarrow> nat \<times> store"
where
  "insert_inbound env messageId resendEmailId [] n s = (n, s)"
| "insert_inbound env messageId resendEmailId (src # srcs) n s =
     (let (rowId, s1) = draw_id s;
          row = inbound_row env messageId resendEmailId rowId src (db_now s1)
      in if \<exists>a \<in> set (attachments s1). duplicates_attachment row a
         then insert_inbound env messageId resendEmailId srcs n s1
         else insert_inbound env messageId resendEmailId srcs (Suc n)
                (s1\<lparr>attachments := attachments s1 @ [row]\<rparr>))"

definition projectInboundAttachments ::
  "environment \<Rightarrow> (nat \<Rightarrow> uuid) \<Rightarrow> uuid \<Rightarrow> string \<Rightarrow> received_attachment list \<Rightarrow> nat io"
where
  \<comment> \<open>\<open>storageIds\<close> gives the random id of each storage key; the empty list stands for absent attachments\<close>
  "projectInboundAttachments env storageIds messageId resendEmailId atts s =
     (if \<not> attachmentsEnabled env then (Inr 0, s)
      else if atts = [] then (Inr 0, s)
      else
        (let maxCount = nat (al_maxCount (resolveAttachmentLimits env));
             accepted = take maxCount (filter (\<lambda>a. truthy (json_string (rv_id a))) atts)
         in if accepted = [] then (Inr 0, s)
            else
              (let (n, s') = insert_inbound env messageId resendEmailId
                     (zip accepted (map storageIds [0..<length accepted])) 0 s
               in (Inr n, s'))))"

section \<open>Downloads\<close>

definition uuid_group :: "(char \<Rightarrow> bool) \<Rightarrow> nat \<Rightarrow> string \<Rightarrow> bool" where
  \<comment> \<open>a group of a UUID: a first digit of a class, then hexadecimal digits\<close>
  "uuid_group first n s \<longleftrightarrow> length s = n \<and> s \<noteq> [] \<and> first (hd s) \<and> list_all is_lower_hex (tl s)"

definition UUID_PATTERN :: "string \<Rightarrow> bool" where
  \<comment> \<open>case-insensitive\<close>
  "UUID_PATTERN s \<longleftrightarrow>
     (case js_split (CHR ''-'') (js_toLower s) of
        [a, b, c, d, e] \<Rightarrow>
          uuid_group is_lower_hex 8 a \<and> uuid_group is_lower_hex 4 b
          \<and> uuid_group (\<lambda>x. CHR ''1'' \<le> x \<and> x \<le> CHR ''8'') 4 c
          \<and> uuid_group (\<lambda>x. x \<in> set ''89ab'') 4 d \<and> uuid_group is_lower_hex 12 e
      | _ \<Rightarrow> False)"

datatype stored_attachment = StoredAttachment attachment | DownloadError nat string "string option"
  \<comment> \<open>the row, or the status, error and state of a response\<close>

definition attachment_state_text :: "attachment_state \<Rightarrow> string" where
  \<comment> \<open>the lower-cased enum value\<close>
  "attachment_state_text st =
     (case st of ATT_PENDING \<Rightarrow> ''pending'' | STORED \<Rightarrow> ''stored'' | ATT_FAILED \<Rightarrow> ''failed'')"

definition resolveStoredAttachment :: "string \<Rightarrow> store \<Rightarrow> stored_attachment" where
  "resolveStoredAttachment rawAttachmentId s =
     (if \<not> UUID_PATTERN rawAttachmentId then DownloadError 400 ''Invalid attachment ID'' None
      else case find_by at_id (js_toLower rawAttachmentId) (attachments s) of
             None \<Rightarrow> DownloadError 404 ''Attachment not found'' None
           | Some a \<Rightarrow>
               if at_state a \<noteq> STORED
               then DownloadError 409
                 (if at_state a = ATT_PENDING then ''Attachment is still being stored''
                  else ''Attachment could not be stored'')
                 (Some (attachment_state_text (at_state a)))
               else StoredAttachment a)"

definition hex_upper :: "nat \<Rightarrow> char" where
  "hex_upper n = ''0123456789ABCDEF'' ! (n mod 16)"

definition percent_byte :: "nat \<Rightarrow> string" where
  "percent_byte b = [CHR ''%'', hex_upper (b div 16), hex_upper b]"

definition uri_unreserved :: "char \<Rightarrow> bool" where
  "uri_unreserved c \<longleftrightarrow> is_alpha c \<or> is_digit c \<or> c \<in> set ''-_.!~*()'' \<or> c = CHR 0x27"

definition encodeURIComponent :: "string \<Rightarrow> string" where
  \<comment> \<open>code units below 256: one UTF-8 byte or two\<close>
  "encodeURIComponent s =
     concat (map (\<lambda>c. if uri_unreserved c then [c]
       else (let n = of_char c :: nat
             in if n < 128 then percent_byte n
                else percent_byte (192 + n div 64) @ percent_byte (128 + n mod 64))) s)"

definition printable :: "char \<Rightarrow> bool" where
  "printable c \<longleftrightarrow> 32 \<le> (of_char c :: nat) \<and> of_char c \<le> (126 :: nat)"

definition buildContentDisposition :: "string \<Rightarrow> string" where
  "buildContentDisposition filename =
     (let ascii = js_remove (CHR 0x22) (map (\<lambda>c. if printable c then c else CHR ''_'') filename)
      in ''attachment; filename='' @ [CHR 0x22] @ ascii @ [CHR 0x22] @ ''; filename*=UTF-8'' @ [CHR 0x27, CHR 0x27]
         @ encodeURIComponent filename)"

section \<open>Claims\<close>

text \<open>Counting as many hits as there are keys means hitting every key once.\<close>

lemma count_where_all_keys:
  assumes d: "distinct (map key rows)" and P: "\<And>r. P r \<Longrightarrow> key r \<in> set ids"
    and n: "count_where P rows = length ids"
  shows "distinct ids" "\<And>i. i \<in> set ids \<Longrightarrow> \<exists>r \<in> set rows. P r \<and> key r = i"
proof -
  let ?hits = "key ` set (filter P rows)"
  have card: "card ?hits = length ids"
    using distinct_card [OF distinct_map_filter [OF d, of P]] n by (simp add: count_where_def)
  have sub: "?hits \<subseteq> set ids" using P by auto
  have "length ids \<le> card (set ids)" using card card_mono [OF _ sub] by simp
  then show "distinct ids" using card_length [of ids] by (intro card_distinct) simp
  then have hits: "?hits = set ids" using card by (intro card_subset_eq sub) (simp_all add: distinct_card)
  show "\<exists>r \<in> set rows. P r \<and> key r = i" if "i \<in> set ids" for i
    using that unfolding hits [symmetric] by auto
qed

definition bound_to :: "uuid \<Rightarrow> uuid \<Rightarrow> store \<Rightarrow> bool" where
  "bound_to i messageId s \<longleftrightarrow> (\<exists>a \<in> set (attachments s). at_id a = i \<and> at_messageId a = Some messageId)"

lemma inline_keeps_bound: "io_keeps (bound_to i mid) (inline_content mid' ref)"
proof -
  have "bound_to i mid (s\<lparr>attachments := update_where P (\<lambda>a. a\<lparr>at_contentId := x, at_contentDisposition := y\<rparr>) (attachments s)\<rparr>)"
    if bound: "bound_to i mid s" for P x y s
  proof -
    obtain a where a: "a \<in> set (attachments s)" "at_id a = i" "at_messageId a = Some mid"
      using bound by (auto simp: bound_to_def)
    show ?thesis
      unfolding bound_to_def
      by (rule bexI [of _ "if P a then a\<lparr>at_contentId := x, at_contentDisposition := y\<rparr> else a"])
        (use a in \<open>auto simp: set_update_where\<close>)
  qed
  then show ?thesis unfolding inline_content_def by (intro keeps_intros)
qed

lemma inline_keeps_ids: "io_keeps (\<lambda>s. map (\<lambda>a. (at_id a, at_messageId a)) (attachments s) = ks) (inline_content mid ref)"
  unfolding inline_content_def by (intro keeps_intros) (simp add: map_update_where)

lemma claim_success:
  assumes d: "distinct (map at_id (attachments s))" and ne: "refs \<noteq> []"
    and run: "claimAttachmentsForMessage env mid refs s = (Inr n, t)"
  shows "n = length refs" "distinct (map ar_id refs)"
    "\<And>r. r \<in> set refs \<Longrightarrow> \<exists>a \<in> set (attachments s). claimable (map ar_id refs) a \<and> at_id a = ar_id r"
    "\<And>r. r \<in> set refs \<Longrightarrow> bound_to (ar_id r) mid t"
    "message_bytes mid t \<le> al_maxTotalBytes (resolveAttachmentLimits env)"
    "map at_id (attachments t) = map at_id (attachments s)"
proof -
  let ?ids = "map ar_id refs"
  let ?s1 = "s\<lparr>attachments := update_where (claimable ?ids) (\<lambda>a. a\<lparr>at_messageId := Some mid\<rparr>) (attachments s)\<rparr>"
  have cnt: "count_where (claimable ?ids) (attachments s) = length ?ids" and n: "n = count_where (claimable ?ids) (attachments s)"
    and each: "io_each (inline_content mid) (filter (\<lambda>r. truthy (ar_contentId r)) refs) ?s1 = (Inr (), t)"
    and bytes: "message_bytes mid t \<le> al_maxTotalBytes (resolveAttachmentLimits env)"
    using run ne by (auto simp: claimAttachmentsForMessage_def Let_def split: if_splits elim!: io_bind_InrE)
  show "n = length refs" using cnt n by simp
  note keys = count_where_all_keys [OF d _ cnt]
  show "distinct ?ids" by (rule keys(1)) (simp add: claimable_def)
  show hit: "\<exists>a \<in> set (attachments s). claimable ?ids a \<and> at_id a = ar_id r" if "r \<in> set refs" for r
    by (rule keys(2)) (use that in \<open>auto simp: claimable_def\<close>)
  show "bound_to (ar_id r) mid t" if r: "r \<in> set refs" for r
  proof -
    obtain a where a: "a \<in> set (attachments s)" "claimable ?ids a" "at_id a = ar_id r" using hit [OF r] by blast
    then have "bound_to (ar_id r) mid ?s1"
      unfolding bound_to_def
      by (intro bexI [of _ "a\<lparr>at_messageId := Some mid\<rparr>"]) (auto simp: set_update_where image_iff intro!: bexI [of _ a])
    then show ?thesis using io_keepsD [OF io_keeps_each [OF inline_keeps_bound] _ each] by blast
  qed
  show "message_bytes mid t \<le> al_maxTotalBytes (resolveAttachmentLimits env)" by (rule bytes)
  have "map (\<lambda>a. (at_id a, at_messageId a)) (attachments t) = map (\<lambda>a. (at_id a, at_messageId a)) (attachments ?s1)"
    using io_keepsD [OF io_keeps_each [OF inline_keeps_ids] refl each] .
  then have "map fst (map (\<lambda>a. (at_id a, at_messageId a)) (attachments t)) =
      map fst (map (\<lambda>a. (at_id a, at_messageId a)) (attachments ?s1))" by simp
  then show "map at_id (attachments t) = map at_id (attachments s)"
    by (simp add: comp_def map_update_where)
qed

section \<open>Sanitised names\<close>

definition filename_safe :: "string \<Rightarrow> bool" where
  "filename_safe f \<longleftrightarrow> f \<noteq> [] \<and> length f \<le> MAX_FILENAME_LENGTH \<and> f \<noteq> ''.'' \<and> f \<noteq> ''..''
     \<and> (\<forall>c \<in> set f. c \<noteq> CHR ''/'' \<and> c \<noteq> CHR 0x5C \<and> c \<noteq> CHR 0x22
          \<and> 32 \<le> (of_char c :: nat) \<and> of_char c \<noteq> (127 :: nat))"

lemma not_in_replace: "c \<noteq> d \<Longrightarrow> c \<notin> set r \<Longrightarrow> c \<in> set (js_replace d r s) \<Longrightarrow> c \<in> set s"
  by (auto simp: js_replace_def split: if_splits)

lemma replaced_gone: "d \<notin> set r \<Longrightarrow> d \<notin> set (js_replace d r s)"
  by (auto simp: js_replace_def split: if_splits)

lemma normalizeFilename_safe: "filename_safe (normalizeFilename v)"
proof (cases "json_string v")
  case None
  then show ?thesis
    by (simp add: normalizeFilename_def filename_safe_def DEFAULT_FILENAME_def MAX_FILENAME_LENGTH_def)
next
  case (Some name)
  let ?r = "js_replace (CHR 0x5C) ''/'' name"
  let ?f = "js_trim (stripControlCharacters (last (js_split (CHR ''/'') ?r)))"
  have piece: "last (js_split (CHR ''/'') ?r) \<in> set (js_split (CHR ''/'') ?r)" by simp
  have chars: "c \<noteq> CHR ''/'' \<and> c \<noteq> CHR 0x5C \<and> c \<noteq> CHR 0x22 \<and> 32 \<le> (of_char c :: nat) \<and> of_char c \<noteq> (127 :: nat)"
    if "c \<in> set ?f" for c
  proof -
    have "c \<in> set (stripControlCharacters (last (js_split (CHR ''/'') ?r)))" using that set_js_trim by blast
    then have c: "c \<in> set (last (js_split (CHR ''/'') ?r))" "32 \<le> (of_char c :: nat)" "of_char c \<noteq> (127 :: nat)" "c \<noteq> CHR 0x22"
      by (simp_all add: stripControlCharacters_def)
    have "c \<in> set ?r" using c(1) js_split_subset [OF piece] by blast
    moreover have "CHR 0x5C \<notin> set ?r" by (rule replaced_gone) simp
    ultimately show ?thesis using c js_split_no_sep [OF piece] by auto
  qed
  show ?thesis
  proof (cases "?f = [] \<or> ?f = ''.'' \<or> ?f = ''..''")
    case True
    with Some show ?thesis
      by (simp add: normalizeFilename_def filename_safe_def DEFAULT_FILENAME_def MAX_FILENAME_LENGTH_def Let_def)
  next
    case False
    then have n: "normalizeFilename v = take MAX_FILENAME_LENGTH ?f" using Some by (simp add: normalizeFilename_def)
    have short: "take MAX_FILENAME_LENGTH f = d \<Longrightarrow> length d < MAX_FILENAME_LENGTH \<Longrightarrow> f = d" for f d :: string
      by (metis length_take min_less_iff_conj nat_less_le not_less take_all_iff)
    have "take MAX_FILENAME_LENGTH ?f \<noteq> d" if "length d < MAX_FILENAME_LENGTH" "?f \<noteq> d" for d
      using short [of ?f d] that by blast
    then show ?thesis
      unfolding n filename_safe_def using False chars
      by (auto simp: MAX_FILENAME_LENGTH_def dest: in_set_takeD)
  qed
qed

lemma percent_byte_printable: "c \<in> set (percent_byte b) \<Longrightarrow> printable c \<and> c \<noteq> CHR 0x22"
proof -
  have "printable (hex_upper n) \<and> hex_upper n \<noteq> CHR 0x22" for n
  proof -
    have "hex_upper n \<in> set ''0123456789ABCDEF''" unfolding hex_upper_def by (rule nth_mem) simp
    then show ?thesis by (auto simp: printable_def)
  qed
  then show "c \<in> set (percent_byte b) \<Longrightarrow> printable c \<and> c \<noteq> CHR 0x22"
    by (auto simp: percent_byte_def printable_def)
qed

lemma unreserved_printable: "uri_unreserved c \<Longrightarrow> printable c \<and> c \<noteq> CHR 0x22"
  by (auto simp: uri_unreserved_def printable_def is_alpha_def is_lower_alpha_def is_digit_def char_le_of_char)

lemma encodeURIComponent_printable:
  assumes "c \<in> set (encodeURIComponent s)"
  shows "printable c \<and> c \<noteq> CHR 0x22"
proof -
  obtain x where x: "x \<in> set s" and c: "c \<in> set (if uri_unreserved x then [x]
      else (let n = of_char x :: nat in if n < 128 then percent_byte n
            else percent_byte (192 + n div 64) @ percent_byte (128 + n mod 64)))"
    using assms by (auto simp: encodeURIComponent_def)
  show ?thesis
  proof (cases "uri_unreserved x")
    case True
    with c show ?thesis using unreserved_printable by simp
  next
    case False
    with c have "\<exists>b. c \<in> set (percent_byte b)" by (auto simp: Let_def split: if_splits)
    then show ?thesis using percent_byte_printable by blast
  qed
qed

section \<open>Properties\<close>

definition sample_upload :: "uuid \<Rightarrow> attachment" where
  "sample_upload i =
     \<lparr>at_id = i, at_messageId = None, at_source = UPLOAD, at_state = STORED, at_stateDetail = None,
      at_filename = ''f'', at_contentType = ''text/plain'', at_contentDisposition = ATTACHMENT, at_contentId = None,
      at_sizeBytes = 10, at_checksumSha256 = None, at_storageKey = i, at_resendEmailId = None,
      at_resendAttachmentId = None, at_attemptCount = 0, at_nextAttemptAt = 0, at_leaseToken = None,
      at_leaseUntil = None, at_lastErrorCode = None, at_createdAt = 0\<rparr>"

definition sample_uploads :: store where
  "sample_uploads = empty_store\<lparr>attachments := [sample_upload ''a1'', sample_upload ''a2'']\<rparr>"

definition attachments_on :: environment where
  "attachments_on name = (if name = ''ATTACHMENTS_ENABLED'' then Some ''True'' else None)"

definition sample_refs :: "attachment_ref list" where
  "sample_refs = [\<lparr>ar_id = ''a1'', ar_contentId = Some ''logo''\<rparr>]"

lemma sample_uploads_distinct: "distinct (map at_id (attachments sample_uploads))"
  by (simp add: sample_uploads_def sample_upload_def)

lemma sample_attachment_claim:
  "case claimAttachmentsForMessage attachments_on ''m1'' sample_refs sample_uploads of (Inr n, t) \<Rightarrow> True | _ \<Rightarrow> False"
  by code_simp

text \<open>A claim takes all of its uploads or throws. After a claim that returns, every referenced
  attachment was an unclaimed, stored upload, is now bound to the message, no reference named the
  same one twice, and the bytes of the message are within the configured total.\<close>

theorem attachment_claim_binds_all:
  assumes "distinct (map at_id (attachments s))" and "refs \<noteq> []"
    and "claimAttachmentsForMessage env messageId refs s = (Inr n, t)"
  shows "n = length refs \<and> distinct (map ar_id refs)
    \<and> (\<forall>r \<in> set refs.
         (\<exists>a \<in> set (attachments s). at_id a = ar_id r \<and> at_messageId a = None \<and> at_source a = UPLOAD \<and> at_state a = STORED)
         \<and> (\<exists>a \<in> set (attachments t). at_id a = ar_id r \<and> at_messageId a = Some messageId))
    \<and> message_bytes messageId t \<le> al_maxTotalBytes (resolveAttachmentLimits env)"
proof -
  note ok = claim_success [OF assms]
  have "\<exists>a \<in> set (attachments s). at_id a = ar_id r \<and> at_messageId a = None \<and> at_source a = UPLOAD \<and> at_state a = STORED"
    if "r \<in> set refs" for r using ok(3) [OF that] by (auto simp: claimable_def)
  with ok show ?thesis by (auto simp: bound_to_def)
qed

theorem attachment_claim_binds_all_witness:
  "\<exists>n t. claimAttachmentsForMessage attachments_on ''m1'' sample_refs sample_uploads = (Inr n, t)
     \<and> (\<exists>a \<in> set (attachments t). at_id a = ''a1'' \<and> at_messageId a = Some ''m1'')"
proof -
  obtain n t where run: "claimAttachmentsForMessage attachments_on ''m1'' sample_refs sample_uploads = (Inr n, t)"
    using sample_attachment_claim by (auto split: prod.splits sum.splits)
  from attachment_claim_binds_all [OF sample_uploads_distinct _ run] run show ?thesis
    by (auto simp: sample_refs_def)
qed

text \<open>C23: an upload goes out with one message only. Once a claim has returned, every later claim that
  names one of its attachments, for whatever message, throws.\<close>

theorem attachment_claimed_once:
  assumes "distinct (map at_id (attachments s))"
    and "claimAttachmentsForMessage env messageId refs s = (Inr n, t)"
    and "i \<in> ar_id ` set refs" and "i \<in> ar_id ` set refs'"
  shows "\<exists>e u. claimAttachmentsForMessage env' messageId' refs' t = (Inl e, u)"
proof (rule ccontr)
  assume "\<not> ?thesis"
  then obtain n' u where again: "claimAttachmentsForMessage env' messageId' refs' t = (Inr n', u)"
    by (cases "claimAttachmentsForMessage env' messageId' refs' t"; cases "fst (claimAttachmentsForMessage env' messageId' refs' t)") auto
  have ne: "refs \<noteq> []" "refs' \<noteq> []" using assms(3,4) by auto
  have d: "distinct (map at_id (attachments t))"
    using claim_success(6) [OF assms(1) ne(1) assms(2)] assms(1) by simp
  obtain a where a: "a \<in> set (attachments t)" "at_id a = i" "at_messageId a = Some messageId"
    using claim_success(4) [OF assms(1) ne(1) assms(2)] assms(3) by (auto simp: bound_to_def)
  obtain b where b: "b \<in> set (attachments t)" "at_id b = i" "at_messageId b = None"
    using claim_success(3) [OF d ne(2) again] assms(4) by (auto simp: claimable_def)
  have "a = b" using distinct_key_unique [OF d a(1) b(1)] a(2) b(2) by simp
  with a b show False by simp
qed

theorem attachment_claimed_once_witness:
  "\<exists>n t e u. claimAttachmentsForMessage attachments_on ''m1'' sample_refs sample_uploads = (Inr n, t)
     \<and> claimAttachmentsForMessage attachments_on ''m2'' sample_refs t = (Inl e, u)"
proof -
  obtain n t where run: "claimAttachmentsForMessage attachments_on ''m1'' sample_refs sample_uploads = (Inr n, t)"
    using sample_attachment_claim by (auto split: prod.splits sum.splits)
  from attachment_claimed_once [OF sample_uploads_distinct run, of "''a1''" sample_refs attachments_on "''m2''"] run
  show ?thesis by (auto simp: sample_refs_def)
qed

text \<open>A sender cannot choose a dangerous file name. Whatever the provider reports, the stored name is
  not empty, has at most 512 characters, is not a directory reference and has no slash, backslash,
  quote or control character.\<close>

theorem stored_filename_safe:
  "normalizeFilename v \<noteq> [] \<and> length (normalizeFilename v) \<le> 512 \<and> normalizeFilename v \<noteq> ''.'' \<and> normalizeFilename v \<noteq> ''..''
   \<and> list_all (\<lambda>c. c \<noteq> CHR ''/'' \<and> c \<noteq> CHR 0x5C \<and> c \<noteq> CHR 0x22 \<and> 32 \<le> (of_char c :: nat) \<and> of_char c \<noteq> (127 :: nat))
        (normalizeFilename v)"
  using normalizeFilename_safe [of v] by (simp add: filename_safe_def MAX_FILENAME_LENGTH_def list_all_iff)

text \<open>A file name cannot inject a header. The content disposition of any file name is printable
  ASCII with exactly the two quotes of its own syntax.\<close>

theorem content_disposition_safe:
  "list_all printable (buildContentDisposition filename)
   \<and> length (filter (\<lambda>c. c = CHR 0x22) (buildContentDisposition filename)) = 2"
proof -
  let ?ascii = "js_remove (CHR 0x22) (map (\<lambda>c. if printable c then c else CHR ''_'') filename)"
  have p: "printable (CHR ''_'')" by (simp add: printable_def)
  have a: "list_all printable ?ascii" "filter (\<lambda>c. c = CHR 0x22) ?ascii = []"
    using p by (auto simp: list_all_iff js_remove_def filter_empty_conv)
  have e: "list_all printable (encodeURIComponent filename)" "filter (\<lambda>c. c = CHR 0x22) (encodeURIComponent filename) = []"
    using encodeURIComponent_printable by (auto simp: list_all_iff filter_empty_conv)
  have "list_all printable ''attachment; filename=''" "list_all printable ''; filename*=UTF-8''"
    by (simp_all add: printable_def)
  with a e show ?thesis by (simp add: buildContentDisposition_def Let_def) (simp add: printable_def)
qed

end
