(* ===== verification/Attachment_Outbox.thy ===== *)
theory Attachment_Outbox
  imports Outbox Attachments
begin

text \<open>
  \<open>src/lib/attachment-outbox-service.ts\<close>: the lane for queued messages with attachments, one message
  at a time. A drain makes up to \<open>limit\<close> rounds; what each round reads from outside (lease token,
  clock at the claim and after the send, locked rows, what others commit meanwhile) is a \<open>lane_tick\<close>.
\<close>

section \<open>The claim\<close>

record claimed_entry =
  ce_message :: message
  ce_leaseToken :: uuid
  ce_attemptCount :: nat
  ce_firstAttemptAt :: instant

definition drop_settled_attachment_entries :: "store \<Rightarrow> store" where
  \<comment> \<open>the DELETE that opens the claim\<close>
  "drop_settled_attachment_entries s =
     s\<lparr>attachment_outbox := delete_where
         (\<lambda>e. case find_by ms_id (ao_messageId e) (messages s) of
            Some m \<Rightarrow> ms_state m \<noteq> PENDING | None \<Rightarrow> False) (attachment_outbox s)\<rparr>"

definition entry_ready :: "instant \<Rightarrow> attachment_outbox_entry \<Rightarrow> bool" where
  "entry_ready now e \<longleftrightarrow>
     ao_nextAttemptAt e \<le> now \<and> (case ao_leaseUntil e of None \<Rightarrow> True | Some u \<Rightarrow> u \<le> now)"

definition next_entry :: "instant \<Rightarrow> (uuid \<Rightarrow> bool) \<Rightarrow> store \<Rightarrow> attachment_outbox_entry option" where
  "next_entry now locked s =
     js_head (sort_key (\<lambda>e. (ao_queuedAt e, ao_messageId e))
       (filter (\<lambda>e. message_is PENDING (ao_messageId e) s \<and> entry_ready now e \<and> \<not> locked (ao_messageId e))
         (attachment_outbox s)))"

definition lease_entry :: "instant \<Rightarrow> uuid \<Rightarrow> instant \<Rightarrow> attachment_outbox_entry \<Rightarrow> attachment_outbox_entry" where
  "lease_entry now leaseToken leaseUntil e =
     e\<lparr>ao_leaseToken := Some leaseToken, ao_leaseUntil := Some leaseUntil, ao_attemptCount := ao_attemptCount e + 1,
       ao_lastErrorCode := None,
       ao_firstAttemptAt := (case ao_firstAttemptAt e of None \<Rightarrow> Some now | Some t \<Rightarrow> Some t)\<rparr>"

definition claimEntry :: "uuid \<Rightarrow> instant \<Rightarrow> (uuid \<Rightarrow> bool) \<Rightarrow> claimed_entry option io" where
  "claimEntry leaseToken now locked =
     transaction (\<lambda>s.
       let s1 = drop_settled_attachment_entries s
       in case next_entry now locked s1 of
            None \<Rightarrow> (Inr None, s1)
          | Some found \<Rightarrow>
              (let s2 = s1\<lparr>attachment_outbox := update_where (\<lambda>e. ao_messageId e = ao_messageId found)
                     (lease_entry now leaseToken (now + OUTBOX_LEASE_MS)) (attachment_outbox s1)\<rparr>
               in case (find_by ao_messageId (ao_messageId found) (attachment_outbox s2),
                        find_by ms_id (ao_messageId found) (messages s2)) of
                    (Some e, Some m) \<Rightarrow>
                      (Inr (Some \<lparr>ce_message = m, ce_leaseToken = leaseToken, ce_attemptCount = ao_attemptCount e,
                         ce_firstAttemptAt = (case ao_firstAttemptAt e of None \<Rightarrow> now | Some t \<Rightarrow> t)\<rparr>), s2)
                  | _ \<Rightarrow> (Inl (PrismaError ''P2025''), s2)))"

section \<open>Settling an entry\<close>

definition entry_owned :: "uuid \<Rightarrow> uuid \<Rightarrow> attachment_outbox_entry \<Rightarrow> bool" where
  \<comment> \<open>the WHERE clause of every statement that finishes a claim\<close>
  "entry_owned messageId leaseToken e \<longleftrightarrow> ao_messageId e = messageId \<and> ao_leaseToken e = Some leaseToken"

definition deleteOwnedEntry :: "claimed_entry \<Rightarrow> unit io" where
  "deleteOwnedEntry entry s =
     (let owned = entry_owned (ms_id (ce_message entry)) (ce_leaseToken entry);
          s' = s\<lparr>attachment_outbox := delete_where owned (attachment_outbox s)\<rparr>
      in if count_where owned (attachment_outbox s) \<noteq> 1
         then (Inl (JsError ''Error'' ''Attachment outbox lease was lost before cleanup''), s')
         else (Inr (), s'))"

definition accept_one :: "uuid \<Rightarrow> string \<Rightarrow> nat io" where
  \<comment> \<open>the \<open>updateMany\<close> of \<open>accept\<close>; the database refuses a duplicate provider id\<close>
  "accept_one messageId resendEmailId s =
     (let hit = (\<lambda>m. ms_id m = messageId \<and> ms_state m = PENDING);
          ms = update_where hit (accept_message resendEmailId) (messages s)
      in if resend_ids_unique ms then (Inr (count_where hit (messages s)), s\<lparr>messages := ms\<rparr>)
         else (Inl (PrismaError ''P2002''), s))"

definition accept_entry :: "environment \<Rightarrow> claimed_entry \<Rightarrow> string \<Rightarrow> unit io" where
  \<comment> \<open>\<open>accept\<close>\<close>
  "accept_entry env entry resendEmailId =
     transaction
       (io_bind (accept_one (ms_id (ce_message entry)) resendEmailId)
         (\<lambda>updated. io_bind
            (if updated \<noteq> 1 then io_throw (JsError ''Error'' ''Outbox message changed before completion'')
             else io_return ())
            (\<lambda>_. io_bind (reconcileOutboundDeliveryState env resendEmailId)
               (\<lambda>_. deleteOwnedEntry entry))))"

definition finalize_entry :: "claimed_entry \<Rightarrow> message_state \<Rightarrow> string \<Rightarrow> unit io" where
  \<comment> \<open>\<open>finalize\<close>\<close>
  "finalize_entry entry st detail =
     transaction
       (io_bind (io_modify (settle_messages [ms_id (ce_message entry)] st detail))
         (\<lambda>_. deleteOwnedEntry entry))"

definition reschedule_entry :: "instant \<Rightarrow> string \<Rightarrow> attachment_outbox_entry \<Rightarrow> attachment_outbox_entry" where
  "reschedule_entry nextAttemptAt errorCode e =
     e\<lparr>ao_nextAttemptAt := nextAttemptAt, ao_leaseToken := None, ao_leaseUntil := None,
       ao_lastErrorCode := Some (take 64 errorCode)\<rparr>"

definition scheduleRetry :: "instant \<Rightarrow> claimed_entry \<Rightarrow> string \<Rightarrow> unit io" where
  "scheduleRetry now entry errorCode s =
     (let owned = entry_owned (ms_id (ce_message entry)) (ce_leaseToken entry);
          nextAttemptAt = now + ladder_delay RETRY_DELAYS_MS (ce_attemptCount entry);
          s' = s\<lparr>attachment_outbox := update_where owned (reschedule_entry nextAttemptAt errorCode) (attachment_outbox s)\<rparr>
      in if count_where owned (attachment_outbox s) \<noteq> 1
         then (Inl (JsError ''Error'' ''Attachment outbox lease was lost before retry scheduling''), s')
         else (Inr (), s'))"

section \<open>One delivery\<close>

type_synonym single_provider = "send_email_input \<Rightarrow> string \<Rightarrow> js_error + json option"

definition entry_item :: "claimed_entry \<Rightarrow> drain_state \<Rightarrow> string option \<Rightarrow> drain_item" where
  "entry_item entry st resendEmailId =
     \<lparr>di_messageId = ms_id (ce_message entry), di_state = st, di_resendEmailId = resendEmailId\<rparr>"

definition entry_window_detail :: string where
  "entry_window_detail = ''Attachment outbox entry exceeded the provider idempotency window''"

definition isRetryableError :: "js_error \<Rightarrow> bool" where
  "isRetryableError e =
     (case e of
        ResendApiError status code \<Rightarrow>
          status = 429 \<and> code \<noteq> Some ''monthly_quota_exceeded'' \<and> code \<noteq> Some ''daily_quota_exceeded''
          \<or> 500 \<le> status \<or> status = 409 \<and> code = Some ''concurrent_idempotent_requests''
      | _ \<Rightarrow> True)"

definition hasProviderWindowExpired :: "instant \<Rightarrow> claimed_entry \<Rightarrow> bool" where
  "hasProviderWindowExpired now entry \<longleftrightarrow> PROVIDER_IDEMPOTENCY_SAFETY_MS \<le> now - ce_firstAttemptAt entry"

text \<open>The two lanes read an error and the window alike.\<close>

lemma lanes_agree [simp]:
  "isRetryableError e \<longleftrightarrow> isRetryableBatchError e" "hasProviderWindowExpired now entry \<longleftrightarrow> window_expired now (ce_firstAttemptAt entry)"
  by (simp_all add: isRetryableError_def isRetryableBatchError_def hasProviderWindowExpired_def window_expired_def)

definition handle_send_error :: "instant \<Rightarrow> claimed_entry \<Rightarrow> js_error \<Rightarrow> drain_item io" where
  \<comment> \<open>the catch block\<close>
  "handle_send_error now entry e =
     (if rejected_as_changed e
      then io_bind (finalize_entry entry INDETERMINATE ''Resend rejected a changed payload for the persisted entry key'')
             (\<lambda>_. io_return (entry_item entry SentIndeterminate None))
      else if isRetryableError e
      then
        (if hasProviderWindowExpired now entry
         then io_bind (finalize_entry entry INDETERMINATE entry_window_detail)
                (\<lambda>_. io_return (entry_item entry SentIndeterminate None))
         else io_bind (scheduleRetry now entry (getErrorCode e)) (\<lambda>_. io_return (entry_item entry SentPending None)))
      else io_bind (finalize_entry entry FAILED (''Resend send request failed ('' @ getErrorCode e @ '')''))
             (\<lambda>_. io_return (entry_item entry SentFailed None)))"

definition settle_send :: "environment \<Rightarrow> instant \<Rightarrow> claimed_entry \<Rightarrow> js_error + json option \<Rightarrow> drain_item io" where
  \<comment> \<open>the try block from the provider's answer: unlike the batch lane it awaits what it returns, so an
    error of the acceptance or the rescheduling reaches the catch block too\<close>
  "settle_send env now entry answer =
     io_catch
       (case answer of
          Inl e \<Rightarrow> io_throw e
        | Inr i \<Rightarrow>
            (case (if truthy (json_string i) then json_string i else None) of
               None \<Rightarrow> io_bind (scheduleRetry now entry ''invalid_send_response'')
                 (\<lambda>_. io_return (entry_item entry SentPending None))
             | Some resendEmailId \<Rightarrow> io_bind (accept_entry env entry resendEmailId)
                 (\<lambda>_. io_return (entry_item entry SentAccepted (Some resendEmailId)))))
       (handle_send_error now entry)"

definition entry_key :: "uuid \<Rightarrow> string" where
  "entry_key messageId = ''attachment-outbox/'' @ messageId"

record lane_tick =
  lt_token :: uuid
  lt_now :: instant
  lt_later :: instant
  lt_locked :: "uuid \<Rightarrow> bool"
  lt_meanwhile :: "store \<Rightarrow> store"

definition deliverEntry ::
  "environment \<Rightarrow> get_buffer \<Rightarrow> single_provider \<Rightarrow> lane_tick \<Rightarrow> claimed_entry \<Rightarrow> drain_item io"
where
  "deliverEntry env getBuffer provider tick entry s =
     (if 1 < ce_attemptCount entry \<and> hasProviderWindowExpired (lt_now tick) entry
      then io_bind (finalize_entry entry INDETERMINATE entry_window_detail)
             (\<lambda>_. io_return (entry_item entry SentIndeterminate None)) s
      else
        (let answer =
               (case buildSendAttachments env getBuffer (ms_id (ce_message entry)) s of
                  Inl e \<Rightarrow> Inl e
                | Inr atts \<Rightarrow> provider (buildSendEmailInput (ce_message entry) atts) (entry_key (ms_id (ce_message entry))))
         in settle_send env (lt_later tick) entry answer (lt_meanwhile tick s)))"

section \<open>The drain\<close>

definition emptyResult :: drain_result where
  "emptyResult = emptyDrainResult"

definition add_outcome :: "drain_result \<Rightarrow> drain_item \<Rightarrow> drain_result" where
  "add_outcome r item =
     r\<lparr>dn_claimed := dn_claimed r + 1,
       dn_accepted := dn_accepted r + (if di_state item = SentAccepted then 1 else 0),
       dn_failed := dn_failed r + (if di_state item = SentFailed then 1 else 0),
       dn_retryScheduled := dn_retryScheduled r + (if di_state item = SentPending then 1 else 0),
       dn_indeterminate := dn_indeterminate r + (if di_state item = SentIndeterminate then 1 else 0),
       dn_results := dn_results r @ [item]\<rparr>"

fun drain_rounds ::
  "environment \<Rightarrow> get_buffer \<Rightarrow> single_provider \<Rightarrow> (nat \<Rightarrow> lane_tick) \<Rightarrow> nat \<Rightarrow> nat \<Rightarrow> drain_result \<Rightarrow> drain_result io"
where
  \<comment> \<open>the loop from round \<open>processed\<close>, with the rounds left\<close>
  "drain_rounds env getBuffer provider ticks processed 0 r = io_return r"
| "drain_rounds env getBuffer provider ticks processed (Suc left) r =
     io_bind (claimEntry (lt_token (ticks processed)) (lt_now (ticks processed)) (lt_locked (ticks processed)))
       (\<lambda>claimed. case claimed of
          None \<Rightarrow> io_return r
        | Some entry \<Rightarrow>
            io_bind (deliverEntry env getBuffer provider (ticks processed) entry)
              (\<lambda>item. drain_rounds env getBuffer provider ticks (Suc processed) left (add_outcome r item)))"

definition drainAttachmentOutbox ::
  "environment \<Rightarrow> get_buffer \<Rightarrow> single_provider \<Rightarrow> (nat \<Rightarrow> lane_tick) \<Rightarrow> nat \<Rightarrow> drain_result io"
where
  "drainAttachmentOutbox env getBuffer provider ticks limit =
     drain_rounds env getBuffer provider ticks 0 limit emptyResult"

section \<open>The lease\<close>

lemma lease_entry_simps [simp]:
  "ao_messageId (lease_entry now tk u e) = ao_messageId e"
  "ao_leaseToken (lease_entry now tk u e) = Some tk"
  "ao_leaseUntil (lease_entry now tk u e) = Some u"
  "ao_attemptCount (lease_entry now tk u e) = Suc (ao_attemptCount e)"
  by (simp_all add: lease_entry_def)

interpretation entry_lease: leased_queue ao_messageId entry_ready entry_owned "lease_entry start" for start
  by unfold_locales (auto simp: entry_owned_def entry_ready_def)

lemma finalize_entry_lost:
  "count_where (entry_owned (ms_id (ce_message entry)) (ce_leaseToken entry)) (attachment_outbox s) = 0 \<Longrightarrow>
     \<exists>e. finalize_entry entry st detail s = (Inl e, s)"
  by (simp add: finalize_entry_def transaction_def io_bind_def deleteOwnedEntry_def settle_messages_def Let_def)

lemma scheduleRetry_lost:
  assumes "count_where (entry_owned (ms_id (ce_message entry)) (ce_leaseToken entry)) (attachment_outbox s) = 0"
  shows "\<exists>e. scheduleRetry now entry code s = (Inl e, s)"
  using entry_lease.fenced_idle [OF assms] assms by (simp add: scheduleRetry_def Let_def)

lemma handle_send_error_lost:
  assumes "count_where (entry_owned (ms_id (ce_message entry)) (ce_leaseToken entry)) (attachment_outbox s) = 0"
  shows "\<exists>e'. handle_send_error now entry e s = (Inl e', s)"
  unfolding handle_send_error_def
  by (auto intro!: io_bind_Inl_ex finalize_entry_lost scheduleRetry_lost assms)

lemma accept_entry_lost:
  assumes lost: "count_where (entry_owned (ms_id (ce_message entry)) (ce_leaseToken entry)) (attachment_outbox s) = 0"
  shows "\<exists>e. accept_entry env entry i s = (Inl e, s)"
proof (cases rule: transaction_cases [of "io_bind (accept_one (ms_id (ce_message entry)) i)
         (\<lambda>updated. io_bind
            (if updated \<noteq> 1 then io_throw (JsError ''Error'' ''Outbox message changed before completion'')
             else io_return ())
            (\<lambda>_. io_bind (reconcileOutboundDeliveryState env i)
               (\<lambda>_. deleteOwnedEntry entry)))" s])
  case (commit a s')
  then obtain n s1 s2 where a1: "accept_one (ms_id (ce_message entry)) i s = (Inr n, s1)"
    and r: "reconcileOutboundDeliveryState env i s1 = (Inr (), s2)" and d: "deleteOwnedEntry entry s2 = (Inr a, s')"
    by (auto elim!: io_bind_InrE split: if_splits)
  have "attachment_outbox s1 = attachment_outbox s"
    using a1 by (auto simp: accept_one_def Let_def split: if_splits)
  moreover have k: "io_keeps (\<lambda>x. attachment_outbox x = attachment_outbox s1) (reconcileOutboundDeliveryState env i)"
    by (rule reconcile_keeps) simp_all
  ultimately have "attachment_outbox s2 = attachment_outbox s"
    using io_keepsD [OF k refl r] by simp
  with d lost show ?thesis by (simp add: deleteOwnedEntry_def Let_def)
next
  case (rollback e s')
  then show ?thesis by (simp add: accept_entry_def)
qed

lemma settle_send_lost:
  assumes lost: "count_where (entry_owned (ms_id (ce_message entry)) (ce_leaseToken entry)) (attachment_outbox s) = 0"
  shows "\<exists>e. settle_send env now entry answer s = (Inl e, s)"
proof -
  let ?body = "case answer of
          Inl e \<Rightarrow> io_throw e
        | Inr i \<Rightarrow>
            (case (if truthy (json_string i) then json_string i else None) of
               None \<Rightarrow> io_bind (scheduleRetry now entry ''invalid_send_response'')
                 (\<lambda>_. io_return (entry_item entry SentPending None))
             | Some resendEmailId \<Rightarrow> io_bind (accept_entry env entry resendEmailId)
                 (\<lambda>_. io_return (entry_item entry SentAccepted (Some resendEmailId))))"
  have "\<exists>e. ?body s = (Inl e, s)"
    by (auto intro!: io_bind_Inl_ex scheduleRetry_lost accept_entry_lost lost split: sum.splits option.splits)
  then obtain e where "?body s = (Inl e, s)" by blast
  then show ?thesis
    using handle_send_error_lost [OF lost] by (simp add: settle_send_def io_catch_def)
qed

section \<open>Tally and outcomes\<close>

lemma finalize_entry_item:
  "io_bind (finalize_entry entry st detail) (\<lambda>_. io_return i) s = (Inr item, t) \<Longrightarrow> item = i"
  by (auto elim!: io_bind_InrE)

lemma tally_add: "tally r \<Longrightarrow> tally (add_outcome r item)"
proof -
  have snoc: "count_where P (xs @ [x]) = count_where P xs + (if P x then 1 else 0)" for P and xs :: "drain_item list" and x
    by (simp add: count_where_def)
  show "tally r \<Longrightarrow> tally (add_outcome r item)" by (simp add: tally_def add_outcome_def snoc)
qed

lemma drain_rounds_tally:
  "drain_rounds env gb provider ticks k left r s = (Inr r', t) \<Longrightarrow> tally r \<Longrightarrow>
     tally r' \<and> dn_claimed r' \<le> dn_claimed r + left"
proof (induction left arbitrary: k r s)
  case (Suc left)
  obtain claimed s1 where "claimEntry (lt_token (ticks k)) (lt_now (ticks k)) (lt_locked (ticks k)) s = (Inr claimed, s1)"
    and rest: "(case claimed of
          None \<Rightarrow> io_return r
        | Some entry \<Rightarrow>
            io_bind (deliverEntry env gb provider (ticks k) entry)
              (\<lambda>item. drain_rounds env gb provider ticks (Suc k) left (add_outcome r item))) s1 = (Inr r', t)"
    using Suc.prems(1) unfolding drain_rounds.simps by (rule io_bind_InrE)
  show ?case
  proof (cases claimed)
    case None
    with rest Suc.prems(2) show ?thesis by simp
  next
    case (Some entry)
    with rest obtain item s2 where "drain_rounds env gb provider ticks (Suc k) left (add_outcome r item) s2 = (Inr r', t)"
      by (auto elim: io_bind_InrE)
    from Suc.IH [OF this tally_add [OF Suc.prems(2)]] show ?thesis by (simp add: add_outcome_def)
  qed
qed simp

lemma settle_send_keeps_outcome:
  assumes m: "ms_state m \<noteq> PENDING"
  shows "io_keeps (has_outcome m) (settle_send env now entry answer)"
proof -
  have del: "io_keeps (has_outcome m) (deleteOwnedEntry entry)"
    by (simp add: io_keeps_def has_outcome_def deleteOwnedEntry_def Let_def)
  have settle: "io_keeps (has_outcome m) (io_modify (settle_messages ids st detail))" for ids st detail
    unfolding settle_messages_def by (intro keeps_intros has_outcome_update m) auto
  have accept: "io_keeps (has_outcome m) (accept_one i x)" for i x
    by (auto simp: io_keeps_def accept_one_def Let_def intro!: has_outcome_update m)
  have retry: "io_keeps (has_outcome m) (scheduleRetry now entry code)" for code
    by (simp add: io_keeps_def has_outcome_def scheduleRetry_def Let_def)
  have fin: "io_keeps (has_outcome m) (finalize_entry entry st detail)" for st detail
    unfolding finalize_entry_def by (intro keeps_intros settle del)
  have acc: "io_keeps (has_outcome m) (accept_entry env entry i)" for i
    unfolding accept_entry_def
    by (intro keeps_intros accept del reconcile_keeps_outcome [OF m]) (auto intro: keeps_intros)
  have handle: "io_keeps (has_outcome m) (handle_send_error now entry e)" for e
    unfolding handle_send_error_def using fin retry by (auto intro!: keeps_intros)
  show ?thesis
    unfolding settle_send_def
    by (intro keeps_intros handle) (auto intro!: keeps_intros retry acc split: sum.splits option.splits)
qed

section \<open>Properties\<close>

definition sample_attachment_outbox :: store where
  "sample_attachment_outbox = empty_store\<lparr>
     conversations := [plain_conversation ''c1'' AWAITING_PARTICIPANT],
     messages := [plain_message ''m1'' PENDING],
     attachment_outbox := [\<lparr>ao_messageId = ''m1'', ao_queuedAt = 0, ao_firstAttemptAt = None, ao_attemptCount = 0,
       ao_nextAttemptAt = 0, ao_leaseToken = None, ao_leaseUntil = None, ao_lastErrorCode = None\<rparr>]\<rparr>"

definition sample_ticks :: "nat \<Rightarrow> lane_tick" where
  "sample_ticks n = \<lparr>lt_token = ''tk'', lt_now = 10, lt_later = 20, lt_locked = nobody, lt_meanwhile = (\<lambda>s. s)\<rparr>"

text \<open>A drain of the attachment lane reports each entry it claimed once, its counters add up to its
  list, and it claims at most \<open>limit\<close> entries, so one request cannot run away with the queue.\<close>

theorem attachment_drain_tally:
  assumes "drainAttachmentOutbox env getBuffer provider ticks limit s = (Inr r, t)"
  shows "dn_claimed r \<le> limit \<and> dn_claimed r = length (dn_results r)
    \<and> dn_accepted r = count_where (\<lambda>i. di_state i = SentAccepted) (dn_results r)
    \<and> dn_failed r = count_where (\<lambda>i. di_state i = SentFailed) (dn_results r)
    \<and> dn_retryScheduled r = count_where (\<lambda>i. di_state i = SentPending) (dn_results r)
    \<and> dn_indeterminate r = count_where (\<lambda>i. di_state i = SentIndeterminate) (dn_results r)"
proof -
  have "tally emptyResult" "dn_claimed emptyResult = 0" by (simp_all add: tally_def emptyResult_def emptyDrainResult_def)
  then have "tally r \<and> dn_claimed r \<le> limit"
    using drain_rounds_tally [of env getBuffer provider ticks 0 limit emptyResult s r t] assms
    by (simp add: drainAttachmentOutbox_def)
  then show ?thesis by (simp add: tally_def)
qed

theorem attachment_drain_tally_witness:
  "\<exists>r t. drainAttachmentOutbox (\<lambda>_. None) (\<lambda>_. Inl NotAnError) (\<lambda>_ _. Inr (Some (JString ''re1''))) sample_ticks 3
       sample_attachment_outbox = (Inr r, t)
     \<and> dn_claimed r \<le> 3 \<and> dn_accepted r = 1"
proof -
  have "case drainAttachmentOutbox (\<lambda>_. None) (\<lambda>_. Inl NotAnError) (\<lambda>_ _. Inr (Some (JString ''re1''))) sample_ticks 3
      sample_attachment_outbox of (Inr r, t) \<Rightarrow> dn_accepted r = 1 | _ \<Rightarrow> False" by code_simp
  then obtain r t where run: "drainAttachmentOutbox (\<lambda>_. None) (\<lambda>_. Inl NotAnError) (\<lambda>_ _. Inr (Some (JString ''re1''))) sample_ticks 3
      sample_attachment_outbox = (Inr r, t)" "dn_accepted r = 1"
    by (rule case_returnE)
  from attachment_drain_tally [OF run(1)] run show ?thesis by blast
qed

text \<open>The attachment lane is fenced too. Although its acceptance is not preceded by a lease check, a
  worker whose entry was claimed by another writes nothing: every path ends in a statement on the
  token that undoes the transaction, and the error handler, which treats that failure as
  retryable, finds nothing to reschedule.\<close>

theorem attachment_lost_lease_writes_nothing:
  assumes "\<forall>e \<in> set (attachment_outbox s). ao_messageId e = ms_id (ce_message entry) \<longrightarrow>
    ao_leaseToken e \<noteq> Some (ce_leaseToken entry)"
  shows "\<exists>e. settle_send env now entry answer s = (Inl e, s)"
proof (rule settle_send_lost)
  show "count_where (entry_owned (ms_id (ce_message entry)) (ce_leaseToken entry)) (attachment_outbox s) = 0"
    using assms by (auto simp: count_where_0 entry_owned_def)
qed

theorem attachment_lost_lease_writes_nothing_witness:
  "\<exists>e. settle_send (\<lambda>_. None) 20
     \<lparr>ce_message = plain_message ''m1'' PENDING, ce_leaseToken = ''old'', ce_attemptCount = 1, ce_firstAttemptAt = 0\<rparr>
     (Inr (Some (JString ''re1''))) sample_attachment_outbox = (Inl e, sample_attachment_outbox)"
  by (rule attachment_lost_lease_writes_nothing) (simp add: sample_attachment_outbox_def empty_store_def)

text \<open>No delivery of the attachment lane changes a message that already has an outcome.\<close>

theorem attachment_outcome_is_final:
  assumes "m \<in> set (messages s)" and "ms_state m \<noteq> PENDING"
  shows "\<exists>m' \<in> set (messages (snd (settle_send env now entry answer s))).
    ms_id m' = ms_id m \<and> ms_state m' = ms_state m \<and> ms_stateDetail m' = ms_stateDetail m
    \<and> ms_resendEmailId m' = ms_resendEmailId m"
proof -
  have "has_outcome m s" using assms(1) by (auto simp: has_outcome_def)
  then have "has_outcome m (snd (settle_send env now entry answer s))"
    using settle_send_keeps_outcome [OF assms(2)] by (simp add: io_keeps_def)
  then show ?thesis by (simp add: has_outcome_def)
qed

theorem attachment_outcome_is_final_witness:
  "\<exists>m' \<in> set (messages (snd (settle_send (\<lambda>_. None) 0
     \<lparr>ce_message = plain_message ''m1'' FAILED, ce_leaseToken = ''tk'', ce_attemptCount = 1, ce_firstAttemptAt = 0\<rparr>
     (Inl (ResendApiError 422 None)) (empty_store\<lparr>messages := [plain_message ''m1'' FAILED]\<rparr>)))).
   ms_id m' = ''m1'' \<and> ms_state m' = FAILED"
  using attachment_outcome_is_final [of "plain_message ''m1'' FAILED" "empty_store\<lparr>messages := [plain_message ''m1'' FAILED]\<rparr>"
    "\<lambda>_. None" 0 "\<lparr>ce_message = plain_message ''m1'' FAILED, ce_leaseToken = ''tk'', ce_attemptCount = 1, ce_firstAttemptAt = 0\<rparr>"
    "Inl (ResendApiError 422 None)"]
  by (simp add: plain_message_def) blast

end
