(* ===== verification/Scheduler.thy ===== *)
theory Scheduler
  imports Attachment_Outbox
begin

text \<open>
  \<open>src/lib/outbox-drain-scheduler.ts\<close>: the configuration of the scheduled drain and one tick of it.
  The cron library is an argument, the test it makes of an expression and a time zone. A tick returns
  what the code records of each pass, the entries both lanes claimed.
\<close>

section \<open>Configuration\<close>

record drain_schedule =
  sch_expression :: string
  sch_timezone :: string
  sch_batchSize :: nat
  sch_maxBatches :: nat

definition DEFAULT_TIMEZONE :: string where "DEFAULT_TIMEZONE = ''UTC''"
definition DEFAULT_BATCH_SIZE :: nat where "DEFAULT_BATCH_SIZE = 100"
definition DEFAULT_MAX_BATCHES :: nat where "DEFAULT_MAX_BATCHES = 5"

definition boundedInteger :: "string option \<Rightarrow> string \<Rightarrow> nat \<Rightarrow> js_error + nat" where
  "boundedInteger raw name fallback =
     (let v = (case raw of None \<Rightarrow> [] | Some t \<Rightarrow> js_trim t)
      in if v = [] then Inr fallback
         else case js_Number_integer v of
                Some n \<Rightarrow> if n < 1 \<or> 100 < n
                  then Inl (JsError ''Error'' (name @ '' must be an integer between 1 and 100''))
                  else Inr (nat n)
              | None \<Rightarrow> Inl (JsError ''Error'' (name @ '' must be an integer between 1 and 100'')))"

type_synonym cron_test = "string \<Rightarrow> string \<Rightarrow> js_error option"

definition trimmed_setting :: "environment \<Rightarrow> string \<Rightarrow> string" where
  \<comment> \<open>\<open>environment.NAME?.trim()\<close>, the empty string where it is absent: both are falsy\<close>
  "trimmed_setting env name = (case env name of None \<Rightarrow> [] | Some v \<Rightarrow> js_trim v)"

definition resolveOutboxDrainSchedule :: "cron_test \<Rightarrow> environment \<Rightarrow> js_error + drain_schedule option" where
  "resolveOutboxDrainSchedule cron env =
     (let enabled = trimmed_setting env ''OUTBOX_DRAIN_SCHEDULE_ENABLED'';
          expression = trimmed_setting env ''OUTBOX_DRAIN_SCHEDULE'';
          timezone = js_or (trimmed_setting env ''OUTBOX_DRAIN_SCHEDULE_TIMEZONE'') DEFAULT_TIMEZONE
      in if enabled = [] then Inr None
         else if js_toLower enabled \<noteq> ''true''
         then Inl (JsError ''Error'' ''OUTBOX_DRAIN_SCHEDULE_ENABLED must be true when set'')
         else if expression = []
         then Inl (JsError ''Error'' ''Missing OUTBOX_DRAIN_SCHEDULE for the enabled outbox drain scheduler'')
         else
           (case boundedInteger (env ''OUTBOX_DRAIN_SCHEDULE_BATCH_SIZE'') ''OUTBOX_DRAIN_SCHEDULE_BATCH_SIZE'' DEFAULT_BATCH_SIZE of
              Inl e \<Rightarrow> Inl e
            | Inr batchSize \<Rightarrow>
                (case boundedInteger (env ''OUTBOX_DRAIN_SCHEDULE_MAX_BATCHES'') ''OUTBOX_DRAIN_SCHEDULE_MAX_BATCHES''
                   DEFAULT_MAX_BATCHES of
                   Inl e \<Rightarrow> Inl e
                 | Inr maxBatches \<Rightarrow>
                     (case cron expression timezone of
                        Some e \<Rightarrow> Inl e
                      | None \<Rightarrow> Inr (Some \<lparr>sch_expression = expression, sch_timezone = timezone,
                          sch_batchSize = batchSize, sch_maxBatches = maxBatches\<rparr>)))))"

section \<open>One tick\<close>

text \<open>The world a tick runs in: the provider and the storage, and what each pass of each lane reads
  from outside.\<close>

record drain_world =
  dw_batchProvider :: batch_provider
  dw_singleProvider :: single_provider
  dw_getBuffer :: get_buffer
  dw_tick :: "nat \<Rightarrow> lane_tick"
  dw_lockedBatch :: "nat \<Rightarrow> uuid \<Rightarrow> bool"
  dw_attachmentTicks :: "nat \<Rightarrow> nat \<Rightarrow> lane_tick"

definition email_pass :: "environment \<Rightarrow> drain_world \<Rightarrow> drain_schedule \<Rightarrow> nat \<Rightarrow> drain_result io" where
  "email_pass env w schedule batch =
     drainEmailOutbox env (dw_batchProvider w) (lt_meanwhile (dw_tick w batch)) (lt_token (dw_tick w batch))
       (lt_now (dw_tick w batch)) (lt_later (dw_tick w batch)) (dw_lockedBatch w batch) (lt_locked (dw_tick w batch))
       (sch_batchSize schedule)"

definition attachment_pass :: "environment \<Rightarrow> drain_world \<Rightarrow> drain_schedule \<Rightarrow> nat \<Rightarrow> drain_result io" where
  "attachment_pass env w schedule batch =
     drainAttachmentOutbox env (dw_getBuffer w) (dw_singleProvider w) (dw_attachmentTicks w batch) (sch_batchSize schedule)"

definition one_pass :: "environment \<Rightarrow> drain_world \<Rightarrow> drain_schedule \<Rightarrow> nat \<Rightarrow> (nat \<times> nat) io" where
  \<comment> \<open>the body of the loop: the entries each lane claimed\<close>
  "one_pass env w schedule batch =
     io_bind (email_pass env w schedule batch)
       (\<lambda>result.
          if attachmentsEnabled env
          then io_bind (attachment_pass env w schedule batch)
                 (\<lambda>atts. io_return (dn_claimed result, dn_claimed atts))
          else io_return (dn_claimed result, 0))"

fun run_passes :: "environment \<Rightarrow> drain_world \<Rightarrow> drain_schedule \<Rightarrow> nat \<Rightarrow> nat \<Rightarrow> (nat \<times> nat) list io" where
  \<comment> \<open>the loop from pass \<open>batch\<close>, with the passes left\<close>
  "run_passes env w schedule batch 0 = io_return []"
| "run_passes env w schedule batch (Suc left) =
     io_bind (one_pass env w schedule batch)
       (\<lambda>pass. if pass = (0, 0) then io_return [pass]
          else io_bind (run_passes env w schedule (Suc batch) left) (\<lambda>rest. io_return (pass # rest)))"

definition runScheduledDrain :: "environment \<Rightarrow> drain_world \<Rightarrow> drain_schedule \<Rightarrow> (nat \<times> nat) list io" where
  "runScheduledDrain env w schedule = run_passes env w schedule 0 (sch_maxBatches schedule)"

section \<open>Properties\<close>

lemma boundedInteger_bounds: "boundedInteger raw name fallback = Inr n \<Longrightarrow> n = fallback \<or> 1 \<le> n \<and> n \<le> 100"
  by (auto simp: boundedInteger_def Let_def split: if_splits option.splits)

text \<open>A scheduler that starts is bounded. The resolved configuration has an expression the cron
  library accepts, a batch size and a pass limit between 1 and 100; anything else stops the start
  with an error, and without the switch there is no scheduler.\<close>

theorem drain_schedule_bounds:
  assumes "resolveOutboxDrainSchedule cron env = Inr (Some schedule)"
  shows "1 \<le> sch_batchSize schedule \<and> sch_batchSize schedule \<le> 100 \<and> 1 \<le> sch_maxBatches schedule
    \<and> sch_maxBatches schedule \<le> 100 \<and> sch_expression schedule \<noteq> [] \<and> sch_timezone schedule \<noteq> []
    \<and> cron (sch_expression schedule) (sch_timezone schedule) = None
    \<and> js_toLower (trimmed_setting env ''OUTBOX_DRAIN_SCHEDULE_ENABLED'') = ''true''"
  using assms
  by (auto simp: resolveOutboxDrainSchedule_def Let_def js_or_def DEFAULT_TIMEZONE_def DEFAULT_BATCH_SIZE_def
      DEFAULT_MAX_BATCHES_def split: if_splits sum.splits option.splits dest!: boundedInteger_bounds)

definition sample_settings :: environment where
  "sample_settings name =
     (if name = ''OUTBOX_DRAIN_SCHEDULE_ENABLED'' then Some '' True''
      else if name = ''OUTBOX_DRAIN_SCHEDULE'' then Some ''* * * * *''
      else if name = ''OUTBOX_DRAIN_SCHEDULE_BATCH_SIZE'' then Some ''50'' else None)"

theorem drain_schedule_bounds_witness:
  "\<exists>schedule. resolveOutboxDrainSchedule (\<lambda>_ _. None) sample_settings = Inr (Some schedule)
     \<and> sch_batchSize schedule = 50 \<and> sch_maxBatches schedule \<le> 100"
proof -
  have run: "resolveOutboxDrainSchedule (\<lambda>_ _. None) sample_settings =
      Inr (Some \<lparr>sch_expression = ''* * * * *'', sch_timezone = ''UTC'', sch_batchSize = 50, sch_maxBatches = 5\<rparr>)"
    by code_simp
  from drain_schedule_bounds [OF run] run show ?thesis by auto
qed

lemma run_passes_shape:
  "run_passes env w schedule batch left s = (Inr passes, t) \<Longrightarrow>
     length passes \<le> left \<and> (\<forall>p \<in> set (butlast passes). p \<noteq> (0, 0))
     \<and> (length passes < left \<longrightarrow> passes \<noteq> [] \<and> last passes = (0, 0))"
proof (induction left arbitrary: batch s passes)
  case (Suc left)
  obtain p s1 where rest: "(if p = (0, 0) then io_return [p]
      else io_bind (run_passes env w schedule (Suc batch) left) (\<lambda>rest. io_return (p # rest))) s1 = (Inr passes, t)"
    using Suc.prems unfolding run_passes.simps by (rule io_bind_InrE)
  show ?case
  proof (cases "p = (0, 0)")
    case True
    with rest show ?thesis by auto
  next
    case False
    then obtain more where "run_passes env w schedule (Suc batch) left s1 = (Inr more, t)" "passes = p # more"
      using rest by (auto elim!: io_bind_InrE)
    with Suc.IH [OF this(1)] False show ?thesis by auto
  qed
qed simp

text \<open>C36: a tick drains until there is nothing left, within its limit. It makes at most \<open>maxBatches\<close>
  passes, goes on only after a pass that claimed something, and stops early only on a pass in which
  both lanes came back empty.\<close>

theorem scheduled_drain_stops:
  assumes "runScheduledDrain env w schedule s = (Inr passes, t)"
  shows "length passes \<le> sch_maxBatches schedule \<and> (\<forall>p \<in> set (butlast passes). p \<noteq> (0, 0))
    \<and> (length passes < sch_maxBatches schedule \<longrightarrow> passes \<noteq> [] \<and> last passes = (0, 0))"
  using assms run_passes_shape unfolding runScheduledDrain_def by blast

definition sample_world :: drain_world where
  "sample_world =
     \<lparr>dw_batchProvider = sample_provider, dw_singleProvider = (\<lambda>_ _. Inl NotAnError), dw_getBuffer = (\<lambda>_. Inl NotAnError),
      dw_tick = sample_ticks, dw_lockedBatch = (\<lambda>_. nobody), dw_attachmentTicks = (\<lambda>_. sample_ticks)\<rparr>"

definition sample_schedule :: drain_schedule where
  "sample_schedule = \<lparr>sch_expression = ''* * * * *'', sch_timezone = ''UTC'', sch_batchSize = 1, sch_maxBatches = 5\<rparr>"

theorem scheduled_drain_stops_witness:
  "\<exists>passes t. runScheduledDrain (\<lambda>_. None) sample_world sample_schedule empty_store = (Inr passes, t) \<and> length passes \<le> 5"
proof -
  have "case runScheduledDrain (\<lambda>_. None) sample_world sample_schedule empty_store of (Inr p, _) \<Rightarrow> length p = 1 | _ \<Rightarrow> False"
    by code_simp
  then obtain passes t where run: "runScheduledDrain (\<lambda>_. None) sample_world sample_schedule empty_store = (Inr passes, t)"
    by (rule case_returnE)
  from scheduled_drain_stops [OF run] run show ?thesis by (auto simp: sample_schedule_def)
qed

end
