(* ===== verification/Event_Runtime.thy ===== *)
theory Event_Runtime
  imports Conversation_Events Lease Provider_Errors
begin

text \<open>
  \<open>src/lib/conversation-event-runtime.ts\<close>: the worker that publishes the conversation events. The
  sink's \<open>publish\<close> is an argument that returns the error it throws, if any; the clock, the lease token
  and the rows others hold locked are arguments as in the outbox.
\<close>

section \<open>Claim, acknowledge, retry\<close>

definition LEASE_MS :: int where "LEASE_MS = 30000"
definition BATCH_SIZE :: nat where "BATCH_SIZE = 50"
definition EVENT_RETRY_DELAYS_MS :: "int list" where
  "EVENT_RETRY_DELAYS_MS = [1000, 5000, 30000, 120000, 300000]"

record claimed_delivery =
  cd_id :: uuid
  cd_conversationId :: uuid
  cd_sequence :: nat
  cd_payload :: "event_payload option"
  cd_leaseToken :: uuid
  cd_attemptCount :: nat

definition delivery_ready :: "instant \<Rightarrow> event_delivery \<Rightarrow> bool" where
  "delivery_ready now d \<longleftrightarrow>
     dl_nextAttemptAt d \<le> now \<and> (case dl_leaseUntil d of None \<Rightarrow> True | Some u \<Rightarrow> u \<le> now)"

definition blocked_by_older :: "store \<Rightarrow> event_delivery \<Rightarrow> conversation_event \<Rightarrow> bool" where
  \<comment> \<open>the EXISTS subquery\<close>
  "blocked_by_older s d e \<longleftrightarrow>
     (\<exists>d' \<in> set (deliveries s). \<exists>e' \<in> set (events s).
        ev_id e' = dl_eventId d' \<and> dl_sink d' = dl_sink d \<and> ev_conversationId e' = ev_conversationId e
        \<and> ev_sequence e' < ev_sequence e \<and> dl_publishedAt d' = None)"

definition with_event :: "store \<Rightarrow> event_delivery \<Rightarrow> (event_delivery \<times> conversation_event) option" where
  \<comment> \<open>the join with the event\<close>
  "with_event s d = map_option (\<lambda>e. (d, e)) (find_by ev_id (dl_eventId d) (events s))"

definition claimable_rows ::
  "event_sink \<Rightarrow> instant \<Rightarrow> (uuid \<Rightarrow> bool) \<Rightarrow> store \<Rightarrow> (event_delivery \<times> conversation_event) list"
where
  "claimable_rows sink now locked s =
     take BATCH_SIZE (sort_key (\<lambda>(d, e). (ev_createdAt e, ev_id e))
       (filter (\<lambda>(d, e). dl_sink d = sink \<and> dl_publishedAt d = None \<and> delivery_ready now d
            \<and> \<not> blocked_by_older s d e \<and> \<not> locked (dl_eventId d))
         (List.map_filter (with_event s) (deliveries s))))"

definition lease_delivery :: "uuid \<Rightarrow> instant \<Rightarrow> event_delivery \<Rightarrow> event_delivery" where
  "lease_delivery token leaseUntil d =
     d\<lparr>dl_leaseToken := Some token, dl_leaseUntil := Some leaseUntil, dl_attemptCount := dl_attemptCount d + 1\<rparr>"

definition delivery_key :: "event_delivery \<Rightarrow> uuid \<times> event_sink" where
  "delivery_key d = (dl_eventId d, dl_sink d)"

definition lease_rows :: "uuid \<Rightarrow> instant \<Rightarrow> (event_delivery \<times> conversation_event) list \<Rightarrow> store \<Rightarrow> store" where
  \<comment> \<open>the loop of updates, each on the primary key of one row\<close>
  "lease_rows token leaseUntil rows s =
     s\<lparr>deliveries := foldl (\<lambda>ds (r, _). update_where (\<lambda>d. delivery_key d = delivery_key r) (lease_delivery token leaseUntil) ds)
         (deliveries s) rows\<rparr>"

definition claimed_of :: "uuid \<Rightarrow> event_delivery \<times> conversation_event \<Rightarrow> claimed_delivery" where
  "claimed_of token row =
     \<lparr>cd_id = dl_eventId (fst row), cd_conversationId = ev_conversationId (snd row),
      cd_sequence = ev_sequence (snd row), cd_payload = ev_payload (snd row), cd_leaseToken = token,
      cd_attemptCount = dl_attemptCount (fst row) + 1\<rparr>"

definition claimDeliveries :: "uuid \<Rightarrow> instant \<Rightarrow> (uuid \<Rightarrow> bool) \<Rightarrow> event_sink \<Rightarrow> claimed_delivery list io" where
  "claimDeliveries token now locked sink s =
     (let rows = claimable_rows sink now locked s
      in (Inr (map (claimed_of token) rows), lease_rows token (now + LEASE_MS) rows s))"

definition delivery_owned :: "uuid \<times> event_sink \<Rightarrow> uuid \<Rightarrow> event_delivery \<Rightarrow> bool" where
  "delivery_owned k token d \<longleftrightarrow> delivery_key d = k \<and> dl_leaseToken d = Some token"

definition publish_row :: "instant \<Rightarrow> event_delivery \<Rightarrow> event_delivery" where
  "publish_row now d =
     d\<lparr>dl_publishedAt := Some now, dl_leaseToken := None, dl_leaseUntil := None, dl_lastErrorCode := None\<rparr>"

definition acknowledgeDelivery :: "instant \<Rightarrow> event_sink \<Rightarrow> claimed_delivery \<Rightarrow> unit io" where
  "acknowledgeDelivery now sink delivery =
     io_modify (\<lambda>s. s\<lparr>deliveries :=
       update_where (delivery_owned (cd_id delivery, sink) (cd_leaseToken delivery)) (publish_row now) (deliveries s)\<rparr>)"

definition retry_row :: "instant \<Rightarrow> string \<Rightarrow> event_delivery \<Rightarrow> event_delivery" where
  "retry_row nextAttemptAt errorCode d =
     d\<lparr>dl_nextAttemptAt := nextAttemptAt, dl_leaseToken := None, dl_leaseUntil := None, dl_lastErrorCode := Some errorCode\<rparr>"

definition retryDelivery :: "instant \<Rightarrow> event_sink \<Rightarrow> claimed_delivery \<Rightarrow> js_error \<Rightarrow> unit io" where
  "retryDelivery now sink delivery e =
     io_modify (\<lambda>s. s\<lparr>deliveries :=
       update_where (delivery_owned (cd_id delivery, sink) (cd_leaseToken delivery))
         (retry_row (now + ladder_delay EVENT_RETRY_DELAYS_MS (cd_attemptCount delivery))
            (if e = NotAnError then ''publish_error'' else take 64 (error_name e)))
         (deliveries s)\<rparr>)"

section \<open>The runtime\<close>

record event_runtime =
  rt_stopped :: bool
  rt_running :: bool
  rt_healthy :: bool

type_synonym publisher = "event_sink \<Rightarrow> claimed_delivery \<Rightarrow> js_error option"

text \<open>The inner loops: publish and acknowledge each claimed delivery, or reschedule it; the result says
  whether the whole cycle was healthy.\<close>

fun deliver_each :: "publisher \<Rightarrow> instant \<Rightarrow> event_sink \<Rightarrow> claimed_delivery list \<Rightarrow> bool \<Rightarrow> bool io" where
  "deliver_each publish now sink [] healthy = io_return healthy"
| "deliver_each publish now sink (d # ds) healthy =
     (case publish sink d of
        None \<Rightarrow> io_bind (acknowledgeDelivery now sink d) (\<lambda>_. deliver_each publish now sink ds healthy)
      | Some e \<Rightarrow> io_bind (retryDelivery now sink d e) (\<lambda>_. deliver_each publish now sink ds False))"

fun drain_sinks ::
  "publisher \<Rightarrow> (event_sink \<Rightarrow> uuid) \<Rightarrow> instant \<Rightarrow> instant \<Rightarrow> (uuid \<Rightarrow> bool) \<Rightarrow> event_sink list \<Rightarrow> bool \<Rightarrow> bool io"
where
  "drain_sinks publish tokens now later locked [] healthy = io_return healthy"
| "drain_sinks publish tokens now later locked (sink # sinks) healthy =
     io_bind (claimDeliveries (tokens sink) now locked sink)
       (\<lambda>ds. io_bind (deliver_each publish later sink ds healthy)
          (\<lambda>healthy'. drain_sinks publish tokens now later locked sinks healthy'))"

definition runtime_drain ::
  "publisher \<Rightarrow> (event_sink \<Rightarrow> uuid) \<Rightarrow> instant \<Rightarrow> instant \<Rightarrow> (uuid \<Rightarrow> bool) \<Rightarrow> event_sink list \<Rightarrow> event_runtime \<Rightarrow>
     store \<Rightarrow> event_runtime \<times> store"
where
  "runtime_drain publish tokens now later locked sinks rt s =
     (if rt_stopped rt \<or> rt_running rt then (rt, s)
      else case drain_sinks publish tokens now later locked sinks True s of
             (Inr cycleHealthy, s') \<Rightarrow> (if sinks \<noteq> [] then rt\<lparr>rt_healthy := cycleHealthy\<rparr> else rt, s')
           | (Inl _, s') \<Rightarrow> (rt\<lparr>rt_healthy := False\<rparr>, s'))"

definition isHealthy :: "event_sink list \<Rightarrow> event_runtime \<Rightarrow> bool" where
  "isHealthy sinks rt \<longleftrightarrow> length sinks = 0 \<or> rt_healthy rt"

definition runtime_stop :: "event_runtime \<Rightarrow> event_runtime" where
  "runtime_stop rt = rt\<lparr>rt_stopped := True\<rparr>"

section \<open>The lease\<close>

lemma lease_delivery_simps [simp]:
  "delivery_key (lease_delivery tk u d) = delivery_key d"
  "dl_eventId (lease_delivery tk u d) = dl_eventId d"
  "dl_sink (lease_delivery tk u d) = dl_sink d"
  "dl_publishedAt (lease_delivery tk u d) = dl_publishedAt d"
  "dl_leaseToken (lease_delivery tk u d) = Some tk"
  "dl_leaseUntil (lease_delivery tk u d) = Some u"
  by (simp_all add: lease_delivery_def delivery_key_def)

interpretation delivery_lease: leased_queue delivery_key delivery_ready delivery_owned lease_delivery
  by unfold_locales (auto simp: delivery_owned_def delivery_ready_def)

interpretation event_ladder: retry_ladder "ladder_delay EVENT_RETRY_DELAYS_MS" 1000 300000
  using retry_ladderI [of EVENT_RETRY_DELAYS_MS] by (simp add: EVENT_RETRY_DELAYS_MS_def)

section \<open>Several workers and the broker\<close>

text \<open>The system as a whole: any number of processes append events, claim, publish, acknowledge and
  reschedule, in any interleaving; a worker that crashes or stalls just takes no further step with
  what it holds. \<open>sy_log\<close> is what the broker received, in order.\<close>

record event_system =
  sy_store :: store
  sy_held :: "(event_sink \<times> claimed_delivery) list"
  sy_log :: "(event_sink \<times> claimed_delivery) list"

inductive system_step :: "event_system \<Rightarrow> event_system \<Rightarrow> bool" where
  append: "appendConversationEvent env input (sy_store st) = (r, s') \<Longrightarrow> system_step st (st\<lparr>sy_store := s'\<rparr>)"
| claim: "claimDeliveries token now locked sink (sy_store st) = (Inr ds, s') \<Longrightarrow>
    system_step st (st\<lparr>sy_store := s', sy_held := sy_held st @ map (\<lambda>d. (sink, d)) ds\<rparr>)"
| publish: "(sink, d) \<in> set (sy_held st) \<Longrightarrow> system_step st (st\<lparr>sy_log := sy_log st @ [(sink, d)]\<rparr>)"
| acknowledge: "(sink, d) \<in> set (sy_held st) \<Longrightarrow> (sink, d) \<in> set (sy_log st) \<Longrightarrow>
    acknowledgeDelivery now sink d (sy_store st) = (Inr (), s') \<Longrightarrow> system_step st (st\<lparr>sy_store := s'\<rparr>)"
| retry: "(sink, d) \<in> set (sy_held st) \<Longrightarrow> retryDelivery now sink d e (sy_store st) = (Inr (), s') \<Longrightarrow>
    system_step st (st\<lparr>sy_store := s'\<rparr>)"

inductive_cases system_stepE: "system_step st st'"

text \<open>A start: no event was ever published and no worker holds anything; the tables are well formed.\<close>

definition events_wf :: "store \<Rightarrow> bool" where
  "events_wf s \<longleftrightarrow>
     log_numbered s \<and> distinct (map ev_id (events s)) \<and> ids_fresh s (ev_id ` set (events s))
     \<and> (\<forall>d \<in> set (deliveries s). dl_eventId d \<in> ev_id ` set (events s))"

definition system_start :: "event_system \<Rightarrow> bool" where
  "system_start st \<longleftrightarrow>
     events_wf (sy_store st) \<and> (\<forall>d \<in> set (deliveries (sy_store st)). dl_publishedAt d = None)
     \<and> sy_held st = [] \<and> sy_log st = []"

text \<open>An earlier event of the same conversation that is queued for the same sink.\<close>

definition older_queued :: "store \<Rightarrow> event_sink \<Rightarrow> claimed_delivery \<Rightarrow> uuid \<Rightarrow> bool" where
  "older_queued s sink c i \<longleftrightarrow>
     (\<exists>e \<in> set (events s). ev_id e = i \<and> ev_conversationId e = cd_conversationId c \<and> ev_sequence e < cd_sequence c)
     \<and> (i, sink) \<in> delivery_key ` set (deliveries s)"

definition known_event :: "store \<Rightarrow> claimed_delivery \<Rightarrow> bool" where
  "known_event s c \<longleftrightarrow>
     (\<exists>e \<in> set (events s). ev_id e = cd_id c \<and> ev_conversationId e = cd_conversationId c \<and> ev_sequence e = cd_sequence c)"

definition published_key :: "store \<Rightarrow> uuid \<times> event_sink \<Rightarrow> bool" where
  "published_key s k \<longleftrightarrow> (\<forall>d \<in> set (deliveries s). delivery_key d = k \<longrightarrow> dl_publishedAt d \<noteq> None)"

definition logged :: "(event_sink \<times> claimed_delivery) list \<Rightarrow> event_sink \<Rightarrow> uuid \<Rightarrow> bool" where
  "logged l sink i \<longleftrightarrow> (\<exists>c. (sink, c) \<in> set l \<and> cd_id c = i)"

definition system_inv :: "event_system \<Rightarrow> bool" where
  "system_inv st \<longleftrightarrow>
     events_wf (sy_store st)
     \<and> (\<forall>d \<in> set (deliveries (sy_store st)). dl_publishedAt d \<noteq> None \<longrightarrow> logged (sy_log st) (dl_sink d) (dl_eventId d))
     \<and> (\<forall>y \<in> set (sy_held st) \<union> set (sy_log st). known_event (sy_store st) (snd y))
     \<and> (\<forall>y \<in> set (sy_held st). \<forall>i. older_queued (sy_store st) (fst y) (snd y) i \<longrightarrow> published_key (sy_store st) (i, fst y))
     \<and> (\<forall>n < length (sy_log st). \<forall>i. older_queued (sy_store st) (fst (sy_log st ! n)) (snd (sy_log st ! n)) i \<longrightarrow>
          logged (take n (sy_log st)) (fst (sy_log st ! n)) i)"

lemma system_invD:
  assumes "system_inv st"
  shows "events_wf (sy_store st)"
    "r \<in> set (deliveries (sy_store st)) \<Longrightarrow> dl_publishedAt r \<noteq> None \<Longrightarrow> logged (sy_log st) (dl_sink r) (dl_eventId r)"
    "(sink, c) \<in> set (sy_held st) \<union> set (sy_log st) \<Longrightarrow> known_event (sy_store st) c"
    "(sink, c) \<in> set (sy_held st) \<Longrightarrow> older_queued (sy_store st) sink c i \<Longrightarrow> published_key (sy_store st) (i, sink)"
    "n < length (sy_log st) \<Longrightarrow> older_queued (sy_store st) (fst (sy_log st ! n)) (snd (sy_log st ! n)) i \<Longrightarrow>
      logged (take n (sy_log st)) (fst (sy_log st ! n)) i"
proof -
  note inv = assms [unfolded system_inv_def]
  show "events_wf (sy_store st)" using inv by blast
  show "r \<in> set (deliveries (sy_store st)) \<Longrightarrow> dl_publishedAt r \<noteq> None \<Longrightarrow> logged (sy_log st) (dl_sink r) (dl_eventId r)"
    using inv by blast
  show "known_event (sy_store st) c" if "(sink, c) \<in> set (sy_held st) \<union> set (sy_log st)"
    using inv that by (metis snd_conv)
  show "published_key (sy_store st) (i, sink)" if "(sink, c) \<in> set (sy_held st)" "older_queued (sy_store st) sink c i"
    using inv that by (metis fst_conv snd_conv)
  show "n < length (sy_log st) \<Longrightarrow> older_queued (sy_store st) (fst (sy_log st ! n)) (snd (sy_log st ! n)) i \<Longrightarrow>
      logged (take n (sy_log st)) (fst (sy_log st ! n)) i"
    using inv by blast
qed

lemma system_invI:
  assumes "events_wf (sy_store st)"
    and "\<And>r. r \<in> set (deliveries (sy_store st)) \<Longrightarrow> dl_publishedAt r \<noteq> None \<Longrightarrow> logged (sy_log st) (dl_sink r) (dl_eventId r)"
    and "\<And>sink c. (sink, c) \<in> set (sy_held st) \<union> set (sy_log st) \<Longrightarrow> known_event (sy_store st) c"
    and "\<And>sink c i. (sink, c) \<in> set (sy_held st) \<Longrightarrow> older_queued (sy_store st) sink c i \<Longrightarrow> published_key (sy_store st) (i, sink)"
    and "\<And>n i. n < length (sy_log st) \<Longrightarrow> older_queued (sy_store st) (fst (sy_log st ! n)) (snd (sy_log st ! n)) i \<Longrightarrow>
      logged (take n (sy_log st)) (fst (sy_log st ! n)) i"
  shows "system_inv st"
  unfolding system_inv_def
proof (intro conjI ballI allI impI)
  show "events_wf (sy_store st)" by fact
  fix y assume "y \<in> set (sy_held st) \<union> set (sy_log st)"
  then show "known_event (sy_store st) (snd y)" using assms(3) [of "fst y" "snd y"] by simp
next
  fix y i assume "y \<in> set (sy_held st)" "older_queued (sy_store st) (fst y) (snd y) i"
  then show "published_key (sy_store st) (i, fst y)" using assms(4) [of "fst y" "snd y" i] by simp
qed (use assms(2,5) in simp_all)

text \<open>All of this depends on two views of the store: where the events are, and which rows are
  published.\<close>

definition eview :: "store \<Rightarrow> (uuid \<times> uuid \<times> nat) list" where
  "eview s = map (\<lambda>e. (ev_id e, ev_conversationId e, ev_sequence e)) (events s)"

definition dview :: "store \<Rightarrow> ((uuid \<times> event_sink) \<times> instant option) list" where
  "dview s = map (\<lambda>d. (delivery_key d, dl_publishedAt d)) (deliveries s)"

lemma eview_mem:
  "(i, v, n) \<in> set (eview s) \<longleftrightarrow>
     (\<exists>e \<in> set (events s). ev_id e = i \<and> ev_conversationId e = v \<and> ev_sequence e = n)"
  unfolding eview_def set_map image_iff by (rule bex_cong [OF refl]) auto

lemma dview_keys: "fst ` set (dview s) = delivery_key ` set (deliveries s)"
  by (simp add: dview_def image_image)

lemma older_view:
  "older_queued s sink c i \<longleftrightarrow>
     (\<exists>n. (i, cd_conversationId c, n) \<in> set (eview s) \<and> n < cd_sequence c) \<and> (i, sink) \<in> fst ` set (dview s)"
  by (auto simp: older_queued_def eview_mem dview_keys)

lemma known_view: "known_event s c \<longleftrightarrow> (cd_id c, cd_conversationId c, cd_sequence c) \<in> set (eview s)"
  by (simp add: known_event_def eview_mem)

lemma published_view: "published_key s k \<longleftrightarrow> (\<forall>p. (k, p) \<in> set (dview s) \<longrightarrow> p \<noteq> None)"
  by (auto simp: published_key_def dview_def)

lemma logged_view:
  "(\<forall>d \<in> set (deliveries s). dl_publishedAt d \<noteq> None \<longrightarrow> logged l (dl_sink d) (dl_eventId d)) \<longleftrightarrow>
     (\<forall>i sink p. ((i, sink), p) \<in> set (dview s) \<longrightarrow> p \<noteq> None \<longrightarrow> logged l sink i)"
  by (fastforce simp: dview_def delivery_key_def)

lemma system_inv_views:
  "system_inv st \<longleftrightarrow>
     events_wf (sy_store st)
     \<and> (\<forall>i sink p. ((i, sink), p) \<in> set (dview (sy_store st)) \<longrightarrow> p \<noteq> None \<longrightarrow> logged (sy_log st) sink i)
     \<and> (\<forall>y \<in> set (sy_held st) \<union> set (sy_log st). known_event (sy_store st) (snd y))
     \<and> (\<forall>y \<in> set (sy_held st). \<forall>i. older_queued (sy_store st) (fst y) (snd y) i \<longrightarrow> published_key (sy_store st) (i, fst y))
     \<and> (\<forall>n < length (sy_log st). \<forall>i. older_queued (sy_store st) (fst (sy_log st ! n)) (snd (sy_log st ! n)) i \<longrightarrow>
          logged (take n (sy_log st)) (fst (sy_log st ! n)) i)"
  unfolding system_inv_def logged_view ..

text \<open>Publishing rows, and touching other columns, keeps the invariant.\<close>

lemma inv_rows:
  assumes inv: "system_inv st" and wf: "events_wf s'" and ev: "eview s' = eview (sy_store st)"
    and keys: "fst ` set (dview s') = fst ` set (dview (sy_store st))"
    and more: "\<And>k. published_key (sy_store st) k \<Longrightarrow> published_key s' k"
    and logs: "\<And>i sink p. ((i, sink), p) \<in> set (dview s') \<Longrightarrow> p \<noteq> None \<Longrightarrow>
      ((i, sink), p) \<in> set (dview (sy_store st)) \<or> logged (sy_log st) sink i"
  shows "system_inv (st\<lparr>sy_store := s'\<rparr>)"
proof -
  have o: "older_queued s' = older_queued (sy_store st)" by (intro ext) (simp add: older_view ev keys)
  have k: "known_event s' = known_event (sy_store st)" by (intro ext) (simp add: known_view ev)
  have l: "\<forall>i sink p. ((i, sink), p) \<in> set (dview s') \<longrightarrow> p \<noteq> None \<longrightarrow> logged (sy_log st) sink i"
    using logs inv unfolding system_inv_views by blast
  show ?thesis
    using inv wf more l unfolding system_inv_views by (simp add: o k)
qed

lemma eview_deliveries [simp]: "eview (s\<lparr>deliveries := ds\<rparr>) = eview s"
  by (simp add: eview_def)

lemma events_wf_deliveries:
  assumes "events_wf s" and "map delivery_key ds = map delivery_key (deliveries s)"
  shows "events_wf (s\<lparr>deliveries := ds\<rparr>)"
proof -
  have "map fst (map delivery_key ds) = map fst (map delivery_key (deliveries s))" using assms(2) by simp
  then have "dl_eventId ` set ds = dl_eventId ` set (deliveries s)"
    by (simp add: comp_def delivery_key_def) (metis list.set_map)
  then have "\<forall>d \<in> set ds. dl_eventId d \<in> ev_id ` set (events s)"
    using assms(1) unfolding events_wf_def by (metis imageE imageI)
  with assms(1) show ?thesis by (simp add: events_wf_def log_numbered_def ids_fresh_def)
qed

lemma foldl_lease_rows:
  assumes "\<And>d. g (lease_delivery tk u d) = g d"
  shows "map g (foldl (\<lambda>ds (r, _). update_where (\<lambda>d. delivery_key d = delivery_key r) (lease_delivery tk u) ds) ds rows) = map g ds"
  by (induction rows arbitrary: ds) (simp_all add: map_update_where assms split: prod.split)

lemma inv_same_dview:
  assumes inv: "system_inv st"
    and same: "map (\<lambda>d. (delivery_key d, dl_publishedAt d)) ds = map (\<lambda>d. (delivery_key d, dl_publishedAt d)) (deliveries (sy_store st))"
  shows "system_inv (st\<lparr>sy_store := (sy_store st)\<lparr>deliveries := ds\<rparr>\<rparr>)"
proof -
  have d: "dview ((sy_store st)\<lparr>deliveries := ds\<rparr>) = dview (sy_store st)" using same by (simp add: dview_def)
  have "map fst (map (\<lambda>d. (delivery_key d, dl_publishedAt d)) ds) =
      map fst (map (\<lambda>d. (delivery_key d, dl_publishedAt d)) (deliveries (sy_store st)))" using same by simp
  then have keys: "map delivery_key ds = map delivery_key (deliveries (sy_store st))" by (simp add: comp_def)
  have "events_wf (sy_store st)" using inv by (simp add: system_inv_def)
  from events_wf_deliveries [OF this keys] show ?thesis
    by (intro inv_rows [OF inv]) (simp_all add: d published_view)
qed

lemma claimable_rowD:
  assumes "(d, e) \<in> set (claimable_rows sink now locked s)"
  shows "d \<in> set (deliveries s)" "e \<in> set (events s)" "ev_id e = dl_eventId d" "dl_sink d = sink"
    "\<not> blocked_by_older s d e" "dl_publishedAt d = None" "delivery_ready now d"
proof -
  have "(d, e) \<in> set (List.map_filter (with_event s) (deliveries s))" "dl_sink d = sink" "\<not> blocked_by_older s d e"
    "dl_publishedAt d = None" "delivery_ready now d"
    using in_set_takeD [OF assms [unfolded claimable_rows_def]] by auto
  then show "d \<in> set (deliveries s)" "e \<in> set (events s)" "ev_id e = dl_eventId d" "dl_sink d = sink"
    "\<not> blocked_by_older s d e" "dl_publishedAt d = None" "delivery_ready now d"
    using find_by_SomeD by (fastforce simp: List.map_filter_def with_event_def split: option.splits)+
qed

text \<open>What a claim hands out is next in line: everything older for the sink is published.\<close>

lemma claimed_in_order:
  assumes "claimDeliveries token now locked sink s = (Inr ds, s')" and "c \<in> set ds"
  shows "known_event s c" "older_queued s sink c i \<Longrightarrow> published_key s (i, sink)"
proof -
  obtain d e where row: "(d, e) \<in> set (claimable_rows sink now locked s)" and c: "c = claimed_of token (d, e)"
    using assms by (auto simp: claimDeliveries_def Let_def)
  note r = claimable_rowD [OF row]
  show "known_event s c"
    using r(2,3) unfolding known_event_def c by (intro bexI [of _ e]) (simp_all add: claimed_of_def)
  assume o: "older_queued s sink c i"
  then obtain e' where e': "e' \<in> set (events s)" "ev_id e' = i" "ev_conversationId e' = ev_conversationId e"
    "ev_sequence e' < ev_sequence e"
    by (auto simp: older_queued_def c claimed_of_def)
  have "dl_publishedAt d' \<noteq> None" if d': "d' \<in> set (deliveries s)" "delivery_key d' = (i, sink)" for d'
  proof
    assume n: "dl_publishedAt d' = None"
    have "dl_eventId d' = i" "dl_sink d' = sink" using d'(2) by (simp_all add: delivery_key_def)
    then have "blocked_by_older s d e"
      unfolding blocked_by_older_def using d'(1) e' n r(4)
      by (intro bexI [of _ d'] bexI [of _ e']) simp_all
    with r(5) show False by contradiction
  qed
  then show "published_key s (i, sink)" unfolding published_key_def by blast
qed

lemma inv_claim:
  assumes inv: "system_inv st" and run: "claimDeliveries token now locked sink (sy_store st) = (Inr ds, s')"
  shows "system_inv (st\<lparr>sy_store := s', sy_held := sy_held st @ map (\<lambda>d. (sink, d)) ds\<rparr>)"
proof -
  let ?st1 = "st\<lparr>sy_held := sy_held st @ map (\<lambda>d. (sink, d)) ds\<rparr>"
  note c = claimed_in_order [OF run]
  have "system_inv ?st1"
  proof -
    have h: "\<forall>y \<in> set (sy_held st) \<union> set (sy_log st). known_event (sy_store st) (snd y)"
      "\<forall>y \<in> set (sy_held st). \<forall>i. older_queued (sy_store st) (fst y) (snd y) i \<longrightarrow> published_key (sy_store st) (i, fst y)"
      using inv unfolding system_inv_def by blast+
    have "\<forall>y \<in> set (sy_held ?st1) \<union> set (sy_log ?st1). known_event (sy_store st) (snd y)"
      using h(1) c(1) by (simp add: ball_Un)
    moreover have "\<forall>y \<in> set (sy_held ?st1). \<forall>i. older_queued (sy_store st) (fst y) (snd y) i \<longrightarrow> published_key (sy_store st) (i, fst y)"
      using h(2) c(2) by (simp add: ball_Un)
    ultimately show ?thesis using inv unfolding system_inv_def by simp
  qed
  then have "system_inv (?st1\<lparr>sy_store := (sy_store ?st1)\<lparr>deliveries := foldl (\<lambda>ds (r, _).
      update_where (\<lambda>d. delivery_key d = delivery_key r) (lease_delivery token (now + LEASE_MS)) ds)
      (deliveries (sy_store st)) (claimable_rows sink now locked (sy_store st))\<rparr>\<rparr>)"
    by (rule inv_same_dview) (rule trans [OF foldl_lease_rows], simp_all)
  moreover have "s' = lease_rows token (now + LEASE_MS) (claimable_rows sink now locked (sy_store st)) (sy_store st)"
    using run by (simp add: claimDeliveries_def Let_def)
  moreover have "st\<lparr>sy_store := x, sy_held := y\<rparr> = st\<lparr>sy_held := y\<rparr>\<lparr>sy_store := x\<rparr>" for x y
    by (cases st) simp
  moreover have "sy_store ?st1 = sy_store st" by simp
  ultimately show ?thesis by (simp only: lease_rows_def)
qed

lemma logged_more: "logged l k i \<Longrightarrow> logged (l @ x) k i"
  by (auto simp: logged_def)

lemma inv_publish:
  assumes inv: "system_inv st" and held: "(sink, d) \<in> set (sy_held st)"
  shows "system_inv (st\<lparr>sy_log := sy_log st @ [(sink, d)]\<rparr>)"
proof -
  note D = system_invD [OF inv]
  have new: "logged (sy_log st) sink i" if o: "older_queued (sy_store st) sink d i" for i
  proof -
    obtain r where r: "r \<in> set (deliveries (sy_store st))" "delivery_key r = (i, sink)"
      using o unfolding older_queued_def by (metis imageE)
    have "dl_publishedAt r \<noteq> None" using D(4) [OF held o] r unfolding published_key_def by blast
    from D(2) [OF r(1) this] show ?thesis using r(2) by (simp add: delivery_key_def)
  qed
  have at: "logged (take n (sy_log st @ [(sink, d)])) (fst ((sy_log st @ [(sink, d)]) ! n)) i"
    if n: "n < Suc (length (sy_log st))"
      and o: "older_queued (sy_store st) (fst ((sy_log st @ [(sink, d)]) ! n)) (snd ((sy_log st @ [(sink, d)]) ! n)) i"
    for n i
  proof (cases "n = length (sy_log st)")
    case True
    with o new show ?thesis by simp
  next
    case False
    then have m: "n < length (sy_log st)" using n by simp
    with o have "older_queued (sy_store st) (fst (sy_log st ! n)) (snd (sy_log st ! n)) i" by (simp add: nth_append)
    from D(5) [OF m this] m show ?thesis by (simp add: nth_append)
  qed
  show ?thesis
  proof (rule system_invI)
    show "events_wf (sy_store (st\<lparr>sy_log := sy_log st @ [(sink, d)]\<rparr>))" using D(1) by simp
    fix r assume "r \<in> set (deliveries (sy_store (st\<lparr>sy_log := sy_log st @ [(sink, d)]\<rparr>)))" "dl_publishedAt r \<noteq> None"
    then show "logged (sy_log (st\<lparr>sy_log := sy_log st @ [(sink, d)]\<rparr>)) (dl_sink r) (dl_eventId r)"
      using D(2) logged_more by simp
  next
    fix k c assume "(k, c) \<in> set (sy_held (st\<lparr>sy_log := sy_log st @ [(sink, d)]\<rparr>)) \<union> set (sy_log (st\<lparr>sy_log := sy_log st @ [(sink, d)]\<rparr>))"
    then have "(k, c) \<in> set (sy_held st) \<union> set (sy_log st)" using held by auto
    from D(3) [OF this] show "known_event (sy_store (st\<lparr>sy_log := sy_log st @ [(sink, d)]\<rparr>)) c" by simp
  next
    fix k c i assume "(k, c) \<in> set (sy_held (st\<lparr>sy_log := sy_log st @ [(sink, d)]\<rparr>))"
      "older_queued (sy_store (st\<lparr>sy_log := sy_log st @ [(sink, d)]\<rparr>)) k c i"
    then show "published_key (sy_store (st\<lparr>sy_log := sy_log st @ [(sink, d)]\<rparr>)) (i, k)" using D(4) [of k c i] by simp
  qed (use at in simp)
qed

lemma inv_retry:
  assumes inv: "system_inv st" and run: "retryDelivery now sink d e (sy_store st) = (Inr (), s')"
  shows "system_inv (st\<lparr>sy_store := s'\<rparr>)"
proof -
  obtain n x where s': "s' = (sy_store st)\<lparr>deliveries :=
      update_where (delivery_owned (cd_id d, sink) (cd_leaseToken d)) (retry_row n x) (deliveries (sy_store st))\<rparr>"
    using run unfolding retryDelivery_def io_modify_def by blast
  show ?thesis
    unfolding s' by (rule inv_same_dview [OF inv]) (simp add: map_update_where retry_row_def delivery_key_def)
qed

lemma inv_acknowledge:
  assumes inv: "system_inv st" and sent: "(sink, d) \<in> set (sy_log st)"
    and run: "acknowledgeDelivery now sink d (sy_store st) = (Inr (), s')"
  shows "system_inv (st\<lparr>sy_store := s'\<rparr>)"
proof -
  let ?own = "delivery_owned (cd_id d, sink) (cd_leaseToken d)"
  let ?ds = "update_where ?own (publish_row now) (deliveries (sy_store st))"
  have s': "s' = (sy_store st)\<lparr>deliveries := ?ds\<rparr>" using run by (simp add: acknowledgeDelivery_def)
  have key [simp]: "delivery_key (publish_row now r) = delivery_key r" "dl_publishedAt (publish_row now r) = Some now" for r
    by (simp_all add: publish_row_def delivery_key_def)
  have keys: "map delivery_key ?ds = map delivery_key (deliveries (sy_store st))" by (simp add: map_update_where)
  show ?thesis
  proof (rule inv_rows [OF inv])
    have "events_wf (sy_store st)" using inv by (simp add: system_inv_def)
    then show "events_wf s'" unfolding s' using keys by (rule events_wf_deliveries)
    show "eview s' = eview (sy_store st)" by (simp add: s')
    show "fst ` set (dview s') = fst ` set (dview (sy_store st))"
      using arg_cong [OF keys, of set] by (simp add: dview_keys s')
    show "published_key s' k" if "published_key (sy_store st) k" for k
      using that by (auto simp: published_key_def s' set_update_where)
    fix i k p assume "((i, k), p) \<in> set (dview s')" and p: "p \<noteq> None"
    then obtain r where r: "r \<in> set (deliveries (sy_store st))"
      and v: "((i, k), p) = (delivery_key (if ?own r then publish_row now r else r), dl_publishedAt (if ?own r then publish_row now r else r))"
      by (auto simp: dview_def s' set_update_where)
    show "((i, k), p) \<in> set (dview (sy_store st)) \<or> logged (sy_log st) k i"
    proof (cases "?own r")
      case True
      then have "delivery_key r = (cd_id d, sink)" by (simp add: delivery_owned_def)
      with v True have "i = cd_id d" "k = sink" by simp_all
      with sent show ?thesis by (auto simp: logged_def)
    next
      case False
      with v r have "((i, k), p) \<in> set (dview (sy_store st))" by (simp add: dview_def)
      then show ?thesis ..
    qed
  qed
qed

text \<open>Appending: the new event is the last of its conversation, so it is older than none, and its
  deliveries are unpublished.\<close>

lemma appended_views:
  assumes "events_wf s" and "find_by cv_id (ei_conversationId input) (conversations s) = Some c"
  shows "eview (appended input c sinks s) = eview s @ [(id_source s (id_count s), cv_id c, Suc (cv_eventSequence c))]"
    and "dview (appended input c sinks s) = dview s @ map (\<lambda>k. ((id_source s (id_count s), k), None)) sinks"
    and "\<And>v n. (id_source s (id_count s), v, n) \<notin> set (eview s)"
    and "\<And>i n. (i, cv_id c, n) \<in> set (eview s) \<Longrightarrow> n \<le> cv_eventSequence c"
    and "events_wf (appended input c sinks s)"
proof -
  have c: "c \<in> set (conversations s)" using find_by_SomeD [OF assms(2)] by simp
  have wf: "log_numbered s" "distinct (map ev_id (events s))" "ids_fresh s (ev_id ` set (events s))"
    "\<forall>d \<in> set (deliveries s). dl_eventId d \<in> ev_id ` set (events s)"
    using assms(1) by (simp_all add: events_wf_def)
  have new: "id_source s (id_count s) \<notin> ev_id ` set (events s)" using wf(3) by (simp add: ids_fresh_def)
  show "eview (appended input c sinks s) = eview s @ [(id_source s (id_count s), cv_id c, Suc (cv_eventSequence c))]"
    by (simp add: appended_def Let_def eview_def map_update_where)
  show "dview (appended input c sinks s) = dview s @ map (\<lambda>k. ((id_source s (id_count s), k), None)) sinks"
    by (simp add: appended_def Let_def dview_def new_delivery_def delivery_key_def comp_def)
  show "(id_source s (id_count s), v, n) \<notin> set (eview s)" for v n using new by (force simp: eview_mem)
  show "n \<le> cv_eventSequence c" if "(i, cv_id c, n) \<in> set (eview s)" for i n
    using that log_numbered_fresh_number [OF wf(1) c] by (auto simp: eview_mem)
  have ids: "map ev_id (events (appended input c sinks s)) = map ev_id (events s) @ [id_source s (id_count s)]"
    by (simp add: appended_def Let_def map_update_where)
  have idset: "ev_id ` set (events (appended input c sinks s)) = insert (id_source s (id_count s)) (ev_id ` set (events s))"
    using arg_cong [OF ids, of set] by simp
  have count: "id_source (appended input c sinks s) = id_source s" "id_count (appended input c sinks s) = Suc (id_count s)"
    "deliveries (appended input c sinks s) = deliveries s @ map (new_delivery (db_now s) (id_source s (id_count s))) sinks"
    by (simp_all add: appended_def Let_def)
  show "events_wf (appended input c sinks s)"
    unfolding events_wf_def
  proof (intro conjI)
    show "log_numbered (appended input c sinks s)" by (rule log_numbered_appended [OF wf(1) assms(2)])
    show "distinct (map ev_id (events (appended input c sinks s)))" using wf(2) new by (simp add: ids)
    have "id_source s n \<noteq> id_source s (id_count s)" if "Suc (id_count s) \<le> n" for n
      using wf(3) that by (auto simp: ids_fresh_def dest: injD)
    then show "ids_fresh (appended input c sinks s) (ev_id ` set (events (appended input c sinks s)))"
      using wf(3) unfolding idset by (simp add: ids_fresh_def count)
    show "\<forall>d \<in> set (deliveries (appended input c sinks s)). dl_eventId d \<in> ev_id ` set (events (appended input c sinks s))"
      unfolding idset count using wf(4) by (auto simp: new_delivery_def)
  qed
qed

lemma inv_appended:
  assumes inv: "system_inv st" and found: "find_by cv_id (ei_conversationId input) (conversations (sy_store st)) = Some c"
  shows "system_inv (st\<lparr>sy_store := appended input c sinks (sy_store st)\<rparr>)"
proof -
  note D = system_invD [OF inv]
  note V = appended_views [OF D(1) found]
  let ?s = "sy_store st" and ?t = "appended input c sinks (sy_store st)"
  have known: "known_event ?t x" if "known_event ?s x" for x
    using that by (simp add: known_view V(1))
  have older: "older_queued ?s k x i \<and> i \<noteq> id_source ?s (id_count ?s)"
    if x: "known_event ?s x" and o: "older_queued ?t k x i" for k x i
  proof -
    from o obtain n where n: "(i, cd_conversationId x, n) \<in> set (eview ?t)" "n < cd_sequence x"
      and q: "(i, k) \<in> fst ` set (dview ?t)"
      by (auto simp: older_view)
    have old: "(i, cd_conversationId x, n) \<in> set (eview ?s)"
    proof (rule ccontr)
      assume "\<not> ?thesis"
      then have v: "cd_conversationId x = cv_id c" "n = Suc (cv_eventSequence c)" using n(1) by (simp_all add: V(1))
      then have "cd_sequence x \<le> cv_eventSequence c" using x V(4) [of "cd_id x"] by (simp add: known_view)
      with v n(2) show False by simp
    qed
    then have i: "i \<noteq> id_source ?s (id_count ?s)" using V(3) by blast
    with q have "(i, k) \<in> fst ` set (dview ?s)" unfolding V(2) by auto
    with old n(2) i show ?thesis by (auto simp: older_view)
  qed
  have pub: "published_key ?t (i, k)" if "published_key ?s (i, k)" "i \<noteq> id_source ?s (id_count ?s)" for i k
    using that by (auto simp: published_view V(2))
  show ?thesis
  proof (rule system_invI)
    show "events_wf (sy_store (st\<lparr>sy_store := ?t\<rparr>))" using V(5) by simp
    fix r assume r: "r \<in> set (deliveries (sy_store (st\<lparr>sy_store := ?t\<rparr>)))" "dl_publishedAt r \<noteq> None"
    then have "r \<in> set (deliveries ?s)" by (auto simp: appended_def Let_def new_delivery_def)
    then show "logged (sy_log (st\<lparr>sy_store := ?t\<rparr>)) (dl_sink r) (dl_eventId r)" using D(2) r(2) by simp
  next
    fix k x i assume "(k, x) \<in> set (sy_held (st\<lparr>sy_store := ?t\<rparr>))" "older_queued (sy_store (st\<lparr>sy_store := ?t\<rparr>)) k x i"
    then have h: "(k, x) \<in> set (sy_held st)" and o: "older_queued ?t k x i" by simp_all
    have "known_event ?s x" using D(3) [of k x] h by blast
    from older [OF this o] D(4) [OF h] show "published_key (sy_store (st\<lparr>sy_store := ?t\<rparr>)) (i, k)" using pub by simp
  next
    fix n i assume "n < length (sy_log (st\<lparr>sy_store := ?t\<rparr>))"
      "older_queued (sy_store (st\<lparr>sy_store := ?t\<rparr>)) (fst (sy_log (st\<lparr>sy_store := ?t\<rparr>) ! n)) (snd (sy_log (st\<lparr>sy_store := ?t\<rparr>) ! n)) i"
    then have n: "n < length (sy_log st)" and o: "older_queued ?t (fst (sy_log st ! n)) (snd (sy_log st ! n)) i" by simp_all
    have "known_event ?s (snd (sy_log st ! n))" using D(3) [of "fst (sy_log st ! n)" "snd (sy_log st ! n)"] n by simp
    from older [OF this o] D(5) [OF n]
    show "logged (take n (sy_log (st\<lparr>sy_store := ?t\<rparr>))) (fst (sy_log (st\<lparr>sy_store := ?t\<rparr>) ! n)) i" by simp
  qed (use D(3) known in auto)
qed

lemma inv_append:
  assumes inv: "system_inv st" and run: "appendConversationEvent env input (sy_store st) = (r, s')"
  shows "system_inv (st\<lparr>sy_store := s'\<rparr>)"
proof -
  have log: "log_numbered (sy_store st)" using system_invD(1) [OF inv] by (simp add: events_wf_def)
  have "s' = sy_store st \<or> (\<exists>c sinks. find_by cv_id (ei_conversationId input) (conversations (sy_store st)) = Some c
      \<and> s' = appended input c sinks (sy_store st))"
  proof (cases "getEnabledConversationEventSinks env")
    case (Inl e)
    then show ?thesis using run by (simp add: appendConversationEvent_def)
  next
    case (Inr sinks)
    show ?thesis
    proof (cases "sinks = [] \<or> find_by cv_id (ei_conversationId input) (conversations (sy_store st)) = None")
      case True
      then show ?thesis
        using run Inr appendConversationEvent_missing [OF Inr, of input "sy_store st"]
        by (cases "sinks = []") (simp_all add: appendConversationEvent_off)
    next
      case False
      then show ?thesis using run appendConversationEvent_on [OF Inr _ log] by auto
    qed
  qed
  then show ?thesis
  proof
    assume "s' = sy_store st"
    then show ?thesis using inv by simp
  next
    assume "\<exists>c sinks. find_by cv_id (ei_conversationId input) (conversations (sy_store st)) = Some c
      \<and> s' = appended input c sinks (sy_store st)"
    then show ?thesis using inv_appended [OF inv] by blast
  qed
qed

text \<open>So the invariant holds in every state the system can reach.\<close>

lemma inv_step: "system_step st st' \<Longrightarrow> system_inv st \<Longrightarrow> system_inv st'"
  by (erule system_stepE) (simp_all add: inv_append inv_claim inv_publish inv_retry inv_acknowledge)

lemma inv_start: "system_start st \<Longrightarrow> system_inv st"
  by (rule system_invI) (simp_all add: system_start_def)

lemma inv_reachable: "system_step\<^sup>*\<^sup>* st st' \<Longrightarrow> system_start st \<Longrightarrow> system_inv st'"
  by (induction rule: rtranclp_induct) (simp_all add: inv_start inv_step)

section \<open>Properties\<close>

definition nobody_locks :: "uuid \<Rightarrow> bool" where "nobody_locks i = False"

definition demo_input :: event_input where
  "demo_input = plain_event ''c1'' STATE_CHANGED 5 ServiceActor ''x''"

definition demo_claim :: "uuid \<Rightarrow> instant \<Rightarrow> store \<Rightarrow> claimed_delivery list" where
  "demo_claim token now s = map (claimed_of token) (claimable_rows NATS now nobody_locks s)"

definition demo_queued :: store where
  "demo_queued = snd (appendConversationEvent nats_on demo_input (snd (appendConversationEvent nats_on demo_input sample_log)))"

definition demo_leased :: store where
  "demo_leased = lease_rows ''t1'' (10 + LEASE_MS) (claimable_rows NATS 10 nobody_locks demo_queued) demo_queued"

definition demo_acked :: store where
  "demo_acked = snd (acknowledgeDelivery 20 NATS (hd (demo_claim ''t1'' 10 demo_queued)) demo_leased)"

definition demo_start :: event_system where
  "demo_start = \<lparr>sy_store = sample_log, sy_held = [], sy_log = []\<rparr>"

definition demo_first :: "event_sink \<times> claimed_delivery" where
  "demo_first = (NATS, hd (demo_claim ''t1'' 10 demo_queued))"

definition demo_second :: "event_sink \<times> claimed_delivery" where
  "demo_second = (NATS, hd (demo_claim ''t2'' 30 demo_acked))"

definition demo_final :: event_system where
  "demo_final = \<lparr>sy_store = lease_rows ''t2'' (30 + LEASE_MS) (claimable_rows NATS 30 nobody_locks demo_acked) demo_acked,
     sy_held = map (\<lambda>d. (NATS, d)) (demo_claim ''t1'' 10 demo_queued) @ map (\<lambda>d. (NATS, d)) (demo_claim ''t2'' 30 demo_acked),
     sy_log = [demo_first, demo_second]\<rparr>"

lemma demo_final_rows:
  "events (sy_store demo_final) = events demo_acked"
  "map delivery_key (deliveries (sy_store demo_final)) = map delivery_key (deliveries demo_acked)"
  "map dl_publishedAt (deliveries (sy_store demo_final)) = map dl_publishedAt (deliveries demo_acked)"
  by (simp_all add: demo_final_def lease_rows_def foldl_lease_rows)

lemma demo_final_log: "sy_log demo_final = [demo_first, demo_second]" "fst demo_second = NATS"
  by (simp_all add: demo_final_def demo_second_def)

lemma demo_values:
  "(let s = demo_acked; c1 = demo_claim ''t1'' 10 demo_queued; c2 = demo_claim ''t2'' 30 s
    in (c1 \<noteq> [], map (\<lambda>d. (cd_sequence d, cd_conversationId d)) c2, map (\<lambda>e. (ev_sequence e, ev_conversationId e)) (events s),
        map delivery_key (deliveries s) = map (\<lambda>e. (ev_id e, NATS)) (events s), map dl_publishedAt (deliveries s)))
   = (True, [(2, ''c1'')], [(1, ''c1''), (2, ''c1'')], True, [Some 20, None])"
  by code_simp

lemma demo_parts:
  "demo_claim ''t1'' 10 demo_queued \<noteq> []"
  "map (\<lambda>d. (cd_sequence d, cd_conversationId d)) (demo_claim ''t2'' 30 demo_acked) = [(2, ''c1'')]"
  "map (\<lambda>e. (ev_sequence e, ev_conversationId e)) (events demo_acked) = [(1, ''c1''), (2, ''c1'')]"
  "map delivery_key (deliveries demo_acked) = map (\<lambda>e. (ev_id e, NATS)) (events demo_acked)"
  "map dl_publishedAt (deliveries demo_acked) = [Some 20, None]"
  using demo_values by (simp_all add: Let_def)

lemma demo_first_claim: "demo_claim ''t1'' 10 demo_queued \<noteq> []" by (rule demo_parts(1))
lemma demo_second_claim: "demo_claim ''t2'' 30 demo_acked \<noteq> []" using demo_parts(2) by auto
lemma demo_numbers: "map ev_sequence (events demo_acked) = [1, 2]" using demo_parts(3) by auto
lemma demo_conversations: "map ev_conversationId (events demo_acked) = [''c1'', ''c1'']" using demo_parts(3) by auto
lemma demo_second_number: "cd_sequence (snd demo_second) = 2" using demo_parts(2) by (auto simp: demo_second_def)
lemma demo_second_conversation: "cd_conversationId (snd demo_second) = ''c1''" using demo_parts(2) by (auto simp: demo_second_def)
lemma demo_keys: "map delivery_key (deliveries demo_acked) = map (\<lambda>e. (ev_id e, NATS)) (events demo_acked)" by (rule demo_parts(4))
lemma demo_published: "map dl_publishedAt (deliveries demo_acked) = [Some 20, None]" by (rule demo_parts(5))

lemmas demo_facts = demo_first_claim demo_second_claim demo_numbers demo_conversations demo_second_number demo_second_conversation demo_keys demo_published

lemma demo_reachable: "system_step\<^sup>*\<^sup>* demo_start demo_final"
proof -
  define x where "x = snd (appendConversationEvent nats_on demo_input sample_log)"
  let ?c1 = "demo_claim ''t1'' 10 demo_queued" and ?c2 = "demo_claim ''t2'' 30 demo_acked"
  let ?h1 = "map (\<lambda>d. (NATS, d)) ?c1" and ?h2 = "map (\<lambda>d. (NATS, d)) ?c2"
  let ?u = "\<lparr>sy_store = demo_queued, sy_held = [], sy_log = []\<rparr>"
  let ?v = "\<lparr>sy_store = demo_leased, sy_held = ?h1, sy_log = []\<rparr>"
  let ?w = "\<lparr>sy_store = demo_leased, sy_held = ?h1, sy_log = [demo_first]\<rparr>"
  let ?y = "\<lparr>sy_store = demo_acked, sy_held = ?h1, sy_log = [demo_first]\<rparr>"
  let ?z = "demo_final\<lparr>sy_log := [demo_first]\<rparr>"
  have "system_step\<^sup>*\<^sup>* demo_start demo_start" by simp
  also have "system_step demo_start \<lparr>sy_store = x, sy_held = [], sy_log = []\<rparr>"
    using system_step.append [of nats_on demo_input demo_start "fst (appendConversationEvent nats_on demo_input sample_log)" x]
    by (simp add: demo_start_def x_def)
  also have "system_step \<dots> ?u"
    using system_step.append [of nats_on demo_input "\<lparr>sy_store = x, sy_held = [], sy_log = []\<rparr>"
        "fst (appendConversationEvent nats_on demo_input x)" demo_queued]
    by (simp add: demo_queued_def x_def)
  also have "system_step \<dots> ?v"
    using system_step.claim [of "''t1''" 10 nobody_locks NATS ?u ?c1 demo_leased]
    by (simp add: claimDeliveries_def Let_def demo_claim_def demo_leased_def)
  also have "system_step \<dots> ?w"
    using system_step.publish [of NATS "hd ?c1" ?v] demo_facts(1) by (simp add: demo_first_def)
  also have "system_step \<dots> ?y"
    using system_step.acknowledge [of NATS "hd ?c1" ?w 20 demo_acked] demo_facts(1)
    by (simp add: demo_first_def demo_acked_def acknowledgeDelivery_def)
  also have "system_step \<dots> ?z"
    using system_step.claim [of "''t2''" 30 nobody_locks NATS ?y ?c2 "sy_store demo_final"]
    by (simp add: claimDeliveries_def Let_def demo_claim_def demo_final_def)
  also have "system_step \<dots> demo_final"
    using system_step.publish [of NATS "hd ?c2" ?z] demo_facts(2)
    by (simp add: demo_second_def demo_final_def)
  finally show ?thesis .
qed

lemma demo_starts: "system_start demo_start"
proof -
  have "events sample_log = []" "deliveries sample_log = []" "id_source sample_log = id_source empty_store"
    by (simp_all add: sample_log_def empty_store_def)
  then show ?thesis
    using sample_log_numbered empty_store_ids by (simp add: system_start_def demo_start_def events_wf_def ids_fresh_def)
qed



text \<open>Delivery is at least once: a row is marked published only after the broker received the event,
  in every state the system can reach.\<close>

theorem published_events_were_sent:
  assumes "system_start st0" and "system_step\<^sup>*\<^sup>* st0 st"
    and "d \<in> set (deliveries (sy_store st))" and "dl_publishedAt d = Some t"
  shows "\<exists>c e. (dl_sink d, c) \<in> set (sy_log st) \<and> cd_id c = dl_eventId d
    \<and> e \<in> set (events (sy_store st)) \<and> ev_id e = dl_eventId d \<and> ev_sequence e = cd_sequence c"
proof -
  note D = system_invD [OF inv_reachable [OF assms(2,1)]]
  obtain c where c: "(dl_sink d, c) \<in> set (sy_log st)" "cd_id c = dl_eventId d"
    using D(2) [OF assms(3)] assms(4) by (auto simp: logged_def)
  then have "known_event (sy_store st) c" using D(3) by blast
  with c show ?thesis unfolding known_event_def by metis
qed

theorem published_events_were_sent_witness:
  "\<exists>c e. (NATS, c) \<in> set (sy_log demo_final) \<and> e \<in> set (events (sy_store demo_final)) \<and> ev_id e = cd_id c"
proof -
  obtain a b where ab: "deliveries (sy_store demo_final) = [a, b]" "dl_publishedAt a = Some 20"
    using demo_facts(8) demo_final_rows(3) by (auto simp: map_eq_Cons_conv)
  from published_events_were_sent [OF demo_starts demo_reachable, of a 20] ab
  obtain c e where "(dl_sink a, c) \<in> set (sy_log demo_final)" "cd_id c = dl_eventId a"
    "e \<in> set (events (sy_store demo_final))" "ev_id e = dl_eventId a"
    by auto
  moreover have "dl_sink a = NATS" by (cases "dl_sink a")
  ultimately show ?thesis by metis
qed

text \<open>What one worker has claimed no other worker claims before the lease ends, so two workers do not
  publish the same delivery at the same time unless the first outlives its lease.\<close>

theorem claimed_delivery_not_claimed_again:
  assumes "claimDeliveries token now locked sink s = (Inr ds, s')" and "c \<in> set ds"
    and "now' < now + LEASE_MS" and "claimDeliveries token' now' locked' sink s' = (Inr ds', s'')"
  shows "cd_id c \<notin> set (map cd_id ds')"
proof
  let ?rows = "claimable_rows sink now locked s"
  have s': "deliveries s' = foldl (\<lambda>ds (r, _). update_where (\<lambda>d. delivery_key d = delivery_key r) (lease_delivery token (now + LEASE_MS)) ds)
      (deliveries s) ?rows"
    using assms(1) by (auto simp: claimDeliveries_def lease_rows_def Let_def)
  have busy: "\<not> delivery_ready now' d"
    if "d \<in> set (foldl (\<lambda>ds (r, _). update_where (\<lambda>d. delivery_key d = delivery_key r) (lease_delivery token (now + LEASE_MS)) ds) ds rows)"
      "delivery_key d \<in> (\<lambda>(r, _). delivery_key r) ` set rows" for d ds rows
    using that
  proof (induction rows rule: rev_induct)
    case (snoc x rows)
    then show ?case
      using delivery_lease.acquire_busy [OF assms(3)]
      by (auto simp: set_update_where case_prod_beta split: if_splits)
  qed simp
  assume "cd_id c \<in> set (map cd_id ds')"
  then obtain d e where d: "(d, e) \<in> set (claimable_rows sink now' locked' s')" "dl_eventId d = cd_id c"
    using assms(4) by (auto simp: claimDeliveries_def claimed_of_def Let_def)
  obtain r f where r: "(r, f) \<in> set ?rows" "dl_eventId r = cd_id c"
    using assms(1,2) by (auto simp: claimDeliveries_def claimed_of_def Let_def)
  have "delivery_key d = delivery_key r"
    using d(2) r(2) claimable_rowD(4) [OF d(1)] claimable_rowD(4) [OF r(1)] by (simp add: delivery_key_def)
  then have "delivery_key d \<in> (\<lambda>(r, _). delivery_key r) ` set ?rows" using r(1) by force
  with busy claimable_rowD(1,7) [OF d(1)] s' show False by metis
qed

theorem claimed_delivery_not_claimed_again_witness:
  "cd_id (hd (demo_claim ''t1'' 10 demo_queued)) \<notin> set (map cd_id (demo_claim ''t2'' 30 demo_leased))"
proof (rule claimed_delivery_not_claimed_again)
  show "claimDeliveries ''t1'' 10 nobody_locks NATS demo_queued = (Inr (demo_claim ''t1'' 10 demo_queued), demo_leased)"
    by (simp add: claimDeliveries_def Let_def demo_claim_def demo_leased_def)
  show "hd (demo_claim ''t1'' 10 demo_queued) \<in> set (demo_claim ''t1'' 10 demo_queued)" using demo_facts(1) by simp
  show "claimDeliveries ''t2'' 30 nobody_locks NATS demo_leased = (Inr (demo_claim ''t2'' 30 demo_leased),
      snd (claimDeliveries ''t2'' 30 nobody_locks NATS demo_leased))"
    by (simp add: claimDeliveries_def Let_def demo_claim_def)
qed (simp add: LEASE_MS_def)

end
