(* ===== verification/Send_Validation.thy ===== *)
theory Send_Validation
  imports Routing Attachments Provider_Errors
begin

text \<open>
  \<open>src/lib/send-validation.ts\<close> with the predicates of \<open>src/lib/api.ts\<close> it uses: what a request body must
  look like, and the input it is normalized to. A body is a \<open>json\<close> value, a member that is absent
  (\<open>undefined\<close>) is \<open>None\<close>; a validator returns the error message or the input.
\<close>

section \<open>Predicates on values\<close>

definition isRecord :: "json option \<Rightarrow> bool" where
  "isRecord v = (case v of Some (JObject _) \<Rightarrow> True | _ \<Rightarrow> False)"

definition member_of :: "json option \<Rightarrow> string \<Rightarrow> json option" where
  \<comment> \<open>\<open>v.name\<close> of a record\<close>
  "member_of v name = (case v of Some (JObject members) \<Rightarrow> json_member members name | _ \<Rightarrow> None)"

definition MAX_TITLE_LENGTH :: nat where "MAX_TITLE_LENGTH = 255"
definition MAX_SUBJECT_LENGTH :: nat where "MAX_SUBJECT_LENGTH = 255"
definition MAX_NAME_LENGTH :: nat where "MAX_NAME_LENGTH = 256"
definition MAX_BODY_LENGTH :: int where "MAX_BODY_LENGTH = 1048576"

definition containsControlCharacter :: "string \<Rightarrow> bool" where
  "containsControlCharacter s \<longleftrightarrow>
     list_ex (\<lambda>c. (of_char c :: nat) < 0x20 \<or> (of_char c :: nat) = 0x7F) s"

definition header_text :: "json option \<Rightarrow> nat \<Rightarrow> string option" where
  \<comment> \<open>\<open>isHeaderSafeText\<close>, a type guard: the string it narrows the value to\<close>
  "header_text v maxLength =
     (case json_string v of
        Some s \<Rightarrow> if length s \<le> maxLength \<and> \<not> containsControlCharacter s then Some s else None
      | None \<Rightarrow> None)"

definition isHeaderSafeText :: "json option \<Rightarrow> nat \<Rightarrow> bool" where
  "isHeaderSafeText v maxLength \<longleftrightarrow> header_text v maxLength \<noteq> None"

definition email_shape :: "string \<Rightarrow> bool" where
  \<comment> \<open>the pattern: one at sign, no white space, and a dot inside the domain\<close>
  "email_shape s \<longleftrightarrow>
     \<not> list_ex js_space s
     \<and> (case js_split (CHR ''@'') s of
          [local, domain] \<Rightarrow> local \<noteq> [] \<and> CHR ''.'' \<in> set (butlast (tl domain))
        | _ \<Rightarrow> False)"

definition isEmailAddress :: "json option \<Rightarrow> bool" where
  "isEmailAddress v = (case json_string v of Some s \<Rightarrow> length s \<le> 320 \<and> email_shape s | None \<Rightarrow> False)"

definition isUuid :: "string \<Rightarrow> bool" where
  \<comment> \<open>the pattern of \<open>src/lib/attachments/download.ts\<close> again\<close>
  "isUuid s = UUID_PATTERN s"

section \<open>Inputs\<close>

record identity_input =
  ii_address :: string
  ii_name :: "string option"

record tag_input =
  ti_name :: string
  ti_value :: string

record topic_input =
  tp_type :: string
  tp_externalId :: string
  tp_title :: string

record create_input =
  ci_topic :: topic_input
  ci_participant :: identity_input
  ci_subject :: "string option"
  ci_text :: "string option"
  ci_html :: "string option"
  ci_replyToName :: "string option"

record message_v2_input =
  mi_text :: "string option"
  mi_html :: "string option"
  mi_replyToMessageId :: "string option"
  mi_from :: identity_input
  mi_to :: "identity_input list option"
  mi_replyTo :: identity_input
  mi_tags :: "tag_input list option"
  mi_attachments :: "attachment_ref list option"

record create_v2_input =
  cy_topic :: topic_input
  cy_participant :: identity_input
  cy_subject :: "string option"
  cy_message :: message_v2_input

record message_input =
  mg_text :: "string option"
  mg_html :: "string option"
  mg_replyToMessageId :: "string option"
  mg_replyToName :: "string option"

record direct_email_input =
  di_from :: identity_input
  di_to :: "identity_input list"
  di_subject :: string
  di_text :: "string option"
  di_html :: "string option"
  di_tags :: "tag_input list option"
  di_attachments :: "attachment_ref list option"

definition MAX_TAG_LENGTH :: nat where "MAX_TAG_LENGTH = 256"
definition MAX_CONTENT_ID_LENGTH_V2 :: nat where "MAX_CONTENT_ID_LENGTH_V2 = 255"
definition MAX_RECIPIENTS :: nat where "MAX_RECIPIENTS = 50"
definition MAX_TAGS :: nat where "MAX_TAGS = 10"

definition or_else :: "string + 'a \<Rightarrow> ('a \<Rightarrow> string + 'b) \<Rightarrow> string + 'b" where
  \<comment> \<open>\<open>if ('error' in r) return r;\<close>\<close>
  "or_else r f = (case r of Inl e \<Rightarrow> Inl e | Inr a \<Rightarrow> f a)"

definition nullish :: "json option \<Rightarrow> bool" where
  "nullish v \<longleftrightarrow> v = None \<or> v = Some JNull"

definition angled :: "string \<Rightarrow> bool" where
  \<comment> \<open>\<open>/[<>]/\<close>\<close>
  "angled s \<longleftrightarrow> list_ex (\<lambda>c. c = CHR ''<'' \<or> c = CHR ''>'') s"

definition or_null :: "string \<Rightarrow> string option" where
  \<comment> \<open>\<open>s || null\<close>\<close>
  "or_null s = (if s = [] then None else Some s)"

section \<open>The first version's bodies\<close>

definition normalizeReplyToName :: "json option \<Rightarrow> string option option" where
  \<comment> \<open>\<open>None\<close> is \<open>undefined\<close>, the rejection; \<open>Some None\<close> is \<open>null\<close>\<close>
  "normalizeReplyToName v =
     (if nullish v then Some None
      else case header_text v MAX_NAME_LENGTH of
             None \<Rightarrow> None
           | Some s \<Rightarrow>
               (let normalized = js_trim s
                in if normalized = [] then Some None
                   else if angled normalized then None else Some (Some normalized)))"

definition topic_type_char :: "char \<Rightarrow> bool" where
  "topic_type_char c \<longleftrightarrow> is_lower_alpha c \<or> is_digit c \<or> c = CHR ''_'' \<or> c = CHR ''-''"

definition topic_type_pattern :: "string \<Rightarrow> bool" where
  "topic_type_pattern s \<longleftrightarrow>
     s \<noteq> [] \<and> is_lower_alpha (hd s) \<and> length s \<le> 64 \<and> list_all topic_type_char (tl s)"

definition valid_topic :: "json option \<Rightarrow> topic_input option" where
  \<comment> \<open>the condition on \<open>topic\<close> and the topic of the result\<close>
  "valid_topic topic =
     (case (json_string (member_of topic ''type''), json_string (member_of topic ''externalId''),
            header_text (member_of topic ''title'') MAX_TITLE_LENGTH) of
        (Some type, Some externalId, Some title) \<Rightarrow>
          if \<not> topic_type_pattern type \<or> externalId = [] \<or> 255 < length externalId \<or> js_trim title = [] then None
          else Some \<lparr>tp_type = type, tp_externalId = externalId, tp_title = js_trim title\<rparr>
      | _ \<Rightarrow> None)"

definition too_long :: "string option \<Rightarrow> bool" where
  \<comment> \<open>\<open>(s?.length ?? 0) > MAX_BODY_LENGTH\<close>\<close>
  "too_long s = (case s of None \<Rightarrow> False | Some t \<Rightarrow> MAX_BODY_LENGTH < int (length t))"

definition keep_text :: "string option \<Rightarrow> string option" where
  \<comment> \<open>\<open>...(s ? { s } : {})\<close>\<close>
  "keep_text s = (if truthy s then s else None)"

definition trimmed_string :: "json option \<Rightarrow> string option" where
  \<comment> \<open>\<open>typeof v === 'string' && v.trim() ? v.trim() : null\<close>\<close>
  "trimmed_string v = (case json_string v of None \<Rightarrow> None | Some s \<Rightarrow> or_null (js_trim s))"

definition validateCreateBody :: "json option \<Rightarrow> string + create_input" where
  "validateCreateBody v =
     (if \<not> isRecord v \<or> \<not> isRecord (member_of v ''topic'') \<or> \<not> isRecord (member_of v ''participant'')
      then Inl ''topic and participant objects are required''
      else
        (let participant = member_of v ''participant'';
             message = member_of v ''message'';
             text = json_string (member_of message ''text'');
             html = json_string (member_of message ''html'')
         in case valid_topic (member_of v ''topic'') of
              None \<Rightarrow> Inl ''topic type, externalId, and title are invalid''
            | Some topic \<Rightarrow>
                if \<not> isEmailAddress (member_of participant ''email'')
                then Inl ''participant.email must be a valid email address''
                else if \<not> nullish (member_of participant ''name'')
                  \<and> \<not> isHeaderSafeText (member_of participant ''name'') MAX_NAME_LENGTH
                then Inl ''participant.name is invalid''
                else (case normalizeReplyToName (member_of message ''replyToName'') of
                        None \<Rightarrow> Inl ''message.replyToName must be a header-safe string of at most 256 characters''
                      | Some replyToName \<Rightarrow>
                          if \<not> truthy text \<and> \<not> truthy html then Inl ''message.text or message.html is required''
                          else if too_long text \<or> too_long html
                          then Inl ''message.text and message.html are limited to 1 MiB each''
                          else if member_of v ''subject'' \<noteq> None \<and> \<not> isHeaderSafeText (member_of v ''subject'') MAX_SUBJECT_LENGTH
                          then Inl ''subject must be a header-safe string of at most 255 characters''
                          else Inr
                            \<lparr>ci_topic = topic,
                             ci_participant =
                               \<lparr>ii_address = (case json_string (member_of participant ''email'') of Some e \<Rightarrow> e | None \<Rightarrow> []),
                                ii_name = trimmed_string (member_of participant ''name'')\<rparr>,
                             ci_subject = trimmed_string (member_of v ''subject''),
                             ci_text = keep_text text, ci_html = keep_text html,
                             ci_replyToName = keep_text replyToName\<rparr>)))"

definition validateMessageBody :: "json option \<Rightarrow> string + message_input" where
  "validateMessageBody v =
     (if \<not> isRecord v then Inl ''Request body must be an object''
      else
        (let text = json_string (member_of v ''text'');
             html = json_string (member_of v ''html'')
         in case normalizeReplyToName (member_of v ''replyToName'') of
              None \<Rightarrow> Inl ''replyToName must be a header-safe string of at most 256 characters''
            | Some replyToName \<Rightarrow>
                if \<not> truthy text \<and> \<not> truthy html then Inl ''text or html is required''
                else if too_long text \<or> too_long html then Inl ''text and html are limited to 1 MiB each''
                else if member_of v ''replyToMessageId'' \<noteq> None
                  \<and> (case json_string (member_of v ''replyToMessageId'') of None \<Rightarrow> True | Some i \<Rightarrow> \<not> isUuid i)
                then Inl ''replyToMessageId must be a UUID''
                else Inr
                  \<lparr>mg_text = keep_text text, mg_html = keep_text html,
                   mg_replyToMessageId = json_string (member_of v ''replyToMessageId''),
                   mg_replyToName = keep_text replyToName\<rparr>))"

section \<open>The parts of a second version body\<close>

definition email_message :: "string \<Rightarrow> string" where
  "email_message field = field @ ''.address must be a valid email address''"

definition normalizeEmailIdentity :: "json option \<Rightarrow> string \<Rightarrow> bool \<Rightarrow> string + identity_input" where
  "normalizeEmailIdentity v field replyTo =
     (case json_string (member_of v ''address'') of
        None \<Rightarrow> Inl (email_message field)
      | Some raw \<Rightarrow>
          (let address = js_toLower (js_trim raw);
               name = member_of v ''name''
           in if \<not> isEmailAddress (Some (JString address)) \<or> replyTo \<and> \<not> isValidReplyToBaseAddress address
              then Inl (if replyTo then field @ ''.address must be an untagged Reply-To base address'' else email_message field)
              else if \<not> nullish name
                \<and> (case header_text name MAX_NAME_LENGTH of None \<Rightarrow> True | Some n \<Rightarrow> angled n)
              then Inl (field @ ''.name must be a header-safe string of at most 256 characters'')
              else Inr \<lparr>ii_address = address, ii_name = trimmed_string name\<rparr>))"

definition at_index :: "string \<Rightarrow> nat \<Rightarrow> string" where
  \<comment> \<open>\<open>`${field}[${index}]`\<close>\<close>
  "at_index field index = field @ ''['' @ digits index @ '']''"

fun normalize_each :: "bool \<Rightarrow> string \<Rightarrow> json option list \<Rightarrow> nat \<Rightarrow> string + identity_input list" where
  \<comment> \<open>the loop of \<open>normalizeEmailIdentities\<close>; the flag is \<open>Array.isArray(value)\<close>\<close>
  "normalize_each isArray field [] index = Inr []"
| "normalize_each isArray field (item # items) index =
     (case normalizeEmailIdentity item (at_index field index) False of
        Inl e \<Rightarrow> Inl (if isArray then e else email_message field)
      | Inr identity \<Rightarrow> or_else (normalize_each isArray field items (Suc index)) (\<lambda>rest. Inr (identity # rest)))"

definition normalizeEmailIdentities :: "json option \<Rightarrow> string \<Rightarrow> string + identity_input list" where
  "normalizeEmailIdentities v field =
     (let (isArray, items) = (case v of Some (JArray xs) \<Rightarrow> (True, map Some xs) | _ \<Rightarrow> (False, [v]))
      in if items = [] then Inl (field @ '' must contain at least one recipient'')
         else if MAX_RECIPIENTS < length items then Inl (field @ '' must contain at most 50 recipients'')
         else normalize_each isArray field items 0)"

definition or_undefined :: "'a list \<Rightarrow> 'a list option" where
  \<comment> \<open>\<open>xs.length ? xs : undefined\<close>\<close>
  "or_undefined xs = (if xs = [] then None else Some xs)"

definition tag_of :: "json \<Rightarrow> tag_input option" where
  "tag_of item =
     (case (header_text (member_of (Some item) ''name'') MAX_TAG_LENGTH,
            header_text (member_of (Some item) ''value'') MAX_TAG_LENGTH) of
        (Some name, Some value) \<Rightarrow>
          if js_trim name = [] \<or> js_trim value = [] then None
          else Some \<lparr>ti_name = js_trim name, ti_value = js_trim value\<rparr>
      | _ \<Rightarrow> None)"

fun tags_each :: "string \<Rightarrow> json list \<Rightarrow> nat \<Rightarrow> string + tag_input list" where
  "tags_each field [] index = Inr []"
| "tags_each field (item # items) index =
     (case tag_of item of
        None \<Rightarrow> Inl (at_index field index @ ''.name and '' @ at_index field index
          @ ''.value must be nonempty header-safe strings of at most 256 characters'')
      | Some tag \<Rightarrow> or_else (tags_each field items (Suc index)) (\<lambda>rest. Inr (tag # rest)))"

definition normalizeTags :: "json option \<Rightarrow> string \<Rightarrow> string + tag_input list option" where
  "normalizeTags v field =
     (case v of
        None \<Rightarrow> Inr None
      | Some (JArray items) \<Rightarrow>
          if MAX_TAGS < length items then Inl (field @ '' must contain at most 10 tags'')
          else or_else (tags_each field items 0) (\<lambda>tags. Inr (or_undefined tags))
      | _ \<Rightarrow> Inl (field @ '' must be an array''))"

definition content_id_rejected :: "string \<Rightarrow> bool" where
  \<comment> \<open>\<open>/[s<>]/\<close> as it is written: the letter s, not white space\<close>
  "content_id_rejected s \<longleftrightarrow> list_ex (\<lambda>c. c = CHR ''s'' \<or> c = CHR ''<'' \<or> c = CHR ''>'') s"

definition content_id_ok :: "json option \<Rightarrow> bool" where
  "content_id_ok v \<longleftrightarrow>
     v = None
     \<or> (case header_text v MAX_CONTENT_ID_LENGTH_V2 of
          None \<Rightarrow> False
        | Some s \<Rightarrow> js_trim s \<noteq> [] \<and> \<not> content_id_rejected s)"

fun refs_each :: "string \<Rightarrow> json list \<Rightarrow> nat \<Rightarrow> string list \<Rightarrow> string + attachment_ref list" where
  \<comment> \<open>the loop of \<open>normalizeAttachmentRefs\<close> with its set of ids seen\<close>
  "refs_each field [] index seen = Inr []"
| "refs_each field (item # items) index seen =
     (case json_string (member_of (Some item) ''id'') of
        None \<Rightarrow> Inl (at_index field index @ ''.id must be a UUID'')
      | Some raw \<Rightarrow>
          if \<not> isUuid raw then Inl (at_index field index @ ''.id must be a UUID'')
          else if js_toLower raw \<in> set seen then Inl (at_index field index @ ''.id is duplicated'')
          else if \<not> content_id_ok (member_of (Some item) ''contentId'')
          then Inl (at_index field index @ ''.contentId must be a header-safe token of at most 255 characters'')
          else or_else (refs_each field items (Suc index) (js_toLower raw # seen))
                 (\<lambda>rest. Inr (\<lparr>ar_id = js_toLower raw,
                    ar_contentId = map_option js_trim (json_string (member_of (Some item) ''contentId''))\<rparr> # rest)))"

definition normalizeAttachmentRefs :: "environment \<Rightarrow> json option \<Rightarrow> string \<Rightarrow> string + attachment_ref list option" where
  "normalizeAttachmentRefs env v field =
     (case v of
        None \<Rightarrow> Inr None
      | Some j \<Rightarrow>
          if \<not> attachmentsEnabled env then Inl (field @ '' is not supported because attachments are disabled'')
          else (case j of
                  JArray items \<Rightarrow>
                    if al_maxCount (resolveAttachmentLimits env) < int (length items)
                    then Inl (field @ '' must contain at most '' @ show_int (al_maxCount (resolveAttachmentLimits env)) @ '' attachments'')
                    else or_else (refs_each field items 0 []) (\<lambda>refs. Inr (or_undefined refs))
                | _ \<Rightarrow> Inl (field @ '' must be an array'')))"

section \<open>The second version's bodies\<close>

definition optional_recipients :: "json option \<Rightarrow> string \<Rightarrow> string + identity_input list option" where
  \<comment> \<open>\<open>value.to === undefined ? undefined : normalizeEmailIdentities(value.to, field)\<close>\<close>
  "optional_recipients v field =
     (case v of None \<Rightarrow> Inr None | Some _ \<Rightarrow> or_else (normalizeEmailIdentities v field) (\<lambda>to. Inr (Some to)))"

definition validateCreateV2Body :: "environment \<Rightarrow> json option \<Rightarrow> string + create_v2_input" where
  "validateCreateV2Body env v =
     or_else (validateCreateBody v) (\<lambda>base.
       (let message = member_of v ''message''
        in if \<not> isRecord v \<or> \<not> isRecord message then Inl ''message is required''
           else if member_of message ''replyToName'' \<noteq> None then Inl ''message.replyToName is not supported in API v2''
           else
             or_else (normalizeEmailIdentity (member_of message ''from'') ''message.from'' False) (\<lambda>from.
             or_else (normalizeEmailIdentity (member_of message ''replyTo'') ''message.replyTo'' True) (\<lambda>replyTo.
             or_else (normalizeTags (member_of message ''tags'') ''message.tags'') (\<lambda>tags.
             or_else (normalizeAttachmentRefs env (member_of message ''attachments'') ''message.attachments'') (\<lambda>refs.
             or_else (optional_recipients (member_of message ''to'') ''message.to'') (\<lambda>to.
               Inr \<lparr>cy_topic = ci_topic base, cy_participant = ci_participant base,
                 cy_subject = keep_text (ci_subject base),
                 cy_message =
                   \<lparr>mi_text = keep_text (ci_text base), mi_html = keep_text (ci_html base),
                    mi_replyToMessageId = None, mi_from = from, mi_to = to, mi_replyTo = replyTo,
                    mi_tags = tags, mi_attachments = refs\<rparr>\<rparr>)))))))"

definition validateMessageV2Body :: "environment \<Rightarrow> json option \<Rightarrow> string + message_v2_input" where
  "validateMessageV2Body env v =
     or_else (validateMessageBody v) (\<lambda>base.
       if \<not> isRecord v then Inl ''Request body must be an object''
       else if member_of v ''replyToName'' \<noteq> None then Inl ''replyToName is not supported in API v2''
       else
         or_else (normalizeEmailIdentity (member_of v ''from'') ''from'' False) (\<lambda>from.
         or_else (normalizeEmailIdentity (member_of v ''replyTo'') ''replyTo'' True) (\<lambda>replyTo.
         or_else (normalizeTags (member_of v ''tags'') ''tags'') (\<lambda>tags.
         or_else (normalizeAttachmentRefs env (member_of v ''attachments'') ''attachments'') (\<lambda>refs.
         or_else (optional_recipients (member_of v ''to'') ''to'') (\<lambda>to.
           Inr \<lparr>mi_text = keep_text (mg_text base), mi_html = keep_text (mg_html base),
             mi_replyToMessageId = keep_text (mg_replyToMessageId base), mi_from = from, mi_to = to,
             mi_replyTo = replyTo, mi_tags = tags, mi_attachments = refs\<rparr>))))))"

definition bad_body_text :: "json option \<Rightarrow> bool" where
  \<comment> \<open>\<open>v !== undefined && (typeof v !== 'string' || !v)\<close>\<close>
  "bad_body_text v \<longleftrightarrow> v \<noteq> None \<and> \<not> truthy (json_string v)"

definition validateDirectEmailV2Body :: "environment \<Rightarrow> json option \<Rightarrow> string + direct_email_input" where
  "validateDirectEmailV2Body env v =
     (if \<not> isRecord v then Inl ''Request body must be an object''
      else if member_of v ''replyTo'' \<noteq> None then Inl ''replyTo is not supported for direct email''
      else
        or_else (normalizeEmailIdentity (member_of v ''from'') ''from'' False) (\<lambda>from.
        or_else (normalizeEmailIdentities (member_of v ''to'') ''to'') (\<lambda>to.
        or_else (normalizeTags (member_of v ''tags'') ''tags'') (\<lambda>tags.
        or_else (normalizeAttachmentRefs env (member_of v ''attachments'') ''attachments'') (\<lambda>refs.
          case map_option js_trim (header_text (member_of v ''subject'') MAX_SUBJECT_LENGTH) of
            None \<Rightarrow> Inl ''subject must be a nonempty header-safe string of at most 255 characters''
          | Some subject \<Rightarrow>
              (let text = json_string (member_of v ''text'');
                   html = json_string (member_of v ''html'')
               in if subject = [] then Inl ''subject must be a nonempty header-safe string of at most 255 characters''
                  else if bad_body_text (member_of v ''text'') then Inl ''text must be a nonempty string when provided''
                  else if bad_body_text (member_of v ''html'') then Inl ''html must be a nonempty string when provided''
                  else if \<not> truthy text \<and> \<not> truthy html then Inl ''text or html is required''
                  else if too_long text \<or> too_long html then Inl ''text and html are limited to 1 MiB each''
                  else Inr
                    \<lparr>di_from = from, di_to = to, di_subject = subject, di_text = keep_text text,
                     di_html = keep_text html, di_tags = tags, di_attachments = refs\<rparr>))))))"

section \<open>What an accepted body guarantees\<close>

lemma or_else_InrE:
  assumes "or_else r f = Inr b"
  obtains a where "r = Inr a" "f a = Inr b"
  using assms by (cases r) (auto simp: or_else_def)

lemma or_else_simps [simp]: "or_else (Inl e) f = Inl e" "or_else (Inr a) f = f a"
  by (simp_all add: or_else_def)

definition header_line :: "nat \<Rightarrow> string \<Rightarrow> bool" where
  \<comment> \<open>a header value of at most this length without control characters, so without line breaks\<close>
  "header_line maxLength s \<longleftrightarrow> length s \<le> maxLength \<and> \<not> containsControlCharacter s"

definition identity_safe :: "identity_input \<Rightarrow> bool" where
  "identity_safe i \<longleftrightarrow>
     email_shape (ii_address i) \<and> length (ii_address i) \<le> 320 \<and> js_toLower (ii_address i) = ii_address i
     \<and> (case ii_name i of None \<Rightarrow> True | Some n \<Rightarrow> n \<noteq> [] \<and> header_line 256 n \<and> \<not> angled n)"

definition tag_safe :: "tag_input \<Rightarrow> bool" where
  "tag_safe t \<longleftrightarrow> ti_name t \<noteq> [] \<and> header_line 256 (ti_name t) \<and> ti_value t \<noteq> [] \<and> header_line 256 (ti_value t)"

definition body_safe :: "string option \<Rightarrow> string option \<Rightarrow> bool" where
  "body_safe text html \<longleftrightarrow> (truthy text \<or> truthy html) \<and> \<not> too_long text \<and> \<not> too_long html"

definition refs_safe :: "environment \<Rightarrow> attachment_ref list option \<Rightarrow> bool" where
  "refs_safe env refs \<longleftrightarrow>
     (case refs of None \<Rightarrow> True
      | Some rs \<Rightarrow> attachmentsEnabled env \<and> rs \<noteq> [] \<and> int (length rs) \<le> al_maxCount (resolveAttachmentLimits env)
          \<and> distinct (map ar_id rs) \<and> list_all (\<lambda>r. isUuid (ar_id r)) rs)"

definition tags_safe :: "tag_input list option \<Rightarrow> bool" where
  "tags_safe tags \<longleftrightarrow> (case tags of None \<Rightarrow> True | Some ts \<Rightarrow> ts \<noteq> [] \<and> length ts \<le> 10 \<and> list_all tag_safe ts)"

definition recipients_safe :: "identity_input list option \<Rightarrow> bool" where
  "recipients_safe to \<longleftrightarrow> (case to of None \<Rightarrow> True | Some is \<Rightarrow> is \<noteq> [] \<and> length is \<le> 50 \<and> list_all identity_safe is)"

lemma containsControl_trim: "\<not> containsControlCharacter s \<Longrightarrow> \<not> containsControlCharacter (js_trim s)"
  using set_js_trim [of s] by (auto simp: containsControlCharacter_def list_ex_iff)

lemma header_text_SomeD:
  "header_text v n = Some s \<Longrightarrow> v = Some (JString s) \<and> header_line n s"
  by (auto simp: header_text_def header_line_def dest: json_string_SomeD split: option.splits if_splits)

lemma header_line_trim: "header_line n s \<Longrightarrow> header_line n (js_trim s)"
  using containsControl_trim length_js_trim [of s] by (auto simp: header_line_def)

lemma angled_trim: "\<not> angled s \<Longrightarrow> \<not> angled (js_trim s)"
  using set_js_trim [of s] by (auto simp: angled_def list_ex_iff)

lemma normalizeEmailIdentity_safe:
  assumes "normalizeEmailIdentity v field replyTo = Inr i"
  shows "identity_safe i" "replyTo \<Longrightarrow> isValidReplyToBaseAddress (ii_address i)"
proof -
  obtain raw where raw: "json_string (member_of v ''address'') = Some raw"
    using assms by (auto simp: normalizeEmailIdentity_def split: option.splits)
  let ?a = "js_toLower (js_trim raw)" and ?name = "member_of v ''name''"
  have ok: "isEmailAddress (Some (JString ?a))" "replyTo \<Longrightarrow> isValidReplyToBaseAddress ?a"
    "nullish ?name \<or> (\<exists>n. header_text ?name MAX_NAME_LENGTH = Some n \<and> \<not> angled n)"
    and i: "i = \<lparr>ii_address = ?a, ii_name = trimmed_string ?name\<rparr>"
    using assms raw by (auto simp: normalizeEmailIdentity_def Let_def split: if_splits option.splits)
  have "case trimmed_string ?name of None \<Rightarrow> True | Some n \<Rightarrow> n \<noteq> [] \<and> header_line 256 n \<and> \<not> angled n"
    using ok(3)
  proof
    assume "nullish ?name"
    then show ?thesis by (auto simp: nullish_def trimmed_string_def)
  next
    assume "\<exists>n. header_text ?name MAX_NAME_LENGTH = Some n \<and> \<not> angled n"
    then obtain n where n: "?name = Some (JString n)" "header_line 256 n" "\<not> angled n"
      using header_text_SomeD by (fastforce simp: MAX_NAME_LENGTH_def)
    then show ?thesis
      using header_line_trim [OF n(2)] angled_trim [OF n(3)] by (simp add: trimmed_string_def or_null_def)
  qed
  with ok(1) show "identity_safe i" by (simp add: i identity_safe_def isEmailAddress_def)
  show "replyTo \<Longrightarrow> isValidReplyToBaseAddress (ii_address i)" using ok(2) by (simp add: i)
qed

lemma normalize_each_safe:
  "normalize_each isArray field items index = Inr is \<Longrightarrow> list_all identity_safe is \<and> length is = length items"
proof (induction items arbitrary: index "is")
  case (Cons item items)
  then obtain i rest where i: "normalizeEmailIdentity item (at_index field index) False = Inr i"
    and rest: "normalize_each isArray field items (Suc index) = Inr rest" and l: "is = i # rest"
    by (auto split: sum.splits elim!: or_else_InrE)
  show ?case using Cons.IH [OF rest] normalizeEmailIdentity_safe(1) [OF i] l by simp
qed simp

lemma normalizeEmailIdentities_safe:
  assumes "normalizeEmailIdentities v field = Inr is"
  shows "is \<noteq> [] \<and> length is \<le> 50 \<and> list_all identity_safe is"
proof -
  obtain isArray items where items: "items \<noteq> []" "length items \<le> 50" "normalize_each isArray field items 0 = Inr is"
    using assms
    by (auto simp: normalizeEmailIdentities_def Let_def MAX_RECIPIENTS_def split: prod.splits if_splits)
  then show ?thesis using normalize_each_safe [OF items(3)] by auto
qed

lemma optional_recipients_safe: "optional_recipients v field = Inr to \<Longrightarrow> recipients_safe to"
  using normalizeEmailIdentities_safe
  by (auto simp: optional_recipients_def recipients_safe_def split: option.splits elim!: or_else_InrE)

lemma tag_of_safe: "tag_of item = Some t \<Longrightarrow> tag_safe t"
  using header_line_trim
  by (auto simp: tag_of_def tag_safe_def MAX_TAG_LENGTH_def dest!: header_text_SomeD split: option.splits if_splits)

lemma tags_each_safe: "tags_each field items index = Inr ts \<Longrightarrow> list_all tag_safe ts \<and> length ts = length items"
proof (induction items arbitrary: index ts)
  case (Cons item items)
  then obtain t rest where t: "tag_of item = Some t" and rest: "tags_each field items (Suc index) = Inr rest" and l: "ts = t # rest"
    by (auto split: option.splits elim!: or_else_InrE)
  show ?case using Cons.IH [OF rest] tag_of_safe [OF t] l by simp
qed simp

lemma normalizeTags_safe: "normalizeTags v field = Inr tags \<Longrightarrow> tags_safe tags"
  using tags_each_safe
  by (fastforce simp: normalizeTags_def tags_safe_def or_undefined_def MAX_TAGS_def
      split: option.splits json.splits if_splits elim!: or_else_InrE)

lemma refs_each_safe:
  "refs_each field items index seen = Inr rs \<Longrightarrow>
     list_all (\<lambda>r. isUuid (ar_id r)) rs \<and> length rs = length items \<and> distinct (map ar_id rs)
     \<and> set (map ar_id rs) \<inter> set seen = {}"
proof (induction items arbitrary: index seen rs)
  case (Cons item items)
  then obtain raw rest cid where raw: "isUuid raw" "js_toLower raw \<notin> set seen"
    and rest: "refs_each field items (Suc index) (js_toLower raw # seen) = Inr rest"
    and l: "rs = \<lparr>ar_id = js_toLower raw, ar_contentId = cid\<rparr> # rest"
    by (auto split: option.splits if_splits elim!: or_else_InrE)
  have "isUuid (js_toLower raw)" using raw(1) by (simp add: isUuid_def UUID_PATTERN_def)
  then show ?case using Cons.IH [OF rest] raw(2) l by auto
qed simp

lemma normalizeAttachmentRefs_safe: "normalizeAttachmentRefs env v field = Inr refs \<Longrightarrow> refs_safe env refs"
  using refs_each_safe
  by (fastforce simp: normalizeAttachmentRefs_def refs_safe_def or_undefined_def
      split: option.splits json.splits if_splits elim!: or_else_InrE)

lemma keep_text_simps [simp]:
  "keep_text (keep_text s) = keep_text s" "truthy (keep_text s) = truthy s" "\<not> too_long s \<Longrightarrow> \<not> too_long (keep_text s)"
  by (auto simp: keep_text_def too_long_def truthy_def split: option.splits)

lemma validateMessageBody_safe:
  assumes "validateMessageBody v = Inr m"
  shows "body_safe (mg_text m) (mg_html m)" "keep_text (mg_text m) = mg_text m" "keep_text (mg_html m) = mg_html m"
  using assms
  by (auto simp: validateMessageBody_def body_safe_def Let_def split: if_splits option.splits)

lemma validateCreateBody_safe:
  assumes "validateCreateBody v = Inr c"
  shows "body_safe (ci_text c) (ci_html c)" "keep_text (ci_text c) = ci_text c" "keep_text (ci_html c) = ci_html c"
    "header_line 255 (tp_title (ci_topic c)) \<and> tp_title (ci_topic c) \<noteq> []"
    "email_shape (ii_address (ci_participant c)) \<and> length (ii_address (ci_participant c)) \<le> 320"
    "case ii_name (ci_participant c) of None \<Rightarrow> True | Some n \<Rightarrow> n \<noteq> [] \<and> header_line 256 n"
    "case ci_subject c of None \<Rightarrow> True | Some s \<Rightarrow> s \<noteq> [] \<and> header_line 255 s"
proof -
  let ?p = "member_of v ''participant''"
  obtain topic n where topic: "valid_topic (member_of v ''topic'') = Some topic"
    and e: "isEmailAddress (member_of ?p ''email'')"
    and name: "nullish (member_of ?p ''name'') \<or> isHeaderSafeText (member_of ?p ''name'') 256"
    and subject: "member_of v ''subject'' = None \<or> isHeaderSafeText (member_of v ''subject'') 255"
    and body: "truthy (json_string (member_of (member_of v ''message'') ''text''))
        \<or> truthy (json_string (member_of (member_of v ''message'') ''html''))"
      "\<not> too_long (json_string (member_of (member_of v ''message'') ''text''))"
      "\<not> too_long (json_string (member_of (member_of v ''message'') ''html''))"
    and c: "c = \<lparr>ci_topic = topic,
        ci_participant =
          \<lparr>ii_address = (case json_string (member_of ?p ''email'') of Some e \<Rightarrow> e | None \<Rightarrow> []),
           ii_name = trimmed_string (member_of ?p ''name'')\<rparr>,
        ci_subject = trimmed_string (member_of v ''subject''),
        ci_text = keep_text (json_string (member_of (member_of v ''message'') ''text'')),
        ci_html = keep_text (json_string (member_of (member_of v ''message'') ''html'')),
        ci_replyToName = keep_text n\<rparr>"
    using assms
    by (auto simp: validateCreateBody_def Let_def MAX_NAME_LENGTH_def MAX_SUBJECT_LENGTH_def
        split: if_splits option.splits)
  have safe: "case trimmed_string x of None \<Rightarrow> True | Some s \<Rightarrow> s \<noteq> [] \<and> header_line k s"
    if "nullish x \<or> isHeaderSafeText x k" for x k
    using that header_line_trim [of k]
    by (fastforce simp: nullish_def trimmed_string_def or_null_def isHeaderSafeText_def dest: header_text_SomeD
        split: option.splits)
  show "body_safe (ci_text c) (ci_html c)" "keep_text (ci_text c) = ci_text c" "keep_text (ci_html c) = ci_html c"
    using body by (simp_all add: c body_safe_def)
  show "header_line 255 (tp_title (ci_topic c)) \<and> tp_title (ci_topic c) \<noteq> []"
    using topic header_line_trim
    by (auto simp: c valid_topic_def MAX_TITLE_LENGTH_def dest!: header_text_SomeD split: option.splits if_splits)
  show "email_shape (ii_address (ci_participant c)) \<and> length (ii_address (ci_participant c)) \<le> 320"
    using e by (auto simp: c isEmailAddress_def split: option.splits)
  show "case ii_name (ci_participant c) of None \<Rightarrow> True | Some n \<Rightarrow> n \<noteq> [] \<and> header_line 256 n"
    using safe [OF name] by (simp add: c)
  have "nullish (member_of v ''subject'') \<or> isHeaderSafeText (member_of v ''subject'') 255"
    using subject by (auto simp: nullish_def)
  from safe [OF this] show "case ci_subject c of None \<Rightarrow> True | Some s \<Rightarrow> s \<noteq> [] \<and> header_line 255 s" by (simp add: c)
qed

definition message_safe :: "environment \<Rightarrow> message_v2_input \<Rightarrow> bool" where
  "message_safe env m \<longleftrightarrow>
     identity_safe (mi_from m) \<and> identity_safe (mi_replyTo m) \<and> recipients_safe (mi_to m) \<and> tags_safe (mi_tags m)
     \<and> refs_safe env (mi_attachments m) \<and> body_safe (mi_text m) (mi_html m)
     \<and> isValidReplyToBaseAddress (ii_address (mi_replyTo m))"

lemma validateMessageV2Body_safe: "validateMessageV2Body env v = Inr m \<Longrightarrow> message_safe env m"
  unfolding validateMessageV2Body_def
  by (elim or_else_InrE)
    (auto split: if_splits elim!: or_else_InrE simp: message_safe_def normalizeEmailIdentity_safe
      optional_recipients_safe normalizeTags_safe normalizeAttachmentRefs_safe validateMessageBody_safe)

lemma validateCreateV2Body_parts:
  assumes "validateCreateV2Body env v = Inr i"
  obtains c where "validateCreateBody v = Inr c" "message_safe env (cy_message i)" "cy_topic i = ci_topic c"
    "cy_participant i = ci_participant c" "cy_subject i = keep_text (ci_subject c)"
  using assms unfolding validateCreateV2Body_def Let_def
  by (elim or_else_InrE)
    (auto split: if_splits elim!: or_else_InrE simp: message_safe_def normalizeEmailIdentity_safe
      optional_recipients_safe normalizeTags_safe normalizeAttachmentRefs_safe validateCreateBody_safe)

section \<open>Properties\<close>

definition sample_ref :: "string \<Rightarrow> json" where
  "sample_ref contentId =
     JObject [(''id'', JString ''0190aaaa-bbbb-7ccc-8ddd-eeeeffff0000''), (''contentId'', JString contentId)]"

definition sample_from :: json where
  "sample_from = JObject [(''address'', JString '' Us@X.io ''), (''name'', JString ''Us'')]"

definition sample_direct :: "json list \<Rightarrow> json" where
  "sample_direct refs = JObject
     [(''from'', sample_from), (''to'', JArray [JObject [(''address'', JString ''p@y.io'')]]),
      (''subject'', JString ''Hello''), (''text'', JString ''t''), (''attachments'', JArray refs)]"

definition sample_create :: json where
  "sample_create = JObject
     [(''topic'', JObject [(''type'', JString ''order''), (''externalId'', JString ''7''), (''title'', JString ''T'')]),
      (''participant'', JObject [(''email'', JString ''p@y.io'')]),
      (''message'', JObject [(''text'', JString ''t''), (''from'', sample_from), (''replyTo'', JObject [(''address'', JString ''us@x.io'')])])]"



text \<open>The same for a direct email: sender, 1 to 50 recipients, subject, tags and attachments of an
  accepted request are safe to put into headers, and at least one body is present and within 1 MiB.\<close>

theorem accepted_direct_email_is_safe:
  assumes "validateDirectEmailV2Body env v = Inr input"
  shows "identity_safe (di_from input) \<and> recipients_safe (Some (di_to input))
    \<and> di_subject input \<noteq> [] \<and> header_line 255 (di_subject input)
    \<and> tags_safe (di_tags input) \<and> refs_safe env (di_attachments input) \<and> body_safe (di_text input) (di_html input)"
proof -
  obtain "from" to tags refs where parts:
    "normalizeEmailIdentity (member_of v ''from'') ''from'' False = Inr from"
    "normalizeEmailIdentities (member_of v ''to'') ''to'' = Inr to"
    "normalizeTags (member_of v ''tags'') ''tags'' = Inr tags"
    "normalizeAttachmentRefs env (member_of v ''attachments'') ''attachments'' = Inr refs"
    using assms unfolding validateDirectEmailV2Body_def by (auto split: if_splits elim!: or_else_InrE)
  note safe = normalizeEmailIdentity_safe(1) [OF parts(1)] normalizeEmailIdentities_safe [OF parts(2)]
    normalizeTags_safe [OF parts(3)] normalizeAttachmentRefs_safe [OF parts(4)]
  obtain s where s: "header_text (member_of v ''subject'') 255 = Some s" "js_trim s \<noteq> []"
    and i: "input = \<lparr>di_from = from, di_to = to, di_subject = js_trim s,
      di_text = keep_text (json_string (member_of v ''text'')), di_html = keep_text (json_string (member_of v ''html'')),
      di_tags = tags, di_attachments = refs\<rparr>"
    and b: "body_safe (json_string (member_of v ''text'')) (json_string (member_of v ''html''))"
    using assms parts
    by (auto simp: validateDirectEmailV2Body_def Let_def MAX_SUBJECT_LENGTH_def body_safe_def
        split: if_splits option.splits)
  have "header_line 255 (js_trim s)" using header_text_SomeD [OF s(1)] header_line_trim by blast
  with safe s(2) b show ?thesis by (simp add: i recipients_safe_def body_safe_def)
qed

theorem accepted_direct_email_is_safe_witness:
  "\<exists>input. validateDirectEmailV2Body attachments_on (Some (sample_direct [])) = Inr input
    \<and> identity_safe (di_from input) \<and> refs_safe attachments_on (di_attachments input)"
proof -
  have "(case validateDirectEmailV2Body attachments_on (Some (sample_direct [])) of Inl e \<Rightarrow> False | Inr input \<Rightarrow> True)"
    by code_simp
  then obtain input where i: "validateDirectEmailV2Body attachments_on (Some (sample_direct [])) = Inr input"
    by (auto split: sum.splits)
  from accepted_direct_email_is_safe [OF i] i show ?thesis by blast
qed

text \<open>The test of a content id rejects the letter s where white space is meant: an ordinary content id
  is refused and one with a blank goes through, unlike the normalization of received attachments.\<close>

theorem content_id_test_rejects_letter_s:
  "validateDirectEmailV2Body attachments_on (Some (sample_direct [sample_ref ''image-sales'']))
     = Inl ''attachments[0].contentId must be a header-safe token of at most 255 characters''
   \<and> normalizeContentId (Some (JString ''image-sales'')) = Some ''image-sales''
   \<and> map_option (map ar_contentId) (case validateDirectEmailV2Body attachments_on (Some (sample_direct [sample_ref ''a b''])) of
       Inl e \<Rightarrow> None | Inr input \<Rightarrow> di_attachments input) = Some [Some ''a b'']
   \<and> normalizeContentId (Some (JString ''a b'')) = None"
proof (intro conjI)
  show "validateDirectEmailV2Body attachments_on (Some (sample_direct [sample_ref ''image-sales'']))
     = Inl ''attachments[0].contentId must be a header-safe token of at most 255 characters''" by code_simp
  show "normalizeContentId (Some (JString ''image-sales'')) = Some ''image-sales''" by code_simp
  show "map_option (map ar_contentId) (case validateDirectEmailV2Body attachments_on (Some (sample_direct [sample_ref ''a b''])) of
       Inl e \<Rightarrow> None | Inr input \<Rightarrow> di_attachments input) = Some [Some ''a b'']" by code_simp
  show "normalizeContentId (Some (JString ''a b'')) = None" by code_simp
qed

end
