(* ===== verification/Row_Changes.thy ===== *)
theory Row_Changes
  imports Schema
begin

text \<open>
  The statements on messages and conversations that more than one component issues, with what the
  schema (\<open>prisma/schema.prisma\<close>, \<open>prisma/migrations\<close>) makes the database do with them: ids and
  defaults, unique keys (a violation is the client error P2002), cascades, and the trigger that leaves
  a tombstone for every deleted attachment. Rows that a query without ORDER BY returns come in the
  order of the table.
\<close>

section \<open>Insertion\<close>

definition same_key :: "'a option \<Rightarrow> 'a option \<Rightarrow> bool" where
  \<comment> \<open>a unique key: nulls are distinct\<close>
  "same_key a b \<longleftrightarrow> a \<noteq> None \<and> a = b"

definition message_conflict :: "message \<Rightarrow> message \<Rightarrow> bool" where
  \<comment> \<open>the unique keys of \<open>email_messages\<close>\<close>
  "message_conflict a b \<longleftrightarrow>
     same_key (ms_resendEmailId a) (ms_resendEmailId b) \<or> same_key (ms_internetMessageId a) (ms_internetMessageId b)
     \<or> same_key (ms_idempotencyKey a) (ms_idempotencyKey b)"

definition insert_message :: "(uuid \<Rightarrow> instant \<Rightarrow> message) \<Rightarrow> message io" where
  \<comment> \<open>\<open>emailMessage.create\<close>: the row as a function of its id and its creation time\<close>
  "insert_message row s =
     (let (i, s1) = draw_id s; m = row i (db_now s1)
      in if \<exists>r \<in> set (messages s1). message_conflict m r then (Inl (PrismaError ''P2002''), s1)
         else (Inr m, s1\<lparr>messages := messages s1 @ [m]\<rparr>))"

definition conversation_conflict :: "conversation \<Rightarrow> conversation \<Rightarrow> bool" where
  \<comment> \<open>the unique keys of \<open>email_conversations\<close>\<close>
  "conversation_conflict a b \<longleftrightarrow>
     cv_routingToken a = cv_routingToken b
     \<or> same_key (cv_topicType a) (cv_topicType b) \<and> same_key (cv_externalTopicId a) (cv_externalTopicId b)"

definition insert_conversation :: "(uuid \<Rightarrow> uuid \<Rightarrow> instant \<Rightarrow> conversation) \<Rightarrow> conversation io" where
  \<comment> \<open>\<open>emailConversation.create\<close>: the row as a function of its id, the token that
    \<open>gen_random_uuid()\<close> would give, and its creation time\<close>
  "insert_conversation row s =
     (let (i, s1) = draw_id s; (token, s2) = draw_id s1; c = row i token (db_now s2)
      in if \<exists>r \<in> set (conversations s2). conversation_conflict c r then (Inl (PrismaError ''P2002''), s2)
         else (Inr c, s2\<lparr>conversations := conversations s2 @ [c]\<rparr>))"

section \<open>Updates\<close>

definition update_message :: "uuid \<Rightarrow> (message \<Rightarrow> message) \<Rightarrow> message io" where
  \<comment> \<open>\<open>emailMessage.update\<close> of one row: the new row, P2025 when there is none, P2002 when a unique key
    is taken\<close>
  "update_message i f s =
     (case find_by ms_id i (messages s) of
        None \<Rightarrow> (Inl (PrismaError ''P2025''), s)
      | Some m \<Rightarrow>
          if \<exists>r \<in> set (messages s). ms_id r \<noteq> i \<and> message_conflict (f m) r then (Inl (PrismaError ''P2002''), s)
          else (Inr (f m), s\<lparr>messages := update_where (\<lambda>r. ms_id r = i) f (messages s)\<rparr>))"

definition update_messages :: "(message \<Rightarrow> bool) \<Rightarrow> (message \<Rightarrow> message) \<Rightarrow> unit io" where
  \<comment> \<open>\<open>emailMessage.updateMany\<close> on columns without a unique key\<close>
  "update_messages P f = io_modify (\<lambda>s. s\<lparr>messages := update_where P f (messages s)\<rparr>)"

definition get_message :: "uuid \<Rightarrow> message io" where
  \<comment> \<open>\<open>emailMessage.findUniqueOrThrow\<close>\<close>
  "get_message i s = (case find_by ms_id i (messages s) of None \<Rightarrow> (Inl (PrismaError ''P2025''), s) | Some m \<Rightarrow> (Inr m, s))"

definition update_conversation :: "uuid \<Rightarrow> (conversation \<Rightarrow> conversation) \<Rightarrow> unit io" where
  \<comment> \<open>\<open>emailConversation.update\<close> of columns without a unique key\<close>
  "update_conversation i f s =
     (if find_by cv_id i (conversations s) = None then (Inl (PrismaError ''P2025''), s)
      else (Inr (), s\<lparr>conversations := update_where (\<lambda>c. cv_id c = i) f (conversations s)\<rparr>))"

definition get_conversation :: "uuid \<Rightarrow> conversation io" where
  "get_conversation i s =
     (case find_by cv_id i (conversations s) of None \<Rightarrow> (Inl (PrismaError ''P2025''), s) | Some c \<Rightarrow> (Inr c, s))"

section \<open>Deletion\<close>

fun add_tombstones :: "attachment list \<Rightarrow> store \<Rightarrow> store" where
  \<comment> \<open>the trigger \<open>email_attachments_tombstone_before_delete\<close>\<close>
  "add_tombstones [] s = s"
| "add_tombstones (a # as) s =
     (if at_storageKey a \<in> tb_storageKey ` set (tombstones s) then add_tombstones as s
      else
        (let (i, s1) = draw_id s
         in add_tombstones as (s1\<lparr>tombstones := tombstones s1 @
              [\<lparr>tb_id = i, tb_storageKey = at_storageKey a, tb_attemptCount = 0, tb_nextAttemptAt = db_now s1,
                tb_leaseToken = None, tb_leaseUntil = None, tb_lastErrorCode = None\<rparr>]\<rparr>)))"

definition in_messages :: "message list \<Rightarrow> uuid option \<Rightarrow> bool" where
  "in_messages gone i \<longleftrightarrow> (\<exists>m \<in> set gone. i = Some (ms_id m))"

definition delete_messages :: "(message \<Rightarrow> bool) \<Rightarrow> store \<Rightarrow> store" where
  \<comment> \<open>rows of the outboxes and attachments go with a message, replies lose their parent\<close>
  "delete_messages P s =
     (let gone = filter P (messages s);
          s1 = add_tombstones (filter (\<lambda>a. in_messages gone (at_messageId a)) (attachments s)) s
      in s1\<lparr>messages := update_where (\<lambda>m. in_messages gone (ms_parentMessageId m)) (\<lambda>m. m\<lparr>ms_parentMessageId := None\<rparr>)
               (delete_where P (messages s1)),
            attachments := delete_where (\<lambda>a. in_messages gone (at_messageId a)) (attachments s1),
            outbox_entries := delete_where (\<lambda>e. in_messages gone (Some (oe_messageId e))) (outbox_entries s1),
            attachment_outbox := delete_where (\<lambda>e. in_messages gone (Some (ao_messageId e))) (attachment_outbox s1)\<rparr>)"

definition delete_conversations :: "(conversation \<Rightarrow> bool) \<Rightarrow> store \<Rightarrow> store" where
  \<comment> \<open>messages and routing aliases go with a conversation; its events stay\<close>
  "delete_conversations P s =
     (let gone = cv_id ` set (filter P (conversations s));
          s1 = delete_messages (\<lambda>m. case ms_conversationId m of None \<Rightarrow> False | Some i \<Rightarrow> i \<in> gone) s
      in s1\<lparr>conversations := delete_where P (conversations s1),
            aliases := delete_where (\<lambda>a. ra_conversationId a \<in> gone) (aliases s1)\<rparr>)"

section \<open>Lemmas\<close>

lemma add_tombstones_shape: "\<exists>ts n. add_tombstones as s = s\<lparr>tombstones := ts, id_count := n\<rparr>"
proof (induction "as" s rule: add_tombstones.induct)
  case (1 s)
  show ?case by (intro exI [of _ "tombstones s"] exI [of _ "id_count s"]) simp
next
  case (2 a "as" s)
  then show ?case by (auto simp: draw_id_def)
qed

lemma add_tombstones_frame [simp]:
  "messages (add_tombstones as s) = messages s" "conversations (add_tombstones as s) = conversations s"
  "aliases (add_tombstones as s) = aliases s" "attachments (add_tombstones as s) = attachments s"
  "outbox_entries (add_tombstones as s) = outbox_entries s" "attachment_outbox (add_tombstones as s) = attachment_outbox s"
  "events (add_tombstones as s) = events s" "deliveries (add_tombstones as s) = deliveries s"
  "outbox_batches (add_tombstones as s) = outbox_batches s" "webhook_rows (add_tombstones as s) = webhook_rows s"
  "allowlist (add_tombstones as s) = allowlist s" "id_source (add_tombstones as s) = id_source s"
  "db_now (add_tombstones as s) = db_now s"
  using add_tombstones_shape [of "as" s] by auto

text \<open>Every deleted attachment leaves its object's key behind.\<close>

lemma add_tombstones_keys:
  "tb_storageKey ` set (tombstones (add_tombstones as s)) = tb_storageKey ` set (tombstones s) \<union> at_storageKey ` set as"
  by (induction "as" s rule: add_tombstones.induct) (auto simp: draw_id_def)

lemma delete_messages_none:
  assumes "\<And>m. m \<in> set (messages s) \<Longrightarrow> \<not> P m"
  shows "delete_messages P s = s"
proof -
  have f: "filter P (messages s) = []" using assms by (simp add: filter_empty_conv)
  have d: "filter (\<lambda>m. \<not> P m) (messages s) = messages s" using assms by (simp add: filter_id_conv)
  show ?thesis
    unfolding delete_messages_def Let_def f
    by (simp add: in_messages_def d update_where_none delete_where_def)
qed

lemma delete_conversations_messages:
  assumes "\<And>m i. m \<in> set (messages s) \<Longrightarrow> ms_conversationId m = Some i \<Longrightarrow> i \<notin> cv_id ` set (filter P (conversations s))"
  shows "delete_conversations P s =
    s\<lparr>conversations := delete_where P (conversations s),
      aliases := delete_where (\<lambda>a. ra_conversationId a \<in> cv_id ` set (filter P (conversations s))) (aliases s)\<rparr>"
proof -
  have "delete_messages (\<lambda>m. case ms_conversationId m of None \<Rightarrow> False | Some i \<Rightarrow> i \<in> cv_id ` set (filter P (conversations s))) s = s"
    using assms by (intro delete_messages_none) (auto split: option.splits)
  then show ?thesis by (simp only: delete_conversations_def Let_def)
qed

end
