(* ===== verification/Conversation_Projection.thy ===== *)
theory Conversation_Projection
  imports Row_Changes Threading Routing Conversation_State Conversation_Events Attachments
begin

text \<open>
  \<open>src/lib/email/conversations.ts\<close>: how a received email and a sent email's Message-ID find their
  place in the threads, and the merge of conversations this may need. The advisory locks order
  concurrent transactions and leave the store alone; dates come parsed (an empty date is \<open>None\<close>).
\<close>

section \<open>Messages with their conversation\<close>

definition with_conversation :: "store \<Rightarrow> message \<Rightarrow> (message \<times> conversation) option" where
  \<comment> \<open>\<open>include: { conversation: true }\<close> and the guard \<open>hasConversation\<close>\<close>
  "with_conversation s m =
     (case ms_conversationId m of
        None \<Rightarrow> None
      | Some i \<Rightarrow>
          (case find_by cv_id i (conversations s) of
             None \<Rightarrow> None
           | Some c \<Rightarrow> if ms_kind m = CONVERSATION then Some (m, c) else None))"

definition same_participant :: "string \<Rightarrow> conversation \<Rightarrow> bool" where
  "same_participant participantAddress c \<longleftrightarrow> js_toLower (cv_participantAddress c) = participantAddress"

definition threads_of :: "string \<Rightarrow> (message \<Rightarrow> bool) \<Rightarrow> store \<Rightarrow> (message \<times> conversation) list" where
  \<comment> \<open>a \<open>findMany\<close> with its conversations, kept when the participant is this one\<close>
  "threads_of participantAddress P s =
     filter (\<lambda>mc. same_participant participantAddress (snd mc))
       (List.map_filter (with_conversation s) (filter P (messages s)))"

section \<open>Merging conversations\<close>

definition uniqueSources :: "conversation \<Rightarrow> conversation list \<Rightarrow> conversation list" where
  \<comment> \<open>the values of the map by id: in order of first appearance, the last row with the id\<close>
  "uniqueSources target sources =
     (let others = filter (\<lambda>c. cv_id c \<noteq> cv_id target) sources
      in List.map_filter (\<lambda>i. find_by cv_id i (rev others)) (js_set (map cv_id others)))"

fun create_aliases :: "uuid \<Rightarrow> conversation list \<Rightarrow> store \<Rightarrow> store" where
  \<comment> \<open>\<open>createMany\<close> with \<open>skipDuplicates\<close> on the unique key of token and base address\<close>
  "create_aliases targetId [] s = s"
| "create_aliases targetId (c # cs) s =
     (case keep_truthy (cv_replyToBaseAddress c) of
        None \<Rightarrow> create_aliases targetId cs s
      | Some base \<Rightarrow>
          (let (i, s1) = draw_id s
           in if \<exists>a \<in> set (aliases s1). ra_routingToken a = cv_routingToken c \<and> ra_baseAddress a = base
              then create_aliases targetId cs s1
              else create_aliases targetId cs (s1\<lparr>aliases := aliases s1 @
                [\<lparr>ra_id = i, ra_conversationId = targetId, ra_routingToken = cv_routingToken c, ra_baseAddress = base\<rparr>]\<rparr>)))"

definition promotedSource :: "conversation list \<Rightarrow> conversation option" where
  "promotedSource sources = find (\<lambda>c. cv_apiVersion c = Some V2 \<and> truthy (cv_replyToBaseAddress c)) sources"

definition merged_conversation :: "conversation \<Rightarrow> conversation list \<Rightarrow> conversation \<Rightarrow> conversation" where
  \<comment> \<open>the SET clause of the target: a version or base that is \<open>undefined\<close> stays\<close>
  "merged_conversation target sources c =
     (let promoted = promotedSource sources;
          selected = js_coalesce promoted (find (\<lambda>c. truthy (cv_replyToBaseAddress c)) sources);
          base = js_coalesce (cv_replyToBaseAddress target) (Option.bind selected cv_replyToBaseAddress);
          apiVersion =
            (if cv_apiVersion target = Some V2 \<or> promoted \<noteq> None then Some V2
             else js_coalesce (cv_apiVersion target)
               (Option.bind (find (\<lambda>c. cv_apiVersion c \<noteq> None) sources) cv_apiVersion));
          requires =
            (if apiVersion = Some V2
             then (cv_apiVersion target = Some V2 \<and> cv_replyToRequiresAllowlist target)
               \<or> (case promoted of None \<Rightarrow> False | Some p \<Rightarrow> cv_replyToRequiresAllowlist p)
             else cv_replyToRequiresAllowlist target);
          c' = c\<lparr>cv_apiVersion := js_coalesce apiVersion (cv_apiVersion c),
                 cv_replyToBaseAddress := js_coalesce base (cv_replyToBaseAddress c),
                 cv_replyToRequiresAllowlist := requires\<rparr>
      in case mergeConversationState (target # sources) of
           None \<Rightarrow> c'
         | Some (st, changedAt) \<Rightarrow> set_state st changedAt c')"

definition preserveMergedConversationState :: "conversation \<Rightarrow> conversation list \<Rightarrow> unit io" where
  "preserveMergedConversationState target sources =
     (let unique = uniqueSources target sources
      in if unique = [] then io_return ()
         else
           io_bind (io_modify (\<lambda>s. create_aliases (cv_id target) unique
             (s\<lparr>aliases := update_where (\<lambda>a. ra_conversationId a \<in> set (map cv_id unique))
                 (\<lambda>a. a\<lparr>ra_conversationId := cv_id target\<rparr>) (aliases s)\<rparr>)))
           (\<lambda>_. update_conversation (cv_id target) (merged_conversation target unique)))"

definition merged_event :: "uuid \<Rightarrow> instant \<Rightarrow> uuid option \<Rightarrow> event_input" where
  "merged_event conversationId occurredAt target =
     (plain_event conversationId MERGED occurredAt SystemActor ''thread_reconciliation'')
       \<lparr>ei_mergedIntoConversationId := target\<rparr>"

definition append_event :: "environment \<Rightarrow> event_input \<Rightarrow> unit io" where
  \<comment> \<open>an append whose payload is not used\<close>
  "append_event env input = io_bind (appendConversationEvent env input) (\<lambda>_. io_return ())"

definition recordConversationMerges :: "environment \<Rightarrow> uuid \<Rightarrow> uuid list \<Rightarrow> instant \<Rightarrow> unit io" where
  "recordConversationMerges env targetId sourceIds occurredAt =
     io_bind (io_each (\<lambda>i. append_event env (merged_event i occurredAt (Some targetId))) sourceIds)
       (\<lambda>_. append_event env (merged_event targetId occurredAt None))"

definition in_conversations :: "uuid list \<Rightarrow> message \<Rightarrow> bool" where
  "in_conversations ids m \<longleftrightarrow> (case ms_conversationId m of None \<Rightarrow> False | Some i \<Rightarrow> i \<in> set ids)"

definition move_messages :: "uuid list \<Rightarrow> uuid \<Rightarrow> unit io" where
  \<comment> \<open>the messages of the merged conversations\<close>
  "move_messages ids targetId = update_messages (in_conversations ids) (\<lambda>m. m\<lparr>ms_conversationId := Some targetId\<rparr>)"

definition refresh_last_message :: "uuid \<Rightarrow> unit io" where
  \<comment> \<open>the aggregate and the update it feeds\<close>
  "refresh_last_message conversationId s =
     (let times = map ms_emailCreatedAt (filter (\<lambda>m. ms_conversationId m = Some conversationId) (messages s))
      in if times = [] then (Inr (), s)
         else update_conversation conversationId (\<lambda>c. c\<lparr>cv_lastMessageAt := foldl max (hd times) (tl times)\<rparr>) s)"

section \<open>The Message-ID of a sent email\<close>

definition sent_metadata_error :: js_error where
  "sent_metadata_error = JsError ''Error'' ''Cannot record sent metadata on an inbound message''"

definition foreign_ids :: "uuid \<Rightarrow> (message \<times> conversation) list \<Rightarrow> uuid list" where
  \<comment> \<open>the unassigned conversations among these, other than the target\<close>
  "foreign_ids targetId related =
     js_set (map (\<lambda>(m, c). cv_id c) (filter (\<lambda>(m, c). cv_id c \<noteq> targetId \<and> cv_topicType c = None) related))"

definition merge_threads :: "environment \<Rightarrow> conversation \<Rightarrow> (message \<times> conversation) list \<Rightarrow> instant \<Rightarrow> unit io" where
  \<comment> \<open>preserve, move and record, for the foreign conversations among the related messages\<close>
  "merge_threads env target related occurredAt =
     (let ids = foreign_ids (cv_id target) related
      in io_bind (preserveMergedConversationState target (filter (\<lambda>c. cv_id c \<in> set ids) (map snd related)))
           (\<lambda>_. io_bind (move_messages ids (cv_id target))
           (\<lambda>_. recordConversationMerges env (cv_id target) ids occurredAt)))"

definition drop_conversations :: "uuid list \<Rightarrow> unit io" where
  "drop_conversations ids = io_modify (delete_conversations (\<lambda>c. cv_id c \<in> set ids))"

definition adopt_children :: "(message \<Rightarrow> bool) \<Rightarrow> uuid \<Rightarrow> unit io" where
  "adopt_children P parentId =
     update_messages (\<lambda>m. ms_parentMessageId m = None \<and> P m) (\<lambda>m. m\<lparr>ms_parentMessageId := Some parentId\<rparr>)"

definition record_sent :: "environment \<Rightarrow> instant \<Rightarrow> message \<times> conversation \<Rightarrow> string \<Rightarrow> instant option \<Rightarrow> message io" where
  \<comment> \<open>the transaction after its guard\<close>
  "record_sent env now outbound internetMessageId emailCreatedAt =
     io_bind (update_message (ms_id (fst outbound))
       (\<lambda>m. m\<lparr>ms_internetMessageId := Some internetMessageId,
               ms_emailCreatedAt := (case emailCreatedAt of None \<Rightarrow> ms_emailCreatedAt m | Some t \<Rightarrow> t)\<rparr>)) (\<lambda>updated s.
     (let target = snd outbound;
          children = threads_of (js_toLower (cv_participantAddress target))
            (\<lambda>m. ms_parentMessageId m = None \<and> ms_inReplyToInternetMessageId m = Some internetMessageId) s;
          ids = foreign_ids (cv_id target) children
      in io_bind (io_when (ids \<noteq> []) (merge_threads env target children now)) (\<lambda>_.
         io_bind (adopt_children (\<lambda>m. ms_id m \<in> set (map (\<lambda>(m, c). ms_id m) children) \<and> ms_conversationId m = Some (cv_id target))
           (ms_id (fst outbound))) (\<lambda>_.
         io_bind (io_when (ids \<noteq> []) (drop_conversations ids)) (\<lambda>_.
         io_bind (refresh_last_message (cv_id target)) (\<lambda>_. io_return updated)))) s))"

definition recordOutboundInternetMessageId ::
  "environment \<Rightarrow> instant \<Rightarrow> uuid \<Rightarrow> string \<Rightarrow> instant option \<Rightarrow> message io"
where
  "recordOutboundInternetMessageId env now messageId internetMessageId emailCreatedAt =
     transaction (\<lambda>s.
       case find_by ms_id messageId (messages s) of
         None \<Rightarrow> (Inl (PrismaError ''P2025''), s)
       | Some m \<Rightarrow>
           (case with_conversation s m of
              None \<Rightarrow> (Inl sent_metadata_error, s)
            | Some outbound \<Rightarrow>
                if ms_direction m \<noteq> OUTBOUND then (Inl sent_metadata_error, s)
                else record_sent env now outbound internetMessageId emailCreatedAt s))"

section \<open>A received email\<close>

record resend_email =
  re_message_id :: string
  re_from :: string
  re_to :: "string list"
  re_subject :: string
  re_created_at :: "instant option"
  re_text :: "string option"
  re_html :: "string option"
  re_headers :: "(string \<times> string) list option"
  re_reply_to :: "string list option"
  re_received_for :: "string list option"
  re_attachments :: "received_attachment list"

record email_event_data =
  ed_email_id :: string
  ed_from :: string
  ed_to :: "string list"
  ed_created_at :: instant
  ed_message_id :: "string option"
  ed_received_for :: "string list option"

text \<open>What the function computes from its arguments before the database is asked.\<close>

record inbound_mail =
  im_internetMessageId :: string
  im_effectiveParent :: "string option"
  im_references :: "string list"
  im_fromName :: "string option"
  im_participant :: string
  im_participantAddress :: string
  im_createdAt :: instant
  im_candidates :: "routing_candidate list"

definition inbound_mail_of :: "email_event_data \<Rightarrow> resend_email \<Rightarrow> inbound_mail" where
  "inbound_mail_of ed re =
     (let inReplyTo = js_at_last (extractMessageIds (getHeader (re_headers re) ''in-reply-to''));
          rawReferences = js_keep_last 100 (filter (\<lambda>i. length i \<le> 998)
            (extractMessageIds (getHeader (re_headers re) ''references'')));
          displayFrom = parseAddress (case getHeader (re_headers re) ''from'' of None \<Rightarrow> re_from re | Some v \<Rightarrow> v);
          participant = parseAddress (js_or (ed_from ed) (re_from re))
      in \<lparr>im_internetMessageId = (case ed_message_id ed of None \<Rightarrow> re_message_id re | Some i \<Rightarrow> i),
          im_effectiveParent = js_coalesce inReplyTo (js_at_last rawReferences),
          im_references = (case inReplyTo of
             None \<Rightarrow> rawReferences
           | Some i \<Rightarrow> filter (\<lambda>r. r \<noteq> i) rawReferences @ [i]),
          im_fromName = pa_name displayFrom,
          im_participant = pa_address participant,
          im_participantAddress = js_toLower (pa_address participant),
          im_createdAt = (case re_created_at re of None \<Rightarrow> ed_created_at ed | Some t \<Rightarrow> t),
          im_candidates = extractRoutingCandidates
            (re_to re @ ed_to ed @ (case re_received_for re of None \<Rightarrow> [] | Some xs \<Rightarrow> xs)
              @ (case ed_received_for ed of None \<Rightarrow> [] | Some xs \<Rightarrow> xs))\<rparr>)"

definition known_email :: "email_event_data \<Rightarrow> inbound_mail \<Rightarrow> message \<Rightarrow> bool" where
  \<comment> \<open>the OR of both lookups\<close>
  "known_email ed im m \<longleftrightarrow>
     ms_resendEmailId m = Some (ed_email_id ed) \<or> ms_internetMessageId m = Some (im_internetMessageId im)"

definition by_message_id :: "(message \<times> conversation) list \<Rightarrow> string \<Rightarrow> (message \<times> conversation) option" where
  "by_message_id eligible i = find (\<lambda>mc. ms_internetMessageId (fst mc) = Some i) eligible"

definition with_topic :: "(message \<times> conversation) option \<Rightarrow> conversation option" where
  \<comment> \<open>\<open>c?.topicType ? c : undefined\<close>\<close>
  "with_topic mc = (case mc of Some (m, c) \<Rightarrow> if truthy (cv_topicType c) then Some c else None | None \<Rightarrow> None)"

definition related_messages :: "inbound_mail \<Rightarrow> store \<Rightarrow> (message \<times> conversation) list" where
  \<comment> \<open>\<open>eligibleMessages\<close>\<close>
  "related_messages im s =
     (if im_references im = [] then []
      else threads_of (im_participantAddress im)
        (\<lambda>m. \<exists>i \<in> set (im_references im). ms_internetMessageId m = Some i) s)"

definition waiting_children :: "inbound_mail \<Rightarrow> store \<Rightarrow> (message \<times> conversation) list" where
  "waiting_children im s =
     threads_of (im_participantAddress im)
       (\<lambda>m. ms_parentMessageId m = None \<and> ms_inReplyToInternetMessageId m = Some (im_internetMessageId im)) s"

definition parent_of :: "inbound_mail \<Rightarrow> (message \<times> conversation) list \<Rightarrow> (message \<times> conversation) option" where
  "parent_of im eligible = Option.bind (im_effectiveParent im) (by_message_id eligible)"

definition threaded_conversation ::
  "inbound_mail \<Rightarrow> (message \<times> conversation) list \<Rightarrow> (message \<times> conversation) list \<Rightarrow> conversation option"
where
  \<comment> \<open>the conversation the references and the waiting replies point to\<close>
  "threaded_conversation im eligible waiting =
     (let parent = parent_of im eligible;
          nearestAncestor = js_head (List.map_filter (by_message_id eligible) (rev (im_references im)));
          assignedWaiting = map_option snd (find (\<lambda>(m, c). cv_topicType c \<noteq> None) waiting)
      in js_coalesce (with_topic parent)
         (js_coalesce (with_topic nearestAncestor)
         (js_coalesce assignedWaiting
         (js_coalesce (map_option snd parent)
         (js_coalesce (map_option snd nearestAncestor)
         (js_coalesce assignedWaiting (map_option snd (js_head waiting))))))))"

definition routes_to :: "string \<Rightarrow> inbound_mail \<Rightarrow> store \<Rightarrow> conversation \<Rightarrow> bool" where
  \<comment> \<open>the WHERE clause of the routed conversations and the filter behind it\<close>
  "routes_to replyToBaseAddress im s c \<longleftrightarrow>
     same_participant (im_participantAddress im) c
     \<and> ((\<exists>k \<in> set (im_candidates im). rc_routingToken k = cv_routingToken c
          \<and> rc_baseAddress k = (case cv_replyToBaseAddress c of
               None \<Rightarrow> js_toLower (js_trim replyToBaseAddress) | Some b \<Rightarrow> b))
        \<or> (\<exists>a \<in> set (aliases s). ra_conversationId a = cv_id c
             \<and> (\<exists>k \<in> set (im_candidates im). rc_routingToken k = ra_routingToken a \<and> rc_baseAddress k = ra_baseAddress a)))"

definition routed_conversation :: "string \<Rightarrow> inbound_mail \<Rightarrow> store \<Rightarrow> conversation option" where
  \<comment> \<open>only an unambiguous route counts\<close>
  "routed_conversation replyToBaseAddress im s =
     (if im_candidates im = [] then None
      else case filter (routes_to replyToBaseAddress im s) (conversations s) of
             [c] \<Rightarrow> Some c
           | _ \<Rightarrow> None)"

definition new_conversation :: "inbound_mail \<Rightarrow> string \<Rightarrow> uuid \<Rightarrow> uuid \<Rightarrow> instant \<Rightarrow> conversation" where
  "new_conversation im subject i token now =
     \<lparr>cv_id = i, cv_routingToken = token, cv_apiVersion = None, cv_topicType = None, cv_externalTopicId = None,
      cv_title = normalizeSubject subject, cv_subject = normalizeSubject subject,
      cv_participantAddress = im_participant im, cv_participantName = im_fromName im,
      cv_replyToBaseAddress = None, cv_replyToRequiresAllowlist = False, cv_state = AWAITING_US,
      cv_stateChangedAt = im_createdAt im, cv_lastMessageAt = im_createdAt im, cv_createdAt = now,
      cv_eventSequence = 0\<rparr>"

definition inbound_message ::
  "email_event_data \<Rightarrow> resend_email \<Rightarrow> inbound_mail \<Rightarrow> uuid \<Rightarrow> uuid option \<Rightarrow> uuid \<Rightarrow> instant \<Rightarrow> message"
where
  "inbound_message ed re im conversationId parentId i now =
     \<lparr>ms_id = i, ms_kind = CONVERSATION, ms_conversationId = Some conversationId, ms_parentMessageId = parentId,
      ms_direction = INBOUND, ms_state = RECEIVED, ms_stateDetail = None, ms_deliveryState = None,
      ms_deliveryStateDetail = None, ms_deliveryStateUpdatedAt = None, ms_deliveredAt = None,
      ms_resendEmailId = Some (ed_email_id ed), ms_internetMessageId = Some (im_internetMessageId im),
      ms_inReplyToInternetMessageId = im_effectiveParent im, ms_referenceInternetMessageIds = im_references im,
      ms_fromAddress = im_participant im, ms_fromName = im_fromName im,
      ms_toAddress = (case js_coalesce (js_head (re_to re)) (js_head (ed_to ed)) of None \<Rightarrow> [] | Some a \<Rightarrow> a),
      ms_toName = None, ms_toRecipients = None,
      ms_replyToAddress = Option.bind (re_reply_to re) js_head, ms_replyToName = None,
      ms_subject = re_subject re, ms_textBody = re_text re, ms_htmlBody = re_html re, ms_tags = None,
      ms_emailCreatedAt = im_createdAt im, ms_idempotencyKey = None, ms_requestHash = None, ms_createdAt = now\<rparr>"

definition inbound_event :: "inbound_mail \<Rightarrow> uuid \<Rightarrow> event_kind \<Rightarrow> event_input" where
  "inbound_event im conversationId kind = plain_event conversationId kind (im_createdAt im) ParticipantActor ''inbound_email''"

definition received_event :: "inbound_mail \<Rightarrow> uuid \<Rightarrow> uuid \<Rightarrow> nat \<Rightarrow> event_input" where
  "received_event im conversationId messageId attachmentCount =
     (inbound_event im conversationId MESSAGE_RECEIVED)
       \<lparr>ei_messageId := Some messageId, ei_attachmentCount := (if attachmentCount = 0 then None else Some attachmentCount)\<rparr>"

definition awaiting_us_event :: "inbound_mail \<Rightarrow> conversation \<Rightarrow> event_input" where
  \<comment> \<open>\<open>from\<close> is the state the conversation was read with\<close>
  "awaiting_us_event im c =
     (inbound_event im (cv_id c) STATE_CHANGED)
       \<lparr>ei_state := Some (Some (js_toLower (state_name (cv_state c))), ''awaiting_us'')\<rparr>"

definition finish_message ::
  "environment \<Rightarrow> (nat \<Rightarrow> uuid) \<Rightarrow> email_event_data \<Rightarrow> resend_email \<Rightarrow> inbound_mail \<Rightarrow> conversation \<Rightarrow> bool \<Rightarrow>
     message \<Rightarrow> message io"
where
  \<comment> \<open>from the attachments to the end of the transaction\<close>
  "finish_message env storageIds ed re im c createdConversation message =
     io_bind (projectInboundAttachments env storageIds (ms_id message) (ed_email_id ed) (re_attachments re)) (\<lambda>attachmentCount.
     io_bind (io_when createdConversation (append_event env (inbound_event im (cv_id c) CREATED))) (\<lambda>_.
     io_bind (append_event env (received_event im (cv_id c) (ms_id message) attachmentCount)) (\<lambda>_.
     io_bind (adopt_children (\<lambda>m. ms_inReplyToInternetMessageId m = Some (im_internetMessageId im)
         \<and> ms_conversationId m = Some (cv_id c)) (ms_id message)) (\<lambda>_.
     io_bind (refresh_last_message (cv_id c)) (\<lambda>_.
     io_bind (markConversationAwaitingUs (cv_id c) (im_createdAt im)) (\<lambda>stateChanged.
     io_bind (io_when (stateChanged \<and> \<not> createdConversation) (append_event env (awaiting_us_event im c))) (\<lambda>_.
     io_return message)))))))"

definition place_message ::
  "environment \<Rightarrow> (nat \<Rightarrow> uuid) \<Rightarrow> email_event_data \<Rightarrow> resend_email \<Rightarrow> inbound_mail \<Rightarrow> uuid option \<Rightarrow>
     conversation \<Rightarrow> bool \<Rightarrow> message io"
where
  "place_message env storageIds ed re im parentId c createdConversation =
     io_bind (insert_message (inbound_message ed re im (cv_id c) parentId))
       (finish_message env storageIds ed re im c createdConversation)"

definition reconcile_threads ::
  "environment \<Rightarrow> inbound_mail \<Rightarrow> conversation \<Rightarrow> (message \<times> conversation) list \<Rightarrow> unit io"
where
  "reconcile_threads env im c related =
     (let ids = foreign_ids (cv_id c) related
      in io_when (ids \<noteq> []) (io_bind (merge_threads env c related (im_createdAt im)) (\<lambda>_. drop_conversations ids)))"

definition project_transaction ::
  "environment \<Rightarrow> (nat \<Rightarrow> uuid) \<Rightarrow> email_event_data \<Rightarrow> resend_email \<Rightarrow> string \<Rightarrow> message io"
where
  \<comment> \<open>the body of the transaction\<close>
  "project_transaction env storageIds ed re replyToBaseAddress s =
     (let im = inbound_mail_of ed re
      in case find (\<lambda>m. ms_kind m = CONVERSATION \<and> known_email ed im m) (messages s) of
           Some existing \<Rightarrow> (Inr existing, s)
         | None \<Rightarrow>
             (let eligible = related_messages im s;
                  waiting = waiting_children im s;
                  parentId = map_option (\<lambda>(m, c). ms_id m) (parent_of im eligible);
                  found = js_coalesce (threaded_conversation im eligible waiting)
                            (routed_conversation replyToBaseAddress im s)
              in case found of
                   Some c \<Rightarrow>
                     io_bind (reconcile_threads env im c (eligible @ waiting))
                       (\<lambda>_. place_message env storageIds ed re im parentId c False) s
                 | None \<Rightarrow>
                     io_bind (insert_conversation (new_conversation im (re_subject re))) (\<lambda>c.
                     io_bind (reconcile_threads env im c (eligible @ waiting))
                       (\<lambda>_. place_message env storageIds ed re im parentId c True)) s))"

text \<open>The three attempts: before an attempt others may commit, and the database may refuse to
  serialise the transaction (P2034) whatever it did.\<close>

record projection_world =
  pw_meanwhile :: "nat \<Rightarrow> store \<Rightarrow> store"
  pw_refused :: "nat \<Rightarrow> bool"
  pw_storageIds :: "nat \<Rightarrow> nat \<Rightarrow> uuid"

definition attempt_projection ::
  "environment \<Rightarrow> projection_world \<Rightarrow> email_event_data \<Rightarrow> resend_email \<Rightarrow> string \<Rightarrow> nat \<Rightarrow> message io"
where
  "attempt_projection env w ed re base attempt =
     transaction (\<lambda>s.
       case project_transaction env (pw_storageIds w attempt) ed re base s of
         (r, s') \<Rightarrow> if pw_refused w attempt then (Inl (PrismaError ''P2034''), s') else (r, s'))"

fun project_attempts ::
  "environment \<Rightarrow> projection_world \<Rightarrow> email_event_data \<Rightarrow> resend_email \<Rightarrow> string \<Rightarrow> nat \<Rightarrow> nat \<Rightarrow> message io"
where
  "project_attempts env w ed re base attempt 0 s =
     (Inl (JsError ''Error'' ''Inbound projection retry limit exhausted''), s)"
| "project_attempts env w ed re base attempt (Suc left) s =
     (case attempt_projection env w ed re base attempt (pw_meanwhile w attempt s) of
        (Inr m, s') \<Rightarrow> (Inr m, s')
      | (Inl e, s') \<Rightarrow>
          if e = PrismaError ''P2034'' \<and> attempt < 2 then project_attempts env w ed re base (Suc attempt) left s'
          else if e = PrismaError ''P2002''
          then (case find (known_email ed (inbound_mail_of ed re)) (messages s') of
                  Some existing \<Rightarrow> (Inr existing, s')
                | None \<Rightarrow> (Inl e, s'))
          else (Inl e, s'))"

definition projectInboundEmail ::
  "environment \<Rightarrow> projection_world \<Rightarrow> email_event_data \<Rightarrow> resend_email \<Rightarrow> string \<Rightarrow> message io"
where
  "projectInboundEmail env w ed re base = project_attempts env w ed re base 0 3"

section \<open>Invariants of the threads\<close>

text \<open>
  What a projection may touch, as an interface: an invariant of the store that does not look at
  aliases, events, deliveries and attachments, that allows updates of the conversations (and of the
  messages within them) that are \<open>ok\<close>, and the deletion of the empty conversations that are
  \<open>spare\<close>. Every step of a projection keeps such an invariant.
\<close>

definition unplaced :: "message \<Rightarrow> message" where
  \<comment> \<open>a message but for its place\<close>
  "unplaced m = m\<lparr>ms_conversationId := None, ms_parentMessageId := None\<rparr>"

lemma unplaced_place [simp]:
  "unplaced (m\<lparr>ms_conversationId := c\<rparr>) = unplaced m" "unplaced (m\<lparr>ms_parentMessageId := p\<rparr>) = unplaced m"
  by (simp_all add: unplaced_def)

lemma unplaced_eqD:
  assumes "unplaced a = unplaced b"
  shows "ms_id a = ms_id b" "ms_kind a = ms_kind b" "ms_resendEmailId a = ms_resendEmailId b"
    "ms_internetMessageId a = ms_internetMessageId b"
  using arg_cong [OF assms, of ms_id] arg_cong [OF assms, of ms_kind] arg_cong [OF assms, of ms_resendEmailId]
    arg_cong [OF assms, of ms_internetMessageId]
  by (simp_all add: unplaced_def)

locale thread_invariant =
  fixes I :: "store \<Rightarrow> bool" and ok :: "uuid \<Rightarrow> bool" and spare :: "uuid \<Rightarrow> bool"
  assumes side_tables: "I s \<Longrightarrow> I (s\<lparr>aliases := al, attachments := ats, events := es, deliveries := ds, id_count := n\<rparr>)"
    and conversation_update: "I s \<Longrightarrow> (\<And>c. P c \<Longrightarrow> ok (cv_id c)) \<Longrightarrow> (\<And>c. cv_id (f c) = cv_id c) \<Longrightarrow>
      (\<And>c. cv_participantAddress (f c) = cv_participantAddress c) \<Longrightarrow>
      I (s\<lparr>conversations := update_where P f (conversations s)\<rparr>)"
    and message_update: "I s \<Longrightarrow> (\<And>m. Q m \<Longrightarrow> \<exists>i. ms_conversationId m = Some i \<and> ok i) \<Longrightarrow>
      (\<And>m. Q m \<Longrightarrow> \<exists>i. ms_conversationId (g m) = Some i \<and> ok i) \<Longrightarrow> (\<And>m. unplaced (g m) = unplaced m) \<Longrightarrow>
      I (s\<lparr>messages := update_where Q g (messages s)\<rparr>)"
    and conversation_delete: "I s \<Longrightarrow> (\<And>i. i \<in> set ids \<Longrightarrow> spare i) \<Longrightarrow>
      (\<And>m i. m \<in> set (messages s) \<Longrightarrow> ms_conversationId m = Some i \<Longrightarrow> i \<notin> set ids) \<Longrightarrow>
      I (s\<lparr>conversations := delete_where (\<lambda>c. cv_id c \<in> set ids) (conversations s)\<rparr>)"

lemma create_aliases_frame: "\<exists>al n. create_aliases i cs s = s\<lparr>aliases := al, id_count := n\<rparr>"
proof (induction i cs s rule: create_aliases.induct)
  case (1 targetId s)
  then show ?case by (intro exI [of _ "aliases s"] exI [of _ "id_count s"]) simp
next
  case (2 targetId c cs s)
  then show ?case
    by (fastforce simp: draw_id_def split: option.split)
qed

lemma insert_inbound_frame:
  "\<exists>ats k. snd (insert_inbound env m e srcs n s) = s\<lparr>attachments := ats, id_count := k\<rparr>"
proof (induction env m e srcs n s rule: insert_inbound.induct)
  case (1 env messageId resendEmailId n s)
  then show ?case by (intro exI [of _ "attachments s"] exI [of _ "id_count s"]) simp
next
  case (2 env messageId resendEmailId src srcs n s)
  then show ?case by (fastforce simp: draw_id_def Let_def)
qed

lemma inbound_attachments_frame:
  "\<exists>ats k. snd (projectInboundAttachments env storageIds m e as s) = s\<lparr>attachments := ats, id_count := k\<rparr>"
proof -
  have same: "\<exists>ats k. s = s\<lparr>attachments := ats, id_count := k\<rparr>"
    by (intro exI [of _ "attachments s"] exI [of _ "id_count s"]) simp
  then show ?thesis
    using insert_inbound_frame
    by (auto simp: projectInboundAttachments_def Let_def split: prod.split) (metis snd_conv)
qed

lemma merged_conversation_simps [simp]:
  "cv_id (merged_conversation t ss c) = cv_id c"
  "cv_participantAddress (merged_conversation t ss c) = cv_participantAddress c"
  by (simp_all add: merged_conversation_def set_state_def Let_def split: option.split prod.split)

lemma set_state_simps [simp]:
  "cv_id (set_state st t c) = cv_id c" "cv_participantAddress (set_state st t c) = cv_participantAddress c"
  by (simp_all add: set_state_def)

lemma merged_event_conversation [simp]: "ei_conversationId (merged_event i t x) = i"
  by (simp add: merged_event_def plain_event_def)

lemma inbound_event_conversations [simp]:
  "ei_conversationId (inbound_event im i k) = i" "ei_conversationId (received_event im i m n) = i"
  "ei_conversationId (awaiting_us_event im c) = cv_id c"
  by (simp_all add: inbound_event_def received_event_def awaiting_us_event_def plain_event_def)

lemma append_event_messages: "messages (snd (append_event env input s)) = messages s"
proof (cases "appendConversationEvent env input s")
  case (Pair r t)
  with append_frame(1) [OF Pair] show ?thesis by (cases r) (simp_all add: append_event_def io_bind_def)
qed

lemma record_merges_messages: "messages (snd (recordConversationMerges env i ids t s)) = messages s"
proof -
  have each: "io_keeps (\<lambda>s'. messages s' = messages s) (append_event env input)" for input
    by (simp add: io_keeps_def append_event_messages)
  have "io_keeps (\<lambda>s'. messages s' = messages s) (recordConversationMerges env i ids t)"
    unfolding recordConversationMerges_def by (intro keeps_intros each)
  then show ?thesis by (simp add: io_keeps_def)
qed

lemma create_aliases_messages [simp]: "messages (create_aliases i cs s) = messages s"
  using create_aliases_frame [of i cs s] by auto

lemma preserve_messages: "messages (snd (preserveMergedConversationState target sources s)) = messages s"
proof -
  have update: "io_keeps (\<lambda>s'. messages s' = messages s) (update_conversation i f)" for i f
    by (simp add: io_keeps_def update_conversation_def)
  have "io_keeps (\<lambda>s'. messages s' = messages s) (preserveMergedConversationState target sources)"
    unfolding preserveMergedConversationState_def Let_def
    by (cases "uniqueSources target sources = []") (auto intro!: keeps_intros update)
  then show ?thesis by (simp add: io_keeps_def)
qed

text \<open>After the move no message is left in the merged conversations.\<close>

lemma merge_threads_moved:
  assumes "merge_threads env target related t s = (r, s')" and "r = Inr ()"
    and "m \<in> set (messages s')" and "ms_conversationId m = Some i"
  shows "i \<notin> set (foreign_ids (cv_id target) related)"
proof -
  let ?ids = "foreign_ids (cv_id target) related"
  have target: "cv_id target \<notin> set ?ids" by (auto simp: foreign_ids_def)
  obtain s1 s2 where move: "move_messages ?ids (cv_id target) s1 = (Inr (), s2)"
    and rest: "recordConversationMerges env (cv_id target) ?ids t s2 = (Inr (), s')"
    using assms(1,2) unfolding merge_threads_def Let_def by (auto elim!: io_bind_InrE)
  have "messages s' = messages s2" using record_merges_messages [of env _ _ t s2] rest by (metis snd_conv)
  then have "m \<in> set (update_where (in_conversations ?ids) (\<lambda>m. m\<lparr>ms_conversationId := Some (cv_id target)\<rparr>) (messages s1))"
    using assms(3) move by (auto simp: move_messages_def update_messages_def)
  then show ?thesis using assms(4) target by (auto simp: set_update_where in_conversations_def split: option.splits if_splits)
qed

context thread_invariant
begin

lemma keeps_aliases: "I s \<Longrightarrow> I (s\<lparr>aliases := al, id_count := n\<rparr>)"
  using side_tables [where s = s and ats = "attachments s" and es = "events s" and ds = "deliveries s"] by simp

lemma append_event_keeps: "ok (ei_conversationId input) \<Longrightarrow> io_keeps I (append_event env input)"
  unfolding io_keeps_def
proof (intro allI impI)
  fix s assume okay: "ok (ei_conversationId input)" and s: "I s"
  have "I t" if "appendConversationEvent env input s = (r, t)" for r t
  proof (cases rule: append_cases [of env input s])
    case (unchanged r')
    with that s show ?thesis by simp
  next
    case (written r' cs n es ds)
    have "I (s\<lparr>conversations := cs\<rparr>)"
      unfolding written(2) using s okay by (intro conversation_update) (auto simp: increment_sequence_def)
    from side_tables [OF this, where al = "aliases s" and ats = "attachments s" and es = es and ds = ds and n = n]
    have "I (s\<lparr>conversations := cs, id_count := n, events := es, deliveries := ds\<rparr>)" by (cases s) simp
    with written(1) that show ?thesis by (simp only: prod.inject)
  qed
  then show "I (snd (append_event env input s))"
    by (cases "appendConversationEvent env input s"; cases "fst (appendConversationEvent env input s)")
      (auto simp: append_event_def io_bind_def)
qed

lemma update_conversation_keeps:
  assumes "ok i" "\<And>c. cv_id (f c) = cv_id c" "\<And>c. cv_participantAddress (f c) = cv_participantAddress c"
  shows "io_keeps I (update_conversation i f)"
  using assms by (auto simp: io_keeps_def update_conversation_def intro!: conversation_update)

lemma preserve_keeps: "ok (cv_id target) \<Longrightarrow> io_keeps I (preserveMergedConversationState target sources)"
proof -
  assume okay: "ok (cv_id target)"
  have "I (create_aliases i cs s)" if "I s" for i cs s
    using create_aliases_frame [of i cs s] keeps_aliases [OF that] by auto
  moreover have "I (s\<lparr>aliases := al\<rparr>)" if "I s" for s al using keeps_aliases [OF that, where n = "id_count s"] by simp
  ultimately show ?thesis
    unfolding preserveMergedConversationState_def Let_def
    using okay by (cases "uniqueSources target sources = []") (auto intro!: keeps_intros update_conversation_keeps)
qed

lemma move_keeps: "(\<And>i. i \<in> set ids \<Longrightarrow> ok i) \<Longrightarrow> ok target \<Longrightarrow> io_keeps I (move_messages ids target)"
  unfolding move_messages_def update_messages_def
  by (intro keeps_intros message_update) (auto simp: in_conversations_def split: option.splits)

lemma adopt_keeps:
  "(\<And>m. P m \<Longrightarrow> \<exists>i. ms_conversationId m = Some i \<and> ok i) \<Longrightarrow> io_keeps I (adopt_children P parentId)"
  unfolding adopt_children_def update_messages_def by (intro keeps_intros message_update) auto

lemma refresh_keeps: "ok i \<Longrightarrow> io_keeps I (refresh_last_message i)"
proof -
  assume okay: "ok i"
  have "io_keeps I (update_conversation i (\<lambda>c. c\<lparr>cv_lastMessageAt := t\<rparr>))" for t
    using okay by (intro update_conversation_keeps) simp_all
  then show ?thesis unfolding io_keeps_def refresh_last_message_def Let_def by simp
qed

lemma mark_keeps: "ok i \<Longrightarrow> io_keeps I (markConversationAwaitingUs i t)"
  unfolding io_keeps_def markConversationAwaitingUs_def applyAutomaticState_def Let_def
  by (auto intro!: conversation_update simp: may_change_to_def)

lemma merge_threads_keeps:
  "(\<And>i. i \<in> set (foreign_ids (cv_id target) related) \<Longrightarrow> ok i) \<Longrightarrow> ok (cv_id target) \<Longrightarrow>
     io_keeps I (merge_threads env target related t)"
  unfolding merge_threads_def Let_def recordConversationMerges_def
  by (intro keeps_intros preserve_keeps move_keeps append_event_keeps) auto

lemma drop_keeps:
  assumes "I s" and "\<And>i. i \<in> set ids \<Longrightarrow> spare i"
    and "\<And>m i. m \<in> set (messages s) \<Longrightarrow> ms_conversationId m = Some i \<Longrightarrow> i \<notin> set ids"
  shows "I (snd (drop_conversations ids s))"
proof -
  let ?P = "\<lambda>c. cv_id c \<in> set ids"
  have "delete_conversations ?P s = s\<lparr>conversations := delete_where ?P (conversations s),
      aliases := delete_where (\<lambda>a. ra_conversationId a \<in> cv_id ` set (filter ?P (conversations s))) (aliases s)\<rparr>"
    using assms(3) by (intro delete_conversations_messages) auto
  moreover have "I (s\<lparr>conversations := delete_where ?P (conversations s)\<rparr>)"
    using assms by (rule conversation_delete)
  ultimately show ?thesis
    using keeps_aliases [where s = "s\<lparr>conversations := delete_where ?P (conversations s)\<rparr>" and n = "id_count s"]
    by (simp add: drop_conversations_def)
qed

lemma reconcile_keeps_threads:
  assumes "\<And>i. i \<in> set (foreign_ids (cv_id c) related) \<Longrightarrow> ok i \<and> spare i" and "ok (cv_id c)"
  shows "io_keeps I (reconcile_threads env im c related)"
proof -
  let ?ids = "foreign_ids (cv_id c) related"
  have "I (snd (io_bind (merge_threads env c related (im_createdAt im)) (\<lambda>_. drop_conversations ?ids) s))" if s: "I s" for s
  proof -
    obtain r s' where run: "merge_threads env c related (im_createdAt im) s = (r, s')" by fastforce
    have s': "I s'" using io_keepsD [OF merge_threads_keeps s run] assms by blast
    show ?thesis
    proof (cases r)
      case (Inl e)
      with run s' show ?thesis by simp
    next
      case (Inr u)
      then have "I (snd (drop_conversations ?ids s'))"
        using s' assms(1) merge_threads_moved [OF run] by (intro drop_keeps) auto
      with Inr run show ?thesis by simp
    qed
  qed
  then show ?thesis unfolding reconcile_threads_def Let_def io_when_def io_keeps_def by simp
qed

lemma attachments_keep: "io_keeps I (projectInboundAttachments env storageIds i e as)"
  unfolding io_keeps_def
proof (intro allI impI)
  fix s assume s: "I s"
  obtain ats k where f: "snd (projectInboundAttachments env storageIds i e as s) = s\<lparr>attachments := ats, id_count := k\<rparr>"
    using inbound_attachments_frame by blast
  show "I (snd (projectInboundAttachments env storageIds i e as s))"
    using side_tables [OF s, where al = "aliases s" and ats = ats and es = "events s" and ds = "deliveries s" and n = k]
    unfolding f by simp
qed

lemma finish_keeps: "ok (cv_id c) \<Longrightarrow> io_keeps I (finish_message env storageIds ed re im c created m)"
  unfolding finish_message_def
  by (intro keeps_intros attachments_keep append_event_keeps adopt_keeps refresh_keeps mark_keeps) auto

end

section \<open>Four invariants\<close>

lemma bex_update_where:
  assumes "\<exists>x \<in> set xs. R x" and "\<And>x. R (f x) = R x"
  shows "\<exists>x \<in> set (update_where P f xs). R x"
  using assms by (induction xs) auto

text \<open>The conversations of others: one conversation and the messages in it.\<close>

definition conversation_view :: "uuid \<Rightarrow> store \<Rightarrow> conversation list \<times> message list" where
  "conversation_view k s =
     (filter (\<lambda>c. cv_id c = k) (conversations s), filter (\<lambda>m. ms_conversationId m = Some k) (messages s))"

lemma filter_update_other:
  "(\<And>x. P x \<Longrightarrow> \<not> R x) \<Longrightarrow> (\<And>x. P x \<Longrightarrow> \<not> R (f x)) \<Longrightarrow> filter R (update_where P f xs) = filter R xs"
  by (induction xs) auto

interpretation apart: thread_invariant "\<lambda>s. conversation_view k s = v" "\<lambda>i. i \<noteq> k" "\<lambda>i. i \<noteq> k" for k v
proof
  fix s and P :: "conversation \<Rightarrow> bool" and f :: "conversation \<Rightarrow> conversation"
  assume s: "conversation_view k s = v" and P: "\<And>c. P c \<Longrightarrow> cv_id c \<noteq> k" and f: "\<And>c. cv_id (f c) = cv_id c"
  have "filter (\<lambda>c. cv_id c = k) (update_where P f (conversations s)) = filter (\<lambda>c. cv_id c = k) (conversations s)"
    using P f by (intro filter_update_other) auto
  with s show "conversation_view k (s\<lparr>conversations := update_where P f (conversations s)\<rparr>) = v"
    by (simp add: conversation_view_def)
next
  fix s and Q :: "message \<Rightarrow> bool" and g :: "message \<Rightarrow> message"
  assume s: "conversation_view k s = v" and Q: "\<And>m. Q m \<Longrightarrow> \<exists>i. ms_conversationId m = Some i \<and> i \<noteq> k"
    "\<And>m. Q m \<Longrightarrow> \<exists>i. ms_conversationId (g m) = Some i \<and> i \<noteq> k"
  have "filter (\<lambda>m. ms_conversationId m = Some k) (update_where Q g (messages s)) = filter (\<lambda>m. ms_conversationId m = Some k) (messages s)"
    using Q by (intro filter_update_other) (metis option.inject)+
  with s show "conversation_view k (s\<lparr>messages := update_where Q g (messages s)\<rparr>) = v"
    by (simp add: conversation_view_def)
next
  fix s ids
  assume s: "conversation_view k s = v" and spare: "\<And>i. i \<in> set ids \<Longrightarrow> i \<noteq> k"
  have "filter (\<lambda>c. cv_id c = k) (delete_where (\<lambda>c. cv_id c \<in> set ids) (conversations s)) = filter (\<lambda>c. cv_id c = k) (conversations s)"
    using spare by (induction "conversations s") (auto simp: delete_where_def intro!: filter_cong)
  with s show "conversation_view k (s\<lparr>conversations := delete_where (\<lambda>c. cv_id c \<in> set ids) (conversations s)\<rparr>) = v"
    by (simp add: conversation_view_def)
qed (simp add: conversation_view_def)

text \<open>No message comes or goes.\<close>

interpretation same_messages: thread_invariant "\<lambda>s. map unplaced (messages s) = l" "\<lambda>i. True" "\<lambda>i. True" for l
  by unfold_locales (simp_all add: map_update_where)

text \<open>The conversation the email goes to stays, with its participant.\<close>

definition has_conversation :: "uuid \<Rightarrow> string \<Rightarrow> store \<Rightarrow> bool" where
  "has_conversation k p s \<longleftrightarrow> (\<exists>c \<in> set (conversations s). cv_id c = k \<and> same_participant p c)"

interpretation kept_target: thread_invariant "has_conversation k p" "\<lambda>i. True" "\<lambda>i. i \<noteq> k" for k p
proof
  fix s and P :: "conversation \<Rightarrow> bool" and f :: "conversation \<Rightarrow> conversation"
  assume "has_conversation k p s" "\<And>c. cv_id (f c) = cv_id c" "\<And>c. cv_participantAddress (f c) = cv_participantAddress c"
  then show "has_conversation k p (s\<lparr>conversations := update_where P f (conversations s)\<rparr>)"
    unfolding has_conversation_def by (simp add: bex_update_where same_participant_def)
qed (auto simp: has_conversation_def)

text \<open>The email is there.\<close>

definition has_email :: "email_event_data \<Rightarrow> inbound_mail \<Rightarrow> store \<Rightarrow> bool" where
  "has_email ed im s \<longleftrightarrow> (\<exists>m \<in> set (messages s). ms_kind m = CONVERSATION \<and> known_email ed im m)"

interpretation email_there: thread_invariant "has_email ed im" "\<lambda>i. True" "\<lambda>i. True" for ed im
proof
  fix s and Q :: "message \<Rightarrow> bool" and g :: "message \<Rightarrow> message"
  assume s: "has_email ed im s" and g: "\<And>m. unplaced (g m) = unplaced m"
  have "ms_kind (g m) = ms_kind m" "known_email ed im (g m) = known_email ed im m" for m
    using unplaced_eqD [OF g [of m]] by (simp_all add: known_email_def)
  with s show "has_email ed im (s\<lparr>messages := update_where Q g (messages s)\<rparr>)"
    unfolding has_email_def by (simp add: bex_update_where)
qed (auto simp: has_email_def)

section \<open>The transaction\<close>

lemma threads_ofD:
  assumes "(m, c) \<in> set (threads_of p P s)"
  shows "m \<in> set (messages s)" "c \<in> set (conversations s)" "ms_conversationId m = Some (cv_id c)"
    "same_participant p c" "P m"
  using assms find_by_SomeD [of cv_id _ "conversations s"]
  by (fastforce simp: threads_of_def with_conversation_def List.map_filter_def split: option.splits if_splits)+

definition related_to :: "inbound_mail \<Rightarrow> store \<Rightarrow> (message \<times> conversation) list" where
  "related_to im s = related_messages im s @ waiting_children im s"

lemma related_toD:
  assumes "(m, c) \<in> set (related_to im s)"
  shows "c \<in> set (conversations s)" "same_participant (im_participantAddress im) c"
  using assms threads_ofD by (auto simp: related_to_def related_messages_def waiting_children_def split: if_splits)

lemma foreign_ids_related:
  assumes "i \<in> set (foreign_ids k (related_to im s))"
  obtains c where "c \<in> set (conversations s)" "cv_id c = i" "same_participant (im_participantAddress im) c" "i \<noteq> k"
proof -
  obtain m c where c: "(m, c) \<in> set (related_to im s)" "cv_id c = i" "cv_id c \<noteq> k"
    using assms by (auto simp: foreign_ids_def)
  show thesis by (rule that [of c]) (use c related_toD [OF c(1)] in auto)
qed

lemma js_head_SomeD: "js_head xs = Some x \<Longrightarrow> x \<in> set xs"
  by (cases xs) simp_all

lemma js_coalesceE: "js_coalesce a b = Some c \<Longrightarrow> (a = Some c \<Longrightarrow> P) \<Longrightarrow> (b = Some c \<Longrightarrow> P) \<Longrightarrow> P"
  by (auto simp: js_coalesce_def split: option.splits)

lemma found_conversation:
  assumes "js_coalesce (threaded_conversation im (related_messages im s) (waiting_children im s)) (routed_conversation base im s) = Some c"
  shows "c \<in> set (conversations s) \<and> same_participant (im_participantAddress im) c"
proof (cases "threaded_conversation im (related_messages im s) (waiting_children im s)")
  case None
  then have "filter (routes_to base im s) (conversations s) = [c]"
    using assms by (auto simp: routed_conversation_def split: if_splits list.splits)
  then have "c \<in> set (filter (routes_to base im s) (conversations s))" by simp
  then show ?thesis by (simp add: routes_to_def)
next
  case (Some d)
  let ?rel = "related_messages im s" and ?wait = "waiting_children im s"
  have by_id: "mc \<in> set ?rel" if "by_message_id ?rel i = Some mc" for i mc
    using that by (auto simp: by_message_id_def find_Some_iff)
  then have parent: "mc \<in> set ?rel" if "parent_of im ?rel = Some mc" for mc
    using that unfolding parent_of_def bind_eq_Some_conv by blast
  have ancestor: "mc \<in> set ?rel" if "js_head (List.map_filter (by_message_id ?rel) is) = Some mc" for mc "is"
    using js_head_SomeD [OF that] by_id by (auto simp: List.map_filter_def)
  have assigned: "mc \<in> set ?wait" if "find P ?wait = Some mc" for mc P
    using that by (auto simp: find_Some_iff)
  have topic: "\<exists>mc. x = Some mc \<and> snd mc = e" if "with_topic x = Some e" for x e
    using that by (auto simp: with_topic_def split: option.splits prod.splits if_splits)
  have "c = d" using assms Some by (simp add: js_coalesce_def)
  have "\<exists>mc \<in> set (?rel @ ?wait). snd mc = d"
    using Some unfolding threaded_conversation_def Let_def
    by (elim js_coalesceE) (fastforce dest!: topic dest: parent ancestor assigned js_head_SomeD)+
  then obtain mc where "mc \<in> set (related_to im s)" "snd mc = c" using \<open>c = d\<close> unfolding related_to_def by blast
  then show ?thesis using related_toD [of "fst mc" "snd mc" im s] by (metis prod.collapse)
qed

text \<open>A transaction either finds the email or files it in a conversation of its sender that exists or is
  new.\<close>

lemma project_transaction_cases:
  assumes "project_transaction env storageIds ed re base s = (r, t)"
  obtains (existing) m where "r = Inr m" "t = s" "m \<in> set (messages s)" "ms_kind m = CONVERSATION"
      "known_email ed (inbound_mail_of ed re) m"
  | (filed) c pid created s1 where "\<not> has_email ed (inbound_mail_of ed re) s"
      "same_participant (im_participantAddress (inbound_mail_of ed re)) c"
      "io_bind (reconcile_threads env (inbound_mail_of ed re) c (related_to (inbound_mail_of ed re) s))
        (\<lambda>_. place_message env storageIds ed re (inbound_mail_of ed re) pid c created) s1 = (r, t)"
      "c \<in> set (conversations s1)" "messages s1 = messages s"
      "s1 = s \<or> s1 = s\<lparr>conversations := conversations s @ [c], id_count := Suc (Suc (id_count s))\<rparr>
        \<and> cv_id c = id_source s (id_count s)"
  | (failed) e where "r = Inl e" "messages t = messages s"
proof -
  let ?im = "inbound_mail_of ed re"
  show thesis
  proof (cases "find (\<lambda>m. ms_kind m = CONVERSATION \<and> known_email ed ?im m) (messages s)")
    case (Some m)
    then have "m \<in> set (messages s)" "ms_kind m = CONVERSATION" "known_email ed ?im m"
      by (auto simp: find_Some_iff)
    with existing [of m] assms Some show thesis by (simp add: project_transaction_def Let_def)
  next
    case None
    then have new: "\<not> has_email ed ?im s" by (auto simp: has_email_def find_None_iff)
    let ?found = "js_coalesce (threaded_conversation ?im (related_messages ?im s) (waiting_children ?im s)) (routed_conversation base ?im s)"
    let ?pid = "map_option (\<lambda>(m, c). ms_id m) (parent_of ?im (related_messages ?im s))"
    show thesis
    proof (cases ?found)
      case (Some c)
      have "c \<in> set (conversations s) \<and> same_participant (im_participantAddress ?im) c"
        using Some by (rule found_conversation)
      with filed [of c ?pid False s] assms None Some new show thesis
        by (simp add: project_transaction_def Let_def related_to_def)
    next
      case none: None
      let ?new = "new_conversation ?im (re_subject re)"
      show thesis
      proof (cases "insert_conversation ?new s")
        case (Pair x s1)
        show thesis
        proof (cases x)
          case (Inl e)
          with failed [of e] assms None none Pair show thesis
            by (auto simp: project_transaction_def Let_def insert_conversation_def draw_id_def split: if_splits)
        next
          case (Inr c)
          then have s1: "s1 = s\<lparr>conversations := conversations s @ [c], id_count := Suc (Suc (id_count s))\<rparr>"
            "c = ?new (id_source s (id_count s)) (id_source s (Suc (id_count s))) (db_now s)"
            using Pair by (auto simp: insert_conversation_def draw_id_def Let_def split: if_splits)
          have "same_participant (im_participantAddress ?im) c"
            by (simp add: s1(2) new_conversation_def same_participant_def inbound_mail_of_def Let_def)
          moreover have "io_bind (reconcile_threads env ?im c (related_to ?im s))
              (\<lambda>_. place_message env storageIds ed re ?im ?pid c True) s1 = (r, t)"
            using assms None none Pair Inr by (simp add: project_transaction_def Let_def related_to_def)
          moreover have "cv_id c = id_source s (id_count s)" by (simp add: s1(2) new_conversation_def)
          moreover have "c \<in> set (conversations s1)" "messages s1 = messages s" using s1(1) by simp_all
          ultimately show thesis using filed [of c ?pid True s1] new s1(1) by blast
        qed
      qed
    qed
  qed
qed

text \<open>What a filing keeps: the invariants of the interface through the reconciliation, and after the
  insertion of the message through the rest.\<close>

lemma filed_InrE:
  assumes "io_bind (reconcile_threads env im c related) (\<lambda>_. place_message env storageIds ed re im pid c created) s1 = (Inr m, t)"
  obtains s2 s3 where "reconcile_threads env im c related s1 = (Inr (), s2)"
    "m = inbound_message ed re im (cv_id c) pid (id_source s2 (id_count s2)) (db_now s2)"
    "s3 = s2\<lparr>messages := messages s2 @ [m], id_count := Suc (id_count s2)\<rparr>"
    "finish_message env storageIds ed re im c created m s3 = (Inr m, t)"
proof -
  obtain s2 where s2: "reconcile_threads env im c related s1 = (Inr (), s2)"
    and place: "place_message env storageIds ed re im pid c created s2 = (Inr m, t)"
    using io_bind_InrE [OF assms] by (metis (full_types) old.unit.exhaust)
  obtain m' s3 where ins: "insert_message (inbound_message ed re im (cv_id c) pid) s2 = (Inr m', s3)"
    and fin: "finish_message env storageIds ed re im c created m' s3 = (Inr m, t)"
    using place unfolding place_message_def by (rule io_bind_InrE)
  have "m = m'" using fin unfolding finish_message_def by (auto elim!: io_bind_InrE)
  moreover have "m' = inbound_message ed re im (cv_id c) pid (id_source s2 (id_count s2)) (db_now s2)"
    "s3 = s2\<lparr>messages := messages s2 @ [m'], id_count := Suc (id_count s2)\<rparr>"
    using ins by (auto simp: insert_message_def draw_id_def Let_def split: if_splits)
  ultimately show thesis using that [OF s2, of s3] fin by simp
qed

lemma filed_effect:
  assumes run: "io_bind (reconcile_threads env im c (related_to im s)) (\<lambda>_. place_message env storageIds ed re im pid c created) s1 = (Inr m, t)"
    and part: "same_participant (im_participantAddress im) c" and c: "c \<in> set (conversations s1)"
    and msgs: "messages s1 = messages s"
  shows "map unplaced (messages t) = map unplaced (messages s) @ [unplaced m]" "ms_conversationId m = Some (cv_id c)"
    "has_conversation (cv_id c) (im_participantAddress im) t" "ms_kind m = CONVERSATION" "known_email ed im m"
proof -
  obtain s2 s3 where s2: "reconcile_threads env im c (related_to im s) s1 = (Inr (), s2)"
    and m: "m = inbound_message ed re im (cv_id c) pid (id_source s2 (id_count s2)) (db_now s2)"
    and s3: "s3 = s2\<lparr>messages := messages s2 @ [m], id_count := Suc (id_count s2)\<rparr>"
    and fin: "finish_message env storageIds ed re im c created m s3 = (Inr m, t)"
    using filed_InrE [OF run] by blast
  have "map unplaced (messages s2) = map unplaced (messages s)"
    using io_keepsD [OF same_messages.reconcile_keeps_threads [OF _ TrueI] _ s2, of "map unplaced (messages s1)"] msgs by simp
  then have "map unplaced (messages s3) = map unplaced (messages s) @ [unplaced m]" by (simp add: s3)
  with io_keepsD [OF same_messages.finish_keeps [OF TrueI] _ fin, of "map unplaced (messages s3)"]
  show "map unplaced (messages t) = map unplaced (messages s) @ [unplaced m]" by simp
  show "ms_conversationId m = Some (cv_id c)" "ms_kind m = CONVERSATION" "known_email ed im m"
    by (simp_all add: m inbound_message_def known_email_def)
  have "has_conversation (cv_id c) (im_participantAddress im) s1" using part c by (auto simp: has_conversation_def)
  then have "has_conversation (cv_id c) (im_participantAddress im) s2"
    by (rule io_keepsD [OF kept_target.reconcile_keeps_threads _ s2, rotated -1]) (auto simp: foreign_ids_def)
  then have "has_conversation (cv_id c) (im_participantAddress im) s3" by (simp add: s3 has_conversation_def)
  then show "has_conversation (cv_id c) (im_participantAddress im) t"
    by (rule io_keepsD [OF kept_target.finish_keeps [OF TrueI] _ fin])
qed

lemma filed_apart:
  assumes run: "io_bind (reconcile_threads env im c (related_to im s)) (\<lambda>_. place_message env storageIds ed re im pid c created) s1 = (r, t)"
    and other: "\<And>d. d \<in> set (conversations s) \<Longrightarrow> same_participant (im_participantAddress im) d \<Longrightarrow> cv_id d \<noteq> k"
    and c: "cv_id c \<noteq> k"
  shows "conversation_view k t = conversation_view k s1"
proof -
  have rec: "io_keeps (\<lambda>s. conversation_view k s = v) (reconcile_threads env im c (related_to im s))" for v
    by (rule apart.reconcile_keeps_threads [OF _ c]) (use other in \<open>auto elim!: foreign_ids_related\<close>)
  have ins: "io_keeps (\<lambda>s. conversation_view k s = v) (insert_message (inbound_message ed re im (cv_id c) pid))" for v
    using c by (auto simp: io_keeps_def insert_message_def draw_id_def conversation_view_def inbound_message_def Let_def)
  have "io_keeps (\<lambda>s. conversation_view k s = v)
      (io_bind (reconcile_threads env im c (related_to im s)) (\<lambda>_. place_message env storageIds ed re im pid c created))" for v
    unfolding place_message_def by (intro keeps_intros rec ins apart.finish_keeps) (rule c)
  from io_keepsD [OF this refl run] show ?thesis .
qed

lemma attempt_InrD:
  "attempt_projection env w ed re base n s = (Inr m, t) \<Longrightarrow>
     project_transaction env (pw_storageIds w n) ed re base s = (Inr m, t)"
  by (auto simp: attempt_projection_def transaction_def split: prod.splits sum.splits if_splits)

lemma attempt_InlD: "attempt_projection env w ed re base n s = (Inl e, t) \<Longrightarrow> t = s"
  by (auto simp: attempt_projection_def transaction_def split: prod.splits sum.splits if_splits)

lemma attempt_has_email:
  assumes "attempt_projection env w ed re base n s = (Inr m, t)"
  shows "has_email ed (inbound_mail_of ed re) t"
  using attempt_InrD [OF assms]
proof (cases rule: project_transaction_cases)
  case (existing m')
  then show ?thesis by (auto simp: has_email_def)
next
  case (filed c pid created s1)
  note f = filed_effect [OF filed(3,2,4,5)]
  have "unplaced m \<in> set (map unplaced (messages t))" by (simp add: f(1))
  then obtain r where r: "r \<in> set (messages t)" "unplaced r = unplaced m" by auto
  have "ms_kind r = CONVERSATION" "known_email ed (inbound_mail_of ed re) r"
    using unplaced_eqD [OF r(2)] f(4,5) by (simp_all add: known_email_def)
  with r(1) show ?thesis by (auto simp: has_email_def)
next
  case (failed e)
  then show ?thesis by simp
qed

lemma attempts_have_email:
  "project_attempts env w ed re base a left s = (Inr m, t) \<Longrightarrow> ms_kind m = CONVERSATION \<Longrightarrow>
     has_email ed (inbound_mail_of ed re) t"
proof (induction env w ed re base a left s rule: project_attempts.induct)
  case (2 env w ed re base attempt left s)
  obtain r s' where run: "attempt_projection env w ed re base attempt (pw_meanwhile w attempt s) = (r, s')" by fastforce
  show ?case
  proof (cases r)
    case (Inr m')
    with 2(2) run have "attempt_projection env w ed re base attempt (pw_meanwhile w attempt s) = (Inr m, t)" by simp
    then show ?thesis by (rule attempt_has_email)
  next
    case (Inl e)
    show ?thesis
    proof (cases "e = PrismaError ''P2034'' \<and> attempt < 2")
      case True
      then show ?thesis using 2 run Inl by auto
    next
      case False
      then have "find (known_email ed (inbound_mail_of ed re)) (messages t) = Some m"
        using 2(2) run Inl by (auto split: if_splits option.splits)
      then show ?thesis using 2(3) by (auto simp: find_Some_iff has_email_def)
    qed
  qed
qed simp

section \<open>Properties\<close>

definition quiet_projection :: projection_world where
  "quiet_projection = \<lparr>pw_meanwhile = (\<lambda>n s. s), pw_refused = (\<lambda>n. False), pw_storageIds = (\<lambda>n k. ''k'')\<rparr>"

definition sample_event :: email_event_data where
  "sample_event =
     \<lparr>ed_email_id = ''re1'', ed_from = ''P <p@y.io>'', ed_to = [''us@x.io''], ed_created_at = 7, ed_message_id = None,
      ed_received_for = None\<rparr>"

definition sample_email :: "string \<Rightarrow> resend_email" where
  "sample_email inReplyTo =
     \<lparr>re_message_id = ''<a@y>'', re_from = ''p@y.io'', re_to = [''us@x.io''], re_subject = ''Re: s'', re_created_at = Some 9,
      re_text = Some ''t'', re_html = None, re_headers = Some [(''In-Reply-To'', inReplyTo)], re_reply_to = None,
      re_received_for = None, re_attachments = []\<rparr>"

definition other_conversation :: conversation where
  "other_conversation = (plain_conversation ''c2'' CONCLUDED)\<lparr>cv_participantAddress := ''other@z.io'', cv_routingToken := ''q''\<rparr>"

definition sample_threads :: store where
  "sample_threads = empty_store\<lparr>conversations := [plain_conversation ''c1'' CONCLUDED, other_conversation],
     messages := [(plain_message ''m1'' ACCEPTED)\<lparr>ms_internetMessageId := Some ''<o@x>''\<rparr>,
                  (plain_message ''m2'' ACCEPTED)\<lparr>ms_conversationId := Some ''c2'', ms_internetMessageId := Some ''<p@x>'',
                    ms_idempotencyKey := None\<rparr>]\<rparr>"

definition sample_filed :: "(js_error + message) \<times> store" where
  "sample_filed = attempt_projection nats_on quiet_projection sample_event (sample_email ''<o@x>'') ''us@x.io'' 0 sample_threads"

lemma case_sumE: "(case r of Inl e \<Rightarrow> False | Inr a \<Rightarrow> P a) \<Longrightarrow> (\<And>a. r = Inr a \<Longrightarrow> P a \<Longrightarrow> Q) \<Longrightarrow> Q"
  by (cases r) auto

lemma sample_filed_run:
  obtains m t where "attempt_projection nats_on quiet_projection sample_event (sample_email ''<o@x>'') ''us@x.io'' 0 sample_threads = (Inr m, t)"
    "ms_id m = ''id''" "map ms_id (messages sample_threads) = [''m1'', ''m2'']" "ms_parentMessageId m = Some ''m1''"
proof -
  have "case fst sample_filed of Inl e \<Rightarrow> False | Inr m \<Rightarrow> ms_id m = ''id'' \<and> ms_parentMessageId m = Some ''m1''" by code_simp
  then obtain m where m: "fst sample_filed = Inr m" "ms_id m = ''id''" "ms_parentMessageId m = Some ''m1''"
    by (auto elim!: case_sumE)
  have "map ms_id (messages sample_threads) = [''m1'', ''m2'']" by code_simp
  with that [of m "snd sample_filed"] m show thesis
    unfolding sample_filed_def by (metis prod.collapse)
qed



text \<open>C3: an email never reaches into the conversations of others. Whatever its headers refer to and
  whichever way the projection goes, a conversation with another participant stays as it is, and so do
  the messages in it.\<close>

theorem projection_isolates_participants:
  assumes "attempt_projection env w ed re base n s = (r, t)" and "distinct (map cv_id (conversations s))"
    and "ids_fresh s (set (map cv_id (conversations s)))" and "c \<in> set (conversations s)"
    and "js_toLower (cv_participantAddress c) \<noteq> js_toLower (pa_address (parseAddress (js_or (ed_from ed) (re_from re))))"
  shows "filter (\<lambda>d. cv_id d = cv_id c) (conversations t) = filter (\<lambda>d. cv_id d = cv_id c) (conversations s)
    \<and> filter (\<lambda>m. ms_conversationId m = Some (cv_id c)) (messages t) = filter (\<lambda>m. ms_conversationId m = Some (cv_id c)) (messages s)"
proof -
  let ?im = "inbound_mail_of ed re"
  have other: "\<not> same_participant (im_participantAddress ?im) c"
    using assms(5) by (simp add: same_participant_def inbound_mail_of_def Let_def)
  have diff: "cv_id d \<noteq> cv_id c" if "d \<in> set (conversations s)" "same_participant (im_participantAddress ?im) d" for d
    using distinct_key_unique [OF assms(2) that(1) assms(4)] that(2) other by metis
  have "conversation_view (cv_id c) t = conversation_view (cv_id c) s"
  proof (cases r)
    case (Inl e)
    with assms(1) show ?thesis using attempt_InlD by metis
  next
    case (Inr m)
    with assms(1) have "project_transaction env (pw_storageIds w n) ed re base s = (Inr m, t)" using attempt_InrD by metis
    then show ?thesis
    proof (cases rule: project_transaction_cases)
      case (filed d pid created s1)
      have new: "cv_id d \<noteq> cv_id c"
      proof (cases "s1 = s")
        case True
        with filed(4) diff filed(2) show ?thesis by blast
      next
        case False
        then have "cv_id d = id_source s (id_count s)" using filed(6) by blast
        then show ?thesis using assms(3,4) by (auto simp: ids_fresh_def)
      qed
      have "conversation_view (cv_id c) t = conversation_view (cv_id c) s1"
        by (rule filed_apart [OF filed(3) _ new]) (use diff in blast)
      also have "\<dots> = conversation_view (cv_id c) s" using filed(6) new by (auto simp: conversation_view_def)
      finally show ?thesis .
    qed simp_all
  qed
  then show ?thesis by (simp add: conversation_view_def)
qed

theorem projection_isolates_participants_witness:
  "filter (\<lambda>m. ms_conversationId m = Some ''c2'')
      (messages (snd (attempt_projection nats_on quiet_projection sample_event (sample_email ''<p@x>'') ''us@x.io'' 0 sample_threads)))
    = filter (\<lambda>m. ms_conversationId m = Some ''c2'') (messages sample_threads)"
proof -
  let ?run = "attempt_projection nats_on quiet_projection sample_event (sample_email ''<p@x>'') ''us@x.io'' 0 sample_threads"
  have ids: "map cv_id (conversations sample_threads) = [''c1'', ''c2'']" by code_simp
  have src: "id_source sample_threads = id_source empty_store" by (simp add: sample_threads_def)
  have fresh: "ids_fresh sample_threads (set (map cv_id (conversations sample_threads)))"
    unfolding ids using empty_store_ids by (simp add: ids_fresh_def src)
  have "other_conversation \<in> set (conversations sample_threads)" "cv_id other_conversation = ''c2''"
    by (simp_all add: sample_threads_def other_conversation_def plain_conversation_def)
  moreover have "js_toLower (cv_participantAddress other_conversation) \<noteq>
      js_toLower (pa_address (parseAddress (js_or (ed_from sample_event) (re_from (sample_email ''<p@x>'')))))"
    by code_simp
  moreover have "distinct (map cv_id (conversations sample_threads))" unfolding ids by simp
  ultimately show ?thesis
    using projection_isolates_participants [of nats_on quiet_projection sample_event "sample_email ''<p@x>''" "''us@x.io''" 0
        sample_threads "fst ?run" "snd ?run" other_conversation] fresh
    by simp
qed

text \<open>C16: projecting is idempotent. The provider repeats its webhooks; when an email was projected, another
  projection of it finds its message, and writes nothing: no second message, no event.\<close>

theorem projection_is_idempotent:
  assumes "projectInboundEmail env w ed re base s = (Inr m, t)" and "ms_kind m = CONVERSATION"
    and "pw_meanwhile w' 0 t = t" and "\<not> pw_refused w' 0"
  shows "\<exists>m'. projectInboundEmail env w' ed re base t = (Inr m', t) \<and> m' \<in> set (messages t)
    \<and> (ms_resendEmailId m' = Some (ed_email_id ed) \<or> ms_internetMessageId m' = Some (im_internetMessageId (inbound_mail_of ed re)))"
proof -
  have "has_email ed (inbound_mail_of ed re) t"
    using attempts_have_email [OF assms(1) [unfolded projectInboundEmail_def] assms(2)] .
  then obtain m' where m': "find (\<lambda>m. ms_kind m = CONVERSATION \<and> known_email ed (inbound_mail_of ed re) m) (messages t) = Some m'"
    by (cases "find (\<lambda>m. ms_kind m = CONVERSATION \<and> known_email ed (inbound_mail_of ed re) m) (messages t)")
      (auto simp: has_email_def find_None_iff)
  then have "attempt_projection env w' ed re base 0 t = (Inr m', t)"
    using assms(4) by (simp add: attempt_projection_def transaction_def project_transaction_def Let_def)
  then have "projectInboundEmail env w' ed re base t = (Inr m', t)"
    using assms(3) by (simp add: projectInboundEmail_def eval_nat_numeral)
  moreover have "m' \<in> set (messages t)" "known_email ed (inbound_mail_of ed re) m'"
    using m' by (auto simp: find_Some_iff)
  ultimately show ?thesis by (auto simp: known_email_def)
qed

theorem projection_is_idempotent_witness:
  "\<exists>m t m'. projectInboundEmail nats_on quiet_projection sample_event (sample_email ''<o@x>'') ''us@x.io'' sample_threads = (Inr m, t)
    \<and> projectInboundEmail nats_on quiet_projection sample_event (sample_email ''<o@x>'') ''us@x.io'' t = (Inr m', t)"
proof -
  let ?run = "projectInboundEmail nats_on quiet_projection sample_event (sample_email ''<o@x>'') ''us@x.io'' sample_threads"
  have "case fst ?run of Inl e \<Rightarrow> False | Inr m \<Rightarrow> ms_kind m = CONVERSATION" by code_simp
  then obtain m where m: "fst ?run = Inr m" "ms_kind m = CONVERSATION" by (auto elim!: case_sumE)
  have run: "?run = (Inr m, snd ?run)" using m(1) by (metis prod.collapse)
  from projection_is_idempotent [OF run m(2), of quiet_projection] run show ?thesis
    by (auto simp: quiet_projection_def)
qed

text \<open>An email that names itself in In-Reply-To is filed as its own parent: the last update adopts every
  message that waits for the new Message-ID, the new one included.\<close>

lemma self_reference_becomes_own_parent:
  "map (\<lambda>m. (ms_id m, ms_parentMessageId m))
      (messages (snd (projectInboundEmail nats_on quiet_projection sample_event (sample_email ''<a@y>'') ''us@x.io'' empty_store)))
    = [(''idxx'', Some ''idxx'')]"
  by code_simp

end
