(* ===== verification/Resend_Client.thy ===== *)
theory Resend_Client
  imports Conversation_Events Send_Input
begin

text \<open>
  \<open>src/lib/email/resend-client.ts\<close>: the calls to the provider. \<open>fetch\<close> is a function from the path, the
  idempotency key and the emails of the body to a response or the error it rejects with; a response
  is its status and its body as JSON (\<open>None\<close> when the body is no JSON). The measured calls and
  the read operations are in \<open>Telemetry\<close>.
\<close>

record http_response =
  rs_status :: int
  rs_json :: "json option"

type_synonym fetch = "string \<Rightarrow> string option \<Rightarrow> send_email_input list \<Rightarrow> js_error + http_response"

definition response_ok :: "http_response \<Rightarrow> bool" where
  \<comment> \<open>\<open>response.ok\<close>\<close>
  "response_ok r \<longleftrightarrow> 200 \<le> rs_status r \<and> rs_status r < 300"

definition error_code_of :: "json option \<Rightarrow> string option" where
  \<comment> \<open>\<open>name\<close>, else \<open>code\<close>, when they are strings; reading a member of a null body throws and is caught\<close>
  "error_code_of body =
     (case body of
        Some (JObject members) \<Rightarrow>
          (case json_string (json_member members ''name'') of
             Some name \<Rightarrow> Some name
           | None \<Rightarrow> json_string (json_member members ''code''))
      | _ \<Rightarrow> None)"

definition syntax_error :: js_error where
  "syntax_error = JsError ''SyntaxError'' ''Unexpected end of JSON input''"

definition resend_request :: "fetch \<Rightarrow> string \<Rightarrow> string option \<Rightarrow> send_email_input list \<Rightarrow> js_error + json" where
  "resend_request fetch path key emails =
     (case fetch path key emails of
        Inl e \<Rightarrow> Inl e
      | Inr response \<Rightarrow>
          if \<not> response_ok response then Inl (ResendApiError (rs_status response) (error_code_of (rs_json response)))
          else (case rs_json response of None \<Rightarrow> Inl syntax_error | Some body \<Rightarrow> Inr body))"

definition invalid_email_id :: js_error where
  "invalid_email_id = JsError ''Error'' ''Resend API returned an invalid email ID''"

definition resend_send :: "fetch \<Rightarrow> send_email_input \<Rightarrow> string \<Rightarrow> js_error + string" where
  "resend_send fetch input key =
     (case resend_request fetch ''/emails'' (Some key) [input] of
        Inl e \<Rightarrow> Inl e
      | Inr (JObject members) \<Rightarrow>
          (case json_string (json_member members ''id'') of
             None \<Rightarrow> Inl invalid_email_id
           | Some i \<Rightarrow> if i = [] then Inl invalid_email_id else Inr i)
      | Inr _ \<Rightarrow> Inl invalid_email_id)"

definition resend_sendBatch :: "fetch \<Rightarrow> send_email_input list \<Rightarrow> string \<Rightarrow> js_error + json" where
  "resend_sendBatch fetch inputs key = resend_request fetch ''/emails/batch'' (Some key) inputs"

datatype status_class = NoStatus | Status2xx | Status4xx | Status5xx

definition responseStatusClass :: "int \<Rightarrow> status_class" where
  "responseStatusClass status =
     (if 200 \<le> status \<and> status < 300 then Status2xx
      else if 400 \<le> status \<and> status < 500 then Status4xx
      else if 500 \<le> status \<and> status < 600 then Status5xx
      else NoStatus)"

definition missing_api_key :: js_error where
  "missing_api_key = JsError ''Error'' ''Missing RESEND_API_KEY environment variable''"

definition configured_send :: "environment \<Rightarrow> fetch \<Rightarrow> send_email_input \<Rightarrow> string \<Rightarrow> js_error + string" where
  \<comment> \<open>\<open>getConfiguredResendClient().send(input, key)\<close>\<close>
  "configured_send env fetch input key =
     (if \<not> truthy (env ''RESEND_API_KEY'') then Inl missing_api_key else resend_send fetch input key)"

text \<open>A send that returns has a nonempty id, from a response in the 200s.\<close>

lemma resend_request_Inr:
  assumes "resend_request fetch path key emails = Inr body"
  obtains r where "fetch path key emails = Inr r" and "rs_json r = Some body"
    and "responseStatusClass (rs_status r) = Status2xx"
proof (cases "fetch path key emails")
  case (Inl e)
  then show ?thesis using assms by (simp add: resend_request_def)
next
  case (Inr r)
  have "response_ok r \<and> rs_json r = Some body"
    using assms Inr by (auto simp: resend_request_def split: if_splits option.splits)
  then show ?thesis using Inr that [of r] by (simp add: response_ok_def responseStatusClass_def)
qed

lemma resend_send_Inr:
  assumes "resend_send fetch input key = Inr i"
  obtains r where "i \<noteq> []" and "fetch ''/emails'' (Some key) [input] = Inr r"
    and "responseStatusClass (rs_status r) = Status2xx"
proof (cases "resend_request fetch ''/emails'' (Some key) [input]")
  case (Inl e)
  then show ?thesis using assms by (simp add: resend_send_def)
next
  case (Inr body)
  have "i \<noteq> []"
    using assms Inr by (auto simp: resend_send_def split: json.splits option.splits if_splits)
  then show ?thesis using resend_request_Inr [OF Inr] that by metis
qed

lemma resend_error_class:
  assumes "resend_request fetch path key emails = Inl (ResendApiError status code)"
    and "\<And>e. fetch path key emails = Inl e \<Longrightarrow> \<forall>st c. e \<noteq> ResendApiError st c"
  shows "responseStatusClass status \<noteq> Status2xx"
  using assms
  by (auto simp: resend_request_def response_ok_def responseStatusClass_def syntax_error_def
      split: sum.splits option.splits if_splits)

end
