(* ===== verification/Conversation_Service.thy ===== *)
theory Conversation_Service
  imports Conversation_Projection Delivery Resend_Client Provider_Errors
begin

text \<open>
  The sending half of \<open>src/lib/conversation-service.ts\<close>, and \<open>hydrateReferencedOutboundMessages\<close> of
  \<open>src/lib/email/conversations.ts\<close>: one awaited send of a stored message, its recovery after a crash,
  and the Message-IDs the provider tells only later. The clock, the object store and the calls of the
  provider are the \<open>send_world\<close>; the n-th retrieval of a sent email may answer differently.
\<close>

section \<open>An awaited send\<close>

record send_world =
  sw_now :: instant
  sw_getBuffer :: get_buffer
  sw_send :: "send_email_input \<Rightarrow> string \<Rightarrow> js_error + string"
  sw_getSent :: "nat \<Rightarrow> string \<Rightarrow> js_error + resend_email"
  sw_getReceived :: "string \<Rightarrow> js_error + resend_email"

definition SENT_METADATA_RETRY_DELAYS_MS :: "int list" where
  "SENT_METADATA_RETRY_DELAYS_MS = [0, 100, 250]"

definition error_message :: "js_error \<Rightarrow> string" where
  \<comment> \<open>\<open>error.message\<close>; of the database client's errors the code stands for the message\<close>
  "error_message e =
     (case e of
        ResendApiError status _ \<Rightarrow> ''Resend API request failed with status '' @ show_int status
      | PrismaError code \<Rightarrow> code
      | AttachmentClaimError msg \<Rightarrow> msg
      | IdentityNotAllowedError \<Rightarrow> []
      | JsError _ msg \<Rightarrow> msg
      | NotAnError \<Rightarrow> [])"

definition knownFailure :: "js_error \<Rightarrow> bool" where
  "knownFailure e =
     (case e of
        ResendApiError _ _ \<Rightarrow> True
      | NotAnError \<Rightarrow> False
      | _ \<Rightarrow> prefix ''Missing RESEND_API_KEY'' (error_message e))"

definition aborted_transaction :: js_error where
  \<comment> \<open>what a statement throws after one of its transaction has failed in the database\<close>
  "aborted_transaction = JsError ''PrismaClientUnknownRequestError'' ''current transaction is aborted''"

definition missing_key_error :: js_error where
  "missing_key_error = JsError ''Error'' ''Pending message is missing an idempotency key''"

definition send_key :: "message \<Rightarrow> string" where
  "send_key m = (case ms_kind m of DIRECT \<Rightarrow> ''email'' | CONVERSATION \<Rightarrow> ''conversation'') @ ''/'' @ ms_id m"

definition accepted :: "string \<Rightarrow> message \<Rightarrow> message" where
  "accepted sentId m =
     m\<lparr>ms_state := ACCEPTED, ms_stateDetail := None, ms_deliveryState := Some UNKNOWN, ms_resendEmailId := Some sentId\<rparr>"

definition not_sent :: "js_error \<Rightarrow> message \<Rightarrow> message" where
  "not_sent e m =
     m\<lparr>ms_state := (if knownFailure e then FAILED else INDETERMINATE),
       ms_stateDetail := Some (if e = NotAnError then ''Unknown error'' else take 1000 (error_message e))\<rparr>"

definition try_send :: "environment \<Rightarrow> send_world \<Rightarrow> send_attachment list \<Rightarrow> message \<Rightarrow> message io" where
  \<comment> \<open>the try block\<close>
  "try_send env w atts m =
     (if \<not> truthy (ms_idempotencyKey m) then io_throw missing_key_error
      else case sw_send w (buildSendEmailInput m atts) (send_key m) of
             Inl e \<Rightarrow> io_throw e
           | Inr sentId \<Rightarrow>
               io_bind (update_message (ms_id m) (accepted sentId)) (\<lambda>_.
               io_bind (reconcileOutboundDeliveryState env sentId) (\<lambda>_.
               get_message (ms_id m))))"

definition deliver_transaction ::
  "environment \<Rightarrow> send_world \<Rightarrow> send_attachment list \<Rightarrow> uuid \<Rightarrow> (message \<times> js_error option) io"
where
  \<comment> \<open>the row it returns and \<open>sendError\<close>; the update in the catch block fails when the database has
    aborted the transaction\<close>
  "deliver_transaction env w atts messageId =
     transaction (io_bind (get_message messageId) (\<lambda>m.
       if ms_state m \<noteq> PENDING then io_return (m, None)
       else
         io_catch (io_bind (try_send env w atts m) (\<lambda>sent. io_return (sent, None)))
           (\<lambda>e. if e = PrismaError ''P2002'' then io_throw aborted_transaction
                else io_bind (update_message (ms_id m) (not_sent e)) (\<lambda>failed. io_return (failed, Some e)))))"

section \<open>Metadata of a sent email\<close>

fun hydrate_attempts :: "environment \<Rightarrow> send_world \<Rightarrow> message \<Rightarrow> string \<Rightarrow> nat \<Rightarrow> int list \<Rightarrow> message io" where
  \<comment> \<open>the loop over the delays\<close>
  "hydrate_attempts env w m sentId n [] = io_return m"
| "hydrate_attempts env w m sentId n (delay # delays) =
     (case sw_getSent w n sentId of
        Inl e \<Rightarrow> hydrate_attempts env w m sentId (Suc n) delays
      | Inr retrieved \<Rightarrow>
          io_catch (recordOutboundInternetMessageId env (sw_now w) (ms_id m) (re_message_id retrieved) (re_created_at retrieved))
            (\<lambda>_. hydrate_attempts env w m sentId (Suc n) delays))"

definition hydrateSentMetadata :: "environment \<Rightarrow> send_world \<Rightarrow> message \<Rightarrow> message io" where
  "hydrateSentMetadata env w m =
     (case keep_truthy (ms_resendEmailId m) of
        None \<Rightarrow> io_return m
      | Some sentId \<Rightarrow>
          if ms_kind m = DIRECT \<or> ms_state m \<noteq> ACCEPTED \<or> truthy (ms_internetMessageId m) then io_return m
          else hydrate_attempts env w m sentId 0 SENT_METADATA_RETRY_DELAYS_MS)"

definition deliverPendingMessage :: "environment \<Rightarrow> send_world \<Rightarrow> uuid \<Rightarrow> message io" where
  "deliverPendingMessage env w messageId s =
     (case buildSendAttachments env (sw_getBuffer w) messageId s of
        Inl e \<Rightarrow> (Inl e, s)
      | Inr atts \<Rightarrow>
          io_bind (deliver_transaction env w atts messageId)
            (\<lambda>(m, sendError). case sendError of Some e \<Rightarrow> io_throw e | None \<Rightarrow> hydrateSentMetadata env w m) s)"

section \<open>Recovery\<close>

definition SEND_WINDOW_MS :: int where "SEND_WINDOW_MS = 82800000"

definition expire_pending :: "uuid \<Rightarrow> unit io" where
  "expire_pending messageId =
     update_messages (\<lambda>m. ms_id m = messageId \<and> ms_state m = PENDING)
       (\<lambda>m. m\<lparr>ms_state := INDETERMINATE,
               ms_stateDetail := Some ''Pending send exceeded the provider idempotency window''\<rparr>)"

definition recoverPendingMessage :: "environment \<Rightarrow> send_world \<Rightarrow> uuid \<Rightarrow> message io" where
  "recoverPendingMessage env w messageId =
     io_bind (get_message messageId) (\<lambda>m.
       if ms_state m \<noteq> PENDING then io_return m
       else if SEND_WINDOW_MS \<le> sw_now w - ms_createdAt m
       then io_bind (expire_pending (ms_id m)) (\<lambda>_. get_message (ms_id m))
       else io_catch (deliverPendingMessage env w (ms_id m)) (\<lambda>_. get_message (ms_id m)))"

definition ensureInternetMessageId :: "environment \<Rightarrow> send_world \<Rightarrow> uuid \<Rightarrow> string option io" where
  "ensureInternetMessageId env w messageId =
     io_bind (get_message messageId) (\<lambda>m.
       case (if truthy (ms_internetMessageId m) then None else keep_truthy (ms_resendEmailId m)) of
         None \<Rightarrow> io_return (ms_internetMessageId m)
       | Some sentId \<Rightarrow>
           (case (if ms_direction m = INBOUND then sw_getReceived w sentId else sw_getSent w 0 sentId) of
              Inl e \<Rightarrow> io_throw e
            | Inr retrieved \<Rightarrow>
                io_bind
                  (if ms_direction m = OUTBOUND
                   then recordOutboundInternetMessageId env (sw_now w) (ms_id m) (re_message_id retrieved) (re_created_at retrieved)
                   else update_message (ms_id m) (\<lambda>m. m\<lparr>ms_internetMessageId := Some (re_message_id retrieved)\<rparr>))
                  (\<lambda>_. io_return (Some (re_message_id retrieved)))))"

section \<open>Hydrating the ancestors of an email\<close>

definition MAX_OUTBOUND_HYDRATION_CANDIDATES :: nat where "MAX_OUTBOUND_HYDRATION_CANDIDATES = 10"
definition OUTBOUND_HYDRATION_RETRY_WINDOW_MS :: int where "OUTBOUND_HYDRATION_RETRY_WINDOW_MS = 86400000"

definition of_participant :: "string \<Rightarrow> store \<Rightarrow> message \<Rightarrow> bool" where
  \<comment> \<open>the case-insensitive relation filter on the conversation\<close>
  "of_participant address s m \<longleftrightarrow>
     (\<exists>c \<in> set (conversations s). ms_conversationId m = Some (cv_id c)
        \<and> js_toLower (cv_participantAddress c) = js_toLower address)"

definition hydration_candidates :: "string \<Rightarrow> store \<Rightarrow> message list" where
  "hydration_candidates address s =
     take (MAX_OUTBOUND_HYDRATION_CANDIDATES + 1)
       (rev (sort_key (\<lambda>m. (ms_emailCreatedAt m, ms_id m))
         (filter (\<lambda>m. ms_direction m = OUTBOUND \<and> ms_state m = ACCEPTED \<and> ms_resendEmailId m \<noteq> None
            \<and> ms_internetMessageId m = None \<and> of_participant address s m) (messages s))))"

fun note_retrieved ::
  "environment \<Rightarrow> instant \<Rightarrow> instant \<Rightarrow> string list \<Rightarrow> (message \<times> (js_error + resend_email)) list \<Rightarrow> bool \<Rightarrow> bool \<Rightarrow>
     (bool \<times> bool) io"
where
  \<comment> \<open>the loop over the settled retrievals, with \<open>matched\<close> and \<open>recentRetrievalFailed\<close>\<close>
  "note_retrieved env now retryCutoff ancestry [] matched failed = io_return (matched, failed)"
| "note_retrieved env now retryCutoff ancestry ((m, Inl e) # rest) matched failed =
     note_retrieved env now retryCutoff ancestry rest matched (failed \<or> retryCutoff \<le> ms_emailCreatedAt m)"
| "note_retrieved env now retryCutoff ancestry ((m, Inr email) # rest) matched failed =
     io_bind (recordOutboundInternetMessageId env now (ms_id m) (re_message_id email) (re_created_at email))
       (\<lambda>_. note_retrieved env now retryCutoff ancestry rest (matched \<or> re_message_id email \<in> set ancestry) failed)"

definition not_hydrated_error :: js_error where
  "not_hydrated_error = JsError ''Error'' ''Outbound threading metadata could not be fully hydrated''"

definition hydrateReferencedOutboundMessages ::
  "environment \<Rightarrow> send_world \<Rightarrow> string \<Rightarrow> string list \<Rightarrow> string option \<Rightarrow> unit io"
where
  "hydrateReferencedOutboundMessages env w address internetMessageIds preferred s =
     (let ancestry = filter (\<lambda>i. i \<noteq> []) (js_set internetMessageIds);
          wanted = (case keep_truthy preferred of Some i \<Rightarrow> [i] | None \<Rightarrow> ancestry);
          candidates = hydration_candidates address s;
          limited = take MAX_OUTBOUND_HYDRATION_CANDIDATES candidates;
          retryCutoff = sw_now w - OUTBOUND_HYDRATION_RETRY_WINDOW_MS
      in if ancestry = [] then (Inr (), s)
         else if \<exists>m \<in> set (messages s). (\<exists>i \<in> set wanted. ms_internetMessageId m = Some i) \<and> of_participant address s m
         then (Inr (), s)
         else if candidates = [] then (Inr (), s)
         else io_bind (note_retrieved env (sw_now w) retryCutoff ancestry
             (map (\<lambda>m. (m, sw_getSent w 0 (case ms_resendEmailId m of None \<Rightarrow> [] | Some i \<Rightarrow> i))) limited) False False)
           (\<lambda>(matched, failed).
              if \<not> matched \<and> (failed \<or> (MAX_OUTBOUND_HYDRATION_CANDIDATES < length candidates
                   \<and> retryCutoff \<le> ms_emailCreatedAt (candidates ! MAX_OUTBOUND_HYDRATION_CANDIDATES)))
              then io_throw not_hydrated_error else io_return ()) s)"

section \<open>The life of a sent message\<close>

text \<open>The abstract view of a message: it came in, it waits, it was sent under a provider id, it was refused, or nobody
  knows. Only a waiting message moves, and it moves once.\<close>

datatype message_status = Incoming | Waiting | Sent "string option" | Refused "string option" | Unclear "string option"

definition status_of_message :: "message \<Rightarrow> message_status" where
  "status_of_message m =
     (case ms_state m of
        RECEIVED \<Rightarrow> Incoming
      | PENDING \<Rightarrow> Waiting
      | ACCEPTED \<Rightarrow> Sent (ms_resendEmailId m)
      | FAILED \<Rightarrow> Refused (ms_stateDetail m)
      | INDETERMINATE \<Rightarrow> Unclear (ms_stateDetail m))"

inductive lifecycle :: "message_status \<Rightarrow> message_status \<Rightarrow> bool" where
  stays: "lifecycle st st"
| accepted: "lifecycle Waiting (Sent (Some sentId))"
| refused: "lifecycle Waiting (Refused (Some detail))"
| unclear: "lifecycle Waiting (Unclear (Some detail))"

inductive_cases settled_stays: "lifecycle Incoming st" "lifecycle (Sent i) st" "lifecycle (Refused d) st" "lifecycle (Unclear d) st"

definition statuses :: "store \<Rightarrow> (uuid \<times> message_status) list" where
  "statuses s = map (\<lambda>m. (ms_id m, status_of_message m)) (messages s)"

definition put_status :: "uuid \<Rightarrow> message_status \<Rightarrow> (uuid \<times> message_status) list \<Rightarrow> (uuid \<times> message_status) list" where
  "put_status i st sts = map (\<lambda>(k, x). (k, if k = i then st else x)) sts"

lemma put_status_twice [simp]: "put_status i st (put_status i st' sts) = put_status i st sts"
  by (simp add: put_status_def case_prod_beta)

lemma status_of_changes [simp]:
  "status_of_message (accepted sentId m) = Sent (Some sentId)"
  "status_of_message (record_delivery c d m) = status_of_message m"
  "status_of_message (m\<lparr>ms_internetMessageId := i, ms_emailCreatedAt := t\<rparr>) = status_of_message m"
  "status_of_message (m\<lparr>ms_internetMessageId := i\<rparr>) = status_of_message m"
  by (simp_all add: status_of_message_def accepted_def record_delivery_def split: message_state.split)

lemma status_of_not_sent:
  obtains d where "\<And>m. status_of_message (not_sent e m) = d" "lifecycle Waiting d"
proof (cases "knownFailure e")
  case True
  with that [of "Refused (Some (if e = NotAnError then ''Unknown error'' else take 1000 (error_message e)))"]
  show ?thesis by (simp add: status_of_message_def not_sent_def refused)
next
  case False
  with that [of "Unclear (Some (if e = NotAnError then ''Unknown error'' else take 1000 (error_message e)))"]
  show ?thesis by (simp add: status_of_message_def not_sent_def unclear)
qed

lemma status_change_simps [simp]:
  "ms_id (accepted sentId m) = ms_id m" "ms_id (not_sent e m) = ms_id m"
  "message_conflict (not_sent e m) r = message_conflict m r"
  by (simp_all add: accepted_def not_sent_def message_conflict_def)

lemma statuses_update:
  assumes "\<And>m. ms_id (f m) = ms_id m" and "\<And>m. status_of_message (f m) = st"
  shows "statuses (s\<lparr>messages := update_where (\<lambda>m. ms_id m = i) f (messages s)\<rparr>) = put_status i st (statuses s)"
  using assms by (simp add: statuses_def put_status_def update_where_def)

lemma statuses_same:
  assumes "\<And>m. ms_id (f m) = ms_id m" and "\<And>m. P m \<Longrightarrow> status_of_message (f m) = status_of_message m"
  shows "statuses (s\<lparr>messages := update_where P f (messages s)\<rparr>) = statuses s"
  using assms by (simp add: statuses_def update_where_def)

lemma update_message_same:
  assumes "update_message i f s = (r, t)"
    and "\<And>m. ms_id (f m) = ms_id m" and "\<And>m. status_of_message (f m) = status_of_message m"
  shows "statuses t = statuses s"
  using assms(1) statuses_same [of f "\<lambda>m. ms_id m = i", OF assms(2,3)]
  by (auto simp: update_message_def split: option.splits if_splits)

lemma status_unplaced:
  assumes "unplaced a = unplaced b"
  shows "ms_id a = ms_id b" "status_of_message a = status_of_message b"
proof -
  have "ms_id (unplaced a) = ms_id (unplaced b)" "ms_state (unplaced a) = ms_state (unplaced b)"
    "ms_resendEmailId (unplaced a) = ms_resendEmailId (unplaced b)"
    "ms_stateDetail (unplaced a) = ms_stateDetail (unplaced b)" using assms by simp_all
  then show "ms_id a = ms_id b" "status_of_message a = status_of_message b"
    by (simp_all add: unplaced_def status_of_message_def split: message_state.split)
qed

interpretation same_statuses: thread_invariant "\<lambda>s. statuses s = l" "\<lambda>i. True" "\<lambda>i. True" for l
proof
  fix s and Q :: "message \<Rightarrow> bool" and g :: "message \<Rightarrow> message"
  assume s: "statuses s = l" and g: "\<And>m. unplaced (g m) = unplaced m"
  then show "statuses (s\<lparr>messages := update_where Q g (messages s)\<rparr>) = l"
    using status_unplaced [OF g] by (simp add: statuses_same)
qed (simp_all add: statuses_def)


text \<open>Recording a Message-ID moves messages between conversations and settles none.\<close>

lemma adopt_children_conversations:
  assumes "adopt_children P i s = (r, t)"
  shows "map ms_conversationId (messages t) = map ms_conversationId (messages s)"
  using assms by (auto simp: adopt_children_def update_messages_def map_update_where)

lemma drop_after_merge:
  assumes merge: "merge_threads env target related now s = (Inr (), s1)"
    and adopt: "adopt_children P i s1 = (Inr (), s2)"
  shows "statuses (snd (drop_conversations (foreign_ids (cv_id target) related) s2)) = statuses s2"
proof -
  have "ms_conversationId m = Some k \<Longrightarrow> k \<notin> set (foreign_ids (cv_id target) related)" if "m \<in> set (messages s2)" for m k
  proof -
    assume k: "ms_conversationId m = Some k"
    have "Some k \<in> set (map ms_conversationId (messages s2))" using that k by force
    then obtain m1 where "m1 \<in> set (messages s1)" "ms_conversationId m1 = Some k"
      unfolding adopt_children_conversations [OF adopt] by auto
    then show ?thesis using merge_threads_moved [OF merge refl] by blast
  qed
  then show ?thesis by (intro same_statuses.drop_keeps) simp_all
qed

lemma record_sent_statuses: "statuses (snd (record_sent env now outbound internetMessageId emailCreatedAt s)) = statuses s"
proof -
  let ?rest = "\<lambda>target children i (u :: message). io_bind (io_when (foreign_ids (cv_id target) children \<noteq> []) (merge_threads env target children now)) (\<lambda>_.
      io_bind (adopt_children (\<lambda>m. ms_id m \<in> set (map (\<lambda>(m, c). ms_id m) children) \<and> ms_conversationId m = Some (cv_id target)) i) (\<lambda>_.
      io_bind (io_when (foreign_ids (cv_id target) children \<noteq> []) (drop_conversations (foreign_ids (cv_id target) children))) (\<lambda>_.
      io_bind (refresh_last_message (cv_id target)) (\<lambda>_. io_return u))))"
  have merge: "io_keeps (\<lambda>s. statuses s = l) (io_when b (merge_threads env target children now))" for l b target children
    by (intro keeps_intros same_statuses.merge_threads_keeps) simp_all
  have adopt: "io_keeps (\<lambda>s. statuses s = l) (adopt_children (\<lambda>m. Q m \<and> ms_conversationId m = Some k) i)" for l Q k i
    by (rule same_statuses.adopt_keeps) simp
  have refresh: "io_keeps (\<lambda>s. statuses s = l) (io_bind (refresh_last_message k) (\<lambda>_. io_return u))" for l k and u :: message
    by (intro keeps_intros same_statuses.refresh_keeps) simp
  have rest: "statuses (snd (?rest target children i u s)) = statuses s" for target children i u s
  proof -
    obtain r1 s1 where 1: "io_when (foreign_ids (cv_id target) children \<noteq> []) (merge_threads env target children now) s = (r1, s1)" by fastforce
    obtain r2 s2 where 2: "adopt_children (\<lambda>m. ms_id m \<in> set (map (\<lambda>(m, c). ms_id m) children) \<and> ms_conversationId m = Some (cv_id target)) i s1 = (r2, s2)"
      by fastforce
    obtain r3 s3 where 3: "io_when (foreign_ids (cv_id target) children \<noteq> []) (drop_conversations (foreign_ids (cv_id target) children)) s2 = (r3, s3)"
      by fastforce
    have k1: "statuses s1 = statuses s" using io_keepsD [OF merge refl 1] .
    have k2: "statuses s2 = statuses s1" using io_keepsD [OF adopt refl 2] .
    have r2: "r2 = Inr ()" using 2 by (simp add: adopt_children_def update_messages_def)
    show ?thesis
    proof (cases r1)
      case (Inl e)
      with 1 k1 show ?thesis by (simp add: io_bind_def)
    next
      case (Inr u1)
      have k3: "statuses s3 = statuses s2"
      proof (cases "foreign_ids (cv_id target) children = []")
        case True
        with 3 show ?thesis by (simp add: io_when_def)
      next
        case False
        then have "merge_threads env target children now s = (Inr (), s1)"
          and "drop_conversations (foreign_ids (cv_id target) children) s2 = (r3, s3)"
          using 1 3 Inr by (simp_all add: io_when_def)
        with drop_after_merge [OF this(1) 2 [unfolded r2]] show ?thesis by simp
      qed
      have "r3 = Inr ()" using 3 by (auto simp: io_when_def drop_conversations_def split: if_splits)
      then have "?rest target children i u s = io_bind (refresh_last_message (cv_id target)) (\<lambda>_. io_return u) s3"
        using 1 2 3 Inr r2 by simp
      moreover have "statuses (snd (io_bind (refresh_last_message (cv_id target)) (\<lambda>_. io_return u) s3)) = statuses s3"
        using io_keepsD [OF refresh refl] by (metis prod.collapse)
      ultimately show ?thesis using k1 k2 k3 by simp
    qed
  qed
  define f :: "message \<Rightarrow> message" where "f = (\<lambda>m. m\<lparr>ms_internetMessageId := Some internetMessageId,
      ms_emailCreatedAt := (case emailCreatedAt of None \<Rightarrow> ms_emailCreatedAt m | Some t \<Rightarrow> t)\<rparr>)"
  obtain r s1 where first: "update_message (ms_id (fst outbound)) f s = (r, s1)" by fastforce
  have "ms_id (f m) = ms_id m" "status_of_message (f m) = status_of_message m" for m by (simp_all add: f_def)
  then have "statuses s1 = statuses s" by (rule update_message_same [OF first])
  then show ?thesis unfolding record_sent_def f_def [symmetric]
    using first rest [of "snd outbound" _ "ms_id (fst outbound)" _ s1] by (cases r) (simp_all add: Let_def)
qed

lemma record_message_id_statuses:
  "statuses (snd (recordOutboundInternetMessageId env now i internetMessageId t s)) = statuses s"
proof -
  have "statuses (snd (transaction m s)) = statuses s" if "statuses (snd (m s)) = statuses s" for m :: "message io" and s
    using that by (auto simp: transaction_def split: sum.splits prod.splits)
  then show ?thesis unfolding recordOutboundInternetMessageId_def
    using record_sent_statuses by (auto split: option.split)
qed

lemma hydrate_statuses: "statuses (snd (hydrate_attempts env w m sentId n delays s)) = statuses s"
proof (induction env w m sentId n delays arbitrary: s rule: hydrate_attempts.induct)
  case (2 env w m sentId n delay delays)
  show ?case
  proof (cases "sw_getSent w n sentId")
    case (Inl e)
    with 2(1) show ?thesis by simp
  next
    case (Inr retrieved)
    obtain r s1 where run: "recordOutboundInternetMessageId env (sw_now w) (ms_id m) (re_message_id retrieved) (re_created_at retrieved) s = (r, s1)"
      by fastforce
    then have "statuses s1 = statuses s" using record_message_id_statuses by (metis snd_conv)
    with 2(2) [OF Inr] run Inr show ?thesis by (cases r) (simp_all add: io_catch_def)
  qed
qed simp

text \<open>What the reconciliation inside the send leaves alone, even when it throws.\<close>

lemma reconcile_statuses:
  assumes "reconcileOutboundDeliveryState env sentId s = (r, t)"
  shows "statuses t = statuses s"
proof -
  have "io_keeps (\<lambda>s'. statuses s' = statuses s) (reconcileOutboundDeliveryState env sentId)"
    by (intro reconcile_keeps) (simp_all add: statuses_same, simp add: statuses_def)
  from io_keepsD [OF this refl assms] show ?thesis .
qed

lemma update_message_status:
  assumes "update_message i f s = (r, t)"
    and "\<And>m. ms_id (f m) = ms_id m" and "\<And>m. status_of_message (f m) = st"
  obtains (wrote) m where "r = Inr (f m)" "statuses t = put_status i st (statuses s)"
  | (threw) e where "r = Inl e" "t = s"
  using assms(1) statuses_update [of f st i s, OF assms(2,3)] that
  by (auto simp: update_message_def split: option.splits if_splits)

lemma try_send_statuses:
  assumes "try_send env w atts m s = (r, t)"
  obtains "statuses t = statuses s" "\<exists>e. r = Inl e"
  | sentId where "statuses t = put_status (ms_id m) (Sent (Some sentId)) (statuses s)"
proof (cases "truthy (ms_idempotencyKey m)")
  case False
  with assms that(1) show ?thesis by (auto simp: try_send_def)
next
  case True
  show ?thesis
  proof (cases "sw_send w (buildSendEmailInput m atts) (send_key m)")
    case (Inl e)
    with assms True that(1) show ?thesis by (auto simp: try_send_def)
  next
    case (Inr sentId)
    obtain r1 s1 where 1: "update_message (ms_id m) (accepted sentId) s = (r1, s1)" by fastforce
    obtain r2 s2 where 2: "reconcileOutboundDeliveryState env sentId s1 = (r2, s2)" by fastforce
    show ?thesis
    proof (rule update_message_status [OF 1 status_change_simps(1) status_of_changes(1)], goal_cases)
      case wrote: (1 m')
      have "t = s2" using assms True Inr 1 2 wrote
        by (cases r2) (auto simp: try_send_def get_message_def io_bind_def split: option.splits)
      with wrote reconcile_statuses [OF 2] that(2) show ?thesis by simp
    next
      case threw: (2 e)
      with assms True Inr 1 that(1) show ?thesis by (auto simp: try_send_def)
    qed
  qed
qed

lemma transaction_cong: "m s = m' s \<Longrightarrow> transaction m s = transaction m' s"
  by (simp add: transaction_def)

lemma deliver_transaction_settled:
  assumes "find_by ms_id i (messages s) = Some m" and "ms_state m \<noteq> PENDING"
  shows "deliver_transaction env w atts i s = (Inr (m, None), s)"
proof -
  have "deliver_transaction env w atts i s = transaction (io_return (m, None)) s"
    unfolding deliver_transaction_def using assms by (intro transaction_cong) (simp add: io_bind_def get_message_def)
  then show ?thesis by (simp add: transaction_def)
qed

lemma deliver_transaction_pending:
  assumes "find_by ms_id i (messages s) = Some m" and "ms_state m = PENDING"
  shows "deliver_transaction env w atts i s =
    transaction (io_catch (io_bind (try_send env w atts m) (\<lambda>sent. io_return (sent, None)))
      (\<lambda>e. if e = PrismaError ''P2002'' then io_throw aborted_transaction
           else io_bind (update_message (ms_id m) (not_sent e)) (\<lambda>failed. io_return (failed, Some e)))) s"
  unfolding deliver_transaction_def using assms
  by (intro transaction_cong) (simp add: io_bind_def [of "get_message i"] get_message_def)

lemma put_status_result:
  assumes "statuses t = put_status i st sts" and "find_by ms_id i (messages t) = Some m"
  shows "status_of_message m = st"
proof -
  have m: "m \<in> set (messages t)" "ms_id m = i" using find_by_SomeD [OF assms(2)] by simp_all
  then have "(i, status_of_message m) \<in> set (statuses t)" by (auto simp: statuses_def)
  then show ?thesis unfolding assms(1) by (auto simp: put_status_def)
qed

lemma put_status_same:
  assumes "distinct (map ms_id (messages s))" and "find_by ms_id i (messages s) = Some m"
  shows "put_status i (status_of_message m) (statuses s) = statuses s"
proof -
  have m: "m \<in> set (messages s)" "ms_id m = i" using find_by_SomeD [OF assms(2)] by simp_all
  have "status_of_message r = status_of_message m" if "r \<in> set (messages s)" "ms_id r = i" for r
    using distinct_key_unique [OF assms(1) that(1) m(1)] that(2) m(2) by simp
  then show ?thesis by (simp add: put_status_def statuses_def)
qed

text \<open>One run of the send transaction is at most one step of the life of its message, and the row it
  returns shows that step.\<close>

lemma deliver_transaction_statuses:
  assumes run: "deliver_transaction env w atts i s = (r, t)" and found: "find_by ms_id i (messages s) = Some m"
    and ids: "distinct (map ms_id (messages s))"
  obtains st where "lifecycle (status_of_message m) st" "statuses t = put_status i st (statuses s)"
    "\<And>m' e. r = Inr (m', e) \<Longrightarrow> status_of_message m' = st \<and> ms_id m' = i"
proof -
  have id: "ms_id m = i" using find_by_SomeD [OF found] by simp
  note step = that
  have idle: thesis if "t = s" "\<And>m' e. r = Inr (m', e) \<Longrightarrow> m' = m"
    by (rule step [of "status_of_message m", OF lifecycle.stays]) (use that id put_status_same [OF ids found] in auto)
  show ?thesis
  proof (cases "ms_state m = PENDING")
    case False
    with run have "t = s" "r = Inr (m, None)" by (simp_all add: deliver_transaction_settled [OF found False])
    with idle id show ?thesis by simp
  next
    case True
    then have w: "status_of_message m = Waiting" by (simp add: status_of_message_def)
    note run' = run [unfolded deliver_transaction_pending [OF found True]]
    obtain r1 s1 where attempt: "try_send env w atts m s = (r1, s1)" by fastforce
    show ?thesis
    proof (cases r1)
      case (Inr sent)
      with run' attempt have t: "t = s1" "r = Inr (sent, None)" by (simp_all add: transaction_def io_catch_def)
      obtain sentId where st: "statuses s1 = put_status i (Sent (Some sentId)) (statuses s)"
        by (rule try_send_statuses [OF attempt]) (use Inr id in auto)
      have "find_by ms_id i (messages s1) = Some sent" using attempt Inr id
        by (auto simp: try_send_def get_message_def elim!: io_bind_InrE split: if_splits sum.splits option.splits)
      with put_status_result [OF st this] find_by_SomeD [OF this] st show ?thesis
        by (intro step [of "Sent (Some sentId)"]) (simp_all add: t w lifecycle.accepted)
    next
      case (Inl e)
      obtain st where st: "\<And>m. status_of_message (not_sent e m) = st" "lifecycle Waiting st"
        using status_of_not_sent by blast
      obtain r2 s2 where fail: "update_message (ms_id m) (not_sent e) s1 = (r2, s2)" by fastforce
      show ?thesis
      proof (cases "e = PrismaError ''P2002'' \<or> (\<exists>e'. r2 = Inl e')")
        case True
        with run' attempt Inl fail have "t = s" "\<exists>e. r = Inl e"
          by (auto simp: transaction_def io_catch_def split: if_splits)
        with idle show ?thesis by auto
      next
        case False
        then obtain m' where m': "r2 = Inr m'" by (cases r2) auto
        with run' attempt Inl fail False have t: "t = s2" "r = Inr (m', Some e)"
          by (simp_all add: transaction_def io_catch_def)
        have wrote: "statuses s2 = put_status i st (statuses s1) \<and> status_of_message m' = st"
          by (rule update_message_status [OF fail status_change_simps(2) st(1)]) (use False id m' st(1) in auto)
        moreover have "put_status i st (statuses s1) = put_status i st (statuses s)"
          by (rule try_send_statuses [OF attempt]) (use id in simp_all)
        moreover have "ms_id m' = i" using fail m' id
          by (auto simp: update_message_def dest!: find_by_SomeD split: option.splits if_splits)
        ultimately show ?thesis by (intro step [of st]) (simp_all add: t w st(2))
      qed
    qed
  qed
qed

lemma record_message_id_row:
  assumes "recordOutboundInternetMessageId env now i internetMessageId et s = (Inr u, t)"
    and "find_by ms_id i (messages s) = Some m"
  shows "status_of_message u = status_of_message m \<and> ms_id u = ms_id m"
proof -
  have "\<exists>c. record_sent env now (m, c) internetMessageId et s = (Inr u, t)"
    using assms by (auto simp: recordOutboundInternetMessageId_def transaction_def with_conversation_def
        split: sum.splits prod.splits option.splits if_splits)
  moreover have "ms_id m = i" using find_by_SomeD [OF assms(2)] by simp
  ultimately show ?thesis using assms(2)
    by (auto simp: record_sent_def update_message_def Let_def elim!: io_bind_InrE split: option.splits if_splits)
qed

lemma hydrate_row:
  "hydrate_attempts env w m sentId n delays s = (Inr u, t) \<Longrightarrow> find_by ms_id (ms_id m) (messages s) = Some m' \<Longrightarrow>
     status_of_message m' = status_of_message m \<Longrightarrow> status_of_message u = status_of_message m"
proof (induction env w m sentId n delays arbitrary: s rule: hydrate_attempts.induct)
  case (2 env w m sentId n delay delays)
  show ?case
  proof (cases "sw_getSent w n sentId")
    case (Inl e)
    with 2(3) have "hydrate_attempts env w m sentId (Suc n) delays s = (Inr u, t)" by simp
    with 2(1) [OF Inl] 2(4,5) show ?thesis by blast
  next
    case (Inr retrieved)
    let ?rec = "recordOutboundInternetMessageId env (sw_now w) (ms_id m) (re_message_id retrieved) (re_created_at retrieved)"
    show ?thesis
    proof (cases "?rec s")
      case (Pair r s1)
      show ?thesis
      proof (cases r)
        case (Inr v)
        with Pair 2(3) \<open>sw_getSent w n sentId = Inr retrieved\<close> have "v = u" by (simp add: io_catch_def)
        with record_message_id_row [OF Pair [unfolded Inr] 2(4)] 2(5) show ?thesis by simp
      next
        case (Inl e)
        with Pair have "fst (?rec s) = Inl e" by simp
        then have "s1 = s" using Pair transaction_Inl unfolding recordOutboundInternetMessageId_def by fastforce
        then have "hydrate_attempts env w m sentId (Suc n) delays s = (Inr u, t)"
          using 2(3) Pair Inl \<open>sw_getSent w n sentId = Inr retrieved\<close> by (simp add: io_catch_def)
        with 2(2) [OF \<open>sw_getSent w n sentId = Inr retrieved\<close>] 2(4,5) show ?thesis by blast
      qed
    qed
  qed
qed simp

lemma find_by_status:
  assumes "statuses t = put_status i st (statuses s)" and "find_by ms_id i (messages s) = Some m"
  obtains m' where "find_by ms_id i (messages t) = Some m'" "status_of_message m' = st"
proof -
  have m: "m \<in> set (messages s)" "ms_id m = i" using find_by_SomeD [OF assms(2)] by simp_all
  have "map fst (statuses t) = map fst (statuses s)" by (simp add: assms(1) put_status_def case_prod_beta)
  then have "map ms_id (messages t) = map ms_id (messages s)" by (simp add: statuses_def comp_def)
  with m have "i \<in> ms_id ` set (messages t)" by (metis image_eqI list.set_map)
  then obtain m' where "find_by ms_id i (messages t) = Some m'"
    by (cases "find_by ms_id i (messages t)") (auto simp: find_by_None)
  then show ?thesis using put_status_result [OF assms(1)] that by blast
qed

lemma deliver_pending_statuses:
  assumes run: "deliverPendingMessage env w i s = (r, t)" and found: "find_by ms_id i (messages s) = Some m"
    and ids: "distinct (map ms_id (messages s))"
  obtains st where "lifecycle (status_of_message m) st" "statuses t = put_status i st (statuses s)"
    "\<And>m'. r = Inr m' \<Longrightarrow> status_of_message m' = st"
proof (cases "buildSendAttachments env (sw_getBuffer w) i s")
  case (Inl e)
  with run have "t = s" "r = Inl e" by (simp_all add: deliverPendingMessage_def)
  with that [OF lifecycle.stays] put_status_same [OF ids found] show ?thesis by simp
next
  case (Inr atts)
  obtain r1 s1 where sent: "deliver_transaction env w atts i s = (r1, s1)" by fastforce
  obtain st where st: "lifecycle (status_of_message m) st" "statuses s1 = put_status i st (statuses s)"
    "\<And>m' e. r1 = Inr (m', e) \<Longrightarrow> status_of_message m' = st \<and> ms_id m' = i"
    using deliver_transaction_statuses [OF sent found ids] by blast
  show ?thesis
  proof (cases "\<exists>m'. r1 = Inr (m', None)")
    case False
    then have "t = s1" "\<exists>e. r = Inl e" using run Inr sent
      by (auto simp: deliverPendingMessage_def io_bind_def split: sum.splits option.splits)
    with st(2) show ?thesis by (intro that [OF st(1)]) auto
  next
    case True
    then obtain m' where m': "r1 = Inr (m', None)" by blast
    have hyd: "hydrateSentMetadata env w m' s1 = (r, t)" using run Inr sent m' by (simp add: deliverPendingMessage_def)
    obtain m1 where m1: "find_by ms_id i (messages s1) = Some m1" "status_of_message m1 = st"
      using find_by_status [OF st(2) found] by blast
    have "statuses t = statuses s1" using hyd hydrate_statuses
      by (auto simp: hydrateSentMetadata_def split: option.splits if_splits) (metis snd_conv)
    moreover have "status_of_message u = st" if "r = Inr u" for u
      using hyd st(3) [OF m'] m1 that hydrate_row
      by (auto simp: hydrateSentMetadata_def split: option.splits if_splits)
    ultimately show ?thesis using that [OF st(1)] st(2) by simp
  qed
qed

lemma expire_statuses:
  assumes "distinct (map ms_id (messages s))" and "find_by ms_id i (messages s) = Some m" and "ms_state m = PENDING"
  obtains d t where "expire_pending i s = (Inr (), t)" "statuses t = put_status i (Unclear (Some d)) (statuses s)"
proof -
  let ?f = "\<lambda>m. m\<lparr>ms_state := INDETERMINATE,
      ms_stateDetail := Some ''Pending send exceeded the provider idempotency window''\<rparr>"
  have m: "m \<in> set (messages s)" "ms_id m = i" using find_by_SomeD [OF assms(2)] by simp_all
  have "ms_state r = PENDING" if "r \<in> set (messages s)" "ms_id r = i" for r
    using distinct_key_unique [OF assms(1) that(1) m(1)] that(2) m(2) assms(3) by simp
  then have "update_where (\<lambda>m. ms_id m = i \<and> ms_state m = PENDING) ?f (messages s) = update_where (\<lambda>m. ms_id m = i) ?f (messages s)"
    by (auto simp: update_where_def)
  then have run: "expire_pending i s = (Inr (), s\<lparr>messages := update_where (\<lambda>m. ms_id m = i) ?f (messages s)\<rparr>)"
    by (simp add: expire_pending_def update_messages_def)
  have "statuses (s\<lparr>messages := update_where (\<lambda>m. ms_id m = i) ?f (messages s)\<rparr>) =
      put_status i (Unclear (Some ''Pending send exceeded the provider idempotency window'')) (statuses s)"
    by (rule statuses_update) (simp_all add: status_of_message_def)
  with run show ?thesis by (rule that)
qed

lemma recover_cases:
  assumes "find_by ms_id i (messages s) = Some m"
  shows "recoverPendingMessage env w i s =
    (if ms_state m \<noteq> PENDING then (Inr m, s)
     else if SEND_WINDOW_MS \<le> sw_now w - ms_createdAt m
     then io_bind (expire_pending i) (\<lambda>_. get_message i) s
     else io_catch (deliverPendingMessage env w i) (\<lambda>_. get_message i) s)"
proof -
  have g: "get_message i s = (Inr m, s)" using assms by (simp add: get_message_def)
  have i: "ms_id m = i" using find_by_SomeD [OF assms] by simp
  show ?thesis unfolding recoverPendingMessage_def io_bind_Inr [where m = "get_message i" and s = s, OF g] i by (simp only: if_distrib [of "\<lambda>m. m s"] io_eval)
qed

lemma recover_statuses:
  assumes found: "find_by ms_id i (messages s) = Some m" and ids: "distinct (map ms_id (messages s))"
  obtains m' t st where "recoverPendingMessage env w i s = (Inr m', t)" "lifecycle (status_of_message m) st"
    "statuses t = put_status i st (statuses s)" "status_of_message m' = st"
proof (cases "ms_state m = PENDING")
  case False
  then have "recoverPendingMessage env w i s = (Inr m, s)" by (simp add: recover_cases [OF found])
  then show ?thesis by (rule that [OF _ lifecycle.stays put_status_same [OF ids found, symmetric] refl])
next
  case True
  then have w: "status_of_message m = Waiting" by (simp add: status_of_message_def)
  show ?thesis
  proof (cases "SEND_WINDOW_MS \<le> sw_now w - ms_createdAt m")
    case old: True
    obtain d t where d: "expire_pending i s = (Inr (), t)" "statuses t = put_status i (Unclear (Some d)) (statuses s)"
      using expire_statuses [OF ids found True] by blast
    obtain m' where "find_by ms_id i (messages t) = Some m'" "status_of_message m' = Unclear (Some d)"
      using find_by_status [OF d(2) found] by blast
    moreover from this have "recoverPendingMessage env w i s = (Inr m', t)"
      using True old d(1) by (simp add: recover_cases [OF found] get_message_def)
    ultimately show ?thesis using that d(2) lifecycle.unclear w by metis
  next
    case young: False
    obtain r t where run: "deliverPendingMessage env w i s = (r, t)" by fastforce
    obtain st where st: "lifecycle (status_of_message m) st" "statuses t = put_status i st (statuses s)"
      "\<And>m'. r = Inr m' \<Longrightarrow> status_of_message m' = st"
      using deliver_pending_statuses [OF run found ids] by blast
    obtain m1 where m1: "find_by ms_id i (messages t) = Some m1" "status_of_message m1 = st"
      using find_by_status [OF st(2) found] by blast
    have "recoverPendingMessage env w i s = (Inr (case r of Inr m' \<Rightarrow> m' | Inl e \<Rightarrow> m1), t)"
      using True young run m1(1) by (cases r) (simp_all add: recover_cases [OF found] io_catch_def get_message_def)
    then show ?thesis
    proof (rule that [OF _ st(1,2)])
      show "status_of_message (case r of Inr m' \<Rightarrow> m' | Inl e \<Rightarrow> m1) = st" using st(3) m1(2) by (cases r) simp_all
    qed
  qed
qed

section \<open>Properties\<close>

definition sample_world :: "(js_error + string) \<Rightarrow> instant \<Rightarrow> send_world" where
  "sample_world answer now =
     \<lparr>sw_now = now, sw_getBuffer = (\<lambda>key. Inl NotAnError), sw_send = (\<lambda>input key. answer),
      sw_getSent = (\<lambda>n i. Inl NotAnError), sw_getReceived = (\<lambda>i. Inl NotAnError)\<rparr>"

definition sample_queue :: store where
  "sample_queue = empty_store\<lparr>conversations := [plain_conversation ''c1'' AWAITING_US],
     messages := [plain_message ''m1'' PENDING, plain_message ''m2'' ACCEPTED]\<rparr>"

lemma sample_queue_row: "find_by ms_id ''m1'' (messages sample_queue) = Some (plain_message ''m1'' PENDING)"
  by (simp add: sample_queue_def plain_message_def)

lemma sample_queue_ids: "distinct (map ms_id (messages sample_queue))"
  by (simp add: sample_queue_def plain_message_def)

lemma sample_queue_state: "ms_state (plain_message ''m1'' PENDING) = PENDING"
  by (simp add: plain_message_def)

definition keys_apart :: "message \<Rightarrow> message list \<Rightarrow> bool" where
  "keys_apart m rows = list_all (\<lambda>r. ms_id r = ms_id m \<or> \<not> message_conflict m r) rows"

text \<open>C5: a recovery refines the life of a message. However the provider answers and whatever fails on
  the way, recovering a stored message returns a row; the message made at most one step of the
  lifecycle, from waiting to sent, refused or unclear, the row shows it, and no other message moved.\<close>

theorem recovery_refines_lifecycle:
  assumes "find_by ms_id i (messages s) = Some m" and "distinct (map ms_id (messages s))"
  shows "\<exists>m' t. recoverPendingMessage env w i s = (Inr m', t) \<and> lifecycle (status_of_message m) (status_of_message m')
    \<and> statuses t = put_status i (status_of_message m') (statuses s)"
  using recover_statuses [OF assms] by metis

theorem recovery_refines_lifecycle_witness:
  "\<exists>m' t. recoverPendingMessage nats_on (sample_world (Inr ''re1'') 5) ''m1'' sample_queue = (Inr m', t)
    \<and> lifecycle Waiting (status_of_message m')"
  using recovery_refines_lifecycle [OF sample_queue_row sample_queue_ids, of nats_on "sample_world (Inr ''re1'') 5"]
  by (auto simp: status_of_message_def [of "plain_message ''m1'' PENDING"] sample_queue_state)

text \<open>A message that waited longer than the provider remembers its idempotency key settles, and is
  never sent again. From then on every recovery, with whatever provider, gives the same settled row
  and writes nothing more.\<close>

theorem old_message_settles_unsent:
  assumes "find_by ms_id i (messages s) = Some m" and "distinct (map ms_id (messages s))" and "ms_state m = PENDING"
    and "SEND_WINDOW_MS \<le> now - ms_createdAt m"
  shows "\<exists>m' t. ms_state m' = INDETERMINATE \<and> ms_createdAt m' = ms_createdAt m
    \<and> (\<forall>env w. recoverPendingMessage env (w\<lparr>sw_now := now\<rparr>) i s = (Inr m', t))
    \<and> (\<forall>env w. recoverPendingMessage env w i t = (Inr m', t))"
proof -
  let ?f = "\<lambda>m. m\<lparr>ms_state := INDETERMINATE,
      ms_stateDetail := Some ''Pending send exceeded the provider idempotency window''\<rparr>"
  let ?t = "s\<lparr>messages := update_where (\<lambda>m. ms_id m = i \<and> ms_state m = PENDING) ?f (messages s)\<rparr>"
  have found: "find_by ms_id i (messages ?t) = Some (?f m)"
    using assms(1,3) find_by_SomeD [OF assms(1)] by (simp add: find_by_update_where)
  have run: "expire_pending i s = (Inr (), ?t)" by (simp add: expire_pending_def update_messages_def)
  have "recoverPendingMessage env (w\<lparr>sw_now := now\<rparr>) i s = (Inr (?f m), ?t)" for env w
    using assms(3,4) run found by (simp add: recover_cases [OF assms(1)] get_message_def)
  moreover have "recoverPendingMessage env w i ?t = (Inr (?f m), ?t)" for env w
    by (simp add: recover_cases [OF found])
  ultimately show ?thesis by (intro exI [of _ "?f m"] exI [of _ ?t]) simp
qed

theorem old_message_settles_unsent_witness:
  "\<exists>m' t. ms_state m' = INDETERMINATE
    \<and> recoverPendingMessage nats_on ((sample_world (Inr ''re1'') 0)\<lparr>sw_now := 90000000\<rparr>) ''m1'' sample_queue = (Inr m', t)
    \<and> recoverPendingMessage nats_on (sample_world (Inr ''re2'') 7) ''m1'' t = (Inr m', t)"
proof -
  have "SEND_WINDOW_MS \<le> 90000000 - ms_createdAt (plain_message ''m1'' PENDING)"
    by (simp add: SEND_WINDOW_MS_def plain_message_def)
  from old_message_settles_unsent [OF sample_queue_row sample_queue_ids sample_queue_state this] show ?thesis by blast
qed

text \<open>C38: a send that the provider refuses leaves a trace. The caller gets the provider's error, and the
  message is stored with its text: as failed when the error tells that nothing was sent, as
  indeterminate otherwise. Nothing else of the database changes.\<close>

theorem failed_send_is_recorded:
  assumes "find_by ms_id i (messages s) = Some m" and "ms_state m = PENDING" and "truthy (ms_idempotencyKey m)"
    and "buildSendAttachments env (sw_getBuffer w) i s = Inr atts"
    and "sw_send w (buildSendEmailInput m atts) (send_key m) = Inl e" and "e \<noteq> PrismaError ''P2002''"
    and "keys_apart m (messages s)"
  shows "\<exists>t m'. deliverPendingMessage env w i s = (Inl e, t) \<and> find_by ms_id i (messages t) = Some m'
    \<and> ms_state m' = (if knownFailure e then FAILED else INDETERMINATE) \<and> ms_stateDetail m' \<noteq> None
    \<and> filter (\<lambda>r. ms_id r \<noteq> i) (messages t) = filter (\<lambda>r. ms_id r \<noteq> i) (messages s)
    \<and> t\<lparr>messages := messages s\<rparr> = s"
proof -
  have id: "ms_id m = i" using find_by_SomeD [OF assms(1)] by simp
  let ?t = "s\<lparr>messages := update_where (\<lambda>r. ms_id r = i) (not_sent e) (messages s)\<rparr>"
  have "try_send env w atts m s = (Inl e, s)" using assms(3,5) by (simp add: try_send_def)
  moreover have "update_message i (not_sent e) s = (Inr (not_sent e m), ?t)"
    using assms(1,7) id by (auto simp: update_message_def keys_apart_def list_all_iff)
  ultimately have "deliver_transaction env w atts i s = (Inr (not_sent e m, Some e), ?t)"
    using assms(6) id by (simp add: deliver_transaction_pending [OF assms(1,2)] transaction_def io_catch_def)
  then have run: "deliverPendingMessage env w i s = (Inl e, ?t)"
    using assms(4) by (simp add: deliverPendingMessage_def)
  have row: "find_by ms_id i (messages ?t) = Some (not_sent e m)"
    using assms(1) id by (simp add: find_by_update_where)
  have rest: "filter (\<lambda>r. ms_id r \<noteq> i) (messages ?t) = filter (\<lambda>r. ms_id r \<noteq> i) (messages s)"
    using filter_update_other [where P = "\<lambda>r. ms_id r = i" and R = "\<lambda>r. ms_id r \<noteq> i" and f = "not_sent e"] by simp
  have frame: "?t\<lparr>messages := messages s\<rparr> = s" by simp
  show ?thesis
  proof (intro exI conjI)
    show "ms_state (not_sent e m) = (if knownFailure e then FAILED else INDETERMINATE)" "ms_stateDetail (not_sent e m) \<noteq> None"
      by (simp_all add: not_sent_def)
  qed (use run row rest frame in blast)+
qed

theorem failed_send_is_recorded_witness:
  "\<exists>t m'. deliverPendingMessage nats_on (sample_world (Inl (ResendApiError 422 None)) 5) ''m1'' sample_queue
      = (Inl (ResendApiError 422 None), t)
    \<and> find_by ms_id ''m1'' (messages t) = Some m' \<and> ms_state m' = FAILED"
proof -
  let ?w = "sample_world (Inl (ResendApiError 422 None)) 5"
  have "truthy (ms_idempotencyKey (plain_message ''m1'' PENDING))" by code_simp
  moreover have "buildSendAttachments nats_on (sw_getBuffer ?w) ''m1'' sample_queue = Inr []" by code_simp
  moreover have "sw_send ?w input key = Inl (ResendApiError 422 None)" for input key by (simp add: sample_world_def)
  moreover have "keys_apart (plain_message ''m1'' PENDING) (messages sample_queue)" by code_simp
  ultimately show ?thesis
    using failed_send_is_recorded [OF sample_queue_row sample_queue_state, of nats_on ?w "[]" "ResendApiError 422 None"]
    by (auto simp: knownFailure_def)
qed

end
