(* ===== verification/Http_Api.thy ===== *)
theory Http_Api
  imports Send_Validation Delivery
begin

text \<open>
  \<open>src/lib/api.ts\<close> (its predicates on values are in \<open>Send_Validation\<close>): who may call, what a request
  says, how rows are put into responses, and how a conversation is read page by page. A request is its
  headers (names in lower case), its body (\<open>None\<close> when it is no JSON) and its query parameters; a
  response its status, headers and body. \<open>sha256\<close> is the digest of \<open>node:crypto\<close>; \<open>updated_at\<close>, a
  column the tables of the model leave out, is an argument.
\<close>

section \<open>Requests and responses\<close>

record http_request =
  rq_header :: "string \<Rightarrow> string option"
  rq_body :: "json option"
  rq_query :: "(string \<times> string) list"

record reply =
  rp_status :: int
  rp_headers :: "(string \<times> string) list"
  rp_body :: "json option"

definition json_reply :: "int \<Rightarrow> json \<Rightarrow> reply" where
  \<comment> \<open>\<open>Response.json(body, { status })\<close>\<close>
  "json_reply status body = \<lparr>rp_status = status, rp_headers = [], rp_body = Some body\<rparr>"

definition error_reply :: "int \<Rightarrow> string \<Rightarrow> reply" where
  "error_reply status message = json_reply status (JObject [(''error'', JString message)])"

definition nullable :: "string option \<Rightarrow> json" where
  "nullable v = (case v of None \<Rightarrow> JNull | Some s \<Rightarrow> JString s)"

section \<open>Authorization\<close>

definition resolveEmailV2ApiKey :: "environment \<Rightarrow> string option" where
  \<comment> \<open>\<open>src/lib/environment.ts\<close>\<close>
  "resolveEmailV2ApiKey env =
     (if truthy (env ''EMAIL_v2_API_KEY'') then env ''EMAIL_v2_API_KEY'' else env ''EMAIL_V2_API_KEY'')"

definition bearer_token :: "string \<Rightarrow> string" where
  \<comment> \<open>the match of \<open>/^Bearer[ ]+(\S+)$/i\<close>, \<open>''\<close> when there is none\<close>
  "bearer_token authorization =
     (let rest = drop 6 authorization; token = dropWhile (\<lambda>c. c = CHR '' '') rest
      in if js_toLower (take 6 authorization) = ''bearer'' \<and> token \<noteq> rest \<and> list_all (\<lambda>c. \<not> js_space c) token
         then token else [])"

definition misconfigured_reply :: reply where
  "misconfigured_reply = error_reply 500 ''Server misconfiguration''"

definition unauthorized_reply :: reply where
  "unauthorized_reply =
     \<lparr>rp_status = 401, rp_headers = [(''WWW-Authenticate'', ''Bearer'')],
      rp_body = Some (JObject [(''error'', JString ''Unauthorized'')])\<rparr>"

definition authorizeWithCredential :: "(string \<Rightarrow> string) \<Rightarrow> http_request \<Rightarrow> string option \<Rightarrow> reply option" where
  "authorizeWithCredential sha256 request expected =
     (case keep_truthy expected of
        None \<Rightarrow> Some misconfigured_reply
      | Some key \<Rightarrow>
          (let provided = bearer_token (case rq_header request ''authorization'' of None \<Rightarrow> [] | Some v \<Rightarrow> v)
           in if provided = [] \<or> sha256 key \<noteq> sha256 provided then Some unauthorized_reply else None))"

definition authorizeEmailV2 :: "(string \<Rightarrow> string) \<Rightarrow> environment \<Rightarrow> http_request \<Rightarrow> reply option" where
  "authorizeEmailV2 sha256 env request = authorizeWithCredential sha256 request (resolveEmailV2ApiKey env)"

definition authorizeOutboxDrain :: "(string \<Rightarrow> string) \<Rightarrow> environment \<Rightarrow> http_request \<Rightarrow> reply option" where
  "authorizeOutboxDrain sha256 env request = authorizeWithCredential sha256 request (env ''OUTBOX_DRAIN_API_KEY'')"

definition readJson :: "http_request \<Rightarrow> reply + json" where
  "readJson request =
     (case rq_body request of None \<Rightarrow> Inl (error_reply 400 ''Request body must be valid JSON'') | Some v \<Rightarrow> Inr v)"

section \<open>Dates\<close>

definition civil_date :: "int \<Rightarrow> int \<times> int \<times> int" where
  \<comment> \<open>year, month and day of the days since 1970-01-01 in the Gregorian calendar, counted in eras of 400
    years that start on the first of March\<close>
  "civil_date days =
     (let z = days + 719468; era = z div 146097; doe = z mod 146097;
          yoe = (doe - doe div 1460 + doe div 36524 - doe div 146096) div 365;
          doy = doe - (365 * yoe + yoe div 4 - yoe div 100);
          mp = (5 * doy + 2) div 153;
          d = doy - (153 * mp + 2) div 5 + 1;
          m = (if mp < 10 then mp + 3 else mp - 9)
      in (yoe + era * 400 + (if m \<le> 2 then 1 else 0), m, d))"

definition padded :: "nat \<Rightarrow> int \<Rightarrow> string" where
  "padded n i = (let ds = digits (nat i) in replicate (n - length ds) (CHR ''0'') @ ds)"

definition toISOString :: "instant \<Rightarrow> string" where
  \<comment> \<open>\<open>Date.prototype.toISOString\<close>\<close>
  "toISOString t =
     (let ms = t mod 86400000; (y, m, d) = civil_date (t div 86400000)
      in (if 0 \<le> y \<and> y \<le> 9999 then padded 4 y else (if y < 0 then ''-'' else ''+'') @ padded 6 (abs y))
         @ ''-'' @ padded 2 m @ ''-'' @ padded 2 d @ ''T'' @ padded 2 (ms div 3600000) @ '':''
         @ padded 2 (ms div 60000 mod 60) @ '':'' @ padded 2 (ms div 1000 mod 60) @ ''.'' @ padded 3 (ms mod 1000) @ ''Z'')"

section \<open>Rows in responses\<close>

definition direction_name :: "email_direction \<Rightarrow> string" where
  "direction_name d = (case d of INBOUND \<Rightarrow> ''INBOUND'' | OUTBOUND \<Rightarrow> ''OUTBOUND'')"

definition message_state_name :: "message_state \<Rightarrow> string" where
  "message_state_name st =
     (case st of RECEIVED \<Rightarrow> ''RECEIVED'' | PENDING \<Rightarrow> ''PENDING'' | ACCEPTED \<Rightarrow> ''ACCEPTED'' | FAILED \<Rightarrow> ''FAILED''
      | INDETERMINATE \<Rightarrow> ''INDETERMINATE'')"

definition disposition_name :: "attachment_disposition \<Rightarrow> string" where
  "disposition_name d = (case d of ATTACHMENT \<Rightarrow> ''ATTACHMENT'' | INLINE \<Rightarrow> ''INLINE'')"

definition serializeAttachment :: "attachment \<Rightarrow> json" where
  "serializeAttachment a = JObject
     [(''id'', JString (at_id a)), (''filename'', JString (at_filename a)), (''contentType'', JString (at_contentType a)),
      (''disposition'', JString (js_toLower (disposition_name (at_contentDisposition a)))),
      (''contentId'', nullable (at_contentId a)), (''sizeBytes'', JNumber (int (at_sizeBytes a))),
      (''state'', JString (attachment_state_text (at_state a))),
      (''downloadPath'', if at_state a = STORED then JString (''/api/attachments/v2/'' @ at_id a) else JNull)]"

definition serializeMessage :: "environment \<Rightarrow> message \<Rightarrow> attachment list \<Rightarrow> json" where
  \<comment> \<open>the empty list stands for absent attachments\<close>
  "serializeMessage env m atts =
     (let outbound = ms_direction m = OUTBOUND
      in JObject
        ([(''id'', JString (ms_id m)), (''parentMessageId'', nullable (ms_parentMessageId m)),
          (''direction'', JString (js_toLower (direction_name (ms_direction m)))),
          (''state'', JString (js_toLower (message_state_name (ms_state m)))),
          (''stateDetail'', nullable (ms_stateDetail m)),
          (''deliveryState'', if outbound
             then JString (js_toLower (delivery_state_name (case ms_deliveryState m of None \<Rightarrow> UNKNOWN | Some st \<Rightarrow> st))) else JNull),
          (''deliveryStateDetail'', if outbound then nullable (ms_deliveryStateDetail m) else JNull),
          (''deliveredAt'', if outbound then nullable (map_option toISOString (ms_deliveredAt m)) else JNull),
          (''resendEmailId'', nullable (ms_resendEmailId m)), (''internetMessageId'', nullable (ms_internetMessageId m)),
          (''from'', JObject [(''address'', JString (ms_fromAddress m)), (''name'', nullable (ms_fromName m))]),
          (''to'', JString (ms_toAddress m)), (''replyTo'', nullable (ms_replyToAddress m)),
          (''replyToName'', nullable (ms_replyToName m)), (''subject'', JString (ms_subject m)),
          (''text'', nullable (ms_textBody m)), (''html'', nullable (ms_htmlBody m)),
          (''createdAt'', JString (toISOString (ms_emailCreatedAt m)))]
         @ (if attachmentsEnabled env then [(''attachments'', JArray (map serializeAttachment atts))] else [])))"

definition serializeMessageWithAttachments :: "environment \<Rightarrow> store \<Rightarrow> message \<Rightarrow> json" where
  "serializeMessageWithAttachments env s m =
     (if \<not> attachmentsEnabled env then serializeMessage env m []
      else serializeMessage env m (sort_key at_id (filter (\<lambda>a. at_messageId a = Some (ms_id m)) (attachments s))))"

definition topic_json :: "conversation \<Rightarrow> json" where
  \<comment> \<open>\<open>topicType && externalTopicId ? { ... } : null\<close>\<close>
  "topic_json c =
     (case (keep_truthy (cv_topicType c), keep_truthy (cv_externalTopicId c)) of
        (Some t, Some e) \<Rightarrow> JObject [(''type'', JString t), (''externalId'', JString e), (''title'', JString (cv_title c))]
      | _ \<Rightarrow> JNull)"

definition participant_json :: "conversation \<Rightarrow> json" where
  "participant_json c = JObject [(''address'', JString (cv_participantAddress c)), (''name'', nullable (cv_participantName c))]"

definition serializeConversation ::
  "environment \<Rightarrow> (conversation \<Rightarrow> instant) \<Rightarrow> conversation \<Rightarrow> message list \<Rightarrow> bool \<Rightarrow> (uuid \<Rightarrow> attachment list) \<Rightarrow> string + json"
where
  \<comment> \<open>the message of the error that \<open>buildConversationReplyTo\<close> throws, or the object\<close>
  "serializeConversation env updatedAt c ms hasMoreBefore attachmentsOf =
     (case buildConversationReplyTo (case cv_replyToBaseAddress c of Some a \<Rightarrow> a | None \<Rightarrow> env_or env ''RESEND_REPLY_TO'')
        (cv_routingToken c) of
        Inl e \<Rightarrow> Inl e
      | Inr replyTo \<Rightarrow> Inr (JObject
          [(''id'', JString (cv_id c)), (''topic'', topic_json c), (''title'', JString (cv_title c)),
           (''subject'', JString (cv_subject c)), (''participant'', participant_json c), (''replyToAddress'', JString replyTo),
           (''state'', JString (serializeConversationState (cv_state c))),
           (''stateChangedAt'', JString (toISOString (cv_stateChangedAt c))),
           (''awaitingReply'', JBool (cv_state c = AWAITING_US)),
           (''lastMessageAt'', JString (toISOString (cv_lastMessageAt c))),
           (''createdAt'', JString (toISOString (cv_createdAt c))), (''updatedAt'', JString (toISOString (updatedAt c))),
           (''messages'', JArray (map (\<lambda>m. serializeMessage env m (attachmentsOf (ms_id m))) ms)),
           (''page'', JObject [(''hasMoreBefore'', JBool hasMoreBefore),
              (''before'', if hasMoreBefore then nullable (map_option ms_id (js_head ms)) else JNull)])]))"

definition send_status :: "message \<Rightarrow> int" where
  "send_status m =
     (if ms_state m = FAILED \<or> ms_state m = INDETERMINATE then 502 else if ms_state m = PENDING then 202 else 200)"

definition sendResultResponse :: "environment \<Rightarrow> store \<Rightarrow> message \<Rightarrow> uuid \<Rightarrow> reply" where
  "sendResultResponse env s m conversationId =
     json_reply (send_status m) (JObject
       ((if ms_state m = FAILED \<or> ms_state m = INDETERMINATE then [(''error'', JString ''Email was not confirmed as sent'')] else [])
        @ [(''conversationId'', JString conversationId), (''message'', serializeMessageWithAttachments env s m)]))"

section \<open>Pages of a conversation\<close>

definition query_param :: "http_request \<Rightarrow> string \<Rightarrow> string option" where
  \<comment> \<open>\<open>searchParams.get(name)\<close>\<close>
  "query_param request name = map_of (rq_query request) name"

definition js_parseInt :: "string \<Rightarrow> int option" where
  \<comment> \<open>\<open>Number.parseInt(s, 10)\<close>, \<open>None\<close> for NaN\<close>
  "js_parseInt s =
     (let (negative, rest) = split_sign (js_ltrim s); ds = takeWhile is_digit rest
      in if ds = [] then None
         else Some (if negative then - int (digits_value 10 ds) else int (digits_value 10 ds)))"

definition finite_double :: "int \<Rightarrow> bool" where
  \<comment> \<open>integers from here on round to Infinity\<close>
  "finite_double i \<longleftrightarrow> abs i < 2 ^ 1024 - 2 ^ 970"

definition getPageLimit :: "http_request \<Rightarrow> int" where
  "getPageLimit request =
     (case keep_truthy (query_param request ''limit'') of
        None \<Rightarrow> 50
      | Some v \<Rightarrow>
          (case js_parseInt v of
             None \<Rightarrow> 50
           | Some parsed \<Rightarrow> if finite_double parsed then min (max parsed 1) 100 else 50))"

definition message_order :: "message \<Rightarrow> instant \<times> uuid" where
  "message_order m = (ms_emailCreatedAt m, ms_id m)"

definition messages_before :: "uuid \<Rightarrow> message option \<Rightarrow> nat \<Rightarrow> store \<Rightarrow> message list" where
  \<comment> \<open>the \<open>findMany\<close>, newest first\<close>
  "messages_before conversationId before n s =
     take n (rev (sort_key message_order (filter (\<lambda>m. ms_conversationId m = Some conversationId
       \<and> (case before of None \<Rightarrow> True
          | Some b \<Rightarrow> ms_emailCreatedAt m < ms_emailCreatedAt b
              \<or> ms_emailCreatedAt m = ms_emailCreatedAt b \<and> ms_id m < ms_id b)) (messages s))))"

definition message_page :: "uuid \<Rightarrow> message option \<Rightarrow> nat \<Rightarrow> store \<Rightarrow> message list \<times> bool" where
  \<comment> \<open>\<open>page\<close> and \<open>hasMoreBefore\<close>\<close>
  "message_page conversationId before limit s =
     (let found = messages_before conversationId before (limit + 1) s
      in (rev (take limit found), limit < length found))"

definition loadAttachmentsByMessage :: "environment \<Rightarrow> store \<Rightarrow> uuid list \<Rightarrow> uuid \<Rightarrow> attachment list" where
  \<comment> \<open>the map as a function, with its default for ids that are not in it\<close>
  "loadAttachmentsByMessage env s messageIds i =
     (if \<not> attachmentsEnabled env \<or> i \<notin> set messageIds then []
      else filter (\<lambda>a. at_messageId a = Some i)
        (sort_key at_id (filter (\<lambda>a. \<exists>j \<in> set messageIds. at_messageId a = Some j) (attachments s))))"

definition getConversationResponse ::
  "environment \<Rightarrow> (conversation \<Rightarrow> instant) \<Rightarrow> http_request \<Rightarrow> (conversation \<Rightarrow> bool) \<Rightarrow> store \<Rightarrow> string + reply"
where
  \<comment> \<open>the conversation is the one the unique \<open>where\<close> finds\<close>
  "getConversationResponse env updatedAt request sought s =
     (case find sought (conversations s) of
        None \<Rightarrow> Inr (error_reply 404 ''Conversation not found'')
      | Some c \<Rightarrow>
          (let limit = nat (getPageLimit request);
               beforeId = keep_truthy (query_param request ''before'');
               before = Option.bind beforeId (\<lambda>i.
                 find (\<lambda>m. ms_id m = js_toLower i \<and> ms_conversationId m = Some (cv_id c)) (messages s))
           in if (case beforeId of None \<Rightarrow> False | Some i \<Rightarrow> \<not> isUuid i) \<or> beforeId \<noteq> None \<and> before = None
              then Inr (error_reply 400 ''Invalid message cursor'')
              else
                (let (page, hasMoreBefore) = message_page (cv_id c) before limit s
                 in case serializeConversation env updatedAt c page hasMoreBefore
                      (loadAttachmentsByMessage env s (map ms_id page)) of
                      Inl e \<Rightarrow> Inl e
                    | Inr body \<Rightarrow> Inr (json_reply 200 body))))"

section \<open>What the pages show\<close>

text \<open>A client that starts without a cursor and follows \<open>before\<close> as long as there is more.\<close>

fun read_back :: "nat \<Rightarrow> uuid \<Rightarrow> nat \<Rightarrow> store \<Rightarrow> message option \<Rightarrow> message list" where
  "read_back 0 i limit s before = []"
| "read_back (Suc fuel) i limit s before =
     (let (page, more) = message_page i before limit s
      in (if more then read_back fuel i limit s (js_head page) else []) @ page)"

lemma filter_below_nth:
  fixes key :: "'a \<Rightarrow> 'k::linorder"
  assumes "sorted_wrt (\<lambda>a b. key a < key b) xs" and "k < length xs"
  shows "filter (\<lambda>x. key x < key (xs ! k)) xs = take k xs"
proof -
  have below: "\<forall>x \<in> set (take k xs). key x < key (xs ! k)"
  proof
    fix x assume "x \<in> set (take k xs)"
    then obtain i where "i < k" "x = xs ! i" using assms(2) by (auto simp: in_set_conv_nth)
    then show "key x < key (xs ! k)" using sorted_wrt_nth_less [OF assms(1), of i k] assms(2) by simp
  qed
  have above: "\<forall>x \<in> set (drop k xs). \<not> key x < key (xs ! k)"
  proof
    fix x assume "x \<in> set (drop k xs)"
    then obtain i where i: "i < length xs - k" "x = xs ! (k + i)" by (auto simp: in_set_conv_nth)
    show "\<not> key x < key (xs ! k)"
    proof (cases i)
      case (Suc j)
      then show ?thesis using sorted_wrt_nth_less [OF assms(1), of k "k + i"] i by (simp add: less_imp_not_less)
    qed (simp add: i)
  qed
  have "filter (\<lambda>x. key x < key (xs ! k)) (take k xs @ drop k xs) = take k xs"
    unfolding filter_append using below above by (simp add: filter_id_conv filter_empty_conv del: append_take_drop_id)
  then show ?thesis by simp
qed

lemma message_order_less:
  "message_order a < message_order b \<longleftrightarrow>
     ms_emailCreatedAt a < ms_emailCreatedAt b \<or> ms_emailCreatedAt a = ms_emailCreatedAt b \<and> ms_id a < ms_id b"
  by (auto simp: message_order_def less_prod_def')

definition of_conversation :: "uuid \<Rightarrow> store \<Rightarrow> message list" where
  "of_conversation i s = sort_key message_order (filter (\<lambda>m. ms_conversationId m = Some i) (messages s))"

definition older :: "message option \<Rightarrow> message \<Rightarrow> bool" where
  "older before m = (case before of None \<Rightarrow> True | Some b \<Rightarrow> message_order m < message_order b)"

lemma messages_before_of:
  "messages_before i before n s = take n (rev (filter (older before) (of_conversation i s)))"
proof -
  have "(\<lambda>m. ms_conversationId m = Some i \<and> (case before of None \<Rightarrow> True
      | Some b \<Rightarrow> ms_emailCreatedAt m < ms_emailCreatedAt b \<or> ms_emailCreatedAt m = ms_emailCreatedAt b \<and> ms_id m < ms_id b))
    = (\<lambda>m. ms_conversationId m = Some i \<and> older before m)"
    by (auto simp: fun_eq_iff older_def message_order_less split: option.split)
  then show ?thesis
    by (simp add: messages_before_def of_conversation_def filter_sort conj_commute)
qed

lemma of_conversation_strict:
  assumes "distinct (map ms_id (messages s))"
  shows "sorted_wrt (\<lambda>a b. message_order a < message_order b) (of_conversation i s)"
proof -
  have "distinct (map ms_id (filter (\<lambda>m. ms_conversationId m = Some i) (messages s)))"
    using assms by (rule distinct_map_filter)
  then have "distinct (map message_order (filter (\<lambda>m. ms_conversationId m = Some i) (messages s)))"
    by (auto simp: distinct_map inj_on_def message_order_def)
  then have "distinct (map message_order (of_conversation i s))" by (simp add: of_conversation_def distinct_map)
  moreover have "sorted (map message_order (of_conversation i s))" by (simp add: of_conversation_def)
  ultimately have "sorted_wrt (<) (map message_order (of_conversation i s))" by (simp add: strict_sorted_iff)
  then show ?thesis by (simp add: sorted_wrt_map)
qed

lemma filter_older_take:
  assumes "sorted_wrt (\<lambda>a b. message_order a < message_order b) xs" and "k < length (filter (older before) xs)"
  shows "filter (older (Some (filter (older before) xs ! k))) xs = take k (filter (older before) xs)"
proof -
  let ?ys = "filter (older before) xs"
  have ys: "sorted_wrt (\<lambda>a b. message_order a < message_order b) ?ys" using assms(1) by (rule sorted_wrt_filter)
  have "older before (?ys ! k)" using assms(2) nth_mem [of k ?ys] by auto
  then have "older (Some (?ys ! k)) m \<longleftrightarrow> older before m \<and> message_order m < message_order (?ys ! k)" for m
    by (auto simp: older_def split: option.splits)
  then have "filter (older (Some (?ys ! k))) xs = filter (\<lambda>m. message_order m < message_order (?ys ! k)) ?ys"
    by (auto simp: conj_commute intro!: filter_cong)
  then show ?thesis using filter_below_nth [OF ys assms(2)] by simp
qed

lemma read_back_older:
  assumes "0 < limit" and strict: "sorted_wrt (\<lambda>a b. message_order a < message_order b) (of_conversation i s)"
  shows "length (filter (older before) (of_conversation i s)) \<le> fuel \<Longrightarrow>
    read_back fuel i limit s before = filter (older before) (of_conversation i s)"
proof (induction fuel arbitrary: before)
  case (Suc fuel)
  let ?ys = "filter (older before) (of_conversation i s)"
  let ?k = "length ?ys - limit"
  have shorter: "take limit (take (limit + 1) (rev ?ys)) = take limit (rev ?ys)" by (simp add: min_def)
  have more: "limit < length (take (limit + 1) (rev ?ys)) \<longleftrightarrow> limit < length ?ys" by auto
  have page: "message_page i before limit s = (drop ?k ?ys, limit < length ?ys)"
    unfolding message_page_def messages_before_of Let_def shorter more by (simp add: rev_take)
  show ?case
  proof (cases "limit < length ?ys")
    case True
    then have k: "?k < length ?ys" using assms(1) by simp
    then have head: "js_head (drop ?k ?ys) = Some (?ys ! ?k)"
      unfolding js_head_def Cons_nth_drop_Suc [OF k, symmetric] by simp
    have rest: "filter (older (Some (?ys ! ?k))) (of_conversation i s) = take ?k ?ys"
      by (rule filter_older_take [OF strict k])
    have "length (filter (older (Some (?ys ! ?k))) (of_conversation i s)) \<le> fuel"
      unfolding rest using Suc.prems assms(1) True by simp
    then have "read_back fuel i limit s (Some (?ys ! ?k)) = take ?k ?ys" using Suc.IH rest by simp
    then show ?thesis using True by (simp add: page head)
  next
    case False
    then show ?thesis by (simp add: page)
  qed
qed simp

text \<open>The dates.\<close>

lemma toISOString_epoch: "toISOString 0 = ''1970-01-01T00:00:00.000Z''"
  by code_simp

lemma toISOString_leap_day: "toISOString 951782400000 = ''2000-02-29T00:00:00.000Z''"
  by code_simp

lemma toISOString_no_leap_day: "toISOString 4107542400000 = ''2100-03-01T00:00:00.000Z''"
  by code_simp

lemma toISOString_before_epoch: "toISOString (-1) = ''1969-12-31T23:59:59.999Z''"
  by code_simp

section \<open>Properties\<close>

definition sample_thread :: store where
  "sample_thread = empty_store\<lparr>conversations := [plain_conversation ''c1'' AWAITING_US],
     messages := [(plain_message ''m3'' ACCEPTED)\<lparr>ms_emailCreatedAt := 7\<rparr>, plain_message ''m1'' ACCEPTED,
       (plain_message ''m2'' RECEIVED)\<lparr>ms_emailCreatedAt := 7\<rparr>]\<rparr>"

text \<open>C39: paging shows a conversation completely. A client that starts at the end and follows the
  \<open>before\<close> cursor while there is more reads every message of the conversation exactly once, in the
  order of their dates, whatever the limit.\<close>

theorem pages_cover_conversation:
  assumes "0 < limit" and "distinct (map ms_id (messages s))" and "length (messages s) \<le> fuel"
  shows "read_back fuel i limit s None = sort_key (\<lambda>m. (ms_emailCreatedAt m, ms_id m)) (filter (\<lambda>m. ms_conversationId m = Some i) (messages s))"
proof -
  have all: "filter (older None) (of_conversation i s) = of_conversation i s" by (simp add: older_def)
  have "length (of_conversation i s) \<le> fuel"
    using le_trans [OF length_filter_le assms(3)] by (simp add: of_conversation_def)
  then have "read_back fuel i limit s None = of_conversation i s"
    using read_back_older [OF assms(1) of_conversation_strict [OF assms(2)], where before = None and fuel = fuel] by (simp add: all)
  then show ?thesis by (simp add: of_conversation_def message_order_def [abs_def])
qed

theorem pages_cover_conversation_witness:
  "map ms_id (read_back 3 ''c1'' 1 sample_thread None) = [''m1'', ''m2'', ''m3'']"
proof -
  have "distinct (map ms_id (messages sample_thread))" "length (messages sample_thread) \<le> 3"
    by (simp_all add: sample_thread_def plain_message_def)
  moreover have "map ms_id (sort_key (\<lambda>m. (ms_emailCreatedAt m, ms_id m))
      (filter (\<lambda>m. ms_conversationId m = Some ''c1'') (messages sample_thread))) = [''m1'', ''m2'', ''m3'']"
    by code_simp
  ultimately show ?thesis by (subst pages_cover_conversation) simp_all
qed

end
