(* ===== verification/Send_Intents.thy ===== *)
theory Send_Intents
  imports Http_Api Conversation_Service
begin

text \<open>
  What the two kinds of sending requests share: the request as the JSON text that is hashed
  (\<open>hashSendRequest\<close> of \<open>src/lib/email/conversations.ts\<close> over the inputs of
  \<open>src/lib/send-validation.ts\<close>), the allowlist (\<open>src/lib/database/email-address-allowlist.ts\<close>), the
  stored message of an intent with its row in an outbox lane, and the answers both give. The world of a
  request is the one of a send, the digest, a random token and what other requests commit meanwhile.
\<close>

section \<open>The hash of a request\<close>

definition hex_lower :: "nat \<Rightarrow> char" where
  "hex_lower n = ''0123456789abcdef'' ! (n mod 16)"

definition json_quoted :: "char \<Rightarrow> string" where
  \<comment> \<open>a character inside a string literal\<close>
  "json_quoted c =
     (let n = of_char c :: nat
      in if c = CHR 0x22 \<or> c = CHR 0x5C then [CHR 0x5C, c]
         else if n = 8 then [CHR 0x5C, CHR ''b'']
         else if n = 9 then [CHR 0x5C, CHR ''t'']
         else if n = 10 then [CHR 0x5C, CHR ''n'']
         else if n = 12 then [CHR 0x5C, CHR ''f'']
         else if n = 13 then [CHR 0x5C, CHR ''r'']
         else if n < 32 then [CHR 0x5C, CHR ''u'', CHR ''0'', CHR ''0'', hex_lower (n div 16), hex_lower n]
         else [c])"

definition json_literal :: "string \<Rightarrow> string" where
  "json_literal s = [CHR 0x22] @ concat (map json_quoted s) @ [CHR 0x22]"

fun JSON_stringify :: "json \<Rightarrow> string" where
  \<comment> \<open>a fraction has no text of its own in the model; none occurs in what is hashed\<close>
  "JSON_stringify JNull = ''null''"
| "JSON_stringify (JBool b) = (if b then ''true'' else ''false'')"
| "JSON_stringify (JNumber i) = show_int i"
| "JSON_stringify JFraction = ''0.5''"
| "JSON_stringify (JString s) = json_literal s"
| "JSON_stringify (JArray vs) = ''['' @ js_join '','' (map JSON_stringify vs) @ '']''"
| "JSON_stringify (JObject ms) =
     ''{'' @ js_join '','' (map (\<lambda>(name, v). json_literal name @ '':'' @ JSON_stringify v) ms) @ ''}''"

definition hashSendRequest :: "(string \<Rightarrow> string) \<Rightarrow> json \<Rightarrow> string" where
  "hashSendRequest sha256 v = sha256 (JSON_stringify v)"

definition optional :: "string \<Rightarrow> json option \<Rightarrow> (string \<times> json) list" where
  \<comment> \<open>a member that is absent when undefined\<close>
  "optional name v = (case v of None \<Rightarrow> [] | Some j \<Rightarrow> [(name, j)])"

definition identity_json :: "identity_input \<Rightarrow> json" where
  "identity_json i = JObject [(''address'', JString (ii_address i)), (''name'', nullable (ii_name i))]"

definition identities_json :: "identity_input list \<Rightarrow> json" where
  "identities_json is = JArray (map identity_json is)"

definition tags_json :: "tag_input list \<Rightarrow> json" where
  "tags_json ts = JArray (map (\<lambda>t. JObject [(''name'', JString (ti_name t)), (''value'', JString (ti_value t))]) ts)"

definition refs_json :: "attachment_ref list \<Rightarrow> json" where
  "refs_json rs = JArray (map (\<lambda>r. JObject ((''id'', JString (ar_id r)) # optional ''contentId'' (map_option JString (ar_contentId r)))) rs)"

definition message_v2_json :: "message_v2_input \<Rightarrow> json" where
  "message_v2_json v = JObject
     (optional ''text'' (map_option JString (mi_text v)) @ optional ''html'' (map_option JString (mi_html v))
      @ optional ''replyToMessageId'' (map_option JString (mi_replyToMessageId v))
      @ [(''from'', identity_json (mi_from v))] @ optional ''to'' (map_option identities_json (mi_to v))
      @ [(''replyTo'', identity_json (mi_replyTo v))] @ optional ''tags'' (map_option tags_json (mi_tags v))
      @ optional ''attachments'' (map_option refs_json (mi_attachments v)))"

definition create_v2_json :: "create_v2_input \<Rightarrow> json" where
  "create_v2_json v = JObject
     ([(''topic'', JObject [(''type'', JString (tp_type (cy_topic v))), (''externalId'', JString (tp_externalId (cy_topic v))),
          (''title'', JString (tp_title (cy_topic v)))]),
       (''participant'', JObject [(''email'', JString (ii_address (cy_participant v))), (''name'', nullable (ii_name (cy_participant v)))])]
      @ optional ''subject'' (map_option JString (cy_subject v)) @ [(''message'', message_v2_json (cy_message v))])"

definition direct_email_json :: "direct_email_input \<Rightarrow> json" where
  "direct_email_json v = JObject
     ([(''from'', identity_json (di_from v)), (''to'', identities_json (di_to v)), (''subject'', JString (di_subject v))]
      @ optional ''text'' (map_option JString (di_text v)) @ optional ''html'' (map_option JString (di_html v))
      @ optional ''tags'' (map_option tags_json (di_tags v)) @ optional ''attachments'' (map_option refs_json (di_attachments v)))"

section \<open>The allowlist\<close>

definition isEmailAddressAllowed :: "string \<Rightarrow> address_role \<Rightarrow> store \<Rightarrow> bool" where
  "isEmailAddressAllowed address role s \<longleftrightarrow> (\<exists>e \<in> set (allowlist s). al_address e = address \<and> al_role e = role)"

definition lockAllowedEmailIdentities :: "string \<Rightarrow> string \<Rightarrow> store \<Rightarrow> bool" where
  "lockAllowedEmailIdentities fromAddress replyToAddress s =
     (let rows = filter (\<lambda>e. al_address e = fromAddress \<and> al_role e = FROM
            \<or> al_address e = replyToAddress \<and> al_role e = REPLY_TO) (allowlist s);
          roles = set (map al_role rows)
      in FROM \<in> roles \<and> REPLY_TO \<in> roles)"

definition lockAllowedEmailIdentity :: "string \<Rightarrow> address_role \<Rightarrow> store \<Rightarrow> bool" where
  "lockAllowedEmailIdentity address role s \<longleftrightarrow>
     count_where (\<lambda>e. al_address e = address \<and> al_role e = role) (allowlist s) = 1"

section \<open>The stored intent\<close>

definition enqueue :: "outbox_lane \<Rightarrow> uuid \<Rightarrow> unit io" where
  \<comment> \<open>the nested create of an outbox row\<close>
  "enqueue lane messageId =
     io_modify (\<lambda>s. case lane of
         NoLane \<Rightarrow> s
       | AttachmentLane \<Rightarrow> s\<lparr>attachment_outbox := attachment_outbox s @
           [\<lparr>ao_messageId = messageId, ao_queuedAt = db_now s, ao_firstAttemptAt = None, ao_attemptCount = 0,
             ao_nextAttemptAt = db_now s, ao_leaseToken = None, ao_leaseUntil = None, ao_lastErrorCode = None\<rparr>]\<rparr>
       | BatchLane \<Rightarrow> s\<lparr>outbox_entries := outbox_entries s @
           [\<lparr>oe_messageId = messageId, oe_batchId = None, oe_batchPosition = None, oe_queuedAt = db_now s\<rparr>]\<rparr>)"

definition create_intent :: "outbox_lane \<Rightarrow> (uuid \<Rightarrow> instant \<Rightarrow> message) \<Rightarrow> message io" where
  \<comment> \<open>\<open>emailMessage.create\<close> with \<open>outboxRelationData\<close>\<close>
  "create_intent lane row = io_bind (insert_message row) (\<lambda>m. io_bind (enqueue lane (ms_id m)) (\<lambda>_. io_return m))"

definition has_refs :: "attachment_ref list option \<Rightarrow> bool" where
  \<comment> \<open>\<open>Boolean(attachments?.length)\<close>\<close>
  "has_refs refs = (case refs of None \<Rightarrow> False | Some rs \<Rightarrow> rs \<noteq> [])"

definition claim_refs :: "environment \<Rightarrow> uuid \<Rightarrow> attachment_ref list option \<Rightarrow> unit io" where
  "claim_refs env messageId refs =
     io_bind (claimAttachmentsForMessage env messageId (case refs of None \<Rightarrow> [] | Some rs \<Rightarrow> rs)) (\<lambda>_. io_return ())"

section \<open>Answers\<close>

record request_world =
  qw_send :: send_world
  qw_sha256 :: "string \<Rightarrow> string"
  qw_token :: uuid
  qw_meanwhile :: "nat \<Rightarrow> store \<Rightarrow> store"

definition or_reply :: "reply + 'a \<Rightarrow> ('a \<Rightarrow> reply io) \<Rightarrow> reply io" where
  \<comment> \<open>an early return of a response\<close>
  "or_reply r f = (case r of Inl answer \<Rightarrow> io_return answer | Inr a \<Rightarrow> f a)"

definition authorized :: "request_world \<Rightarrow> environment \<Rightarrow> http_request \<Rightarrow> reply + unit" where
  "authorized w env request = (case authorizeEmailV2 (qw_sha256 w) env request of Some r \<Rightarrow> Inl r | None \<Rightarrow> Inr ())"

definition valid_or_400 :: "string + 'a \<Rightarrow> reply + 'a" where
  "valid_or_400 v = (case v of Inl e \<Rightarrow> Inl (error_reply 400 e) | Inr a \<Rightarrow> Inr a)"

definition getIdempotencyKey :: "http_request \<Rightarrow> reply + string" where
  "getIdempotencyKey request =
     (case keep_truthy (rq_header request ''idempotency-key'') of
        Some key \<Rightarrow> if length key \<le> 256 then Inr key else Inl (error_reply 400 ''A valid Idempotency-Key header is required'')
      | None \<Rightarrow> Inl (error_reply 400 ''A valid Idempotency-Key header is required''))"

definition identityNotAllowedResponse :: reply where
  "identityNotAllowedResponse =
     error_reply 400 ''The requested email identity is not allowed. Contact the administrator.''"

definition attachmentClaimResponse :: "string \<Rightarrow> reply" where
  "attachmentClaimResponse message = error_reply 400 message"

definition key_conflict :: reply where
  "key_conflict = error_reply 409 ''Idempotency key was already used for a different request''"

definition key_in_use :: reply where
  "key_in_use = error_reply 409 ''Idempotency key is already in use''"

definition by_key :: "string \<Rightarrow> store \<Rightarrow> message option" where
  \<comment> \<open>\<open>findUnique({ where: { idempotencyKey } })\<close>\<close>
  "by_key key s = find (\<lambda>m. ms_idempotencyKey m = Some key) (messages s)"

definition recovered :: "environment \<Rightarrow> request_world \<Rightarrow> bool \<Rightarrow> message \<Rightarrow> message io" where
  \<comment> \<open>\<open>queued ? existing : await recoverPendingMessage(client, existing.id)\<close>\<close>
  "recovered env w queued m = (if queued then io_return m else recoverPendingMessage env (qw_send w) (ms_id m))"

definition meanwhile :: "request_world \<Rightarrow> nat \<Rightarrow> unit io" where
  "meanwhile w n = io_modify (qw_meanwhile w n)"

section \<open>Lemmas\<close>

text \<open>The text of a string literal determines the string.\<close>

lemma json_quoted_not_empty: "json_quoted c \<noteq> []"
  by (simp add: json_quoted_def Let_def)

lemma by_key_SomeD: "by_key key s = Some m \<Longrightarrow> m \<in> set (messages s) \<and> ms_idempotencyKey m = Some key"
  by (auto simp: by_key_def find_Some_iff)

lemma locked_identities_allowed:
  "lockAllowedEmailIdentities a b s \<longleftrightarrow> isEmailAddressAllowed a FROM s \<and> isEmailAddressAllowed b REPLY_TO s"
  by (auto simp: lockAllowedEmailIdentities_def isEmailAddressAllowed_def Let_def) force+

lemma locked_identity_allowed: "lockAllowedEmailIdentity a r s \<Longrightarrow> isEmailAddressAllowed a r s"
  by (auto simp: lockAllowedEmailIdentity_def isEmailAddressAllowed_def count_where_def length_Suc_conv
      filter_eq_Cons_iff)

text \<open>What claiming attachments and telling events leave alone: everything but the attachments, the
  event log and the counters of the conversations.\<close>

definition kept_tables :: "store \<Rightarrow> message list \<times> outbox_entry list \<times> attachment_outbox_entry list \<times> routing_alias list
    \<times> conversation list"
where
  "kept_tables s = (messages s, outbox_entries s, attachment_outbox s, aliases s,
     map (\<lambda>c. c\<lparr>cv_eventSequence := 0\<rparr>) (conversations s))"

lemma append_event_tables: "io_keeps (\<lambda>s. kept_tables s = x) (append_event env input)"
  unfolding io_keeps_def
proof (intro allI impI)
  fix s assume "kept_tables s = x"
  moreover obtain r t where run: "appendConversationEvent env input s = (r, t)" by fastforce
  ultimately show "kept_tables (snd (append_event env input s)) = x"
    using append_frame [OF run] append_conversations [OF run]
    by (cases r) (simp_all add: append_event_def kept_tables_def io_bind_def)
qed

lemma claim_refs_tables: "io_keeps (\<lambda>s. kept_tables s = x) (claim_refs env messageId refs)"
proof -
  have inline: "io_keeps (\<lambda>s. kept_tables s = x) (inline_content messageId r)" for r
    unfolding inline_content_def by (intro keeps_intros) (simp add: kept_tables_def)
  have "kept_tables (snd (claimAttachmentsForMessage env messageId rs s)) = x" if x: "kept_tables s = x" for rs s
  proof -
    let ?s1 = "s\<lparr>attachments := update_where (claimable (map ar_id rs)) (\<lambda>a. a\<lparr>at_messageId := Some messageId\<rparr>) (attachments s)\<rparr>"
    let ?each = "io_each (inline_content messageId) (filter (\<lambda>r. truthy (ar_contentId r)) rs)"
    obtain r t where run: "?each ?s1 = (r, t)" by fastforce
    have s1: "kept_tables ?s1 = x" using x by (simp add: kept_tables_def)
    then have "kept_tables t = x" using io_keepsD [OF io_keeps_each [OF inline] _ run] by blast
    then show ?thesis using x s1 run by (cases r) (simp_all add: claimAttachmentsForMessage_def Let_def)
  qed
  then have "io_keeps (\<lambda>s. kept_tables s = x) (claimAttachmentsForMessage env messageId rs)" for rs
    by (simp add: io_keeps_def)
  then show ?thesis unfolding claim_refs_def by (intro keeps_intros)
qed

lemma kept_tables_eqD:
  assumes "kept_tables t = kept_tables s"
  shows "messages t = messages s" "outbox_entries t = outbox_entries s" "attachment_outbox t = attachment_outbox s"
    "aliases t = aliases s" "map (\<lambda>c. c\<lparr>cv_eventSequence := 0\<rparr>) (conversations t) = map (\<lambda>c. c\<lparr>cv_eventSequence := 0\<rparr>) (conversations s)"
  using assms by (simp_all add: kept_tables_def)

definition lane_rows :: "outbox_lane \<Rightarrow> uuid \<Rightarrow> store \<Rightarrow> outbox_entry list" where
  "lane_rows lane i s =
     (if lane = BatchLane then [\<lparr>oe_messageId = i, oe_batchId = None, oe_batchPosition = None, oe_queuedAt = db_now s\<rparr>] else [])"

text \<open>A stored intent is the last message of the table, and its key was free.\<close>

lemma create_intent_Inr:
  assumes "create_intent lane row s = (Inr m, t)"
  shows "m = row (id_source s (id_count s)) (db_now s)" "messages t = messages s @ [m]"
    "\<And>r. r \<in> set (messages s) \<Longrightarrow> \<not> message_conflict m r" "outbox_entries t = outbox_entries s @ lane_rows lane (ms_id m) s"
    "conversations t = conversations s" "aliases t = aliases s" "db_now t = db_now s"
  using assms
  by (auto simp: create_intent_def insert_message_def enqueue_def draw_id_def lane_rows_def Let_def
      elim!: io_bind_InrE split: if_splits outbox_lane.splits)

lemma find_last: "find P xs = None \<Longrightarrow> P x \<Longrightarrow> find P (xs @ [x]) = Some x"
  by (induction xs) (auto split: if_splits)

lemma by_key_created:
  assumes "messages t = messages s @ [m]" and "ms_idempotencyKey m = Some key"
    and "\<And>r. r \<in> set (messages s) \<Longrightarrow> \<not> message_conflict m r"
  shows "by_key key t = Some m"
proof -
  have "find (\<lambda>m. ms_idempotencyKey m = Some key) (messages s) = None"
    using assms(2,3) by (fastforce simp: find_None_iff message_conflict_def same_key_def)
  then show ?thesis by (simp add: by_key_def assms(1,2) find_last)
qed

end
