(* ===== verification/Conversation_V2.thy ===== *)
theory Conversation_V2
  imports Send_Intents
begin

text \<open>
  \<open>src/lib/conversation-v2.ts\<close>: the requests that open a conversation and that reply in one, queued for
  an outbox or sent at once. A request that throws is an error value; the server turns it into a 500.
  The gaps in which other requests may commit are numbered in the order the code has them.
\<close>

section \<open>Shared answers\<close>

definition identitiesAreAllowed :: "message_v2_input \<Rightarrow> store \<Rightarrow> bool" where
  "identitiesAreAllowed input s \<longleftrightarrow>
     isEmailAddressAllowed (ii_address (mi_from input)) FROM s
     \<and> isEmailAddressAllowed (ii_address (mi_replyTo input)) REPLY_TO s"

definition message_reply :: "environment \<Rightarrow> int \<Rightarrow> uuid \<Rightarrow> message \<Rightarrow> reply io" where
  "message_reply env status conversationId m s =
     (Inr (json_reply status (JObject [(''conversationId'', JString conversationId),
        (''message'', serializeMessageWithAttachments env s m)])), s)"

definition queuedResponse :: "environment \<Rightarrow> uuid \<Rightarrow> uuid \<Rightarrow> reply io" where
  "queuedResponse env conversationId messageId =
     io_bind (get_message messageId) (message_reply env 202 conversationId)"

definition failed_reply :: "environment \<Rightarrow> uuid \<Rightarrow> message \<Rightarrow> reply io" where
  "failed_reply env conversationId m s =
     (Inr (json_reply 502 (JObject [(''error'', JString ''Failed to send email''), (''conversationId'', JString conversationId),
        (''message'', serializeMessageWithAttachments env s m)])), s)"

definition deliverResponse :: "environment \<Rightarrow> request_world \<Rightarrow> uuid \<Rightarrow> uuid \<Rightarrow> reply io" where
  "deliverResponse env w conversationId messageId =
     io_catch (io_bind (deliverPendingMessage env (qw_send w) messageId) (message_reply env 201 conversationId))
       (\<lambda>_. io_bind (get_message messageId) (failed_reply env conversationId))"

definition same_intent :: "string \<Rightarrow> message \<Rightarrow> bool" where
  \<comment> \<open>the row of this very request\<close>
  "same_intent hash m \<longleftrightarrow>
     ms_kind m = CONVERSATION \<and> truthy (ms_conversationId m) \<and> ms_requestHash m = Some hash"

definition result_reply :: "environment \<Rightarrow> uuid \<Rightarrow> message \<Rightarrow> reply io" where
  "result_reply env conversationId m s = (Inr (sendResultResponse env s m conversationId), s)"

definition replay_intent :: "environment \<Rightarrow> request_world \<Rightarrow> bool \<Rightarrow> uuid \<Rightarrow> message \<Rightarrow> reply io" where
  "replay_intent env w queued conversationId m =
     io_bind (recovered env w queued m) (result_reply env conversationId)"

definition replay_opening :: "environment \<Rightarrow> request_world \<Rightarrow> bool \<Rightarrow> string \<Rightarrow> message \<Rightarrow> reply io" where
  "replay_opening env w queued hash m =
     (case ms_conversationId m of
        Some conversationId \<Rightarrow>
          if same_intent hash m then replay_intent env w queued conversationId m else io_return key_conflict
      | None \<Rightarrow> io_return key_conflict)"

section \<open>Opening a conversation\<close>

definition recipients_of :: "identity_input list option \<Rightarrow> identity_input \<Rightarrow> identity_input list" where
  "recipients_of to participant = (case to of Some is \<Rightarrow> is | None \<Rightarrow> [participant])"

definition outbound_row ::
  "uuid \<Rightarrow> uuid option \<Rightarrow> string option \<Rightarrow> string list \<Rightarrow> identity_input list \<Rightarrow> string \<Rightarrow> string \<Rightarrow>
     message_v2_input \<Rightarrow> instant \<Rightarrow> string \<Rightarrow> string \<Rightarrow> uuid \<Rightarrow> instant \<Rightarrow> message"
where
  \<comment> \<open>the columns an opening message and a reply fill the same way; the recipients are never empty\<close>
  "outbound_row conversationId parentId inReplyTo references recipients replyToAddress subject v now key hash i created =
     \<lparr>ms_id = i, ms_kind = CONVERSATION, ms_conversationId = Some conversationId, ms_parentMessageId = parentId,
      ms_direction = OUTBOUND, ms_state = PENDING, ms_stateDetail = None, ms_deliveryState = Some UNKNOWN,
      ms_deliveryStateDetail = None, ms_deliveryStateUpdatedAt = None, ms_deliveredAt = None,
      ms_resendEmailId = None, ms_internetMessageId = None, ms_inReplyToInternetMessageId = inReplyTo,
      ms_referenceInternetMessageIds = references, ms_fromAddress = ii_address (mi_from v), ms_fromName = ii_name (mi_from v),
      ms_toAddress = (case recipients of [] \<Rightarrow> [] | r # _ \<Rightarrow> ii_address r),
      ms_toName = (case recipients of [] \<Rightarrow> None | r # _ \<Rightarrow> ii_name r),
      ms_toRecipients = Some (identities_json recipients), ms_replyToAddress = Some replyToAddress,
      ms_replyToName = ii_name (mi_replyTo v), ms_subject = subject, ms_textBody = mi_text v, ms_htmlBody = mi_html v,
      ms_tags = map_option tags_json (mi_tags v), ms_emailCreatedAt = now, ms_idempotencyKey = Some key,
      ms_requestHash = Some hash, ms_createdAt = created\<rparr>"

definition messageCreateData ::
  "create_v2_input \<Rightarrow> string \<Rightarrow> string \<Rightarrow> instant \<Rightarrow> string \<Rightarrow> string \<Rightarrow> uuid \<Rightarrow> uuid \<Rightarrow> instant \<Rightarrow> message"
where
  \<comment> \<open>without its outbox relation\<close>
  "messageCreateData value subject replyToAddress now key hash conversationId =
     outbound_row conversationId None None [] (recipients_of (mi_to (cy_message value)) (cy_participant value))
       replyToAddress subject (cy_message value) now key hash"

definition opening_lane :: "create_v2_input \<Rightarrow> bool \<Rightarrow> outbox_lane" where
  "opening_lane value queued = outboxRelationData queued (has_refs (mi_attachments (cy_message value)))"

definition opened_conversation ::
  "create_v2_input \<Rightarrow> string \<Rightarrow> uuid \<Rightarrow> instant \<Rightarrow> uuid \<Rightarrow> uuid \<Rightarrow> instant \<Rightarrow> conversation"
where
  "opened_conversation value subject routingToken now i token created =
     \<lparr>cv_id = i, cv_routingToken = routingToken, cv_apiVersion = Some V2, cv_topicType = Some (tp_type (cy_topic value)),
      cv_externalTopicId = Some (tp_externalId (cy_topic value)), cv_title = tp_title (cy_topic value), cv_subject = subject,
      cv_participantAddress = ii_address (cy_participant value), cv_participantName = ii_name (cy_participant value),
      cv_replyToBaseAddress = Some (ii_address (mi_replyTo (cy_message value))), cv_replyToRequiresAllowlist = True,
      cv_state = AWAITING_PARTICIPANT, cv_stateChangedAt = created, cv_lastMessageAt = now, cv_createdAt = created,
      cv_eventSequence = 0\<rparr>"

definition reply_to_or_throw :: "string \<Rightarrow> uuid \<Rightarrow> string io" where
  \<comment> \<open>\<open>buildConversationReplyTo\<close> as a statement\<close>
  "reply_to_or_throw base token =
     (case buildConversationReplyTo base token of Inl e \<Rightarrow> io_throw (JsError ''Error'' e) | Inr a \<Rightarrow> io_return a)"

definition require_identities :: "message_v2_input \<Rightarrow> unit io" where
  "require_identities v s =
     (if lockAllowedEmailIdentities (ii_address (mi_from v)) (ii_address (mi_replyTo v)) s then (Inr (), s)
      else (Inl IdentityNotAllowedError, s))"

definition intended_event :: "uuid \<Rightarrow> instant \<Rightarrow> bool \<Rightarrow> uuid \<Rightarrow> event_input" where
  "intended_event conversationId now queued messageId =
     (plain_event conversationId MESSAGE_OUTBOUND_INTENDED now ServiceActor
        (if queued then ''outbox_enqueue'' else ''synchronous_send''))\<lparr>ei_messageId := Some messageId\<rparr>"

definition awaiting_participant_event :: "uuid \<Rightarrow> instant \<Rightarrow> conversation_state \<Rightarrow> event_input" where
  "awaiting_participant_event conversationId now before =
     (plain_event conversationId STATE_CHANGED now ServiceActor ''outbound_intent'')
       \<lparr>ei_state := Some (Some (js_toLower (state_name before)), ''awaiting_participant'')\<rparr>"

definition open_conversation ::
  "environment \<Rightarrow> request_world \<Rightarrow> create_v2_input \<Rightarrow> string \<Rightarrow> string \<Rightarrow> string \<Rightarrow> bool \<Rightarrow> (uuid \<times> uuid) io"
where
  \<comment> \<open>the transaction: the new conversation and its message\<close>
  "open_conversation env w value subject key hash queued =
     (let v = cy_message value; now = sw_now (qw_send w); token = qw_token w
      in transaction (io_bind (require_identities v) (\<lambda>_.
         io_bind (reply_to_or_throw (ii_address (mi_replyTo v)) token) (\<lambda>replyTo.
         io_bind (insert_conversation (opened_conversation value subject token now)) (\<lambda>c.
         io_bind (create_intent (opening_lane value queued) (messageCreateData value subject replyTo now key hash (cv_id c))) (\<lambda>m.
         io_bind (claim_refs env (ms_id m) (mi_attachments v)) (\<lambda>_.
         io_bind (append_event env (plain_event (cv_id c) CREATED now ServiceActor ''outbound_intent'')) (\<lambda>_.
         io_bind (append_event env (intended_event (cv_id c) now queued (ms_id m))) (\<lambda>_.
         io_return (cv_id c, ms_id m))))))))))"

definition reopened :: "create_v2_input \<Rightarrow> string \<Rightarrow> instant \<Rightarrow> conversation \<Rightarrow> conversation" where
  "reopened value subject now c =
     c\<lparr>cv_apiVersion := Some V2, cv_title := tp_title (cy_topic value), cv_subject := subject,
       cv_participantAddress := ii_address (cy_participant value), cv_participantName := ii_name (cy_participant value),
       cv_replyToBaseAddress := Some (ii_address (mi_replyTo (cy_message value))), cv_replyToRequiresAllowlist := True,
       cv_state := AWAITING_PARTICIPANT, cv_stateChangedAt := now, cv_lastMessageAt := now\<rparr>"

definition other_base :: "conversation \<Rightarrow> message_v2_input \<Rightarrow> bool" where
  \<comment> \<open>\<open>replyToBaseAddress && replyToBaseAddress !== replyTo.address\<close>\<close>
  "other_base c v \<longleftrightarrow> truthy (cv_replyToBaseAddress c) \<and> cv_replyToBaseAddress c \<noteq> Some (ii_address (mi_replyTo v))"

definition live_message :: "uuid \<Rightarrow> store \<Rightarrow> bool" where
  "live_message conversationId s \<longleftrightarrow> (\<exists>m \<in> set (messages s). ms_conversationId m = Some conversationId \<and> ms_state m \<noteq> FAILED)"

definition reopen_message ::
  "environment \<Rightarrow> request_world \<Rightarrow> create_v2_input \<Rightarrow> string \<Rightarrow> string \<Rightarrow> string \<Rightarrow> bool \<Rightarrow> conversation \<Rightarrow> conversation \<Rightarrow>
     (uuid \<times> uuid) option io"
where
  \<comment> \<open>the transaction after its guards\<close>
  "reopen_message env w value subject key hash queued found current =
     (let v = cy_message value; now = sw_now (qw_send w)
      in io_bind (update_conversation (cv_id found) (reopened value subject now)) (\<lambda>_.
         io_bind (reply_to_or_throw (ii_address (mi_replyTo v)) (cv_routingToken found)) (\<lambda>replyTo.
         io_bind (create_intent (opening_lane value queued) (messageCreateData value subject replyTo now key hash (cv_id found))) (\<lambda>m.
         io_bind (claim_refs env (ms_id m) (mi_attachments v)) (\<lambda>_.
         io_bind (append_event env (intended_event (cv_id found) now queued (ms_id m))) (\<lambda>_.
         io_bind (io_when (cv_state current \<noteq> AWAITING_PARTICIPANT)
           (append_event env (awaiting_participant_event (cv_id found) now (cv_state current)))) (\<lambda>_.
         io_return (Some (cv_id found, ms_id m)))))))))"

definition reopenFailedConversation ::
  "environment \<Rightarrow> request_world \<Rightarrow> create_v2_input \<Rightarrow> string \<Rightarrow> string \<Rightarrow> string \<Rightarrow> bool \<Rightarrow> (uuid \<times> uuid) option io"
where
  "reopenFailedConversation env w value subject key hash queued s =
     (case find (\<lambda>c. cv_topicType c = Some (tp_type (cy_topic value))
          \<and> cv_externalTopicId c = Some (tp_externalId (cy_topic value))) (conversations s) of
        None \<Rightarrow> (Inr None, s)
      | Some found \<Rightarrow>
          io_bind (meanwhile w 2) (\<lambda>_. transaction
            (io_bind (get_conversation (cv_id found)) (\<lambda>current.
             io_bind (require_identities (cy_message value)) (\<lambda>_ s.
               if other_base current (cy_message value) then (Inl IdentityNotAllowedError, s)
               else if live_message (cv_id found) s then (Inr None, s)
               else reopen_message env w value subject key hash queued found current s)))) s)"

definition open_subject :: "create_v2_input \<Rightarrow> string" where
  "open_subject value = normalizeSubject (case cy_subject value of Some subject \<Rightarrow> subject | None \<Rightarrow> tp_title (cy_topic value))"

definition intent_response :: "environment \<Rightarrow> request_world \<Rightarrow> bool \<Rightarrow> uuid \<times> uuid \<Rightarrow> reply io" where
  "intent_response env w queued created =
     (if queued then queuedResponse env (fst created) (snd created)
      else deliverResponse env w (fst created) (snd created))"

definition reopen_error :: "environment \<Rightarrow> request_world \<Rightarrow> bool \<Rightarrow> string \<Rightarrow> string \<Rightarrow> js_error \<Rightarrow> reply io" where
  \<comment> \<open>the inner catch block\<close>
  "reopen_error env w queued key hash e =
     (case e of
        IdentityNotAllowedError \<Rightarrow> io_return identityNotAllowedResponse
      | AttachmentClaimError message \<Rightarrow> io_return (attachmentClaimResponse message)
      | _ \<Rightarrow>
          if e = PrismaError ''P2002'' then
            io_bind (meanwhile w 3) (\<lambda>_ s.
              case by_key key s of
                Some m \<Rightarrow> (if same_intent hash m then replay_opening env w queued hash m s else (Inr key_in_use, s))
              | None \<Rightarrow> (Inr key_in_use, s))
          else io_throw e)"

definition open_error ::
  "environment \<Rightarrow> request_world \<Rightarrow> create_v2_input \<Rightarrow> string \<Rightarrow> string \<Rightarrow> string \<Rightarrow> bool \<Rightarrow> js_error \<Rightarrow> reply io"
where
  \<comment> \<open>the outer catch block with what follows it\<close>
  "open_error env w value subject key hash queued e =
     (case e of
        IdentityNotAllowedError \<Rightarrow> io_return identityNotAllowedResponse
      | AttachmentClaimError message \<Rightarrow> io_return (attachmentClaimResponse message)
      | _ \<Rightarrow>
          if e \<noteq> PrismaError ''P2002'' then io_throw e
          else
            io_bind (meanwhile w 1) (\<lambda>_ s.
              case by_key key s of
                Some raced \<Rightarrow> replay_opening env w queued hash raced s
              | None \<Rightarrow>
                  (case reopenFailedConversation env w value subject key hash queued s of
                     (Inl e', s') \<Rightarrow> reopen_error env w queued key hash e' s'
                   | (Inr None, s') \<Rightarrow> (Inr (error_reply 409 ''A conversation already exists for this topic''), s')
                   | (Inr (Some created), s') \<Rightarrow> intent_response env w queued created s')))"

definition opening_hash :: "request_world \<Rightarrow> bool \<Rightarrow> create_v2_input \<Rightarrow> string" where
  "opening_hash w queued value =
     hashSendRequest (qw_sha256 w) (JObject
       [(''operation'', JString (if queued then ''outbox-opening-v2'' else ''opening-v2'')), (''request'', create_v2_json value)])"

definition create_intent_v2 :: "environment \<Rightarrow> request_world \<Rightarrow> bool \<Rightarrow> string \<Rightarrow> create_v2_input \<Rightarrow> reply io" where
  \<comment> \<open>what follows the checks of the request\<close>
  "create_intent_v2 env w queued key value s =
     (let hash = opening_hash w queued value; subject = open_subject value
      in case by_key key s of
           Some existing \<Rightarrow> replay_opening env w queued hash existing s
         | None \<Rightarrow>
             if \<not> identitiesAreAllowed (cy_message value) s then (Inr identityNotAllowedResponse, s)
             else
               io_bind (meanwhile w 0) (\<lambda>_ s.
                 case open_conversation env w value subject key hash queued s of
                   (Inl e, s') \<Rightarrow> open_error env w value subject key hash queued e s'
                 | (Inr created, s') \<Rightarrow> intent_response env w queued created s') s)"

definition createConversationV2 :: "environment \<Rightarrow> request_world \<Rightarrow> http_request \<Rightarrow> bool \<Rightarrow> reply io" where
  "createConversationV2 env w request queued =
     or_reply (authorized w env request) (\<lambda>_.
     or_reply (getIdempotencyKey request) (\<lambda>key.
     or_reply (readJson request) (\<lambda>body.
     or_reply (valid_or_400 (validateCreateV2Body env (Some body))) (create_intent_v2 env w queued key))))"

section \<open>Replying in a conversation\<close>

definition replyCreateData ::
  "conversation \<Rightarrow> uuid \<Rightarrow> uuid \<Rightarrow> string \<Rightarrow> string list \<Rightarrow> string \<Rightarrow> message_v2_input \<Rightarrow> instant \<Rightarrow> string \<Rightarrow> string \<Rightarrow>
     uuid \<Rightarrow> instant \<Rightarrow> message"
where
  \<comment> \<open>\<open>current\<close> carries the participant, the subject and the routing token; the Reply-To is built by the caller\<close>
  "replyCreateData current conversationId parentId parentInternetId references replyTo v now key hash =
     outbound_row conversationId (Some parentId) (Some parentInternetId) references
       (recipients_of (mi_to v) \<lparr>ii_address = cv_participantAddress current, ii_name = cv_participantName current\<rparr>)
       replyTo (createReplySubject (cv_subject current)) v now key hash"

definition use_base :: "message_v2_input \<Rightarrow> conversation \<Rightarrow> conversation" where
  "use_base v c = c\<lparr>cv_apiVersion := Some V2, cv_replyToBaseAddress := Some (ii_address (mi_replyTo v)),
     cv_replyToRequiresAllowlist := True\<rparr>"

definition touch_last_message :: "uuid \<Rightarrow> instant \<Rightarrow> unit io" where
  \<comment> \<open>the UPDATE with GREATEST\<close>
  "touch_last_message conversationId now = io_modify (\<lambda>s. s\<lparr>conversations :=
     update_where (\<lambda>c. cv_id c = conversationId) (\<lambda>c. c\<lparr>cv_lastMessageAt := max (cv_lastMessageAt c) now\<rparr>) (conversations s)\<rparr>)"

definition create_reply ::
  "environment \<Rightarrow> request_world \<Rightarrow> message_v2_input \<Rightarrow> uuid \<Rightarrow> message \<Rightarrow> string \<Rightarrow> string \<Rightarrow> string \<Rightarrow> bool \<Rightarrow> message io"
where
  \<comment> \<open>the transaction\<close>
  "create_reply env w v conversationId parent parentInternetId key hash queued =
     (let now = sw_now (qw_send w); references = buildReferences (ms_referenceInternetMessageIds parent) parentInternetId
      in transaction (io_bind (get_conversation conversationId) (\<lambda>current.
         io_bind (require_identities v) (\<lambda>_.
         io_bind (if other_base current v then io_throw IdentityNotAllowedError else io_return ()) (\<lambda>_.
         io_bind (reply_to_or_throw (ii_address (mi_replyTo v)) (cv_routingToken current)) (\<lambda>replyTo.
         io_bind (create_intent (outboxRelationData queued (has_refs (mi_attachments v)))
           (replyCreateData current conversationId (ms_id parent) parentInternetId references replyTo v now key hash)) (\<lambda>m.
         io_bind (claim_refs env (ms_id m) (mi_attachments v)) (\<lambda>_.
         io_bind (update_conversation conversationId (use_base v)) (\<lambda>_.
         io_bind (touch_last_message conversationId now) (\<lambda>_.
         io_bind (markConversationAwaitingParticipant conversationId now) (\<lambda>stateChanged.
         io_bind (append_event env (intended_event conversationId now queued (ms_id m))) (\<lambda>_.
         io_bind (io_when stateChanged (append_event env (awaiting_participant_event conversationId now (cv_state current)))) (\<lambda>_.
         io_return m)))))))))))))"

definition reply_parent :: "message_v2_input \<Rightarrow> uuid \<Rightarrow> store \<Rightarrow> message option" where
  \<comment> \<open>the named message of the conversation, else its newest received or accepted one\<close>
  "reply_parent v conversationId s =
     (case keep_truthy (mi_replyToMessageId v) of
        Some i \<Rightarrow> find (\<lambda>m. ms_id m = js_toLower i \<and> ms_conversationId m = Some conversationId) (messages s)
      | None \<Rightarrow> js_head (rev (sort_key message_order
          (filter (\<lambda>m. ms_conversationId m = Some conversationId \<and> (ms_state m = RECEIVED \<or> ms_state m = ACCEPTED)) (messages s)))))"

definition metadata_reply :: "int \<Rightarrow> reply" where
  "metadata_reply status = error_reply status ''Reply parent threading metadata is unavailable''"

definition same_reply :: "string \<Rightarrow> uuid \<Rightarrow> message \<Rightarrow> bool" where
  "same_reply hash conversationId m \<longleftrightarrow> ms_requestHash m = Some hash \<and> ms_conversationId m = Some conversationId"

definition reply_error ::
  "environment \<Rightarrow> request_world \<Rightarrow> bool \<Rightarrow> string \<Rightarrow> string \<Rightarrow> uuid \<Rightarrow> js_error \<Rightarrow> reply io"
where
  \<comment> \<open>the catch block\<close>
  "reply_error env w queued key hash conversationId e =
     (case e of
        IdentityNotAllowedError \<Rightarrow> io_return identityNotAllowedResponse
      | AttachmentClaimError message \<Rightarrow> io_return (attachmentClaimResponse message)
      | _ \<Rightarrow>
          if e = PrismaError ''P2002'' then
            io_bind (meanwhile w 2) (\<lambda>_ s.
              case by_key key s of
                Some m \<Rightarrow> (if same_reply hash conversationId m then replay_intent env w queued conversationId m s else (Inr key_in_use, s))
              | None \<Rightarrow> (Inr key_in_use, s))
          else io_throw e)"

definition send_reply ::
  "environment \<Rightarrow> request_world \<Rightarrow> bool \<Rightarrow> string \<Rightarrow> string \<Rightarrow> uuid \<Rightarrow> message_v2_input \<Rightarrow> message \<Rightarrow> reply io"
where
  \<comment> \<open>from the parent on\<close>
  "send_reply env w queued key hash conversationId v parent s =
     (case ensureInternetMessageId env (qw_send w) (ms_id parent) s of
        (Inl e, s') \<Rightarrow> (Inr (metadata_reply 503), s')
      | (Inr parentId, s') \<Rightarrow>
          (case keep_truthy parentId of
             None \<Rightarrow> (Inr (metadata_reply 409), s')
           | Some parentInternetId \<Rightarrow>
               io_bind (meanwhile w 1) (\<lambda>_ s.
                 case create_reply env w v conversationId parent parentInternetId key hash queued s of
                   (Inl e, s') \<Rightarrow> reply_error env w queued key hash conversationId e s'
                 | (Inr pending, s') \<Rightarrow>
                     if queued then message_reply env 202 conversationId pending s'
                     else deliverResponse env w conversationId (ms_id pending) s') s'))"

definition reply_hash :: "request_world \<Rightarrow> bool \<Rightarrow> uuid \<Rightarrow> message_v2_input \<Rightarrow> string" where
  "reply_hash w queued conversationId v =
     hashSendRequest (qw_sha256 w) (JObject
       [(''operation'', JString (if queued then ''outbox-reply-v2'' else ''reply-v2'')),
        (''conversationId'', JString conversationId), (''request'', message_v2_json v)])"

definition reply_intent_v2 :: "environment \<Rightarrow> request_world \<Rightarrow> bool \<Rightarrow> string \<Rightarrow> uuid \<Rightarrow> message_v2_input \<Rightarrow> reply io" where
  "reply_intent_v2 env w queued key conversationId v s =
     (let hash = reply_hash w queued conversationId v
      in case by_key key s of
           Some existing \<Rightarrow>
             if same_reply hash conversationId existing then replay_intent env w queued conversationId existing s
             else (Inr key_conflict, s)
         | None \<Rightarrow>
             if \<not> identitiesAreAllowed v s then (Inr identityNotAllowedResponse, s)
             else
               io_bind (meanwhile w 0) (\<lambda>_ s.
                 case find_by cv_id conversationId (conversations s) of
                   None \<Rightarrow> (Inr (error_reply 404 ''Conversation not found''), s)
                 | Some c \<Rightarrow>
                     if other_base c v then (Inr identityNotAllowedResponse, s)
                     else (case reply_parent v conversationId s of
                             None \<Rightarrow> (Inr (error_reply 404 ''Reply parent not found''), s)
                           | Some parent \<Rightarrow> send_reply env w queued key hash conversationId v parent s)) s)"

definition conversation_id_param :: "string \<Rightarrow> reply + uuid" where
  \<comment> \<open>the path parameter\<close>
  "conversation_id_param raw = (if isUuid raw then Inr (js_toLower raw) else Inl (error_reply 400 ''Invalid conversation ID''))"

definition createMessageV2 :: "environment \<Rightarrow> request_world \<Rightarrow> http_request \<Rightarrow> string \<Rightarrow> bool \<Rightarrow> reply io" where
  "createMessageV2 env w request rawConversationId queued =
     or_reply (authorized w env request) (\<lambda>_.
     or_reply (getIdempotencyKey request) (\<lambda>key.
     or_reply (readJson request) (\<lambda>body.
     or_reply (valid_or_400 (validateMessageV2Body env (Some body))) (\<lambda>v.
     or_reply (conversation_id_param rawConversationId) (\<lambda>conversationId.
       reply_intent_v2 env w queued key conversationId v)))))"

section \<open>What a stored intent looks like\<close>

lemma io_bind_Inr_iff: "io_bind m f s = (Inr b, t) \<longleftrightarrow> (\<exists>a s'. m s = (Inr a, s') \<and> f a s' = (Inr b, t))"
  by (auto simp: io_bind_def split: prod.splits sum.splits)

lemma require_identities_Inr [simp]:
  "require_identities v s = (Inr u, t) \<longleftrightarrow>
     t = s \<and> lockAllowedEmailIdentities (ii_address (mi_from v)) (ii_address (mi_replyTo v)) s"
  by (auto simp: require_identities_def)

lemma reply_to_Inr [simp]:
  "reply_to_or_throw base token s = (Inr a, t) \<longleftrightarrow> t = s \<and> buildConversationReplyTo base token = Inr a"
  by (auto simp: reply_to_or_throw_def split: sum.splits)

lemma insert_conversation_Inr:
  assumes "insert_conversation row s = (Inr c, t)"
  shows "conversations t = conversations s @ [c]" "messages t = messages s" "outbox_entries t = outbox_entries s"
    "aliases t = aliases s" "db_now t = db_now s"
    "\<And>r. r \<in> set (conversations s) \<Longrightarrow> \<not> conversation_conflict c r" "\<exists>i token created. c = row i token created"
  using assms by (auto simp: insert_conversation_def draw_id_def Let_def split: if_splits)

lemma outbound_row_simps [simp]:
  "ms_id (outbound_row ci pid irt refs recs rt sub v now key hash i cr) = i"
  "ms_kind (outbound_row ci pid irt refs recs rt sub v now key hash i cr) = CONVERSATION"
  "ms_conversationId (outbound_row ci pid irt refs recs rt sub v now key hash i cr) = Some ci"
  "ms_direction (outbound_row ci pid irt refs recs rt sub v now key hash i cr) = OUTBOUND"
  "ms_state (outbound_row ci pid irt refs recs rt sub v now key hash i cr) = PENDING"
  "ms_idempotencyKey (outbound_row ci pid irt refs recs rt sub v now key hash i cr) = Some key"
  "ms_requestHash (outbound_row ci pid irt refs recs rt sub v now key hash i cr) = Some hash"
  "ms_replyToAddress (outbound_row ci pid irt refs recs rt sub v now key hash i cr) = Some rt"
  "ms_parentMessageId (outbound_row ci pid irt refs recs rt sub v now key hash i cr) = pid"
  "ms_inReplyToInternetMessageId (outbound_row ci pid irt refs recs rt sub v now key hash i cr) = irt"
  "ms_referenceInternetMessageIds (outbound_row ci pid irt refs recs rt sub v now key hash i cr) = refs"
  "ms_subject (outbound_row ci pid irt refs recs rt sub v now key hash i cr) = sub"
  by (simp_all add: outbound_row_def)

definition conversations_stripped :: "store \<Rightarrow> conversation list" where
  \<comment> \<open>without the event counters\<close>
  "conversations_stripped s = map (\<lambda>c. c\<lparr>cv_eventSequence := 0\<rparr>) (conversations s)"

lemma open_conversation_effect:
  assumes "open_conversation env w value subject key hash queued s = (Inr (ci, mi), t)"
  obtains c m replyTo i created token at where
    "conversations_stripped t = conversations_stripped s @ [c\<lparr>cv_eventSequence := 0\<rparr>]"
    "c = opened_conversation value subject (qw_token w) (sw_now (qw_send w)) ci token at"
    "\<And>r. r \<in> set (conversations s) \<Longrightarrow> \<not> conversation_conflict c r"
    "buildConversationReplyTo (ii_address (mi_replyTo (cy_message value))) (qw_token w) = Inr replyTo"
    "m = messageCreateData value subject replyTo (sw_now (qw_send w)) key hash ci mi created"
    "messages t = messages s @ [m]" "\<And>r. r \<in> set (messages s) \<Longrightarrow> \<not> message_conflict m r"
    "outbox_entries t = outbox_entries s @ lane_rows (opening_lane value queued) mi s" "aliases t = aliases s"
proof -
  let ?v = "cy_message value" and ?now = "sw_now (qw_send w)"
  obtain replyTo c s1 m s2 s3 s4 where
    rt: "buildConversationReplyTo (ii_address (mi_replyTo ?v)) (qw_token w) = Inr replyTo"
    and 1: "insert_conversation (opened_conversation value subject (qw_token w) ?now) s = (Inr c, s1)"
    and 2: "create_intent (opening_lane value queued) (messageCreateData value subject replyTo ?now key hash (cv_id c)) s1 = (Inr m, s2)"
    and 3: "claim_refs env (ms_id m) (mi_attachments ?v) s2 = (Inr (), s3)"
    and 4: "append_event env (plain_event (cv_id c) CREATED ?now ServiceActor ''outbound_intent'') s3 = (Inr (), s4)"
    and 5: "append_event env (intended_event (cv_id c) ?now queued (ms_id m)) s4 = (Inr (), t)"
    and ids: "ci = cv_id c" "mi = ms_id m"
    using transaction_InrD [OF assms [unfolded open_conversation_def Let_def]]
    by (auto elim!: io_bind_InrE)
  have "kept_tables t = kept_tables s4" "kept_tables s4 = kept_tables s3" "kept_tables s3 = kept_tables s2"
    using io_keepsD [OF append_event_tables refl 5] io_keepsD [OF append_event_tables refl 4] io_keepsD [OF claim_refs_tables refl 3] .
  then have t: "kept_tables t = kept_tables s2" by simp
  note new = insert_conversation_Inr [OF 1] and stored = create_intent_Inr [OF 2]
  obtain i token at where c: "c = opened_conversation value subject (qw_token w) ?now i token at" using new(7) by blast
  have i: "i = ci" using c ids(1) by (simp add: opened_conversation_def)
  have mi: "mi = id_source s1 (id_count s1)" using stored(1) ids(2) by (simp add: messageCreateData_def)
  show ?thesis
  proof (rule that)
    show "conversations_stripped t = conversations_stripped s @ [c\<lparr>cv_eventSequence := 0\<rparr>]"
      using kept_tables_eqD(5) [OF t] by (simp add: conversations_stripped_def stored(5) new(1))
    show "c = opened_conversation value subject (qw_token w) ?now ci token at" using c i by simp
    show "m = messageCreateData value subject replyTo ?now key hash ci mi (db_now s1)" using stored(1) ids(1) mi by simp
    show "messages t = messages s @ [m]" using kept_tables_eqD(1) [OF t] stored(2) new(2) by simp
    show "outbox_entries t = outbox_entries s @ lane_rows (opening_lane value queued) mi s"
      using kept_tables_eqD(2) [OF t] stored(4) new(3,5) ids(2) by (simp add: lane_rows_def)
    show "aliases t = aliases s" using kept_tables_eqD(4) [OF t] stored(6) new(4) by simp
    show "\<not> message_conflict m r" if "r \<in> set (messages s)" for r using stored(3) that new(2) by simp
    show "\<not> conversation_conflict c r" if "r \<in> set (conversations s)" for r using new(6) that by simp
  qed (rule rt)
qed

lemma reopen_effect:
  assumes "reopenFailedConversation env w value subject key hash queued s = (Inr (Some (ci, mi)), t)"
  obtains m and s0 :: store where "m = messageCreateData value subject (case ms_replyToAddress m of None \<Rightarrow> [] | Some a \<Rightarrow> a) (sw_now (qw_send w)) key hash ci mi (ms_createdAt m)"
    "messages t = messages s0 @ [m]" "\<And>r. r \<in> set (messages s0) \<Longrightarrow> \<not> message_conflict m r"
proof -
  let ?v = "cy_message value" and ?now = "sw_now (qw_send w)"
  let ?body = "\<lambda>found. io_bind (get_conversation (cv_id found)) (\<lambda>current. io_bind (require_identities ?v) (\<lambda>_ s.
      if other_base current ?v then (Inl IdentityNotAllowedError, s) else if live_message (cv_id found) s then (Inr None, s)
      else reopen_message env w value subject key hash queued found current s))"
  obtain found where "transaction (?body found) (qw_meanwhile w 2 s) = (Inr (Some (ci, mi)), t)"
    using assms by (simp add: reopenFailedConversation_def meanwhile_def io_bind_Inr [OF io_eval(3)] split: option.splits)
  from transaction_InrD [OF this] obtain current s' where
    "io_bind (require_identities ?v) (\<lambda>_ s. if other_base current ?v then (Inl IdentityNotAllowedError, s)
      else if live_message (cv_id found) s then (Inr None, s)
      else reopen_message env w value subject key hash queued found current s) s' = (Inr (Some (ci, mi)), t)"
    by (rule io_bind_InrE)
  then obtain u s0 where "(if other_base current ?v then (Inl IdentityNotAllowedError, s0)
      else if live_message (cv_id found) s0 then (Inr None, s0)
      else reopen_message env w value subject key hash queued found current s0) = (Inr (Some (ci, mi)), t)"
    by (rule io_bind_InrE)
  then have "reopen_message env w value subject key hash queued found current s0 = (Inr (Some (ci, mi)), t)"
    by (simp split: if_splits)
  then obtain replyTo m u1 s1 s1' s2 u3 s3 u4 s4 u5 s5 where
    1: "update_conversation (cv_id found) (reopened value subject ?now) s0 = (Inr u1, s1)"
    and 2: "create_intent (opening_lane value queued) (messageCreateData value subject replyTo ?now key hash (cv_id found)) s1' = (Inr m, s2)"
    and 3: "claim_refs env (ms_id m) (mi_attachments ?v) s2 = (Inr u3, s3)"
    and 4: "append_event env (intended_event (cv_id found) ?now queued (ms_id m)) s3 = (Inr u4, s4)"
    and 5: "io_when (cv_state current \<noteq> AWAITING_PARTICIPANT) (append_event env (awaiting_participant_event (cv_id found) ?now (cv_state current))) s4 = (Inr u5, s5)"
    and ids: "cv_id found = ci" "ms_id m = mi" and "s1' = s1" and t: "s5 = t"
    unfolding reopen_message_def Let_def io_bind_Inr_iff reply_to_Inr io_eval prod.inject sum.inject option.inject
    by (elim exE conjE) (rule that)
  have "kept_tables s5 = kept_tables s4" "kept_tables s4 = kept_tables s3" "kept_tables s3 = kept_tables s2"
    using io_keepsD [OF io_keeps_when [OF append_event_tables] refl 5] io_keepsD [OF append_event_tables refl 4]
      io_keepsD [OF claim_refs_tables refl 3] .
  then have "messages t = messages s2" unfolding t using kept_tables_eqD(1) by metis
  moreover note stored = create_intent_Inr [OF 2]
  moreover from stored(1) have "m = messageCreateData value subject replyTo ?now key hash ci mi (ms_createdAt m)" "ms_replyToAddress m = Some replyTo"
    using ids by (simp_all add: messageCreateData_def outbound_row_def)
  ultimately show ?thesis by (intro that [of m s1']) simp_all
qed

section \<open>Replaying a queued opening\<close>

text \<open>An answer that the stored row would give again.\<close>

definition replayable :: "environment \<Rightarrow> string \<Rightarrow> string \<Rightarrow> reply \<Rightarrow> store \<Rightarrow> bool" where
  "replayable env key hash r t \<longleftrightarrow>
     (\<exists>m ci. by_key key t = Some m \<and> same_intent hash m \<and> ms_conversationId m = Some ci \<and> r = sendResultResponse env t m ci)"

lemma error_reply_status [simp]: "rp_status (error_reply st e) = st" "rp_status (json_reply st v) = st"
  by (simp_all add: error_reply_def json_reply_def)

lemma answers_status [simp]:
  "rp_status key_conflict = 409" "rp_status key_in_use = 409" "rp_status identityNotAllowedResponse = 400"
  "rp_status (attachmentClaimResponse e) = 400" "rp_status (metadata_reply st) = st"
  by (simp_all add: key_conflict_def key_in_use_def identityNotAllowedResponse_def attachmentClaimResponse_def metadata_reply_def)

lemma replay_opening_queued:
  assumes "replay_opening env w True hash m s = (Inr r, t)"
  shows "t = s" "r = key_conflict \<or> (\<exists>ci. same_intent hash m \<and> ms_conversationId m = Some ci \<and> r = sendResultResponse env s m ci)"
  using assms by (auto simp: replay_opening_def replay_intent_def recovered_def result_reply_def
      split: option.splits if_splits)

lemma replay_opening_again:
  assumes "same_intent hash m" and "ms_conversationId m = Some ci"
  shows "replay_opening env w True hash m s = (Inr (sendResultResponse env s m ci), s)"
  using assms by (simp add: replay_opening_def replay_intent_def recovered_def result_reply_def io_bind_def)

lemma queued_intent_replayable:
  assumes run: "intent_response env w True (ci, mi) s = (Inr r, t)" and distinct: "distinct (map ms_id (messages t))"
    and stored: "messages s = ms @ [m]" "\<And>r. r \<in> set ms \<Longrightarrow> \<not> message_conflict m r"
    and row: "m = messageCreateData value subject replyTo now key hash ci mi created" and ci: "ci \<noteq> []"
  shows "replayable env key hash r t"
proof -
  have m: "ms_id m = mi" "ms_state m = PENDING" "ms_conversationId m = Some ci" "ms_idempotencyKey m = Some key" "same_intent hash m"
    using ci by (simp_all add: row messageCreateData_def same_intent_def truthy_def)
  obtain m' where get: "find_by ms_id mi (messages s) = Some m'" and t: "t = s"
    and r: "r = json_reply 202 (JObject [(''conversationId'', JString ci), (''message'', serializeMessageWithAttachments env s m')])"
    using run by (auto simp: intent_response_def queuedResponse_def message_reply_def get_message_def
        elim!: io_bind_InrE split: option.splits)
  have "m' = m" using find_by_distinct [of ms_id "messages s" m] distinct get m(1) t by (simp add: stored(1))
  moreover have "by_key key s = Some m" using by_key_created [where s = "s\<lparr>messages := ms\<rparr>"] stored m(4) by simp
  ultimately show ?thesis using m t r
    by (auto simp: replayable_def sendResultResponse_def send_status_def)
qed

lemma replay_opening_replayable:
  assumes "replay_opening env w True hash m s = (Inr r, t)" and "by_key key s = Some m" and "rp_status r = 202"
  shows "replayable env key hash r t"
  using replay_opening_queued [OF assms(1)] assms(2,3) by (auto simp: replayable_def)

definition named_conversations :: "store \<Rightarrow> bool" where
  \<comment> \<open>ids are not empty\<close>
  "named_conversations s \<longleftrightarrow> list_all (\<lambda>m. ms_conversationId m \<noteq> Some []) (messages s)"

lemma created_replayable:
  assumes run: "intent_response env w True (ci, mi) s = (Inr r, t)" and distinct: "distinct (map ms_id (messages t))"
    and stored: "messages s = ms @ [m]" "\<And>r. r \<in> set ms \<Longrightarrow> \<not> message_conflict m r"
    and row: "m = messageCreateData value subject replyTo now key hash ci mi created" and named: "named_conversations t"
  shows "replayable env key hash r t"
proof (rule queued_intent_replayable [OF run distinct stored row])
  have "t = s" using run by (auto simp: intent_response_def queuedResponse_def message_reply_def get_message_def
        elim!: io_bind_InrE split: option.splits)
  then show "ci \<noteq> []" using named stored(1) row by (simp add: named_conversations_def messageCreateData_def)
qed

lemma reopen_error_replayable:
  assumes "reopen_error env w True key hash e s = (Inr r, t)" and "rp_status r = 202"
  shows "replayable env key hash r t"
proof -
  let ?s = "qw_meanwhile w 3 s"
  have "e = PrismaError ''P2002''" using assms by (auto simp: reopen_error_def split: js_error.splits if_splits)
  then have run: "(case by_key key ?s of
      Some m \<Rightarrow> (if same_intent hash m then replay_opening env w True hash m ?s else (Inr key_in_use, ?s))
    | None \<Rightarrow> (Inr key_in_use, ?s)) = (Inr r, t)"
    using assms(1) by (simp add: reopen_error_def meanwhile_def io_bind_Inr [OF io_eval(3)])
  then obtain m where "by_key key ?s = Some m" "replay_opening env w True hash m ?s = (Inr r, t)"
    using assms(2) by (auto split: option.splits if_splits)
  then show ?thesis using replay_opening_replayable assms(2) by blast
qed

lemma open_error_replayable:
  assumes "open_error env w value subject key hash True e s = (Inr r, t)" and status: "rp_status r = 202"
    and distinct: "distinct (map ms_id (messages t))" and named: "named_conversations t"
  shows "replayable env key hash r t"
proof -
  let ?s = "qw_meanwhile w 1 s"
  have e: "e = PrismaError ''P2002''" using assms(1,2) by (auto simp: open_error_def split: js_error.splits if_splits)
  show ?thesis
  proof (cases "by_key key ?s")
    case (Some raced)
    then have "replay_opening env w True hash raced ?s = (Inr r, t)"
      using assms(1) e by (simp add: open_error_def meanwhile_def io_bind_Inr [OF io_eval(3)])
    then show ?thesis using replay_opening_replayable Some status by blast
  next
    case None
    obtain q s' where q: "reopenFailedConversation env w value subject key hash True ?s = (q, s')" by fastforce
    have run: "(case (q, s') of
         (Inl e', s') \<Rightarrow> reopen_error env w True key hash e' s'
       | (Inr None, s') \<Rightarrow> (Inr (error_reply 409 ''A conversation already exists for this topic''), s')
       | (Inr (Some created), s') \<Rightarrow> intent_response env w True created s') = (Inr r, t)"
      using assms(1) e None q by (simp add: open_error_def meanwhile_def io_bind_Inr [OF io_eval(3)])
    show ?thesis
    proof (cases q)
      case (Inl e')
      with run status reopen_error_replayable show ?thesis by simp
    next
      case (Inr found)
      then obtain ci mi where found: "found = Some (ci, mi)" using run status by (cases found) auto
      from q [unfolded Inr found] show ?thesis
      proof (rule reopen_effect)
        fix m and s0 :: store
        assume m: "m = messageCreateData value subject (case ms_replyToAddress m of None \<Rightarrow> [] | Some a \<Rightarrow> a) (sw_now (qw_send w)) key hash ci mi (ms_createdAt m)"
          "messages s' = messages s0 @ [m]" "\<And>r. r \<in> set (messages s0) \<Longrightarrow> \<not> message_conflict m r"
        have "intent_response env w True (ci, mi) s' = (Inr r, t)" using run by (simp add: Inr found)
        then show ?thesis using created_replayable distinct m named by blast
      qed
    qed
  qed
qed

lemma create_intent_replayable:
  assumes run: "create_intent_v2 env w True key value s = (Inr r, t)" and status: "rp_status r = 202"
    and distinct: "distinct (map ms_id (messages t))" and named: "named_conversations t"
  shows "replayable env key (opening_hash w True value) r t"
proof (cases "by_key key s")
  case (Some m)
  with run have "replay_opening env w True (opening_hash w True value) m s = (Inr r, t)" by (simp add: create_intent_v2_def Let_def)
  then show ?thesis using replay_opening_replayable Some status by blast
next
  case None
  let ?s = "qw_meanwhile w 0 s" and ?hash = "opening_hash w True value" and ?subject = "open_subject value"
  have allowed: "identitiesAreAllowed (cy_message value) s"
    using run None status by (cases "identitiesAreAllowed (cy_message value) s") (auto simp: create_intent_v2_def Let_def)
  obtain q s' where q: "open_conversation env w value ?subject key ?hash True ?s = (q, s')" by fastforce
  have run': "(case (q, s') of
       (Inl e, s') \<Rightarrow> open_error env w value ?subject key ?hash True e s'
     | (Inr created, s') \<Rightarrow> intent_response env w True created s') = (Inr r, t)"
    using run None allowed q by (simp add: create_intent_v2_def Let_def meanwhile_def io_bind_Inr [OF io_eval(3)])
  show ?thesis
  proof (cases q)
    case (Inl e)
    with run' open_error_replayable status distinct named show ?thesis by simp
  next
    case (Inr created)
    obtain ci mi where created: "created = (ci, mi)" by fastforce
    from q [unfolded Inr created] show ?thesis
    proof (rule open_conversation_effect)
      fix m replyTo created_at
      assume "m = messageCreateData value ?subject replyTo (sw_now (qw_send w)) key ?hash ci mi created_at"
        "messages s' = messages ?s @ [m]" "\<And>r. r \<in> set (messages ?s) \<Longrightarrow> \<not> message_conflict m r"
      moreover have "intent_response env w True (ci, mi) s' = (Inr r, t)" using run' by (simp add: Inr created)
      ultimately show ?thesis using created_replayable distinct named by blast
    qed
  qed
qed

section \<open>Refused openings\<close>

lemma result_status: "rp_status (sendResultResponse env s m ci) \<in> {200, 202, 502}"
  by (simp add: sendResultResponse_def send_status_def)

lemma intent_response_status:
  assumes "intent_response env w queued created s = (Inr r, t)"
  shows "rp_status r \<in> {201, 202, 502}"
  using assms
  by (auto simp: intent_response_def queuedResponse_def deliverResponse_def message_reply_def failed_reply_def
      io_catch_def io_bind_def get_message_def split: if_splits sum.splits prod.splits option.splits)

lemma replay_opening_status:
  assumes "replay_opening env w queued hash m s = (Inr r, t)"
  shows "r = key_conflict \<and> t = s \<or> rp_status r \<in> {200, 202, 502}"
proof (cases "\<exists>ci. ms_conversationId m = Some ci \<and> same_intent hash m")
  case True
  then obtain ci where "ms_conversationId m = Some ci" "same_intent hash m" by blast
  with assms obtain m' s' where "r = sendResultResponse env s' m' ci"
    by (auto simp: replay_opening_def replay_intent_def result_reply_def elim!: io_bind_InrE)
  then show ?thesis using result_status by simp
next
  case False
  with assms show ?thesis by (auto simp: replay_opening_def split: option.splits if_splits)
qed

lemma reopen_rollback:
  assumes "reopenFailedConversation env w value subject key hash queued s = (q, t)" and still: "qw_meanwhile w = (\<lambda>n s. s)"
    and "q = Inl e \<or> q = Inr None"
  shows "t = s"
proof (cases "find (\<lambda>c. cv_topicType c = Some (tp_type (cy_topic value))
    \<and> cv_externalTopicId c = Some (tp_externalId (cy_topic value))) (conversations s)")
  case None
  with assms(1) show ?thesis by (simp add: reopenFailedConversation_def)
next
  case (Some found)
  let ?body = "\<lambda>found. io_bind (get_conversation (cv_id found)) (\<lambda>current. io_bind (require_identities (cy_message value)) (\<lambda>_ s.
      if other_base current (cy_message value) then (Inl IdentityNotAllowedError, s) else if live_message (cv_id found) s then (Inr None, s)
      else reopen_message env w value subject key hash queued found current s))"
  have run: "transaction (?body found) s = (q, t)"
    using assms(1) Some still by (simp add: reopenFailedConversation_def meanwhile_def io_bind_Inr [OF io_eval(3)])
  show ?thesis
  proof (cases q)
    case (Inl e)
    with run transaction_InlD show ?thesis by blast
  next
    case (Inr x)
    then have none: "q = Inr None" using assms(3) by simp
    have no: "reopen_message env w value subject key hash queued found current s' \<noteq> (Inr None, t')" for current s' t'
      by (auto simp: reopen_message_def Let_def io_bind_Inr_iff)
    from transaction_InrD [OF run [unfolded none]] obtain current s' where
      1: "get_conversation (cv_id found) s = (Inr current, s')"
      and 2: "io_bind (require_identities (cy_message value)) (\<lambda>_ s. if other_base current (cy_message value) then (Inl IdentityNotAllowedError, s)
        else if live_message (cv_id found) s then (Inr None, s)
        else reopen_message env w value subject key hash queued found current s) s' = (Inr None, t)"
      by (rule io_bind_InrE)
    from 2 obtain u s0 where 3: "require_identities (cy_message value) s' = (Inr u, s0)"
      and 4: "(if other_base current (cy_message value) then (Inl IdentityNotAllowedError, s0)
        else if live_message (cv_id found) s0 then (Inr None, s0)
        else reopen_message env w value subject key hash queued found current s0) = (Inr None, t)"
      by (rule io_bind_InrE)
    have "s' = s" "s0 = s'" using 1 3 by (auto simp: get_conversation_def split: option.splits)
    with 4 no show ?thesis by (auto split: if_splits)
  qed
qed

lemma reopen_error_refused:
  assumes "reopen_error env w queued key hash e s = (Inr r, t)" and still: "qw_meanwhile w = (\<lambda>n s. s)"
    and "400 \<le> rp_status r" and "rp_status r < 500"
  shows "t = s"
proof (cases "e = PrismaError ''P2002''")
  case True
  then have run: "(case by_key key s of
      Some m \<Rightarrow> (if same_intent hash m then replay_opening env w queued hash m s else (Inr key_in_use, s))
    | None \<Rightarrow> (Inr key_in_use, s)) = (Inr r, t)"
    using assms(1) still by (simp add: reopen_error_def meanwhile_def io_bind_Inr [OF io_eval(3)])
  then show ?thesis using assms(3,4) by (auto split: option.splits if_splits dest!: replay_opening_status)
next
  case False
  with assms(1) show ?thesis by (auto simp: reopen_error_def split: js_error.splits if_splits)
qed

lemma open_error_refused:
  assumes "open_error env w value subject key hash queued e s = (Inr r, t)" and still: "qw_meanwhile w = (\<lambda>n s. s)"
    and "400 \<le> rp_status r" and "rp_status r < 500"
  shows "t = s"
proof (cases "e = PrismaError ''P2002''")
  case False
  with assms(1) show ?thesis by (auto simp: open_error_def split: js_error.splits if_splits)
next
  case True
  obtain q s' where q: "reopenFailedConversation env w value subject key hash queued s = (q, s')" by fastforce
  have run: "(case by_key key s of
      Some raced \<Rightarrow> replay_opening env w queued hash raced s
    | None \<Rightarrow> (case (q, s') of
         (Inl e', s') \<Rightarrow> reopen_error env w queued key hash e' s'
       | (Inr None, s') \<Rightarrow> (Inr (error_reply 409 ''A conversation already exists for this topic''), s')
       | (Inr (Some created), s') \<Rightarrow> intent_response env w queued created s')) = (Inr r, t)"
    using assms(1) True q still by (cases "by_key key s") (simp_all add: open_error_def meanwhile_def io_bind_Inr [OF io_eval(3)])
  show ?thesis
  proof (cases "by_key key s")
    case (Some raced)
    with run assms(3,4) show ?thesis by (auto dest!: replay_opening_status)
  next
    case None
    show ?thesis
    proof (cases q)
      case (Inl e')
      then have "s' = s" using reopen_rollback [OF q still] by simp
      with run None Inl reopen_error_refused [OF _ still assms(3,4)] show ?thesis by simp
    next
      case (Inr found)
      show ?thesis
      proof (cases found)
        case None
        then show ?thesis using run \<open>by_key key s = None\<close> Inr reopen_rollback [OF q still] by simp
      next
        case (Some created)
        then show ?thesis using run \<open>by_key key s = None\<close> Inr assms(3,4) by (auto dest!: intent_response_status)
      qed
    qed
  qed
qed

lemma refused_opening:
  assumes still: "qw_meanwhile w = (\<lambda>n s. s)" and run: "create_intent_v2 env w queued key value s = (Inr r, t)"
    and "400 \<le> rp_status r" and "rp_status r < 500"
  shows "t = s"
proof (cases "by_key key s")
  case (Some m)
  with run assms(3,4) show ?thesis by (auto simp: create_intent_v2_def Let_def dest!: replay_opening_status)
next
  case None
  let ?hash = "opening_hash w queued value" and ?subject = "open_subject value"
  obtain q s' where q: "open_conversation env w value ?subject key ?hash queued s = (q, s')" by fastforce
  show ?thesis
  proof (cases "identitiesAreAllowed (cy_message value) s")
    case False
    with run None show ?thesis by (simp add: create_intent_v2_def Let_def)
  next
    case True
    then have run': "(case (q, s') of
         (Inl e, s') \<Rightarrow> open_error env w value ?subject key ?hash queued e s'
       | (Inr created, s') \<Rightarrow> intent_response env w queued created s') = (Inr r, t)"
      using run None q still by (simp add: create_intent_v2_def Let_def meanwhile_def io_bind_Inr [OF io_eval(3)])
    show ?thesis
    proof (cases q)
      case (Inl e)
      then have "s' = s" using q transaction_InlD by (auto simp: open_conversation_def Let_def)
      with run' Inl open_error_refused [OF _ still assms(3,4)] show ?thesis by simp
    next
      case (Inr created)
      with run' assms(3,4) show ?thesis by (auto dest!: intent_response_status)
    qed
  qed
qed

section \<open>Properties\<close>

definition plain_world :: request_world where
  "plain_world =
     \<lparr>qw_send = sample_world (Inr ''re1'') 5, qw_sha256 = (\<lambda>text. text), qw_token = ''01234567-89ab-4cde-8f01-23456789abcd'',
      qw_meanwhile = (\<lambda>n s. s)\<rparr>"

definition keyed_env :: environment where
  "keyed_env name = (if name = ''EMAIL_V2_API_KEY'' then Some ''secret'' else nats_on name)"

definition sample_request :: "json \<Rightarrow> http_request" where
  "sample_request body =
     \<lparr>rq_header = (\<lambda>name. if name = ''authorization'' then Some ''Bearer secret''
        else if name = ''idempotency-key'' then Some ''k1'' else None),
      rq_body = Some body, rq_query = []\<rparr>"

definition sample_allowed :: store where
  "sample_allowed = empty_store\<lparr>allowlist :=
     [\<lparr>al_address = ''us@x.io'', al_role = FROM\<rparr>, \<lparr>al_address = ''us@x.io'', al_role = REPLY_TO\<rparr>]\<rparr>"


lemma sample_opening_run:
  "case createConversationV2 keyed_env plain_world (sample_request sample_create) True sample_allowed of (res, t) \<Rightarrow>
     (case res of Inl e \<Rightarrow> False
      | Inr r \<Rightarrow> rp_status r = 202 \<and> distinct (map ms_id (messages t)) \<and> named_conversations t)"
  by code_simp


text \<open>C22: a refused opening leaves no trace. Whenever a request to open a conversation is answered with a
  status in the 400s (bad key, bad body, identities not allowed, attachments not to be had, a key or a
  topic that is taken), the database is as it was, also when the failure came late in the transaction.\<close>

theorem refused_opening_leaves_no_trace:
  assumes "createConversationV2 env w request queued s = (Inr r, t)" and "400 \<le> rp_status r" and "rp_status r < 500"
    and "qw_meanwhile w = (\<lambda>n s. s)"
  shows "t = s"
  using assms(1) refused_opening [OF assms(4) _ assms(2,3)]
  by (auto simp: createConversationV2_def or_reply_def split: sum.splits)

theorem refused_opening_leaves_no_trace_witness:
  "snd (createConversationV2 keyed_env plain_world (sample_request sample_create) False empty_store) = empty_store"
proof -
  let ?run = "createConversationV2 keyed_env plain_world (sample_request sample_create) False empty_store"
  have "case fst ?run of Inl e \<Rightarrow> False | Inr r \<Rightarrow> rp_status r = 400" by code_simp
  then obtain r where "fst ?run = Inr r" "rp_status r = 400" by (auto elim!: case_sumE)
  then show ?thesis
    using refused_opening_leaves_no_trace [of keyed_env plain_world "sample_request sample_create" False empty_store r "snd ?run"]
    by (simp add: prod_eq_iff plain_world_def)
qed

end
