(* ===== verification/Direct_Email.thy ===== *)
theory Direct_Email
  imports Conversation_V2
begin

text \<open>
  \<open>src/lib/direct-email-v2.ts\<close>: one email outside any conversation, queued or sent at once. It shares the
  idempotency key, the allowlist, the outbox lanes and the send with the conversation requests.
\<close>

section \<open>Answers\<close>

definition serializeDirectEmail :: "environment \<Rightarrow> store \<Rightarrow> message \<Rightarrow> json" where
  "serializeDirectEmail env s m = JObject
     ([(''id'', JString (ms_id m)), (''state'', JString (js_toLower (message_state_name (ms_state m)))),
       (''resendEmailId'', nullable (ms_resendEmailId m))]
      @ (if attachmentsEnabled env
         then [(''attachments'', JArray (map serializeAttachment (listMessageAttachments (ms_id m) s)))] else []))"

definition replayResponse :: "environment \<Rightarrow> message \<Rightarrow> reply io" where
  "replayResponse env m s =
     (Inr (json_reply (send_status m) (JObject
        ((if ms_state m = FAILED \<or> ms_state m = INDETERMINATE then [(''error'', JString ''Email was not confirmed as sent'')] else [])
         @ [(''email'', serializeDirectEmail env s m)]))), s)"

definition email_reply :: "environment \<Rightarrow> int \<Rightarrow> message \<Rightarrow> reply io" where
  "email_reply env status m s = (Inr (json_reply status (JObject [(''email'', serializeDirectEmail env s m)])), s)"

definition send_failed_reply :: "environment \<Rightarrow> message \<Rightarrow> reply io" where
  "send_failed_reply env m s =
     (Inr (json_reply 502 (JObject [(''error'', JString ''Failed to send email''), (''email'', serializeDirectEmail env s m)])), s)"

section \<open>The request\<close>

definition direct_row :: "direct_email_input \<Rightarrow> instant \<Rightarrow> string \<Rightarrow> string \<Rightarrow> uuid \<Rightarrow> instant \<Rightarrow> message" where
  \<comment> \<open>the recipients of a valid request are not empty\<close>
  "direct_row v now key hash i created =
     \<lparr>ms_id = i, ms_kind = DIRECT, ms_conversationId = None, ms_parentMessageId = None,
      ms_direction = OUTBOUND, ms_state = PENDING, ms_stateDetail = None, ms_deliveryState = Some UNKNOWN,
      ms_deliveryStateDetail = None, ms_deliveryStateUpdatedAt = None, ms_deliveredAt = None,
      ms_resendEmailId = None, ms_internetMessageId = None, ms_inReplyToInternetMessageId = None,
      ms_referenceInternetMessageIds = [], ms_fromAddress = ii_address (di_from v), ms_fromName = ii_name (di_from v),
      ms_toAddress = (case di_to v of [] \<Rightarrow> [] | r # _ \<Rightarrow> ii_address r),
      ms_toName = (case di_to v of [] \<Rightarrow> None | r # _ \<Rightarrow> ii_name r),
      ms_toRecipients = Some (identities_json (di_to v)), ms_replyToAddress = None, ms_replyToName = None,
      ms_subject = di_subject v, ms_textBody = di_text v, ms_htmlBody = di_html v,
      ms_tags = map_option tags_json (di_tags v), ms_emailCreatedAt = now, ms_idempotencyKey = Some key,
      ms_requestHash = Some hash, ms_createdAt = created\<rparr>"

definition create_direct :: "environment \<Rightarrow> instant \<Rightarrow> direct_email_input \<Rightarrow> string \<Rightarrow> string \<Rightarrow> bool \<Rightarrow> message io" where
  \<comment> \<open>the transaction\<close>
  "create_direct env now v key hash queued =
     transaction (\<lambda>s.
       if \<not> lockAllowedEmailIdentity (ii_address (di_from v)) FROM s then (Inl IdentityNotAllowedError, s)
       else
         io_bind (create_intent (outboxRelationData queued (has_refs (di_attachments v))) (direct_row v now key hash)) (\<lambda>m.
         io_bind (claim_refs env (ms_id m) (di_attachments v)) (\<lambda>_. io_return m)) s)"

definition same_direct :: "string \<Rightarrow> message \<Rightarrow> bool" where
  "same_direct hash m \<longleftrightarrow> ms_kind m = DIRECT \<and> ms_requestHash m = Some hash"

definition replay_direct :: "environment \<Rightarrow> request_world \<Rightarrow> bool \<Rightarrow> string \<Rightarrow> message \<Rightarrow> reply io" where
  "replay_direct env w queued hash m =
     (if \<not> same_direct hash m then io_return key_conflict
      else io_bind (recovered env w queued m) (replayResponse env))"

definition direct_error :: "environment \<Rightarrow> request_world \<Rightarrow> bool \<Rightarrow> string \<Rightarrow> string \<Rightarrow> js_error \<Rightarrow> reply io" where
  \<comment> \<open>the catch block\<close>
  "direct_error env w queued key hash e =
     (case e of
        IdentityNotAllowedError \<Rightarrow> io_return identityNotAllowedResponse
      | AttachmentClaimError message \<Rightarrow> io_return (attachmentClaimResponse message)
      | _ \<Rightarrow>
          if e \<noteq> PrismaError ''P2002'' then io_throw e
          else
            io_bind (meanwhile w 1) (\<lambda>_ s.
              case by_key key s of
                None \<Rightarrow> (Inr key_conflict, s)
              | Some raced \<Rightarrow> replay_direct env w queued hash raced s))"

definition deliver_direct :: "environment \<Rightarrow> request_world \<Rightarrow> uuid \<Rightarrow> reply io" where
  "deliver_direct env w messageId =
     io_catch (io_bind (deliverPendingMessage env (qw_send w) messageId) (email_reply env 201))
       (\<lambda>_. io_bind (get_message messageId) (send_failed_reply env))"

definition direct_hash :: "request_world \<Rightarrow> bool \<Rightarrow> direct_email_input \<Rightarrow> string" where
  "direct_hash w queued v =
     hashSendRequest (qw_sha256 w) (JObject
       [(''operation'', JString (if queued then ''outbox-direct-email-v2'' else ''direct-email-v2'')), (''request'', direct_email_json v)])"

definition direct_intent :: "environment \<Rightarrow> request_world \<Rightarrow> bool \<Rightarrow> string \<Rightarrow> direct_email_input \<Rightarrow> reply io" where
  \<comment> \<open>what follows the checks of the request\<close>
  "direct_intent env w queued key v s =
     (let hash = direct_hash w queued v
      in case by_key key s of
           Some existing \<Rightarrow> replay_direct env w queued hash existing s
         | None \<Rightarrow>
             if \<not> isEmailAddressAllowed (ii_address (di_from v)) FROM s then (Inr identityNotAllowedResponse, s)
             else
               io_bind (meanwhile w 0) (\<lambda>_ s.
                 case create_direct env (sw_now (qw_send w)) v key hash queued s of
                   (Inl e, s') \<Rightarrow> direct_error env w queued key hash e s'
                 | (Inr m, s') \<Rightarrow> if queued then email_reply env 202 m s' else deliver_direct env w (ms_id m) s') s)"

definition sendDirectEmailV2 :: "environment \<Rightarrow> request_world \<Rightarrow> http_request \<Rightarrow> bool \<Rightarrow> reply io" where
  \<comment> \<open>\<open>queued\<close> is the delivery mode \<open>'outbox'\<close>\<close>
  "sendDirectEmailV2 env w request queued =
     or_reply (authorized w env request) (\<lambda>_.
     or_reply (getIdempotencyKey request) (\<lambda>key.
     or_reply (readJson request) (\<lambda>body.
     or_reply (valid_or_400 (validateDirectEmailV2Body env (Some body))) (direct_intent env w queued key))))"

section \<open>What a request changes\<close>

lemma direct_row_simps [simp]:
  "ms_id (direct_row v now key hash i cr) = i" "ms_kind (direct_row v now key hash i cr) = DIRECT"
  "ms_state (direct_row v now key hash i cr) = PENDING" "ms_idempotencyKey (direct_row v now key hash i cr) = Some key"
  "ms_requestHash (direct_row v now key hash i cr) = Some hash" "ms_replyToAddress (direct_row v now key hash i cr) = None"
  by (simp_all add: direct_row_def)

lemma create_direct_effect:
  assumes "create_direct env now v key hash queued s = (Inr m, t)"
  obtains i created where "m = direct_row v now key hash i created" "messages t = messages s @ [m]"
    "\<And>r. r \<in> set (messages s) \<Longrightarrow> \<not> message_conflict m r" "isEmailAddressAllowed (ii_address (di_from v)) FROM s"
    "outbox_entries t = outbox_entries s @ lane_rows (outboxRelationData queued (has_refs (di_attachments v))) i s"
    "conversations_stripped t = conversations_stripped s"
proof -
  have allowed: "lockAllowedEmailIdentity (ii_address (di_from v)) FROM s"
    using transaction_InrD [OF assms [unfolded create_direct_def]] by (simp split: if_splits)
  obtain s1 where 1: "create_intent (outboxRelationData queued (has_refs (di_attachments v))) (direct_row v now key hash) s = (Inr m, s1)"
    and 2: "claim_refs env (ms_id m) (di_attachments v) s1 = (Inr (), t)"
    using transaction_InrD [OF assms [unfolded create_direct_def]] allowed by (auto elim!: io_bind_InrE)
  note stored = create_intent_Inr [OF 1]
  have t: "kept_tables t = kept_tables s1" using io_keepsD [OF claim_refs_tables refl 2] .
  have id: "ms_id m = id_source s (id_count s)" using stored(1) by simp
  show ?thesis
  proof (rule that [OF stored(1) _ stored(3)])
    show "messages t = messages s @ [m]" using kept_tables_eqD(1) [OF t] stored(2) by simp
    show "isEmailAddressAllowed (ii_address (di_from v)) FROM s" using locked_identity_allowed [OF allowed] .
    show "outbox_entries t = outbox_entries s @ lane_rows (outboxRelationData queued (has_refs (di_attachments v))) (id_source s (id_count s)) s"
      using kept_tables_eqD(2) [OF t] stored(4) id by simp
    show "conversations_stripped t = conversations_stripped s"
      using kept_tables_eqD(5) [OF t] stored(5) by (simp add: conversations_stripped_def)
  qed
qed

lemma direct_intent_queued:
  assumes run: "direct_intent env w True key v s = (Inr r, t)" and status: "rp_status r = 202"
  obtains m where "by_key key t = Some m" "same_direct (direct_hash w True v) m" "replayResponse env m t = (Inr r, t)"
proof -
  let ?hash = "direct_hash w True v"
  have replayed: thesis if "replay_direct env w True ?hash m s' = (Inr r, t)" "by_key key s' = Some m" for m s'
    using that status \<open>\<And>m. by_key key t = Some m \<Longrightarrow> same_direct (direct_hash w True v) m \<Longrightarrow> replayResponse env m t = (Inr r, t) \<Longrightarrow> thesis\<close>
    by (auto simp: replay_direct_def recovered_def replayResponse_def io_bind_def split: if_splits)
  show thesis
  proof (cases "by_key key s")
    case (Some m)
    with run replayed show thesis by (simp add: direct_intent_def Let_def)
  next
    case None
    let ?s = "qw_meanwhile w 0 s"
    have allowed: "isEmailAddressAllowed (ii_address (di_from v)) FROM s"
      using run None status
      by (cases "isEmailAddressAllowed (ii_address (di_from v)) FROM s") (auto simp: direct_intent_def Let_def)
    obtain q s' where q: "create_direct env (sw_now (qw_send w)) v key ?hash True ?s = (q, s')" by fastforce
    have run': "(case (q, s') of
        (Inl e, s') \<Rightarrow> direct_error env w True key ?hash e s'
      | (Inr m, s') \<Rightarrow> if True then email_reply env 202 m s' else deliver_direct env w (ms_id m) s') = (Inr r, t)"
      using run None allowed q by (simp add: direct_intent_def Let_def meanwhile_def io_bind_Inr [OF io_eval(3)])
    show thesis
    proof (cases q)
      case (Inl e)
      let ?u = "qw_meanwhile w 1 s'"
      have e: "e = PrismaError ''P2002''" using run' Inl status by (auto simp: direct_error_def split: js_error.splits if_splits)
      have "(case by_key key ?u of None \<Rightarrow> (Inr key_conflict, ?u) | Some raced \<Rightarrow> replay_direct env w True ?hash raced ?u) = (Inr r, t)"
        using run' Inl e by (simp add: direct_error_def meanwhile_def io_bind_Inr [OF io_eval(3)] del: One_nat_def)
      with status obtain raced where "by_key key ?u = Some raced" "replay_direct env w True ?hash raced ?u = (Inr r, t)"
        by (auto split: option.splits)
      then show thesis using replayed by blast
    next
      case (Inr m)
      from q [unfolded Inr] show thesis
      proof (rule create_direct_effect)
        fix i created
        assume m: "m = direct_row v (sw_now (qw_send w)) key ?hash i created" "messages s' = messages ?s @ [m]"
          "\<And>r. r \<in> set (messages ?s) \<Longrightarrow> \<not> message_conflict m r"
        have "by_key key s' = Some m" using by_key_created [OF m(2) _ m(3)] m(1) by simp
        moreover have "same_direct ?hash m" by (simp add: m(1) same_direct_def)
        moreover have "email_reply env 202 m s' = (Inr r, t)" using run' Inr by simp
        moreover have "ms_state m = PENDING" by (simp add: m(1))
        ultimately show thesis by (intro that [of m]) (auto simp: email_reply_def replayResponse_def send_status_def)
      qed
    qed
  qed
qed

section \<open>Properties\<close>

definition direct_body :: json where
  "direct_body = JObject
     [(''from'', sample_from), (''to'', JArray [JObject [(''address'', JString ''p@y.io'')]]),
      (''subject'', JString ''Hello''), (''text'', JString ''t'')]"

text \<open>A direct email is idempotent. When a queued direct email was answered with 202, the same request
  on the database it left gets the same answer again and writes nothing: no second email.\<close>

theorem direct_email_is_idempotent:
  assumes "sendDirectEmailV2 env w request True s = (Inr r, t)" and "rp_status r = 202" and "qw_sha256 w' = qw_sha256 w"
  shows "sendDirectEmailV2 env w' request True t = (Inr r, t)"
proof -
  obtain key body v where checks: "authorized w env request = Inr ()" "getIdempotencyKey request = Inr key"
    "readJson request = Inr body" "valid_or_400 (validateDirectEmailV2Body env (Some body)) = Inr v"
    and run: "direct_intent env w True key v s = (Inr r, t)"
    using assms(1,2)
    by (auto simp: sendDirectEmailV2_def or_reply_def authorized_def authorizeEmailV2_def authorizeWithCredential_def
        misconfigured_reply_def unauthorized_reply_def getIdempotencyKey_def readJson_def valid_or_400_def Let_def
        split: sum.splits option.splits if_splits)
  obtain m where m: "by_key key t = Some m" "same_direct (direct_hash w True v) m" "replayResponse env m t = (Inr r, t)"
    using direct_intent_queued [OF run assms(2)] by blast
  have "authorized w' env request = Inr ()" using checks(1) assms(3) by (simp add: authorized_def)
  moreover have "direct_hash w' True v = direct_hash w True v" using assms(3) by (simp add: direct_hash_def)
  ultimately show ?thesis using checks(2-4) m
    by (simp add: sendDirectEmailV2_def or_reply_def direct_intent_def replay_direct_def recovered_def Let_def io_bind_def)
qed

theorem direct_email_is_idempotent_witness:
  "\<exists>r t. sendDirectEmailV2 keyed_env plain_world (sample_request direct_body) True sample_allowed = (Inr r, t)
    \<and> sendDirectEmailV2 keyed_env plain_world (sample_request direct_body) True t = (Inr r, t)"
proof -
  let ?run = "sendDirectEmailV2 keyed_env plain_world (sample_request direct_body) True sample_allowed"
  have "case fst ?run of Inl e \<Rightarrow> False | Inr r \<Rightarrow> rp_status r = 202" by code_simp
  then obtain r where r: "fst ?run = Inr r" "rp_status r = 202" by (auto elim!: case_sumE)
  have run: "?run = (Inr r, snd ?run)" using r(1) by (metis prod.collapse)
  from direct_email_is_idempotent [OF run r(2) refl] run show ?thesis by blast
qed

end
