(* ===== verification/Js_Date.thy ===== *)
theory Js_Date
  imports Http_Api Js_Number
begin

text \<open>
  \<open>new Date(text)\<close> of the language, as the cursors of the conversation lists use it: a text in the format of
  \<open>toISOString\<close> denotes the instant it was printed from, and every other text what the engine makes of
  it, which is an argument. The theory shows that the calendar arithmetic of \<open>toISOString\<close> loses nothing
  over the whole range of \<open>Date\<close>, 100 million days on both sides of 1970.
\<close>

section \<open>Days and instants\<close>

definition days_since_epoch :: "int \<Rightarrow> int \<Rightarrow> int \<Rightarrow> int" where
  "days_since_epoch y m d =
     (let z = (if m \<le> 2 then y - 1 else y); yoe = z mod 400; mp = (if m \<le> 2 then m + 9 else m - 3)
      in z div 400 * 146097 + (yoe * 365 + yoe div 4 - yoe div 100) + ((153 * mp + 2) div 5 + d - 1) - 719468)"

definition number_at :: "nat \<Rightarrow> nat \<Rightarrow> string \<Rightarrow> int" where
  "number_at i n s = int (digits_value 10 (take n (drop i s)))"

definition iso_time :: "string \<Rightarrow> instant" where
  \<comment> \<open>the instant a text would denote that has a number at each place of the format\<close>
  "iso_time s =
     (let k = (if js_head s = Some (CHR ''-'') \<or> js_head s = Some (CHR ''+'') then 7 else 4);
          year = (if js_head s = Some (CHR ''-'') then - number_at 1 6 s
                  else if js_head s = Some (CHR ''+'') then number_at 1 6 s else number_at 0 4 s)
      in days_since_epoch year (number_at (k + 1) 2 s) (number_at (k + 4) 2 s) * 86400000
         + number_at (k + 7) 2 s * 3600000 + number_at (k + 10) 2 s * 60000 + number_at (k + 13) 2 s * 1000
         + number_at (k + 16) 3 s)"

definition new_Date :: "(string \<Rightarrow> instant option) \<Rightarrow> string \<Rightarrow> instant option" where
  \<comment> \<open>\<open>new Date(s).getTime()\<close>: the format of \<open>toISOString\<close> is read as the standard says, every other text as
    the engine does\<close>
  "new_Date otherwise s = (if abs (iso_time s) \<le> 8640000000000000 \<and> toISOString (iso_time s) = s then Some (iso_time s) else otherwise s)"

section \<open>The calendar\<close>

lemma day_of_century:
  fixes e Q Y K c :: int
  assumes "0 \<le> e" "e < 36524" "0 \<le> c" "c \<le> 72"
    and "1460 * Q \<le> e + c" "e + c < 1460 * Q + 1460" and "365 * Y \<le> e - Q" "e - Q < 365 * Y + 365"
    and "4 * K \<le> Y" "Y < 4 * K + 4"
  shows "0 \<le> Y" "Y < 100" "0 \<le> e - (365 * Y + K)" "e - (365 * Y + K) \<le> 365"
proof -
  have Q: "0 \<le> Q" "Q \<le> 25" using assms by linarith+
  show "0 \<le> Y" using assms Q by linarith
  show "Y < 100" using assms Q by linarith
  have "K \<le> Q" using assms Q by linarith
  then show "0 \<le> e - (365 * Y + K)" using assms by linarith
  have "Q - 1 \<le> K" using assms Q by linarith
  then show "e - (365 * Y + K) \<le> 365" using assms by linarith
qed

lemma div_bounds:
  fixes k n :: int
  assumes "0 < k"
  shows "k * (n div k) \<le> n" "n < k * (n div k) + k"
  using assms pos_mod_bound [of k n] pos_mod_sign [of k n] mult_div_mod_eq [of k n] by linarith+

lemma year_of_era:
  fixes doe :: int
  assumes "0 \<le> doe" "doe < 146097"
  defines "yoe \<equiv> (doe - doe div 1460 + doe div 36524 - doe div 146096) div 365"
  shows "0 \<le> yoe \<and> yoe < 400 \<and> 0 \<le> doe - (365 * yoe + yoe div 4 - yoe div 100) \<and> doe - (365 * yoe + yoe div 4 - yoe div 100) \<le> 365"
proof (cases "doe = 146096")
  case True
  then show ?thesis by (simp add: yoe_def)
next
  case False
  define b where "b = doe div 36524"
  define e where "e = doe mod 36524"
  have doe: "doe = 36524 * b + e" by (simp add: b_def e_def)
  have e: "0 \<le> e" "e < 36524" by (simp_all add: e_def)
  have b: "0 \<le> b" "b \<le> 3" using assms(1,2) False doe e by linarith+
  define Q where "Q = (e + 24 * b) div 1460"
  define Y where "Y = (e - Q) div 365"
  have "doe = (e + 24 * b) + 25 * b * 1460" using doe by simp
  then have q: "doe div 1460 = Q + 25 * b" unfolding Q_def by (simp only: div_mult_self1)
  have last: "doe div 146096 = 0" using assms(1,2) False by (intro div_pos_pos_trivial) simp_all
  have "doe - doe div 1460 + doe div 36524 - doe div 146096 = (e - Q) + 100 * b * 365"
    unfolding q last b_def [symmetric] using doe by linarith
  then have y: "yoe = Y + 100 * b" unfolding yoe_def Y_def by (simp only: div_mult_self1)
  have Q: "1460 * Q \<le> e + 24 * b" "e + 24 * b < 1460 * Q + 1460" unfolding Q_def by (rule div_bounds; simp)+
  have Y: "365 * Y \<le> e - Q" "e - Q < 365 * Y + 365" unfolding Y_def by (rule div_bounds; simp)+
  have K: "4 * (Y div 4) \<le> Y" "Y < 4 * (Y div 4) + 4" by (rule div_bounds; simp)+
  note day = day_of_century [OF e _ _ Q Y K]
  have c: "0 \<le> 24 * b" "24 * b \<le> 72" using b by linarith+
  have "yoe div 4 = Y div 4 + 25 * b" unfolding y using div_mult_self1 [of 4 Y "25 * b"] by simp
  moreover have "yoe div 100 = b" using day(1,2) [OF c] unfolding y by simp
  ultimately show ?thesis using day [OF c] b doe y by linarith
qed

lemma civil_date_shape:
  assumes "civil_date days = (y, m, d)"
  shows "1 \<le> m" "m \<le> 12" "1 \<le> d" "d \<le> 31" "days_since_epoch y m d = days"
proof -
  define z where "z = days + 719468"
  define doe where "doe = z mod 146097"
  define yoe where "yoe = (doe - doe div 1460 + doe div 36524 - doe div 146096) div 365"
  define doy where "doy = doe - (365 * yoe + yoe div 4 - yoe div 100)"
  define mp where "mp = (5 * doy + 2) div 153"
  have doe: "0 \<le> doe" "doe < 146097" by (simp_all add: doe_def)
  have bounds: "0 \<le> yoe" "yoe < 400" "0 \<le> doy" "doy \<le> 365"
    using year_of_era [OF doe] unfolding doy_def yoe_def by blast+
  have mp: "153 * mp \<le> 5 * doy + 2" "5 * doy + 2 < 153 * mp + 153" unfolding mp_def by (rule div_bounds; simp)+
  have mp': "0 \<le> mp" "mp \<le> 11" using mp bounds by linarith+
  have m: "m = (if mp < 10 then mp + 3 else mp - 9)" and d: "d = doy - (153 * mp + 2) div 5 + 1"
    and y: "y = yoe + z div 146097 * 400 + (if m \<le> 2 then 1 else 0)"
    using assms unfolding civil_date_def Let_def z_def [symmetric] doe_def [symmetric] yoe_def [symmetric] doy_def [symmetric]
      mp_def [symmetric] by auto
  show "1 \<le> m" "m \<le> 12" using m mp' by auto
  have "5 * ((153 * mp + 2) div 5) \<le> 153 * mp + 2" "153 * mp + 2 < 5 * ((153 * mp + 2) div 5) + 5" by (rule div_bounds; simp)+
  then show "1 \<le> d" "d \<le> 31" using mp unfolding d by linarith+
  have year: "(if m \<le> 2 then y - 1 else y) = yoe + z div 146097 * 400" and month: "(if m \<le> 2 then m + 9 else m - 3) = mp"
    using y m mp' by auto
  have "(yoe + z div 146097 * 400) div 400 = z div 146097" "(yoe + z div 146097 * 400) mod 400 = yoe"
    using bounds by simp_all
  moreover have "z div 146097 * 146097 + doe = z" unfolding doe_def by simp
  ultimately show "days_since_epoch y m d = days"
    unfolding days_since_epoch_def Let_def year month d doy_def z_def by simp
qed

section \<open>Numbers in a text\<close>

lemma digits_value_append: "digits_value base (xs @ ys) = digits_value base xs * base ^ length ys + digits_value base ys"
proof -
  have "foldl (\<lambda>v c. v * base + digit_value c) v ds = v * base ^ length ds + foldl (\<lambda>v c. v * base + digit_value c) 0 ds" for v ds
  proof (induction ds rule: rev_induct)
    case (snoc d ds)
    show ?case unfolding foldl_append by (simp add: snoc distrib_right mult.assoc mult.commute [of base])
  qed simp
  then show ?thesis unfolding digits_value_def foldl_append by blast
qed

lemma digit_value_of: "k < 10 \<Longrightarrow> digit_value (char_of (48 + k)) = k"
  by (simp add: digit_value_def of_char_of)

lemma digits_value_digits: "digits_value 10 (digits n) = n"
proof (induction n rule: digits.induct)
  case (1 n)
  have single: "k < 10 \<Longrightarrow> digits_value 10 [char_of (48 + k)] = k" for k by (simp add: digits_value_def digit_value_of)
  show ?case
  proof (cases "n < 10")
    case True
    then show ?thesis using single by (simp add: digits.simps [of n])
  next
    case False
    have "digits_value 10 [char_of (48 + n mod 10)] = n mod 10" by (rule single) simp
    then show ?thesis using 1 False by (simp add: digits.simps [of n] digits_value_append)
  qed
qed

lemma length_digits: "n < 10 ^ Suc k \<Longrightarrow> length (digits n) \<le> Suc k"
proof (induction k arbitrary: n)
  case (Suc k)
  then show ?case by (cases "n < 10") (auto simp: digits.simps [of n] less_mult_imp_div_less)
qed (simp add: digits.simps)

lemma digits_all: "list_all is_digit (digits n)" "digits n \<noteq> []"
proof -
  have "is_digit (char_of (48 + k))" if "k < 10" for k :: nat
    using that by (simp add: is_digit_def char_le_of_char of_char_of)
  then show "list_all is_digit (digits n)"
  proof (induction n rule: digits.induct)
    case (1 n)
    then show ?case by (simp add: digits.simps [of n])
  qed
  show "digits n \<noteq> []" by (simp add: digits.simps [of n])
qed

lemma padded_number:
  assumes "0 \<le> i" "i < 10 ^ Suc k"
  shows "length (padded (Suc k) i) = Suc k" "digits_value 10 (padded (Suc k) i) = nat i"
proof -
  have "nat i < 10 ^ Suc k" using assms by (simp add: nat_less_iff)
  then have len: "length (digits (nat i)) \<le> Suc k" by (rule length_digits)
  then show "length (padded (Suc k) i) = Suc k" by (simp add: padded_def Let_def)
  have "digits_value 10 (replicate m (CHR ''0'')) = 0" for m
    by (induction m) (simp_all add: digits_value_def digit_value_def)
  then show "digits_value 10 (padded (Suc k) i) = nat i"
    by (simp add: padded_def Let_def digits_value_append digits_value_digits)
qed

section \<open>Every instant is read back\<close>

lemma padded_head:
  assumes "0 < n"
  shows "\<exists>c r. padded n i = c # r \<and> is_digit c"
proof -
  have "padded n i \<noteq> []" "list_all is_digit (padded n i)"
    using digits_all [of "nat i"] by (auto simp: padded_def Let_def list_all_iff is_digit_def char_le_of_char)
  then show ?thesis by (cases "padded n i") auto
qed

lemma civil_year:
  assumes "abs days \<le> 100000000" "civil_date days = (y, m, d)"
  shows "abs y < 1000000"
proof -
  note shape = civil_date_shape [OF assms(2)]
  define z where "z = (if m \<le> 2 then y - 1 else y)"
  define mp where "mp = (if m \<le> 2 then m + 9 else m - 3)"
  define w where "w = z mod 400 * 365 + z mod 400 div 4 - z mod 400 div 100 + ((153 * mp + 2) div 5 + d - 1)"
  have days: "days = z div 400 * 146097 + w - 719468"
    using shape(5) unfolding days_since_epoch_def Let_def z_def [symmetric] mp_def [symmetric] w_def by linarith
  have r: "0 \<le> z mod 400" "z mod 400 < 400" "z = z div 400 * 400 + z mod 400" by simp_all
  have "4 * (z mod 400 div 4) \<le> z mod 400" "z mod 400 < 4 * (z mod 400 div 4) + 4" by (rule div_bounds; simp)+
  moreover have "100 * (z mod 400 div 100) \<le> z mod 400" "z mod 400 < 100 * (z mod 400 div 100) + 100" by (rule div_bounds; simp)+
  moreover have "5 * ((153 * mp + 2) div 5) \<le> 153 * mp + 2" "153 * mp + 2 < 5 * ((153 * mp + 2) div 5) + 5" by (rule div_bounds; simp)+
  moreover have "0 \<le> mp" "mp \<le> 11" using shape(1,2) by (auto simp: mp_def)
  ultimately have "- 1000 \<le> w" "w \<le> 200000" using r(1,2) shape(3,4) unfolding w_def by linarith+
  then have "abs z < 900000" using r days assms(1) by linarith
  then show ?thesis unfolding z_def by (auto split: if_splits)
qed

lemma iso_time_at:
  assumes year: "length Y = k"
      "k = 4 \<and> y = int (digits_value 10 Y) \<and> (\<exists>c r. Y = c # r \<and> is_digit c)
       \<or> k = 7 \<and> (\<exists>r. Y = CHR ''-'' # r \<and> y = - int (digits_value 10 r) \<or> Y = CHR ''+'' # r \<and> y = int (digits_value 10 r))"
    and ranges: "0 \<le> mo" "mo < 100" "0 \<le> d" "d < 100" "0 \<le> h" "h < 100" "0 \<le> mi" "mi < 100" "0 \<le> s" "s < 100" "0 \<le> ms" "ms < 1000"
  shows "iso_time (Y @ ''-'' @ padded 2 mo @ ''-'' @ padded 2 d @ ''T'' @ padded 2 h @ '':'' @ padded 2 mi @ '':'' @ padded 2 s
      @ ''.'' @ padded 3 ms @ ''Z'')
    = days_since_epoch y mo d * 86400000 + h * 3600000 + mi * 60000 + s * 1000 + ms"
proof -
  let ?t = "Y @ ''-'' @ padded 2 mo @ ''-'' @ padded 2 d @ ''T'' @ padded 2 h @ '':'' @ padded 2 mi @ '':'' @ padded 2 s
      @ ''.'' @ padded 3 ms @ ''Z''"
  have two: "length (padded 2 i) = 2 \<and> digits_value 10 (padded 2 i) = nat i" if "0 \<le> i" "i < 100" for i
    using padded_number [of i 1] that by (simp add: numeral_2_eq_2)
  have three: "length (padded 3 i) = 3 \<and> digits_value 10 (padded 3 i) = nat i" if "0 \<le> i" "i < 1000" for i
    using padded_number [of i 2] that by (simp add: numeral_3_eq_3)
  note widths = two [OF ranges(1,2)] two [OF ranges(3,4)] two [OF ranges(5,6)] two [OF ranges(7,8)] two [OF ranges(9,10)] three [OF ranges(11,12)]
  from year(2) show ?thesis
  proof (elim disjE conjE exE)
    fix c r assume k: "k = 4" and y: "y = int (digits_value 10 Y)" and Y: "Y = c # r" and c: "is_digit c"
    then have head: "js_head ?t \<noteq> Some (CHR ''-'')" "js_head ?t \<noteq> Some (CHR ''+'')" by (auto simp: js_head_def is_digit_def char_le_of_char)
    have "iso_time x = days_since_epoch (number_at 0 4 x) (number_at 5 2 x) (number_at 8 2 x) * 86400000
        + number_at 11 2 x * 3600000 + number_at 14 2 x * 60000 + number_at 17 2 x * 1000 + number_at 20 3 x"
      if "js_head x \<noteq> Some (CHR ''-'')" "js_head x \<noteq> Some (CHR ''+'')" for x
      using that by (simp add: iso_time_def)
    from this [OF head] show ?thesis using year(1) widths ranges k y by (simp add: number_at_def)
  next
    fix r assume k: "k = 7" and Y: "Y = CHR ''-'' # r" and y: "y = - int (digits_value 10 r)"
    show ?thesis unfolding iso_time_def Let_def
      using year(1) widths ranges k y by (simp add: number_at_def Y js_head_def)
  next
    fix r assume k: "k = 7" and Y: "Y = CHR ''+'' # r" and y: "y = int (digits_value 10 r)"
    show ?thesis unfolding iso_time_def Let_def
      using year(1) widths ranges k y by (simp add: number_at_def Y js_head_def)
  qed
qed

lemma iso_time_toISOString:
  assumes "abs t \<le> 8640000000000000"
  shows "iso_time (toISOString t) = t"
proof -
  obtain y m d where civil: "civil_date (t div 86400000) = (y, m, d)" by (cases "civil_date (t div 86400000)") auto
  note shape = civil_date_shape [OF civil]
  define r where "r = t mod 86400000"
  have t: "t = t div 86400000 * 86400000 + r" and r: "0 \<le> r" "r < 86400000" unfolding r_def by simp_all
  have year: "abs y < 1000000" by (rule civil_year [OF _ civil]) (use assms t r in linarith)
  define Y where "Y = (if 0 \<le> y \<and> y \<le> 9999 then padded 4 y else (if y < 0 then ''-'' else ''+'') @ padded 6 (abs y))"
  have printed: "toISOString t = Y @ ''-'' @ padded 2 m @ ''-'' @ padded 2 d @ ''T'' @ padded 2 (r div 3600000) @ '':''
      @ padded 2 (r div 60000 mod 60) @ '':'' @ padded 2 (r div 1000 mod 60) @ ''.'' @ padded 3 (r mod 1000) @ ''Z''"
    unfolding toISOString_def Let_def civil Y_def r_def by simp
  have four: "length (padded 4 y) = 4 \<and> digits_value 10 (padded 4 y) = nat y" if "0 \<le> y" "y \<le> 9999"
    using padded_number [of y 3] that by (simp add: eval_nat_numeral)
  have six: "length (padded 6 (abs y)) = 6 \<and> digits_value 10 (padded 6 (abs y)) = nat (abs y)"
    using padded_number [of "abs y" 5] year by (simp add: eval_nat_numeral)
  have Y: "length Y = (if 0 \<le> y \<and> y \<le> 9999 then 4 else 7)" using four six by (auto simp: Y_def)
  have "iso_time (toISOString t) = days_since_epoch y m d * 86400000 + r div 3600000 * 3600000 + r div 60000 mod 60 * 60000
      + r div 1000 mod 60 * 1000 + r mod 1000"
    unfolding printed
  proof (rule iso_time_at [OF Y])
    show "(if 0 \<le> y \<and> y \<le> 9999 then 4 else 7) = (4::nat) \<and> y = int (digits_value 10 Y) \<and> (\<exists>c r. Y = c # r \<and> is_digit c)
       \<or> (if 0 \<le> y \<and> y \<le> 9999 then 4 else 7) = (7::nat) \<and> (\<exists>r. Y = CHR ''-'' # r \<and> y = - int (digits_value 10 r) \<or> Y = CHR ''+'' # r \<and> y = int (digits_value 10 r))"
      using four six padded_head [of 4 y] by (auto simp: Y_def)
    show "r div 3600000 < 100" using r by (simp add: div_less_iff_less_mult)
  qed (use shape r in \<open>simp_all add: pos_imp_zdiv_nonneg_iff order_less_trans [OF pos_mod_bound]\<close>)
  moreover have "r div 3600000 * 3600000 + r div 60000 mod 60 * 60000 + r div 1000 mod 60 * 1000 + r mod 1000 = r"
  proof -
    have "r div 60000 div 60 = r div 3600000" "r div 1000 div 60 = r div 60000" by (simp_all add: zdiv_zmult2_eq [symmetric])
    then show ?thesis
      using mult_div_mod_eq [of 1000 r] mult_div_mod_eq [of 60 "r div 1000"] mult_div_mod_eq [of 60 "r div 60000"] by linarith
  qed
  ultimately show ?thesis using shape(5) t by linarith
qed

lemma new_Date_toISOString: "abs t \<le> 8640000000000000 \<Longrightarrow> new_Date otherwise (toISOString t) = Some t"
  by (simp add: new_Date_def iso_time_toISOString)

end
