(* ===== verification/Js_Json.thy ===== *)
theory Js_Json
  imports Js_Date Send_Intents "HOL-Library.AList"
begin

text \<open>
  \<open>JSON.parse\<close> and the text codecs of \<open>Buffer\<close>, UTF-8 and base64url. \<open>JSON.parse\<close> is a lexer, a
  machine over the characters, and a parser, a machine over the tokens with the open arrays and objects as its stack;
  both recurse on their input. As everywhere a number is its exact value. The last sections show that what
  \<open>JSON.stringify\<close> prints is read back, so it prints different values differently.
\<close>

section \<open>UTF-8 and base64url\<close>

definition utf8_encode :: "string \<Rightarrow> string" where
  "utf8_encode s =
     concat (map (\<lambda>c. let n = of_char c :: nat in if n < 128 then [c] else [char_of (192 + n div 64), char_of (128 + n mod 64)]) s)"

fun utf8_decode :: "string \<Rightarrow> string option" where
  \<comment> \<open>\<open>None\<close> where the text has a code unit above 255, as the replacement of a malformed byte is\<close>
  "utf8_decode [] = Some []"
| "utf8_decode (c # cs) =
     (let n = of_char c :: nat
      in if n < 128 then map_option (Cons c) (utf8_decode cs)
         else case cs of
                [] \<Rightarrow> None
              | d # ds \<Rightarrow>
                  (let k = of_char d :: nat
                   in if (n = 194 \<or> n = 195) \<and> 128 \<le> k \<and> k < 192
                      then map_option (Cons (char_of ((n - 192) * 64 + (k - 128)))) (utf8_decode ds) else None))"

definition url_char :: "char \<Rightarrow> char" where
  "url_char c = (if c = CHR ''+'' then CHR ''-'' else if c = CHR ''/'' then CHR ''_'' else c)"

definition base64url_encode :: "string \<Rightarrow> string" where
  \<comment> \<open>\<open>Buffer.from(bytes).toString('base64url')\<close>\<close>
  "base64url_encode bytes = map url_char (filter (\<lambda>c. c \<noteq> CHR ''='') (base64 bytes))"

definition base64_value :: "char \<Rightarrow> nat option" where
  \<comment> \<open>both alphabets\<close>
  "base64_value c =
     (let n = of_char c :: nat
      in if 65 \<le> n \<and> n \<le> 90 then Some (n - 65) else if 97 \<le> n \<and> n \<le> 122 then Some (n - 71)
         else if 48 \<le> n \<and> n \<le> 57 then Some (n + 4) else if c = CHR ''+'' \<or> c = CHR ''-'' then Some 62
         else if c = CHR ''/'' \<or> c = CHR ''_'' then Some 63 else None)"

fun sextet_bytes :: "nat list \<Rightarrow> string" where
  "sextet_bytes (a # b # c # d # r) = char_of (a * 4 + b div 16) # char_of (b mod 16 * 16 + c div 4) # char_of (c mod 4 * 64 + d) # sextet_bytes r"
| "sextet_bytes [a, b, c] = [char_of (a * 4 + b div 16), char_of (b mod 16 * 16 + c div 4)]"
| "sextet_bytes [a, b] = [char_of (a * 4 + b div 16)]"
| "sextet_bytes _ = []"

definition base64url_decode :: "string \<Rightarrow> string" where
  \<comment> \<open>\<open>Buffer.from(s, 'base64url')\<close>: characters outside of the alphabets are passed over, padding ends the text\<close>
  "base64url_decode s = sextet_bytes (List.map_filter base64_value (takeWhile (\<lambda>c. c \<noteq> CHR ''='') s))"

lemma list_all_enumerate: "list_all P (List.enumerate 0 xs) \<Longrightarrow> n < length xs \<Longrightarrow> P (n, xs ! n)"
  using nth_mem [of n "List.enumerate 0 xs"] by (simp add: list_all_iff nth_enumerate_eq)

lemma base64_alphabet:
  "n < 64 \<Longrightarrow> base64_value (url_char (base64_char n)) = Some n \<and> base64_char n \<noteq> CHR ''='' \<and> url_char (base64_char n) \<noteq> CHR ''=''"
proof -
  let ?A = "''ABCDEFGHIJKLMNOPQRSTUVWXYZabcdefghijklmnopqrstuvwxyz0123456789+/''"
  assume n: "n < 64"
  have "list_all (\<lambda>(n, c). base64_value (url_char c) = Some n \<and> c \<noteq> CHR ''='' \<and> url_char c \<noteq> CHR ''='') (List.enumerate 0 ?A)"
    by (simp add: base64_value_def url_char_def)
  from list_all_enumerate [OF this, of n] n show ?thesis by (simp add: base64_char_def)
qed

lemma base64_char_mod: "base64_char (n mod 64) = base64_char n" by (simp add: base64_char_def)

lemma base64_digit [simp]:
  "base64_value (url_char (base64_char n)) = Some (n mod 64)" "base64_char n \<noteq> CHR ''=''" "url_char (base64_char n) \<noteq> CHR ''=''"
  using base64_alphabet [of "n mod 64"] by (simp_all add: base64_char_mod)

lemma base64url_sextets:
  "takeWhile (\<lambda>c. c \<noteq> CHR ''='') (base64url_encode bytes) = base64url_encode bytes"
  unfolding base64url_encode_def
  by (induction bytes rule: base64.induct) (simp_all add: Let_def)

lemma three_bytes_of_sextets:
  fixes n :: nat
  shows "n div 262144 mod 64 * 4 + n div 4096 mod 64 div 16 = n div 65536 mod 256"
    "n div 4096 mod 64 mod 16 * 16 + n div 64 mod 64 div 4 = n div 256 mod 256"
    "n div 64 mod 64 mod 4 * 64 + n mod 64 = n mod 256"
proof -
  have "m mod 64 div 16 = m div 16 mod 4" for m :: nat using mod_mult2_eq [of m 16 4] by simp
  moreover have "m mod 64 div 4 = m div 4 mod 16" for m :: nat using mod_mult2_eq [of m 4 16] by simp
  ultimately have parts: "m mod 64 div 16 = m div 16 mod 4" "m mod 64 div 4 = m div 4 mod 16" for m :: nat by simp_all
  show "n div 262144 mod 64 * 4 + n div 4096 mod 64 div 16 = n div 65536 mod 256"
    using mod_mult2_eq [of "n div 65536" 4 64] by (simp add: parts div_mult2_eq [symmetric])
  show "n div 4096 mod 64 mod 16 * 16 + n div 64 mod 64 div 4 = n div 256 mod 256"
    using mod_mult2_eq [of "n div 256" 16 16] by (simp add: parts div_mult2_eq [symmetric] mod_mod_cancel)
  show "n div 64 mod 64 mod 4 * 64 + n mod 64 = n mod 256"
    using mod_mult2_eq [of n 64 4] by (simp add: mod_mod_cancel)
qed

lemma three_bytes:
  fixes a b c :: nat
  assumes "b < 256" "c < 256"
  shows "(a * 65536 + b * 256 + c) div 65536 = a" "(a * 65536 + b * 256 + c) div 256 = a * 256 + b"
    "(a * 65536 + b * 256 + c) mod 256 = c"
proof -
  have "a * 65536 + b * 256 + c = b * 256 + c + 65536 * a" "b * 256 + c < 65536" using assms by simp_all
  then show "(a * 65536 + b * 256 + c) div 65536 = a" by (simp only: div_mult_self2; simp)
  have n: "a * 65536 + b * 256 + c = c + 256 * (a * 256 + b)" by simp
  show "(a * 65536 + b * 256 + c) div 256 = a * 256 + b" unfolding n using assms by (simp only: div_mult_self2; simp)
  show "(a * 65536 + b * 256 + c) mod 256 = c" unfolding n using assms by (simp only: mod_mult_self2; simp)
qed

lemma base64url_roundtrip: "base64url_decode (base64url_encode bytes) = bytes"
  unfolding base64url_decode_def base64url_sextets
proof (induction bytes rule: base64.induct)
  case (4 a b c cs)
  have of: "of_char a < (256 :: nat)" "of_char b < (256 :: nat)" "of_char c < (256 :: nat)" by simp_all
  have "char_of (of_char a * 65536 + of_char b * 256 + of_char c :: nat) = c"
    using three_bytes(3) [OF of(2,3), of "of_char a"] char_of_mod_256 by (metis char_of_char)
  then show ?case using 4 three_bytes(1,2) [OF of(2,3), of "of_char a"]
    by (simp add: base64url_encode_def Let_def three_bytes_of_sextets List.map_filter_simps)
next
  case (3 a b)
  have of: "of_char b < (256 :: nat)" "(0 :: nat) < 256" by simp_all
  show ?case using three_bytes [OF of, of "of_char a"] three_bytes_of_sextets [of "of_char a * 65536 + of_char b * 256"]
    by (simp add: base64url_encode_def Let_def List.map_filter_simps)
next
  case (2 a)
  have "16 * of_char a mod 64 = 16 * (of_char a mod 4 :: nat)" using mult_mod_right [of "16 :: nat" "of_char a" 4] by simp
  moreover have "of_char a div 4 < (64 :: nat)" using of_char_less_256 [of a] by (simp add: div_less_iff_less_mult)
  ultimately have "of_char a div 4 mod 64 * 4 + 16 * of_char a mod 64 div 16 = (of_char a :: nat)" by simp
  then have "char_of (of_char a div 4 mod 64 * 4 + 16 * of_char a mod 64 div 16 :: nat) = a" by (simp only: char_of_char)
  then show ?case
    by (simp add: base64url_encode_def Let_def List.map_filter_simps)
qed (simp add: base64url_encode_def List.map_filter_simps)

lemma utf8_ascii:
  assumes "list_all (\<lambda>c. (of_char c :: nat) < 128) s"
  shows "utf8_encode s = s" "utf8_decode s = Some s"
  using assms by (induction s) (simp_all add: utf8_encode_def)

section \<open>JSON.parse\<close>

datatype json_token = Punct_token char | Quoted_token string | Word_token string
  \<comment> \<open>\<open>Word_token\<close> is a literal or a number\<close>

datatype json_lexer = Lex_between | Lex_word string | Lex_string string | Lex_escape string | Lex_unicode string string

definition json_space :: "char \<Rightarrow> bool" where
  "json_space c \<longleftrightarrow> c \<in> {CHR 0x09, CHR 0x0A, CHR 0x0D, CHR 0x20}"

definition json_punct :: "char \<Rightarrow> bool" where
  "json_punct c \<longleftrightarrow> c \<in> set ''[]{},:''"

definition json_escapes :: "(char \<times> char) list" where
  "json_escapes =
     [(CHR 0x22, CHR 0x22), (CHR 0x5C, CHR 0x5C), (CHR ''/'', CHR ''/''), (CHR ''b'', CHR 0x08), (CHR ''f'', CHR 0x0C),
      (CHR ''n'', CHR 0x0A), (CHR ''r'', CHR 0x0D), (CHR ''t'', CHR 0x09)]"

fun json_lex :: "json_lexer \<Rightarrow> string \<Rightarrow> json_token list option" where
  \<comment> \<open>\<open>None\<close> as well for an escape above 255\<close>
  "json_lex Lex_between [] = Some []"
| "json_lex (Lex_word w) [] = Some [Word_token w]"
| "json_lex _ [] = None"
| "json_lex Lex_between (c # cs) =
     (if json_space c then json_lex Lex_between cs
      else if json_punct c then map_option (Cons (Punct_token c)) (json_lex Lex_between cs)
      else if c = CHR 0x22 then json_lex (Lex_string []) cs
      else json_lex (Lex_word [c]) cs)"
| "json_lex (Lex_word w) (c # cs) =
     (if json_space c then map_option (Cons (Word_token w)) (json_lex Lex_between cs)
      else if json_punct c then map_option (\<lambda>ts. Word_token w # Punct_token c # ts) (json_lex Lex_between cs)
      else if c = CHR 0x22 then map_option (Cons (Word_token w)) (json_lex (Lex_string []) cs)
      else json_lex (Lex_word (w @ [c])) cs)"
| "json_lex (Lex_string t) (c # cs) =
     (if c = CHR 0x22 then map_option (Cons (Quoted_token t)) (json_lex Lex_between cs)
      else if c = CHR 0x5C then json_lex (Lex_escape t) cs
      else if (of_char c :: nat) < 32 then None
      else json_lex (Lex_string (t @ [c])) cs)"
| "json_lex (Lex_escape t) (c # cs) =
     (if c = CHR ''u'' then json_lex (Lex_unicode t []) cs
      else case map_of json_escapes c of None \<Rightarrow> None | Some x \<Rightarrow> json_lex (Lex_string (t @ [x])) cs)"
| "json_lex (Lex_unicode t ds) (c # cs) =
     (if \<not> is_hex_digit c then None
      else if length ds < 3 then json_lex (Lex_unicode t (ds @ [c])) cs
      else if digits_value 16 (ds @ [c]) < 256 then json_lex (Lex_string (t @ [char_of (digits_value 16 (ds @ [c]))])) cs
      else None)"

definition json_number :: "string \<Rightarrow> json option" where
  "json_number w =
     (let negative = (js_head w = Some (CHR ''-'')); r = (if negative then tl w else w);
          whole = takeWhile is_digit r; s = dropWhile is_digit r; point = (js_head s = Some (CHR ''.''));
          frac = (if point then takeWhile is_digit (tl s) else []);
          e = (if point then dropWhile is_digit (tl s) else s)
      in if whole = [] \<or> 1 < length whole \<and> hd whole = CHR ''0'' \<or> point \<and> frac = [] then None
         else map_option (\<lambda>k. case scaled_integer (digits_value 10 (whole @ frac)) (k - int (length frac)) of
                Some i \<Rightarrow> JNumber (if negative then - i else i) | None \<Rightarrow> JFraction) (exponent_part e))"

definition json_word :: "string \<Rightarrow> json option" where
  "json_word w =
     (if w = ''null'' then Some JNull else if w = ''true'' then Some (JBool True)
      else if w = ''false'' then Some (JBool False) else json_number w)"

definition array_index :: "string \<Rightarrow> bool" where
  \<comment> \<open>the keys an object lists first, in their order as numbers\<close>
  "array_index k \<longleftrightarrow> k \<noteq> [] \<and> list_all is_digit k \<and> digits (digits_value 10 k) = k \<and> int (digits_value 10 k) < 4294967295"

definition json_object :: "(string \<times> json) list \<Rightarrow> json" where
  \<comment> \<open>a repeated name keeps the last value\<close>
  "json_object ms =
     (let kept = foldl (\<lambda>kept (k, v). AList.update k v kept) [] ms
      in JObject (sort_key (\<lambda>(k, v). digits_value 10 k) (filter (\<lambda>(k, v). array_index k) kept)
           @ filter (\<lambda>(k, v). \<not> array_index k) kept))"

datatype json_frame = Array_frame "json list" | Object_frame "(string \<times> json) list" string
  \<comment> \<open>the elements or the members before the value that is read, and its name\<close>

datatype json_phase = Read_value | Read_first | Read_first_name | Read_member "(string \<times> json) list" | Read_colon "(string \<times> json) list" string | Read_done json

definition begin_value :: "json_token \<Rightarrow> json_frame list \<Rightarrow> (json_phase \<times> json_frame list) option" where
  "begin_value t st =
     (case t of
        Quoted_token s \<Rightarrow> Some (Read_done (JString s), st)
      | Word_token w \<Rightarrow> map_option (\<lambda>v. (Read_done v, st)) (json_word w)
      | Punct_token c \<Rightarrow> if c = CHR ''['' then Some (Read_first, st) else if c = CHR ''{'' then Some (Read_first_name, st) else None)"

definition read_name :: "(string \<times> json) list \<Rightarrow> json_token \<Rightarrow> json_frame list \<Rightarrow> (json_phase \<times> json_frame list) option" where
  "read_name ms t st = (case t of Quoted_token k \<Rightarrow> Some (Read_colon ms k, st) | _ \<Rightarrow> None)"

fun json_step :: "json_token \<Rightarrow> json_phase \<Rightarrow> json_frame list \<Rightarrow> (json_phase \<times> json_frame list) option" where
  "json_step t Read_value st = begin_value t st"
| "json_step t Read_first st = (if t = Punct_token (CHR '']'') then Some (Read_done (JArray []), st) else begin_value t (Array_frame [] # st))"
| "json_step t Read_first_name st = (if t = Punct_token (CHR ''}'') then Some (Read_done (JObject []), st) else read_name [] t st)"
| "json_step t (Read_member ms) st = read_name ms t st"
| "json_step t (Read_colon ms k) st = (if t = Punct_token (CHR '':'') then Some (Read_value, Object_frame ms k # st) else None)"
| "json_step t (Read_done v) [] = None"
| "json_step t (Read_done v) (Array_frame vs # st) =
     (if t = Punct_token (CHR '','') then Some (Read_value, Array_frame (vs @ [v]) # st)
      else if t = Punct_token (CHR '']'') then Some (Read_done (JArray (vs @ [v])), st) else None)"
| "json_step t (Read_done v) (Object_frame ms k # st) =
     (if t = Punct_token (CHR '','') then Some (Read_member (ms @ [(k, v)]), st)
      else if t = Punct_token (CHR ''}'') then Some (Read_done (json_object (ms @ [(k, v)])), st) else None)"

fun json_run :: "json_token list \<Rightarrow> json_phase \<Rightarrow> json_frame list \<Rightarrow> json option" where
  "json_run [] p st = (case (p, st) of (Read_done v, []) \<Rightarrow> Some v | _ \<Rightarrow> None)"
| "json_run (t # ts) p st = (case json_step t p st of None \<Rightarrow> None | Some (p', st') \<Rightarrow> json_run ts p' st')"

definition JSON_parse :: "string \<Rightarrow> json option" where
  "JSON_parse s = Option.bind (json_lex Lex_between s) (\<lambda>ts. json_run ts Read_value [])"

lemma JSON_parse_samples:
  defines "quoted \<equiv> map (\<lambda>c. if c = CHR 0x60 then CHR 0x22 else if c = CHR 0x7E then CHR 0x5C else c)"
  shows "JSON_parse (quoted '' { `a` : [1, true,null ],`b`:{}, `a`:`x~n~u0041` } '')
     = Some (JObject [(''a'', JString [CHR ''x'', CHR 0x0A, CHR ''A'']), (''b'', JObject [])])"
    "JSON_parse ''[1.5,-2.50e1]'' = Some (JArray [JFraction, JNumber (-25)])"
    "JSON_parse (quoted ''{`2`:1,`b`:2,`1`:3}'') = Some (JObject [(''1'', JNumber 3), (''2'', JNumber 1), (''b'', JNumber 2)])"
    "JSON_parse ''[1,]'' = None" "JSON_parse ''01'' = None" "JSON_parse ''1 2'' = None" "JSON_parse [] = None" "JSON_parse ''-0'' = Some (JNumber 0)"
  unfolding quoted_def by code_simp+

section \<open>What is printed is read\<close>

definition word_char :: "char \<Rightarrow> bool" where
  "word_char c \<longleftrightarrow> \<not> json_space c \<and> \<not> json_punct c \<and> c \<noteq> CHR 0x22"

definition delimited :: "string \<Rightarrow> bool" where
  "delimited r \<longleftrightarrow> (case r of [] \<Rightarrow> True | c # _ \<Rightarrow> json_punct c)"

lemma punct_not_space [simp]: "json_punct c \<Longrightarrow> \<not> json_space c" "\<not> json_punct (CHR 0x22)" "\<not> json_space (CHR 0x22)"
  by (auto simp: json_punct_def json_space_def)

lemma delimited_simps [simp]: "delimited []" "delimited (c # r) = json_punct c"
  by (simp_all add: delimited_def)

lemma lex_in_word: "list_all word_char w \<Longrightarrow> json_lex (Lex_word p) (w @ r) = json_lex (Lex_word (p @ w)) r"
  by (induction w arbitrary: p) (simp_all add: word_char_def)

lemma lex_word_end: "delimited r \<Longrightarrow> json_lex (Lex_word w) r = map_option (Cons (Word_token w)) (json_lex Lex_between r)"
  by (cases r) (simp_all add: option.map_comp comp_def)

lemma lex_word:
  assumes "list_all word_char w" "w \<noteq> []" "delimited r"
  shows "json_lex Lex_between (w @ r) = map_option (Cons (Word_token w)) (json_lex Lex_between r)"
proof -
  obtain c cs where w: "w = c # cs" using assms(2) by (cases w) auto
  have "json_lex Lex_between (w @ r) = json_lex (Lex_word w) r"
    using assms(1) lex_in_word [of cs "[c]" r] by (simp add: w word_char_def)
  also have "\<dots> = map_option (Cons (Word_token w)) (json_lex Lex_between r)"
    using assms(3) by (rule lex_word_end)
  finally show ?thesis .
qed

lemma hex_lower_digit:
  assumes "n < 16"
  shows "is_hex_digit (hex_lower n)" "digit_value (hex_lower n) = n"
proof -
  have "list_all (\<lambda>(n, c). is_hex_digit c \<and> digit_value c = n) (List.enumerate 0 ''0123456789abcdef'')" by code_simp
  from list_all_enumerate [OF this, of n] assms show "is_hex_digit (hex_lower n)" "digit_value (hex_lower n) = n"
    by (simp_all add: hex_lower_def)
qed

lemma lex_control:
  assumes "n < 32"
  shows "json_lex (Lex_string t) (CHR 0x5C # CHR ''u'' # CHR ''0'' # CHR ''0'' # hex_lower (n div 16) # hex_lower n # r)
    = json_lex (Lex_string (t @ [char_of n])) r"
proof -
  have low: "hex_lower n = hex_lower (n mod 16)" by (simp add: hex_lower_def)
  have "is_hex_digit (hex_lower (n div 16))" "is_hex_digit (hex_lower (n mod 16))" using assms by (auto intro: hex_lower_digit(1))
  moreover have "is_hex_digit (CHR ''0'')" by code_simp
  moreover have "digits_value 16 [CHR ''0'', CHR ''0'', hex_lower (n div 16), hex_lower (n mod 16)] = n"
    using assms hex_lower_digit(2) [of "n div 16"] hex_lower_digit(2) [of "n mod 16"]
    by (simp add: digits_value_def digit_value_def [of "CHR ''0''"])
  ultimately show ?thesis using assms by (simp add: low)
qed

lemma lex_quoted_char: "json_lex (Lex_string t) (json_quoted c @ r) = json_lex (Lex_string (t @ [c])) r"
proof (cases "c \<in> {CHR 0x22, CHR 0x5C, CHR 0x08, CHR 0x09, CHR 0x0A, CHR 0x0C, CHR 0x0D}")
  case True
  then show ?thesis by (elim insertE emptyE) (simp_all add: json_quoted_def json_escapes_def)
next
  case False
  have "(of_char c :: nat) = of_char d \<Longrightarrow> c = d" for d by (rule of_char_eqI)
  from this [of "CHR 0x08"] this [of "CHR 0x09"] this [of "CHR 0x0A"] this [of "CHR 0x0C"] this [of "CHR 0x0D"]
  have n: "(of_char c :: nat) \<notin> {8, 9, 10, 12, 13}" using False by auto
  then have "json_quoted c = (if (of_char c :: nat) < 32 then [CHR 0x5C, CHR ''u'', CHR ''0'', CHR ''0'', hex_lower (of_char c div 16), hex_lower (of_char c)] else [c])"
    using False by (simp add: json_quoted_def Let_def)
  then show ?thesis using False lex_control [of "of_char c" t r] by simp
qed

lemma lex_quoted: "json_lex (Lex_string t) (concat (map json_quoted s) @ CHR 0x22 # r) = map_option (Cons (Quoted_token (t @ s))) (json_lex Lex_between r)"
  by (induction s arbitrary: t) (simp_all add: lex_quoted_char)

lemma lex_literal: "json_lex Lex_between (json_literal s @ r) = map_option (Cons (Quoted_token s)) (json_lex Lex_between r)"
  using lex_quoted [of "[]" s r] by (simp add: json_literal_def)

lemma lex_punct: "json_punct c \<Longrightarrow> json_lex Lex_between (c # r) = map_option (Cons (Punct_token c)) (json_lex Lex_between r)"
  by simp

fun token_join :: "json_token list list \<Rightarrow> json_token list" where
  "token_join [] = []"
| "token_join [t] = t"
| "token_join (t # u # ts) = t @ Punct_token (CHR '','') # token_join (u # ts)"

fun json_tokens :: "json \<Rightarrow> json_token list" where
  "json_tokens JNull = [Word_token ''null'']"
| "json_tokens (JBool b) = [Word_token (if b then ''true'' else ''false'')]"
| "json_tokens (JNumber i) = [Word_token (show_int i)]"
| "json_tokens JFraction = [Word_token ''0.5'']"
| "json_tokens (JString s) = [Quoted_token s]"
| "json_tokens (JArray vs) = Punct_token (CHR ''['') # token_join (map json_tokens vs) @ [Punct_token (CHR '']'')]"
| "json_tokens (JObject ms) =
     Punct_token (CHR ''{'') # token_join (map (\<lambda>(k, v). Quoted_token k # Punct_token (CHR '':'') # json_tokens v) ms) @ [Punct_token (CHR ''}'')]"

lemma puncts [simp]:
  "json_punct (CHR '','')" "json_punct (CHR '':'')" "json_punct (CHR ''['')" "json_punct (CHR '']'')" "json_punct (CHR ''{'')" "json_punct (CHR ''}'')"
  by (simp_all add: json_punct_def)

lemma lex_join:
  assumes "\<And>x r. x \<in> set xs \<Longrightarrow> delimited r \<Longrightarrow> json_lex Lex_between (f x @ r) = map_option ((@) (g x)) (json_lex Lex_between r)"
    and "delimited r"
  shows "json_lex Lex_between (js_join '','' (map f xs) @ r) = map_option ((@) (token_join (map g xs))) (json_lex Lex_between r)"
  using assms
proof (induction xs rule: induct_list012)
  case 1
  then show ?case by (simp add: option.map_ident)
next
  case (3 x y zs)
  have "json_lex Lex_between (js_join '','' (map f (y # zs)) @ r) = map_option ((@) (token_join (map g (y # zs)))) (json_lex Lex_between r)"
    using 3 by simp
  then show ?case using 3(3) [of x "CHR '','' # js_join '','' (map f (y # zs)) @ r"]
    by (simp add: option.map_comp comp_def)
qed simp

lemma show_int_word: "list_all word_char (show_int i)" "show_int i \<noteq> []"
proof -
  have "list_all word_char (digits n)" for n
    using digits_all(1) [of n] by (auto simp: list_all_iff word_char_def json_space_def json_punct_def is_digit_def char_le_of_char)
  then show "list_all word_char (show_int i)" by (simp add: show_int_def word_char_def json_space_def json_punct_def)
  show "show_int i \<noteq> []" by (simp add: show_int_def digits_all)
qed

lemma map_option_single: "map_option ((@) [t]) x = map_option (Cons t) x"
  by (cases x) simp_all

lemma lex_stringify: "delimited r \<Longrightarrow> json_lex Lex_between (JSON_stringify v @ r) = map_option ((@) (json_tokens v)) (json_lex Lex_between r)"
proof (induction v arbitrary: r rule: JSON_stringify.induct)
  case (6 vs)
  then have "json_lex Lex_between (js_join '','' (map JSON_stringify vs) @ CHR '']'' # r)
      = map_option ((@) (token_join (map json_tokens vs))) (json_lex Lex_between (CHR '']'' # r))"
    by (intro lex_join) simp_all
  then show ?case by (simp add: option.map_comp comp_def)
next
  case (7 ms)
  have "json_lex Lex_between ((case x of (k, v) \<Rightarrow> json_literal k @ '':'' @ JSON_stringify v) @ r')
      = map_option ((@) (case x of (k, v) \<Rightarrow> Quoted_token k # Punct_token (CHR '':'') # json_tokens v)) (json_lex Lex_between r')"
    if x: "x \<in> set ms" and r': "delimited r'" for x r'
  proof -
    obtain k v where kv: "x = (k, v)" by (cases x)
    have "json_lex Lex_between (JSON_stringify v @ r') = map_option ((@) (json_tokens v)) (json_lex Lex_between r')"
      using 7(1) [OF x kv [symmetric] r'] .
    then show ?thesis by (cases "json_lex Lex_between r'") (simp_all add: kv lex_literal)
  qed
  then have "json_lex Lex_between (js_join '','' (map (\<lambda>(k, v). json_literal k @ '':'' @ JSON_stringify v) ms) @ CHR ''}'' # r)
      = map_option ((@) (token_join (map (\<lambda>(k, v). Quoted_token k # Punct_token (CHR '':'') # json_tokens v) ms))) (json_lex Lex_between (CHR ''}'' # r))"
    by (intro lex_join) simp_all
  then show ?case by (simp add: option.map_comp comp_def)
qed (simp_all add: lex_word lex_word_end show_int_word lex_literal json_space_def json_punct_def map_option_single)

section \<open>The machine on printed values\<close>

fun plain_json :: "json \<Rightarrow> bool" where
  \<comment> \<open>what keeps its shape: numbers that are exact, names that are different and no array index\<close>
  "plain_json (JNumber i) \<longleftrightarrow> abs i \<le> 9007199254740992"
| "plain_json JFraction \<longleftrightarrow> False"
| "plain_json (JArray vs) \<longleftrightarrow> list_all plain_json vs"
| "plain_json (JObject ms) \<longleftrightarrow> distinct (map fst ms) \<and> list_all (\<lambda>(k, v). \<not> array_index k \<and> plain_json v) ms"
| "plain_json _ \<longleftrightarrow> True"

lemma digits_lead: "10 \<le> n \<Longrightarrow> hd (digits n) \<noteq> CHR ''0''"
proof (induction n rule: digits.induct)
  case (1 n)
  have lead: "hd (digits n) = hd (digits (n div 10))" using 1(2) by (simp add: digits.simps [of n] digits_all)
  show ?case
  proof (cases "10 \<le> n div 10")
    case True
    then show ?thesis using 1 lead by simp
  next
    case False
    then have "hd (digits n) = char_of (48 + n div 10)" using lead by (simp add: digits.simps [of "n div 10"])
    moreover have "(char_of (48 + n div 10) :: char) \<noteq> CHR ''0''"
    proof
      assume "(char_of (48 + n div 10) :: char) = CHR ''0''"
      then have "(of_char (char_of (48 + n div 10) :: char) :: nat) = 48" by simp
      then show False using False 1(2) by (simp add: of_char_of)
    qed
    ultimately show ?thesis by simp
  qed
qed

lemma json_number_show: "json_number (show_int i) = Some (JNumber i)"
proof -
  have whole: "takeWhile is_digit (digits n) = digits n" "dropWhile is_digit (digits n) = []" for n
    using digits_all(1) [of n] by (simp_all add: list_all_iff)
  have lead: "\<not> (1 < length (digits n) \<and> hd (digits n) = CHR ''0'')" for n
    using digits_lead [of n] by (cases "n < 10") (auto simp: digits.simps [of n])
  have plus: "js_head (digits n) \<noteq> Some (CHR ''-'')" for n
    using digits_all [of n] by (cases "digits n") (auto simp: is_digit_def char_le_of_char)
  have scaled: "scaled_integer n 0 = Some (int n)" for n by (simp add: scaled_integer_def)
  have no_exponent: "exponent_part [] = Some 0" by (simp add: exponent_part_def)
  show ?thesis
    using lead plus by (auto simp: json_number_def show_int_def Let_def whole digits_all digits_value_digits scaled no_exponent)
qed

lemma json_word_show: "json_word (show_int i) = Some (JNumber i)"
proof -
  have "show_int i \<noteq> w" if "w \<in> {''null'', ''true'', ''false''}" for w
  proof -
    have "list_all (\<lambda>c. is_digit c \<or> c = CHR ''-'') (show_int i)" using digits_all(1) by (auto simp: show_int_def list_all_iff)
    then show ?thesis using that by (auto simp: is_digit_def char_le_of_char)
  qed
  then show ?thesis by (simp add: json_word_def json_number_show)
qed

lemma json_words [simp]: "json_word ''null'' = Some JNull" "json_word ''true'' = Some (JBool True)" "json_word ''false'' = Some (JBool False)"
  by (simp_all add: json_word_def)

lemma json_object_plain: "plain_json (JObject ms) \<Longrightarrow> json_object ms = JObject ms"
proof -
  assume plain: "plain_json (JObject ms)"
  have "foldl (\<lambda>kept (k, v). AList.update k v kept) us ms = us @ ms" if "distinct (map fst (us @ ms))" for us
    using that
  proof (induction ms arbitrary: us)
    case (Cons m ms)
    obtain k v where m: "m = (k, v)" by (cases m)
    have "k \<notin> fst ` set us" using Cons(2) m by auto
    then have "AList.update k v us = us @ [(k, v)]" by (induction us) auto
    then show ?case using Cons m by simp
  qed simp
  then have "foldl (\<lambda>kept (k, v). AList.update k v kept) [] ms = ms" using plain by simp
  moreover have "filter (\<lambda>(k, v). array_index k) ms = []" "filter (\<lambda>(k, v). \<not> array_index k) ms = ms"
    using plain by (auto simp: list_all_iff filter_id_conv filter_empty_conv)
  ultimately show ?thesis by (simp add: json_object_def)
qed

lemma begin_first: "json_run (json_tokens v @ ts) Read_first st = json_run (json_tokens v @ ts) Read_value (Array_frame [] # st)"
  by (cases v) simp_all

definition json_runs :: "json \<Rightarrow> bool" where
  "json_runs v \<longleftrightarrow> (\<forall>ts st. json_run (json_tokens v @ ts) Read_value st = json_run ts (Read_done v) st)"

lemma json_runsD: "json_runs v \<Longrightarrow> json_run (json_tokens v @ ts) Read_value st = json_run ts (Read_done v) st"
  by (simp add: json_runs_def)

lemma run_elements:
  "list_all json_runs vs \<Longrightarrow> vs \<noteq> [] \<Longrightarrow>
    json_run (token_join (map json_tokens vs) @ Punct_token (CHR '']'') # ts) Read_value (Array_frame us # st) = json_run ts (Read_done (JArray (us @ vs))) st"
proof (induction vs arbitrary: us rule: induct_list012)
  case (3 v w vs)
  then have "json_run (token_join (map json_tokens (w # vs)) @ Punct_token (CHR '']'') # ts) Read_value (Array_frame (us @ [v]) # st)
    = json_run ts (Read_done (JArray ((us @ [v]) @ w # vs))) st" by simp
  then show ?case using 3(3) by (simp add: json_runsD)
qed (simp_all add: json_runsD)

abbreviation member_tokens :: "string \<times> json \<Rightarrow> json_token list" where
  "member_tokens \<equiv> \<lambda>(k, v). Quoted_token k # Punct_token (CHR '':'') # json_tokens v"

lemma run_members:
  "list_all (\<lambda>(k, v). json_runs v) ms \<Longrightarrow> ms \<noteq> [] \<Longrightarrow>
    json_run (token_join (map member_tokens ms) @ Punct_token (CHR ''}'') # ts) (Read_member us) st = json_run ts (Read_done (json_object (us @ ms))) st"
proof (induction ms arbitrary: us rule: induct_list012)
  case (2 m)
  then show ?case by (cases m) (simp add: read_name_def json_runsD)
next
  case (3 m n ms)
  obtain k v where m: "m = (k, v)" by (cases m)
  have "json_run (token_join (map member_tokens (n # ms)) @ Punct_token (CHR ''}'') # ts) (Read_member (us @ [m])) st
    = json_run ts (Read_done (json_object ((us @ [m]) @ n # ms))) st" using 3 by simp
  then show ?case using 3(3) by (simp add: m read_name_def json_runsD)
qed simp

lemma run_tokens: "plain_json v \<Longrightarrow> json_runs v"
proof (induction v rule: json_tokens.induct)
  case (6 vs)
  then have elements: "list_all json_runs vs" by (simp add: list_all_iff)
  show ?case unfolding json_runs_def
  proof (intro allI)
    fix ts st
    show "json_run (json_tokens (JArray vs) @ ts) Read_value st = json_run ts (Read_done (JArray vs)) st"
    proof (cases vs)
      case (Cons v vs')
      have "json_run (token_join (map json_tokens vs) @ Punct_token (CHR '']'') # ts) Read_first st
        = json_run (token_join (map json_tokens vs) @ Punct_token (CHR '']'') # ts) Read_value (Array_frame [] # st)"
        using begin_first [of v] unfolding Cons by (cases vs') simp_all
      then show ?thesis using run_elements [OF elements, of ts "[]" st] Cons by (simp add: begin_value_def)
    qed (simp add: begin_value_def)
  qed
next
  case (7 ms)
  then have members: "list_all (\<lambda>(k, v). json_runs v) ms" by (fastforce simp: list_all_iff)
  show ?case unfolding json_runs_def
  proof (intro allI)
    fix ts st
    show "json_run (json_tokens (JObject ms) @ ts) Read_value st = json_run ts (Read_done (JObject ms)) st"
    proof (cases ms)
      case (Cons m ms')
      have "json_run (token_join (map member_tokens ms) @ Punct_token (CHR ''}'') # ts) Read_first_name st
        = json_run (token_join (map member_tokens ms) @ Punct_token (CHR ''}'') # ts) (Read_member []) st"
        unfolding Cons by (cases m; cases ms') simp_all
      then show ?thesis using run_members [OF members, of ts "[]" st] Cons json_object_plain [OF 7(2)] by (simp add: begin_value_def)
    qed (simp add: begin_value_def)
  qed
qed (simp_all add: json_runs_def begin_value_def json_word_show)

lemma JSON_roundtrip: "plain_json v \<Longrightarrow> JSON_parse (JSON_stringify v) = Some v"
  using lex_stringify [of "[]" v] json_runsD [OF run_tokens, of v "[]" "[]"] by (simp add: JSON_parse_def)

end
