(* ===== verification/Conversation_Lists.thy ===== *)
theory Conversation_Lists
  imports Conversation_V2 Js_Json
begin

text \<open>
  The lists of \<open>src/routes/conversations/v2\<close>: the unassigned conversations and the summary, with the cursors a
  client passes from one page to the next. \<open>otherwise\<close> is what the date parser of the engine makes of a text
  that is not in the format of \<open>toISOString\<close>.
\<close>

section \<open>Cursors and lists\<close>

definition encode_cursor :: "instant \<Rightarrow> uuid \<Rightarrow> string" where
  \<comment> \<open>\<open>encodeConversationCursor\<close>, of the columns of a row\<close>
  "encode_cursor at i = base64url_encode (utf8_encode (JSON_stringify (JArray [JString (toISOString at), JString i])))"

definition decode_cursor :: "(string \<Rightarrow> instant option) \<Rightarrow> string \<Rightarrow> (instant \<times> uuid) option" where
  \<comment> \<open>\<open>decodeConversationCursor\<close>\<close>
  "decode_cursor otherwise v =
     (case Option.bind (utf8_decode (base64url_decode v)) JSON_parse of
        Some (JArray [JString at, JString i]) \<Rightarrow>
          if isUuid i then map_option (\<lambda>t. (t, i)) (new_Date otherwise at) else None
      | _ \<Rightarrow> None)"

definition cursor_param :: "(string \<Rightarrow> (instant \<times> uuid) option) \<Rightarrow> http_request \<Rightarrow> reply + (instant \<times> uuid) option" where
  \<comment> \<open>\<open>before\<close>, read by the decoder of the list, or the answer to a bad one\<close>
  "cursor_param decode request =
     (case keep_truthy (query_param request ''before'') of
        None \<Rightarrow> Inr None
      | Some v \<Rightarrow> (case decode v of
          None \<Rightarrow> Inl (error_reply 400 ''Invalid conversation cursor'') | Some b \<Rightarrow> Inr (Some b)))"

definition unassigned_before :: "(instant \<times> uuid) option \<Rightarrow> nat \<Rightarrow> store \<Rightarrow> conversation list" where
  \<comment> \<open>the \<open>findMany\<close>, newest first\<close>
  "unassigned_before before n s =
     take n (rev (sort_key (\<lambda>c. (cv_lastMessageAt c, cv_id c))
       (filter (\<lambda>c. cv_topicType c = None \<and> cv_externalTopicId c = None
          \<and> (case before of None \<Rightarrow> True
             | Some (at, i) \<Rightarrow> cv_lastMessageAt c < at \<or> cv_lastMessageAt c = at \<and> cv_id c < js_toLower i)) (conversations s))))"

definition page_json :: "bool \<Rightarrow> string option \<Rightarrow> json" where
  \<comment> \<open>\<open>final\<close> is the cursor of the last row\<close>
  "page_json hasMore final =
     JObject [(''hasMore'', JBool hasMore), (''before'', if hasMore then nullable final else JNull)]"

definition unassigned_json :: "conversation \<Rightarrow> json" where
  "unassigned_json c = JObject
     [(''id'', JString (cv_id c)), (''title'', JString (cv_title c)), (''participant'', participant_json c),
      (''lastMessageAt'', JString (toISOString (cv_lastMessageAt c)))]"

definition conversations_get :: "environment \<Rightarrow> (string \<Rightarrow> string) \<Rightarrow> (string \<Rightarrow> instant option) \<Rightarrow> http_request \<Rightarrow> store \<Rightarrow> reply" where
  \<comment> \<open>\<open>GET\<close> of \<open>conversations/v2/route.ts\<close>\<close>
  "conversations_get env sha256 otherwise request s =
     (case authorizeEmailV2 sha256 env request of
        Some answer \<Rightarrow> answer
      | None \<Rightarrow>
          if query_param request ''assignment'' \<noteq> Some ''unassigned''
          then error_reply 400 ''Only assignment=unassigned is supported''
          else case cursor_param (decode_cursor otherwise) request of
                 Inl answer \<Rightarrow> answer
               | Inr before \<Rightarrow>
                   (let limit = nat (getPageLimit request); found = unassigned_before before (limit + 1) s;
                        hasMore = limit < length found; page = take limit found
                    in json_reply 200 (JObject
                         [(''conversations'', JArray (map unassigned_json page)),
                          (''page'', page_json hasMore (map_option (\<lambda>c. encode_cursor (cv_lastMessageAt c) (cv_id c)) (js_at_last page)))])))"

section \<open>The summary\<close>

fun parse_states :: "string list \<Rightarrow> conversation_state list \<Rightarrow> conversation_state list option" where
  \<comment> \<open>the loop\<close>
  "parse_states [] parsed = Some parsed"
| "parse_states (v # vs) parsed =
     (case parseConversationState (Some (JString v)) of
        None \<Rightarrow> None
      | Some st \<Rightarrow> parse_states vs (if st \<in> set parsed then parsed else parsed @ [st]))"

definition parseStateFilter :: "string list \<Rightarrow> conversation_state list option" where
  "parseStateFilter texts =
     (let requested = concat (map (js_split (CHR '','')) texts)
      in if requested = [] then Some CONVERSATION_STATES else parse_states requested [])"

definition summary_after :: "conversation_state list \<Rightarrow> (instant \<times> uuid) option \<Rightarrow> nat \<Rightarrow> store \<Rightarrow> conversation list" where
  "summary_after selected before n s =
     take n (sort_key (\<lambda>c. (cv_stateChangedAt c, cv_id c))
       (filter (\<lambda>c. cv_state c \<in> set selected
          \<and> (case before of None \<Rightarrow> True
             | Some (at, i) \<Rightarrow> at < cv_stateChangedAt c \<or> cv_stateChangedAt c = at \<and> js_toLower i < cv_id c)) (conversations s)))"

definition state_count :: "conversation_state \<Rightarrow> store \<Rightarrow> nat" where
  "state_count st s = count_where (\<lambda>c. cv_state c = st) (conversations s)"

definition summary_json :: "conversation \<Rightarrow> json" where
  "summary_json c = JObject
     [(''id'', JString (cv_id c)), (''topic'', topic_json c), (''title'', JString (cv_title c)), (''subject'', JString (cv_subject c)),
      (''participant'', participant_json c), (''state'', JString (serializeConversationState (cv_state c))),
      (''stateChangedAt'', JString (toISOString (cv_stateChangedAt c))), (''awaitingReply'', JBool (cv_state c = AWAITING_US)),
      (''lastMessageAt'', JString (toISOString (cv_lastMessageAt c)))]"

definition encodeSummaryCursor :: "conversation \<Rightarrow> string" where
  "encodeSummaryCursor c =
     base64url_encode (utf8_encode (JSON_stringify (JArray [JString (toISOString (cv_stateChangedAt c)), JString (cv_id c)])))"

definition decodeSummaryCursor :: "(string \<Rightarrow> instant option) \<Rightarrow> string \<Rightarrow> (instant \<times> uuid) option" where
  "decodeSummaryCursor otherwise v =
     (case Option.bind (utf8_decode (base64url_decode v)) JSON_parse of
        Some (JArray [JString stateChangedAt, JString i]) \<Rightarrow>
          if isUuid i then map_option (\<lambda>t. (t, i)) (new_Date otherwise stateChangedAt) else None
      | _ \<Rightarrow> None)"

text \<open>The file repeats the cursors of the other list.\<close>

lemma summary_cursors_agree [simp]:
  "encodeSummaryCursor = (\<lambda>c. encode_cursor (cv_stateChangedAt c) (cv_id c))" "decodeSummaryCursor = decode_cursor"
  by (auto simp: encodeSummaryCursor_def encode_cursor_def decodeSummaryCursor_def [abs_def] decode_cursor_def [abs_def] fun_eq_iff)

definition query_all :: "http_request \<Rightarrow> string \<Rightarrow> string list" where
  \<comment> \<open>\<open>searchParams.getAll(name)\<close>\<close>
  "query_all request name = map snd (filter (\<lambda>(k, v). k = name) (rq_query request))"

definition summary_get :: "environment \<Rightarrow> (string \<Rightarrow> string) \<Rightarrow> (string \<Rightarrow> instant option) \<Rightarrow> http_request \<Rightarrow> store \<Rightarrow> reply" where
  "summary_get env sha256 otherwise request s =
     (case authorizeEmailV2 sha256 env request of
        Some answer \<Rightarrow> answer
      | None \<Rightarrow>
          (case parseStateFilter (query_all request ''state'') of
             None \<Rightarrow> error_reply 400 CONVERSATION_STATE_ERROR
           | Some selected \<Rightarrow>
               (case cursor_param (decodeSummaryCursor otherwise) request of
                  Inl answer \<Rightarrow> answer
                | Inr before \<Rightarrow>
                    (let limit = nat (getPageLimit request); found = summary_after selected before (limit + 1) s;
                         hasMore = limit < length found; page = take limit found;
                         total = sum_list (map (\<lambda>st. state_count st s) selected)
                     in json_reply 200 (JObject
                          [(''count'', JNumber (int total)),
                           (''counts'', JObject (map (\<lambda>st. (serializeConversationState st, JNumber (int (state_count st s)))) CONVERSATION_STATES)),
                           (''conversations'', JArray (map summary_json page)),
                           (''page'', page_json hasMore (map_option encodeSummaryCursor (js_at_last page)))])))))"

end
