(* ===== verification/Conversation_Routes.thy ===== *)
theory Conversation_Routes
  imports Conversation_Lists
begin

text \<open>
  The other routes of \<open>src/routes/conversations/v2\<close>: one conversation by id or topic, its assignment to a
  topic, its state and its deletion.
\<close>

section \<open>One conversation\<close>

definition answer_io :: "string + reply \<Rightarrow> reply io" where
  \<comment> \<open>an answer, or the error its serialization throws\<close>
  "answer_io r = (case r of Inl e \<Rightarrow> io_throw (JsError ''Error'' e) | Inr answer \<Rightarrow> io_return answer)"

definition conversation_response :: "environment \<Rightarrow> (conversation \<Rightarrow> instant) \<Rightarrow> http_request \<Rightarrow> uuid \<Rightarrow> reply io" where
  \<comment> \<open>\<open>getConversationResponse(request, { id })\<close>\<close>
  "conversation_response env updatedAt request i s =
     answer_io (getConversationResponse env updatedAt request (\<lambda>c. cv_id c = i) s) s"

definition conversation_get ::
  "environment \<Rightarrow> request_world \<Rightarrow> (conversation \<Rightarrow> instant) \<Rightarrow> http_request \<Rightarrow> string \<Rightarrow> reply io"
where
  "conversation_get env w updatedAt request raw =
     or_reply (authorized w env request) (\<lambda>_.
     or_reply (conversation_id_param raw) (conversation_response env updatedAt request))"

definition topic_get ::
  "environment \<Rightarrow> request_world \<Rightarrow> (conversation \<Rightarrow> instant) \<Rightarrow> http_request \<Rightarrow> string \<Rightarrow> string \<Rightarrow> reply io"
where
  \<comment> \<open>\<open>topics/[topicType]/[externalTopicId]/route.ts\<close>\<close>
  "topic_get env w updatedAt request topicType externalTopicId =
     or_reply (authorized w env request) (\<lambda>_ s.
       if \<not> topic_type_pattern topicType \<or> externalTopicId = [] then (Inr (error_reply 400 ''Invalid topic identity''), s)
       else answer_io (getConversationResponse env updatedAt request
         (\<lambda>c. cv_topicType c = Some topicType \<and> cv_externalTopicId c = Some externalTopicId) s) s)"

subsection \<open>Assignment to a topic\<close>

definition validateTopic :: "json option \<Rightarrow> string + topic_input" where
  "validateTopic v =
     (let topic = member_of v ''topic''
      in if \<not> isRecord v \<or> \<not> isRecord topic then Inl ''topic is required''
         else case valid_topic topic of
                None \<Rightarrow> Inl ''topic type, externalId, and title are invalid''
              | Some t \<Rightarrow> Inr t)"

definition assignable :: "conversation \<Rightarrow> bool" where
  "assignable c \<longleftrightarrow> cv_topicType c = None \<and> cv_externalTopicId c = None \<and> cv_apiVersion c \<noteq> Some V1"

definition assign_topic :: "topic_input \<Rightarrow> conversation \<Rightarrow> conversation" where
  "assign_topic t c = c\<lparr>cv_apiVersion := Some V2, cv_topicType := Some (tp_type t), cv_externalTopicId := Some (tp_externalId t),
     cv_title := tp_title t\<rparr>"

definition topic_taken :: "topic_input \<Rightarrow> uuid \<Rightarrow> store \<Rightarrow> bool" where
  \<comment> \<open>the unique key on the topic\<close>
  "topic_taken t i s \<longleftrightarrow> (\<exists>c \<in> set (conversations s). cv_id c \<noteq> i
     \<and> cv_topicType c = Some (tp_type t) \<and> cv_externalTopicId c = Some (tp_externalId t))"

definition assign_conversation :: "environment \<Rightarrow> instant \<Rightarrow> topic_input \<Rightarrow> uuid \<Rightarrow> nat io" where
  \<comment> \<open>the transaction\<close>
  "assign_conversation env now t i =
     transaction (\<lambda>s.
       case find_by cv_id i (conversations s) of
         None \<Rightarrow> (Inr 0, s)
       | Some current \<Rightarrow>
           if \<not> assignable current then (Inr 0, s)
           else if topic_taken t i s then (Inl (PrismaError ''P2002''), s)
           else
             (let P = (\<lambda>c. cv_id c = i \<and> assignable c); count = count_where P (conversations s)
              in io_bind (io_modify (\<lambda>s. s\<lparr>conversations := update_where P (assign_topic t) (conversations s)\<rparr>)) (\<lambda>_.
                 io_bind (io_when (count \<noteq> 0) (append_event env (plain_event i ASSIGNED now OperatorActor ''topic_assignment'')))
                   (\<lambda>_. io_return count)) s))"

definition conversation_patch ::
  "environment \<Rightarrow> request_world \<Rightarrow> (conversation \<Rightarrow> instant) \<Rightarrow> http_request \<Rightarrow> string \<Rightarrow> reply io"
where
  "conversation_patch env w updatedAt request raw =
     or_reply (authorized w env request) (\<lambda>_.
     or_reply (readJson request) (\<lambda>body.
     or_reply (valid_or_400 (validateTopic (Some body))) (\<lambda>t.
     or_reply (conversation_id_param raw) (\<lambda>i s.
       case assign_conversation env (sw_now (qw_send w)) t i s of
         (Inl e, s') \<Rightarrow>
           if e = PrismaError ''P2002'' then (Inr (error_reply 409 ''A conversation already exists for this topic''), s')
           else (Inl e, s')
       | (Inr n, s') \<Rightarrow>
           if n = 0 then
             (case find_by cv_id i (conversations s') of
                None \<Rightarrow> (Inr (error_reply 404 ''Conversation not found''), s')
              | Some _ \<Rightarrow> (Inr (error_reply 409 ''Conversation is already assigned to a topic''), s'))
           else conversation_response env updatedAt request i s'))))"

subsection \<open>Its state\<close>

definition validateState :: "json option \<Rightarrow> conversation_state option" where
  "validateState v = (if \<not> isRecord v then None else parseConversationState (member_of v ''state''))"

definition override_event :: "uuid \<Rightarrow> instant \<Rightarrow> conversation_state \<Rightarrow> conversation_state \<Rightarrow> event_input" where
  "override_event i now before st =
     (plain_event i STATE_CHANGED now OperatorActor ''manual_override'')
       \<lparr>ei_state := Some (Some (js_toLower (state_name before)), js_toLower (state_name st))\<rparr>"

definition override_state :: "environment \<Rightarrow> instant \<Rightarrow> conversation_state \<Rightarrow> uuid \<Rightarrow> conversation_state option io" where
  \<comment> \<open>the transaction: the state before, when there is such a conversation\<close>
  "override_state env now st i =
     transaction (\<lambda>s.
       case find_by cv_id i (conversations s) of
         None \<Rightarrow> (Inr None, s)
       | Some current \<Rightarrow>
           io_bind (update_conversation i (set_state st now)) (\<lambda>_.
           io_bind (io_when (cv_state current \<noteq> st) (append_event env (override_event i now (cv_state current) st)))
             (\<lambda>_. io_return (Some (cv_state current)))) s)"

definition state_post ::
  "environment \<Rightarrow> request_world \<Rightarrow> (conversation \<Rightarrow> instant) \<Rightarrow> http_request \<Rightarrow> string \<Rightarrow> reply io"
where
  "state_post env w updatedAt request raw =
     or_reply (authorized w env request) (\<lambda>_.
     or_reply (readJson request) (\<lambda>body.
     or_reply (case validateState (Some body) of None \<Rightarrow> Inl (error_reply 400 CONVERSATION_STATE_ERROR) | Some st \<Rightarrow> Inr st) (\<lambda>st.
     or_reply (conversation_id_param raw) (\<lambda>i.
       io_bind (override_state env (sw_now (qw_send w)) st i) (\<lambda>before.
         if before = None then io_return (error_reply 404 ''Conversation not found'')
         else conversation_response env updatedAt request i)))))"

subsection \<open>Its deletion\<close>

definition drop_events :: "uuid \<Rightarrow> uuid option \<Rightarrow> store \<Rightarrow> store" where
  \<comment> \<open>\<open>conversationEvent.deleteMany\<close> but for one event; deliveries go with their event\<close>
  "drop_events i kept s =
     (let P = (\<lambda>e. ev_conversationId e = i \<and> (case kept of None \<Rightarrow> True | Some k \<Rightarrow> ev_id e \<noteq> k));
          gone = ev_id ` set (filter P (events s))
      in s\<lparr>events := delete_where P (events s), deliveries := delete_where (\<lambda>d. dl_eventId d \<in> gone) (deliveries s)\<rparr>)"

definition delete_transaction :: "environment \<Rightarrow> instant \<Rightarrow> uuid \<Rightarrow> bool io" where
  "delete_transaction env now i =
     transaction (\<lambda>s.
       case find_by cv_id i (conversations s) of
         None \<Rightarrow> (Inr False, s)
       | Some current \<Rightarrow>
           io_bind (appendConversationEvent env (plain_event i DELETED now OperatorActor ''manual_delete'')) (\<lambda>event.
           io_bind (io_modify (drop_events i (map_option ep_id event))) (\<lambda>_.
           io_bind (io_modify (delete_conversations (\<lambda>c. cv_id c = i))) (\<lambda>_. io_return True))) s)"

definition no_content :: reply where
  "no_content = \<lparr>rp_status = 204, rp_headers = [], rp_body = None\<rparr>"

definition conversation_delete :: "environment \<Rightarrow> request_world \<Rightarrow> http_request \<Rightarrow> string \<Rightarrow> reply io" where
  "conversation_delete env w request raw =
     or_reply (authorized w env request) (\<lambda>_.
     or_reply (conversation_id_param raw) (\<lambda>i.
       io_bind (delete_transaction env (sw_now (qw_send w)) i) (\<lambda>deleted.
         io_return (if deleted then no_content else error_reply 404 ''Conversation not found''))))"

section \<open>One conversation per topic\<close>

definition topic_row :: "conversation \<Rightarrow> uuid \<times> string option \<times> string option" where
  "topic_row c = (cv_id c, cv_topicType c, cv_externalTopicId c)"

definition topic_view :: "store \<Rightarrow> (uuid \<times> string option \<times> string option) list" where
  "topic_view s = map topic_row (conversations s)"

definition same_topic :: "uuid \<times> string option \<times> string option \<Rightarrow> uuid \<times> string option \<times> string option \<Rightarrow> bool" where
  "same_topic x y \<longleftrightarrow> snd x = snd y \<and> fst (snd x) \<noteq> None \<and> snd (snd x) \<noteq> None"

definition topics_unique :: "store \<Rightarrow> bool" where
  "topics_unique s \<longleftrightarrow>
     list_all (\<lambda>x. list_all (\<lambda>y. same_topic x y \<longrightarrow> fst x = fst y) (topic_view s)) (topic_view s)"

lemma topics_unique_iff:
  "topics_unique s \<longleftrightarrow> (\<forall>x \<in> set (topic_view s). \<forall>y \<in> set (topic_view s). same_topic x y \<longrightarrow> fst x = fst y)"
  by (simp add: topics_unique_def list_all_iff)

lemma same_topic_sym: "same_topic x y \<Longrightarrow> same_topic y x"
  by (auto simp: same_topic_def)

lemma topics_unique_view: "topic_view t = topic_view s \<Longrightarrow> topics_unique t = topics_unique s"
  by (simp add: topics_unique_def)

lemma topics_unique_subset: "topics_unique s \<Longrightarrow> set (topic_view t) \<subseteq> set (topic_view s) \<Longrightarrow> topics_unique t"
  unfolding topics_unique_iff by (meson subsetD)

lemma view_keeps:
  assumes "\<And>s. topic_view (snd (m s)) = topic_view s"
  shows "io_keeps topics_unique m"
  using topics_unique_view [OF assms] by (simp add: io_keeps_def)

lemma stripped_view:
  assumes "map (\<lambda>c. c\<lparr>cv_eventSequence := 0\<rparr>) (conversations t) = map (\<lambda>c. c\<lparr>cv_eventSequence := 0\<rparr>) (conversations s)"
  shows "topic_view t = topic_view s"
  using arg_cong [OF assms, of "map topic_row"] by (simp add: topic_view_def topic_row_def [abs_def] comp_def)

named_theorems topic_intros \<open>steps that keep one conversation per topic\<close>

lemma append_topics [topic_intros]: "io_keeps topics_unique (append_event env input)"
proof (rule view_keeps)
  fix s
  have "kept_tables (snd (append_event env input s)) = kept_tables s"
    using append_event_tables [of "kept_tables s" env input] by (simp add: io_keeps_def)
  then show "topic_view (snd (append_event env input s)) = topic_view s"
    by (rule stripped_view [OF kept_tables_eqD(5)])
qed

lemma claim_topics [topic_intros]: "io_keeps topics_unique (claim_refs env i refs)"
proof (rule view_keeps)
  fix s
  have "kept_tables (snd (claim_refs env i refs s)) = kept_tables s"
    using claim_refs_tables [of "kept_tables s" env i refs] by (simp add: io_keeps_def)
  then show "topic_view (snd (claim_refs env i refs s)) = topic_view s"
    by (rule stripped_view [OF kept_tables_eqD(5)])
qed

lemma intent_topics [topic_intros]: "io_keeps topics_unique (create_intent lane row)"
  by (rule view_keeps)
    (auto simp: create_intent_def insert_message_def enqueue_def draw_id_def topic_view_def io_bind_def Let_def
      split: outbox_lane.split)

lemma update_where_view:
  assumes "\<And>c. topic_row (f c) = topic_row c"
  shows "topic_view (s\<lparr>conversations := update_where P f (conversations s)\<rparr>) = topic_view s"
  using assms by (simp add: topic_view_def map_update_where)

lemma update_topics:
  assumes "\<And>c. topic_row (f c) = topic_row c"
  shows "io_keeps topics_unique (update_conversation i f)"
  by (rule view_keeps) (simp add: update_conversation_def update_where_view [OF assms])

lemma plain_update_topics [topic_intros]:
  "io_keeps topics_unique (update_conversation i (reopened value subject now))"
  "io_keeps topics_unique (update_conversation i (use_base v))"
  "io_keeps topics_unique (update_conversation i (set_state st now))"
  by (intro update_topics; simp add: topic_row_def reopened_def use_base_def set_state_def)+

lemma touch_topics [topic_intros]: "io_keeps topics_unique (touch_last_message i now)"
  by (rule view_keeps) (simp add: touch_last_message_def update_where_view topic_row_def)

lemma mark_topics [topic_intros]: "io_keeps topics_unique (markConversationAwaitingParticipant i now)"
  by (rule view_keeps)
    (simp add: markConversationAwaitingParticipant_def applyAutomaticState_def Let_def update_where_view set_state_def topic_row_def)

lemma read_topics [topic_intros]:
  "io_keeps topics_unique (get_conversation i)" "io_keeps topics_unique (require_identities v)"
  "io_keeps topics_unique (reply_to_or_throw base token)"
  by (rule view_keeps, simp add: get_conversation_def require_identities_def reply_to_or_throw_def split: option.split sum.split)+

lemma insert_topics [topic_intros]: "io_keeps topics_unique (insert_conversation (opened_conversation value subject token now))"
  unfolding io_keeps_def
proof (intro allI impI)
  fix s assume s: "topics_unique s"
  obtain r t where run: "insert_conversation (opened_conversation value subject token now) s = (r, t)" by fastforce
  show "topics_unique (snd (insert_conversation (opened_conversation value subject token now) s))"
  proof (cases r)
    case (Inl e)
    then have "conversations t = conversations s"
      using run by (auto simp: insert_conversation_def draw_id_def Let_def split: if_splits)
    then have "topic_view t = topic_view s" by (simp add: topic_view_def)
    from topics_unique_view [OF this] s run show ?thesis by simp
  next
    case (Inr c)
    note new = insert_conversation_Inr [OF run [unfolded Inr]]
    have fresh: "\<not> same_topic (topic_row c) x" if "x \<in> set (topic_view s)" for x
    proof -
      from that obtain d where d: "d \<in> set (conversations s)" "x = topic_row d" by (auto simp: topic_view_def)
      then show ?thesis using new(6) [OF d(1)]
        by (auto simp: topic_row_def same_topic_def conversation_conflict_def same_key_def)
    qed
    have "set (topic_view t) = insert (topic_row c) (set (topic_view s))" by (simp add: topic_view_def new(1))
    moreover have "fst x = fst y" if xy: "same_topic x y" "x \<in> insert (topic_row c) (set (topic_view s))"
        "y \<in> insert (topic_row c) (set (topic_view s))" for x y
    proof (cases "x = topic_row c \<or> y = topic_row c")
      case True
      then show ?thesis using xy fresh [of x] fresh [of y] same_topic_sym [OF xy(1)] by auto
    next
      case False
      then show ?thesis using xy s by (simp add: topics_unique_iff)
    qed
    ultimately have "topics_unique t" unfolding topics_unique_iff by blast
    with run show ?thesis by simp
  qed
qed

lemma transaction_lambda_keeps: "(\<And>s. I s \<Longrightarrow> I (snd (m s))) \<Longrightarrow> io_keeps I (transaction m)"
  by (intro io_keeps_transaction) (simp add: io_keeps_def)

lemma open_topics [topic_intros]: "io_keeps topics_unique (open_conversation env w value subject key hash queued)"
  unfolding open_conversation_def Let_def by (intro keeps_intros topic_intros)

lemma reopen_message_topics: "io_keeps topics_unique (reopen_message env w value subject key hash queued found current)"
  unfolding reopen_message_def Let_def by (intro keeps_intros topic_intros)

lemma create_reply_topics [topic_intros]: "io_keeps topics_unique (create_reply env w v i parent pid key hash queued)"
proof -
  have "io_keeps topics_unique (if other_base current v then io_throw IdentityNotAllowedError else io_return ())" for current
    by (simp add: keeps_intros)
  then show ?thesis unfolding create_reply_def Let_def by (intro keeps_intros topic_intros)
qed

lemma reopen_topics [topic_intros]:
  assumes "topics_unique s" and "reopenFailedConversation env w value subject key hash queued s = (r, t)"
    and "qw_meanwhile w = (\<lambda>n s. s)"
  shows "topics_unique t"
proof (cases "find (\<lambda>c. cv_topicType c = Some (tp_type (cy_topic value))
    \<and> cv_externalTopicId c = Some (tp_externalId (cy_topic value))) (conversations s)")
  case None
  with assms show ?thesis by (simp add: reopenFailedConversation_def)
next
  case (Some found)
  have guard: "io_keeps topics_unique (\<lambda>s. if other_base current (cy_message value) then (Inl IdentityNotAllowedError, s)
      else if live_message (cv_id found) s then (Inr None, s)
      else reopen_message env w value subject key hash queued found current s)" for current
    using reopen_message_topics by (simp add: io_keeps_def)
  have "io_keeps topics_unique (transaction (io_bind (get_conversation (cv_id found)) (\<lambda>current.
      io_bind (require_identities (cy_message value)) (\<lambda>_ s.
        if other_base current (cy_message value) then (Inl IdentityNotAllowedError, s)
        else if live_message (cv_id found) s then (Inr None, s)
        else reopen_message env w value subject key hash queued found current s))))"
    by (intro keeps_intros topic_intros guard)
  from io_keepsD [OF this assms(1)] show ?thesis
    using assms(2,3) Some by (simp add: reopenFailedConversation_def meanwhile_def io_bind_Inr [OF io_eval(3)])
qed

lemma assign_topics: "io_keeps topics_unique (assign_conversation env now tp i)"
  unfolding assign_conversation_def
proof (rule transaction_lambda_keeps)
  fix s assume s: "topics_unique s"
  let ?P = "\<lambda>c. cv_id c = i \<and> assignable c"
  let ?s = "s\<lparr>conversations := update_where ?P (assign_topic tp) (conversations s)\<rparr>"
  have told: "io_keeps topics_unique (io_bind (io_when b (append_event env e)) (\<lambda>_. io_return n))" for b e and n :: nat
    by (intro keeps_intros topic_intros)
  have assigned: "topics_unique ?s" if free: "\<not> topic_taken tp i s"
  proof -
    have old: "fst x = fst y" if "same_topic x y" "x \<in> set (topic_view s)" "y \<in> set (topic_view s)" for x y
      using s that by (simp add: topics_unique_iff)
    have other: "fst x = i" if "x \<in> set (topic_view s)" "snd x = (Some (tp_type tp), Some (tp_externalId tp))" for x
      using that free by (auto simp: topic_taken_def topic_view_def topic_row_def)
    have cases: "x \<in> set (topic_view s) \<or> x = (i, Some (tp_type tp), Some (tp_externalId tp))" if "x \<in> set (topic_view ?s)" for x
      using that by (auto simp: topic_view_def topic_row_def assign_topic_def set_update_where split: if_splits)
    have "fst x = fst y" if xy: "same_topic x y" "x \<in> set (topic_view ?s)" "y \<in> set (topic_view ?s)" for x y
      using cases [OF xy(2)] cases [OF xy(3)]
    proof (elim disjE)
      have same: "snd x = snd y" using xy(1) by (simp add: same_topic_def)
      { assume "x \<in> set (topic_view s)" "y \<in> set (topic_view s)" then show ?thesis by (rule old [OF xy(1)])
      next
        assume "x \<in> set (topic_view s)" "y = (i, Some (tp_type tp), Some (tp_externalId tp))"
        then show ?thesis using other [of x] same by simp
      next
        assume "x = (i, Some (tp_type tp), Some (tp_externalId tp))" "y \<in> set (topic_view s)"
        then show ?thesis using other [of y] same by simp }
    qed simp
    then show ?thesis unfolding topics_unique_iff by blast
  qed
  show "topics_unique (snd (case find_by cv_id i (conversations s) of
      None \<Rightarrow> (Inr 0, s)
    | Some current \<Rightarrow>
        if \<not> assignable current then (Inr 0, s)
        else if topic_taken tp i s then (Inl (PrismaError ''P2002''), s)
        else
          (let P = (\<lambda>c. cv_id c = i \<and> assignable c); count = count_where P (conversations s)
           in io_bind (io_modify (\<lambda>s. s\<lparr>conversations := update_where P (assign_topic tp) (conversations s)\<rparr>)) (\<lambda>_.
              io_bind (io_when (count \<noteq> 0) (append_event env (plain_event i ASSIGNED now OperatorActor ''topic_assignment'')))
                (\<lambda>_. io_return count)) s)))"
    using s assigned told by (auto simp: Let_def io_bind_Inr [OF io_eval(3)] io_keeps_def split: option.split)
qed

lemma override_topics: "io_keeps topics_unique (override_state env now st i)"
  unfolding override_state_def
proof (rule transaction_lambda_keeps)
  fix s assume s: "topics_unique s"
  have "io_keeps topics_unique (io_bind (update_conversation i (set_state st now)) (\<lambda>_.
      io_bind (io_when b (append_event env e)) (\<lambda>_. io_return x)))" for b e and x :: "conversation_state option"
    by (intro keeps_intros topic_intros)
  with s show "topics_unique (snd (case find_by cv_id i (conversations s) of
      None \<Rightarrow> (Inr None, s)
    | Some current \<Rightarrow>
        io_bind (update_conversation i (set_state st now)) (\<lambda>_.
        io_bind (io_when (cv_state current \<noteq> st) (append_event env (override_event i now (cv_state current) st)))
          (\<lambda>_. io_return (Some (cv_state current)))) s))"
    by (auto simp: io_keeps_def split: option.split)
qed

lemma delete_messages_conversations [simp]: "conversations (delete_messages P s) = conversations s"
  by (simp add: delete_messages_def Let_def)

lemma delete_conversations_conversations [simp]: "conversations (delete_conversations P s) = delete_where P (conversations s)"
  by (simp add: delete_conversations_def Let_def)

lemma delete_topics: "io_keeps topics_unique (delete_transaction env now i)"
  unfolding delete_transaction_def
proof (rule transaction_lambda_keeps)
  fix s assume s: "topics_unique s"
  have append: "io_keeps topics_unique (appendConversationEvent env input)" for input
  proof (rule view_keeps)
    fix s
    obtain r t where run: "appendConversationEvent env input s = (r, t)" by fastforce
    then show "topic_view (snd (appendConversationEvent env input s)) = topic_view s"
      using stripped_view [OF append_conversations [OF run]] by simp
  qed
  have events: "io_keeps topics_unique (io_modify (drop_events i kept))" for kept
    by (rule view_keeps) (simp add: drop_events_def topic_view_def Let_def)
  have rows: "io_keeps topics_unique (io_modify (delete_conversations (\<lambda>c. cv_id c = i)))"
  proof (intro keeps_intros)
    fix s assume "topics_unique s"
    then show "topics_unique (delete_conversations (\<lambda>c. cv_id c = i) s)"
      by (rule topics_unique_subset) (auto simp: topic_view_def delete_where_def)
  qed
  have "io_keeps topics_unique (io_bind (appendConversationEvent env (plain_event i DELETED now OperatorActor ''manual_delete'')) (\<lambda>event.
      io_bind (io_modify (drop_events i (map_option ep_id event))) (\<lambda>_.
      io_bind (io_modify (delete_conversations (\<lambda>c. cv_id c = i))) (\<lambda>_. io_return True))))"
    by (intro keeps_intros append events rows)
  with s show "topics_unique (snd (case find_by cv_id i (conversations s) of
      None \<Rightarrow> (Inr False, s)
    | Some current \<Rightarrow>
        io_bind (appendConversationEvent env (plain_event i DELETED now OperatorActor ''manual_delete'')) (\<lambda>event.
        io_bind (io_modify (drop_events i (map_option ep_id event))) (\<lambda>_.
        io_bind (io_modify (delete_conversations (\<lambda>c. cv_id c = i))) (\<lambda>_. io_return True))) s))"
    by (auto simp: io_keeps_def split: option.split)
qed

text \<open>The transactions by which requests change conversations, in any order and any number.\<close>

inductive request_step :: "environment \<Rightarrow> store \<Rightarrow> store \<Rightarrow> bool" for env where
  opens: "open_conversation env w value subject key hash queued s = (r, t) \<Longrightarrow> request_step env s t"
| reopens: "reopenFailedConversation env w value subject key hash queued s = (r, t) \<Longrightarrow> qw_meanwhile w = (\<lambda>n s. s) \<Longrightarrow>
    request_step env s t"
| replies: "create_reply env w v i parent parentId key hash queued s = (r, t) \<Longrightarrow> request_step env s t"
| assigns: "assign_conversation env now tp i s = (r, t) \<Longrightarrow> request_step env s t"
| overrides: "override_state env now st i s = (r, t) \<Longrightarrow> request_step env s t"
| deletes: "delete_transaction env now i s = (r, t) \<Longrightarrow> request_step env s t"

lemma request_step_topics: "request_step env s t \<Longrightarrow> topics_unique s \<Longrightarrow> topics_unique t"
proof (induction rule: request_step.induct)
  case (reopens w input subject key hash queued s r t)
  show ?case by (rule reopen_topics [OF reopens(3,1,2)])
qed (rule io_keepsD [OF open_topics] io_keepsD [OF create_reply_topics] io_keepsD [OF assign_topics]
    io_keepsD [OF override_topics] io_keepsD [OF delete_topics]; assumption)+

section \<open>Deletion\<close>

lemma delete_messages_effect:
  "messages (delete_messages P s) = update_where (\<lambda>m. in_messages (filter P (messages s)) (ms_parentMessageId m))
     (\<lambda>m. m\<lparr>ms_parentMessageId := None\<rparr>) (delete_where P (messages s))"
  "tb_storageKey ` set (tombstones (delete_messages P s)) =
     tb_storageKey ` set (tombstones s) \<union> at_storageKey ` {a \<in> set (attachments s). in_messages (filter P (messages s)) (at_messageId a)}"
  "events (delete_messages P s) = events s" "aliases (delete_messages P s) = aliases s"
  by (simp_all add: delete_messages_def Let_def add_tombstones_keys)

lemma delete_conversations_effect:
  assumes "s' = delete_conversations (\<lambda>c. cv_id c = i) s" and "i \<in> cv_id ` set (conversations s)"
  shows "\<And>c. c \<in> set (conversations s') \<Longrightarrow> cv_id c \<noteq> i" "\<And>m. m \<in> set (messages s') \<Longrightarrow> ms_conversationId m \<noteq> Some i"
    "\<And>a m. a \<in> set (attachments s) \<Longrightarrow> m \<in> set (messages s) \<Longrightarrow> at_messageId a = Some (ms_id m) \<Longrightarrow>
      ms_conversationId m = Some i \<Longrightarrow> at_storageKey a \<in> tb_storageKey ` set (tombstones s')"
    "events s' = events s"
proof -
  define P :: "message \<Rightarrow> bool" where "P = (\<lambda>m. case ms_conversationId m of None \<Rightarrow> False | Some k \<Rightarrow> k \<in> cv_id ` set (filter (\<lambda>c. cv_id c = i) (conversations s)))"
  have P: "P m \<longleftrightarrow> ms_conversationId m = Some i" for m
    using assms(2) by (auto simp: P_def split: option.splits)
  have rows: "messages s' = messages (delete_messages P s)" "tombstones s' = tombstones (delete_messages P s)" "events s' = events s"
    unfolding assms(1) delete_conversations_def Let_def P_def [symmetric] by (simp_all add: delete_messages_effect(3))
  show "cv_id c \<noteq> i" if "c \<in> set (conversations s')" for c
    using that unfolding assms(1) delete_conversations_conversations by (simp add: delete_where_def)
  show "ms_conversationId m \<noteq> Some i" if "m \<in> set (messages s')" for m
  proof -
    from \<open>m \<in> set (messages s')\<close> obtain m0 where m0: "m0 \<in> set (delete_where P (messages s))"
      "m = (if in_messages (filter P (messages s)) (ms_parentMessageId m0) then m0\<lparr>ms_parentMessageId := None\<rparr> else m0)"
      unfolding rows(1) delete_messages_effect(1) set_update_where by blast
    then have "ms_conversationId m = ms_conversationId m0" by (simp split: if_splits)
    with m0(1) show ?thesis using P [of m0] by (simp add: delete_where_def)
  qed
  show "at_storageKey a \<in> tb_storageKey ` set (tombstones s')"
    if "a \<in> set (attachments s)" "m \<in> set (messages s)" "at_messageId a = Some (ms_id m)" "ms_conversationId m = Some i" for a m
    unfolding rows(2) delete_messages_effect(2) using that P by (auto simp: in_messages_def)
  show "events s' = events s" by (rule rows(3))
qed

text \<open>The event the deletion leaves: with a fresh id and of its kind.\<close>

lemma append_deleted:
  assumes "appendConversationEvent env input s = (Inr p, t)" and "ids_fresh s (ev_id ` set (events s))"
    and "e \<in> set (events t)" and "\<forall>q. p = Some q \<longrightarrow> ev_id e = ep_id q" and "p \<noteq> None"
  shows "ev_type e = ei_type input"
proof -
  let ?i = "id_source s (id_count s)"
  have fresh: "?i \<notin> ev_id ` set (events s)" using assms(2) by (simp add: ids_fresh_def)
  let ?s1 = "s\<lparr>conversations := update_where (\<lambda>c. cv_id c = ei_conversationId input) increment_sequence (conversations s)\<rparr>"
  let ?row = "\<lambda>c. \<lparr>ev_id = ?i, ev_conversationId = cv_id c, ev_sequence = cv_eventSequence c, ev_type = ei_type input,
      ev_occurredAt = ei_occurredAt input, ev_payload = None, ev_createdAt = db_now s\<rparr>"
  obtain sinks where sinks: "getEnabledConversationEventSinks env = Inr sinks" "sinks \<noteq> []"
    using assms(1,5) by (cases "getEnabledConversationEventSinks env") (auto simp: appendConversationEvent_def split: if_splits)
  obtain c where c: "find_by cv_id (ei_conversationId input) (conversations ?s1) = Some c"
    using assms(1) sinks by (cases "find_by cv_id (ei_conversationId input) (conversations ?s1)")
      (simp_all add: appendConversationEvent_def Let_def)
  let ?taken = "\<exists>e \<in> set (events s). ev_conversationId e = cv_id c \<and> ev_sequence e = cv_eventSequence c"
  let ?s2 = "?s1\<lparr>id_count := Suc (id_count s), events := events s @ [?row c]\<rparr>"
  have insert: "insert_event input c ?s1 = (if ?taken then (Inl (PrismaError ''P2002''), snd (draw_id ?s1)) else (Inr ?i, ?s2))"
    by (simp add: insert_event_def draw_id_def Let_def)
  have free: "\<not> ?taken"
    using assms(1) sinks c insert by (rule_tac notI) (simp add: appendConversationEvent_def Let_def)
  have stored: "insert_event input c ?s1 = (Inr ?i, ?s2)" using insert free by (simp only: if_False)
  have p: "p = Some (event_payload_of input c ?i)"
    and es: "events t = update_where (\<lambda>e. ev_id e = ?i) (\<lambda>e. e\<lparr>ev_payload := Some (event_payload_of input c ?i)\<rparr>) (events s @ [?row c])"
    using assms(1) sinks c stored by (auto simp: appendConversationEvent_def Let_def)
  have "ev_id e = ?i" using assms(4) p by (simp add: event_payload_of_def)
  moreover from assms(3) obtain x where x: "x \<in> set (events s @ [?row c])"
    "e = (if ev_id x = ?i then x\<lparr>ev_payload := Some (event_payload_of input c ?i)\<rparr> else x)"
    unfolding es set_update_where by blast
  ultimately have "ev_id x = ?i" by (simp split: if_splits)
  then have "x \<notin> set (events s)" using fresh by (metis imageI)
  then show ?thesis using x by (auto split: if_splits)
qed

lemma delete_transaction_effect:
  assumes run: "delete_transaction env now i s = (Inr True, t)" and fresh: "ids_fresh s (ev_id ` set (events s))"
  shows "\<And>c. c \<in> set (conversations t) \<Longrightarrow> cv_id c \<noteq> i" "\<And>m. m \<in> set (messages t) \<Longrightarrow> ms_conversationId m \<noteq> Some i"
    "\<And>a m. a \<in> set (attachments s) \<Longrightarrow> m \<in> set (messages s) \<Longrightarrow> at_messageId a = Some (ms_id m) \<Longrightarrow>
      ms_conversationId m = Some i \<Longrightarrow> at_storageKey a \<in> tb_storageKey ` set (tombstones t)"
    "\<And>e. e \<in> set (events t) \<Longrightarrow> ev_conversationId e = i \<Longrightarrow> ev_type e = DELETED"
proof -
  let ?input = "plain_event i DELETED now OperatorActor ''manual_delete''"
  obtain current where found: "find_by cv_id i (conversations s) = Some current"
    using transaction_InrD [OF run [unfolded delete_transaction_def]] by (auto split: option.splits)
  obtain p s1 where 1: "appendConversationEvent env ?input s = (Inr p, s1)"
    and t: "t = delete_conversations (\<lambda>c. cv_id c = i) (drop_events i (map_option ep_id p) s1)"
    using transaction_InrD [OF run [unfolded delete_transaction_def]] found by (auto elim!: io_bind_InrE)
  let ?s2 = "drop_events i (map_option ep_id p) s1"
  note frame = append_frame [OF 1]
  have s2: "messages ?s2 = messages s" "attachments ?s2 = attachments s" "conversations ?s2 = conversations s1"
    by (simp_all add: drop_events_def Let_def frame)
  have "map cv_id (map (\<lambda>c. c\<lparr>cv_eventSequence := 0\<rparr>) (conversations s1)) = map cv_id (map (\<lambda>c. c\<lparr>cv_eventSequence := 0\<rparr>) (conversations s))"
    using append_conversations [OF 1] by simp
  then have "map cv_id (conversations s1) = map cv_id (conversations s)" by (simp add: comp_def)
  then have "cv_id ` set (conversations ?s2) = cv_id ` set (conversations s)" unfolding s2(3) by (metis list.set_map)
  then have i: "i \<in> cv_id ` set (conversations ?s2)" using find_by_SomeD [OF found] by force
  note gone = delete_conversations_effect [OF t i]
  show "cv_id c \<noteq> i" if "c \<in> set (conversations t)" for c by (rule gone(1) [OF that])
  show "ms_conversationId m \<noteq> Some i" if "m \<in> set (messages t)" for m by (rule gone(2) [OF that])
  show "at_storageKey a \<in> tb_storageKey ` set (tombstones t)"
    if "a \<in> set (attachments s)" "m \<in> set (messages s)" "at_messageId a = Some (ms_id m)" "ms_conversationId m = Some i" for a m
    using gone(3) [of a m] that s2 by simp
  show "ev_type e = DELETED" if e: "e \<in> set (events t)" "ev_conversationId e = i" for e
  proof -
    have "e \<in> set (events s1)" "\<forall>q. p = Some q \<longrightarrow> ev_id e = ep_id q" "p \<noteq> None"
      using e unfolding gone(4) by (auto simp: drop_events_def Let_def delete_where_def split: option.splits)
    from append_deleted [OF 1 fresh this] show ?thesis by (simp add: plain_event_def)
  qed
qed

section \<open>Properties\<close>

definition sample_topic :: topic_input where
  "sample_topic = \<lparr>tp_type = ''order'', tp_externalId = ''8'', tp_title = ''T''\<rparr>"

definition sample_unassigned :: store where
  "sample_unassigned = empty_store\<lparr>conversations := [plain_conversation ''c1'' AWAITING_US,
     (plain_conversation ''c2'' AWAITING_US)\<lparr>cv_topicType := None, cv_externalTopicId := None\<rparr>],
     messages := [plain_message ''m1'' ACCEPTED],
     attachments := [(sample_upload ''a1'')\<lparr>at_messageId := Some ''m1''\<rparr>]\<rparr>"



text \<open>C21: deleting a conversation leaves nothing of it behind but the news. The conversation and its
  messages are gone, the object of every attachment of theirs is marked for removal from the store,
  and of its events only the deletion is left to be told.\<close>

theorem deletion_leaves_no_orphans:
  assumes "delete_transaction env now i s = (Inr True, t)" and "ids_fresh s (ev_id ` set (events s))"
  shows "(\<forall>c \<in> set (conversations t). cv_id c \<noteq> i) \<and> (\<forall>m \<in> set (messages t). ms_conversationId m \<noteq> Some i)
    \<and> (\<forall>a \<in> set (attachments s). \<forall>m \<in> set (messages s). at_messageId a = Some (ms_id m) \<and> ms_conversationId m = Some i
         \<longrightarrow> at_storageKey a \<in> tb_storageKey ` set (tombstones t))
    \<and> (\<forall>e \<in> set (events t). ev_conversationId e = i \<longrightarrow> ev_type e = DELETED)"
  using delete_transaction_effect [OF assms] by blast

theorem deletion_leaves_no_orphans_witness:
  "at_storageKey (sample_upload ''a1'') \<in> tb_storageKey ` set (tombstones (snd (delete_transaction nats_on 5 ''c1'' sample_unassigned)))"
proof -
  let ?run = "delete_transaction nats_on 5 ''c1'' sample_unassigned"
  have "case fst ?run of Inl e \<Rightarrow> False | Inr b \<Rightarrow> b" by code_simp
  then have run: "?run = (Inr True, snd ?run)" by (cases ?run) (auto elim!: case_sumE)
  have "events sample_unassigned = []" "id_source sample_unassigned = id_source empty_store"
    by (simp_all add: sample_unassigned_def empty_store_def)
  then have "ids_fresh sample_unassigned (ev_id ` set (events sample_unassigned))"
    using empty_store_ids by (simp add: ids_fresh_def)
  from deletion_leaves_no_orphans [OF run this]
  have "\<forall>a \<in> set (attachments sample_unassigned). \<forall>m \<in> set (messages sample_unassigned).
      at_messageId a = Some (ms_id m) \<and> ms_conversationId m = Some ''c1''
        \<longrightarrow> at_storageKey a \<in> tb_storageKey ` set (tombstones (snd ?run))" by blast
  then show ?thesis by (simp add: sample_unassigned_def plain_message_def)
qed

end
