(* ===== verification/Webhook.thy ===== *)
theory Webhook
  imports Conversation_Service Http_Api
begin

text \<open>
  The provider's webhooks: the shapes of \<open>src/lib/email/webhook.ts\<close>, \<open>src/lib/verify-webhook.ts\<close>,
  \<open>src/lib/webhook-handler.ts\<close> and the route \<open>src/routes/webhooks/resend/v1/route.ts\<close>. The check of
  the signature (the \<open>svix\<close> package) is a parameter: the constructor for a secret, which may throw,
  and then the check of a body, which gives the event. Rows of contacts and domains are only ever
  written, so they stand beside the store in an \<open>intake\<close>. Dates come parsed.
\<close>

section \<open>Events\<close>

record click_data =
  ck_ipAddress :: string
  ck_link :: string
  ck_timestamp :: instant
  ck_userAgent :: string

record email_event =
  ee_hook :: email_webhook_event \<comment> \<open>\<open>type\<close>, \<open>bounce\<close>, \<open>failed\<close>, \<open>suppressed\<close>\<close>
  ee_created_at :: instant
  ee_data :: email_event_data
  ee_subject :: string
  ee_broadcast_id :: "string option"
  ee_template_id :: "string option"
  ee_tags :: "tag_input list option"
  ee_bounceSubType :: "string option"
  ee_click :: "click_data option"

record contact_event =
  ct_type :: string
  ct_event_created_at :: instant
  ct_id :: string
  ct_audience_id :: "string option"
  ct_segment_ids :: "string list"
  ct_created_at :: instant
  ct_updated_at :: instant
  ct_email :: string
  ct_first_name :: "string option"
  ct_last_name :: "string option"
  ct_unsubscribed :: bool

record domain_record =
  dr_record :: string
  dr_name :: string
  dr_type :: string
  dr_value :: string
  dr_ttl :: string
  dr_status :: string
  dr_priority :: "int option"

record domain_event =
  dm_type :: string
  dm_event_created_at :: instant
  dm_id :: string
  dm_name :: string
  dm_status :: string
  dm_created_at :: instant
  dm_region :: string
  dm_records :: "domain_record list"

datatype resend_event =
    EmailEvent email_event
  | ContactEvent contact_event
  | DomainEvent domain_event
  | OtherEvent string

definition event_type :: "resend_event \<Rightarrow> string" where
  "event_type event =
     (case event of EmailEvent e \<Rightarrow> wh_type (ee_hook e) | ContactEvent c \<Rightarrow> ct_type c | DomainEvent d \<Rightarrow> dm_type d
      | OtherEvent t \<Rightarrow> t)"

definition isEmailEvent :: "resend_event \<Rightarrow> bool" where
  "isEmailEvent event \<longleftrightarrow> prefix ''email.'' (event_type event)"

definition isContactEvent :: "resend_event \<Rightarrow> bool" where
  "isContactEvent event \<longleftrightarrow> prefix ''contact.'' (event_type event)"

definition isDomainEvent :: "resend_event \<Rightarrow> bool" where
  "isDomainEvent event \<longleftrightarrow> prefix ''domain.'' (event_type event)"

section \<open>Preparing rows\<close>

record prepared_email =
  pe_event_type :: string
  pe_event_created_at :: instant
  pe_email_id :: string
  pe_from_address :: string
  pe_to_addresses :: "string list"
  pe_subject :: string
  pe_email_created_at :: instant
  pe_broadcast_id :: "string option"
  pe_template_id :: "string option"
  pe_tags :: "tag_input list option"
  pe_bounce_type :: "string option"
  pe_bounce_sub_type :: "string option"
  pe_bounce_message :: "string option"
  pe_bounce_diagnostic_code :: "string list option"
  pe_delivery_detail :: "string option"
  pe_click_ip_address :: "string option"
  pe_click_link :: "string option"
  pe_click_timestamp :: "instant option"
  pe_click_user_agent :: "string option"

definition prepareEmailEventData :: "email_event \<Rightarrow> prepared_email" where
  "prepareEmailEventData e =
     (let d = ee_data e; bounce = wh_bounce (ee_hook e)
      in \<lparr>pe_event_type = wh_type (ee_hook e), pe_event_created_at = ee_created_at e, pe_email_id = ed_email_id d,
          pe_from_address = ed_from d, pe_to_addresses = ed_to d, pe_subject = ee_subject e,
          pe_email_created_at = ed_created_at d, pe_broadcast_id = ee_broadcast_id e,
          pe_template_id = ee_template_id e, pe_tags = ee_tags e,
          pe_bounce_type = Option.bind bounce bd_type, pe_bounce_sub_type = ee_bounceSubType e,
          pe_bounce_message = Option.bind bounce bd_message,
          pe_bounce_diagnostic_code = Option.bind bounce bd_diagnosticCode,
          pe_delivery_detail = getDeliveryDetail (ee_hook e),
          pe_click_ip_address = map_option ck_ipAddress (ee_click e), pe_click_link = map_option ck_link (ee_click e),
          pe_click_timestamp = map_option ck_timestamp (ee_click e),
          pe_click_user_agent = map_option ck_userAgent (ee_click e)\<rparr>)"

record contact_row =
  cr_svixId :: string
  cr_eventType :: string
  cr_eventCreatedAt :: instant
  cr_contactId :: string
  cr_audienceId :: "string option"
  cr_segmentIds :: "string list"
  cr_email :: string
  cr_firstName :: "string option"
  cr_lastName :: "string option"
  cr_unsubscribed :: bool
  cr_contactCreatedAt :: instant
  cr_contactUpdatedAt :: instant

definition prepareContactEventData :: "string \<Rightarrow> contact_event \<Rightarrow> contact_row" where
  \<comment> \<open>with the svix id the caller adds\<close>
  "prepareContactEventData svixId e =
     \<lparr>cr_svixId = svixId, cr_eventType = ct_type e, cr_eventCreatedAt = ct_event_created_at e, cr_contactId = ct_id e,
      cr_audienceId = ct_audience_id e, cr_segmentIds = ct_segment_ids e, cr_email = ct_email e,
      cr_firstName = ct_first_name e, cr_lastName = ct_last_name e, cr_unsubscribed = ct_unsubscribed e,
      cr_contactCreatedAt = ct_created_at e, cr_contactUpdatedAt = ct_updated_at e\<rparr>"

record domain_row =
  dw_svixId :: string
  dw_eventType :: string
  dw_eventCreatedAt :: instant
  dw_domainId :: string
  dw_name :: string
  dw_status :: string
  dw_region :: string
  dw_domainCreatedAt :: instant
  dw_records :: json

definition domain_record_json :: "domain_record \<Rightarrow> json" where
  "domain_record_json r = JObject
     ([(''record'', JString (dr_record r)), (''name'', JString (dr_name r)), (''type'', JString (dr_type r)),
       (''value'', JString (dr_value r)), (''ttl'', JString (dr_ttl r)), (''status'', JString (dr_status r))]
      @ (case dr_priority r of None \<Rightarrow> [] | Some p \<Rightarrow> [(''priority'', JNumber p)]))"

definition prepareDomainEventData :: "string \<Rightarrow> domain_event \<Rightarrow> domain_row" where
  "prepareDomainEventData svixId e =
     \<lparr>dw_svixId = svixId, dw_eventType = dm_type e, dw_eventCreatedAt = dm_event_created_at e, dw_domainId = dm_id e,
      dw_name = dm_name e, dw_status = dm_status e, dw_region = dm_region e, dw_domainCreatedAt = dm_created_at e,
      dw_records = JArray (map domain_record_json (dm_records e))\<rparr>"

section \<open>Storing events\<close>

record intake =
  in_store :: store
  in_contacts :: "contact_row list"
  in_domains :: "domain_row list"

type_synonym 'a task = "intake \<Rightarrow> (js_error + 'a) \<times> intake"

definition on_store :: "'a io \<Rightarrow> 'a task" where
  "on_store m b = (case m (in_store b) of (r, s) \<Rightarrow> (r, b\<lparr>in_store := s\<rparr>))"

text \<open>What a webhook reads from outside: the provider and the clock, the projection's own world, the
  check of the signature, and what others commit while the provider is asked for the email.\<close>

type_synonym signature_check = "string \<Rightarrow> js_error + (string \<Rightarrow> string \<times> string \<times> string \<Rightarrow> js_error + resend_event)"

record hook_world =
  hw_send :: send_world
  hw_projection :: projection_world
  hw_webhook :: signature_check
  hw_meanwhile :: "store \<Rightarrow> store"

definition createEmailEvent :: "string \<Rightarrow> prepared_email \<Rightarrow> unit io" where
  \<comment> \<open>\<open>createMany\<close> with \<open>skipDuplicates\<close> on the unique svix id; of the row the columns that code reads\<close>
  "createEmailEvent svixId data s =
     (let (i, s1) = draw_id s
      in if \<exists>r \<in> set (webhook_rows s). we_svixId r = svixId then (Inr (), s1)
         else (Inr (), s1\<lparr>webhook_rows := webhook_rows s @
           [\<lparr>we_id = i, we_svixId = svixId, we_eventType = pe_event_type data, we_webhookReceivedAt = db_now s,
             we_eventCreatedAt = pe_event_created_at data, we_emailId = pe_email_id data,
             we_deliveryDetail = pe_delivery_detail data\<rparr>]\<rparr>))"

definition reply_to_missing :: js_error where
  "reply_to_missing = JsError ''Error'' ''Missing or invalid RESEND_REPLY_TO configuration''"

definition rehydrate :: "environment \<Rightarrow> hook_world \<Rightarrow> message \<Rightarrow> unit io" where
  \<comment> \<open>the email was filed before: look again for the Message-IDs of its ancestors\<close>
  "rehydrate env w m =
     hydrateReferencedOutboundMessages env (hw_send w) (ms_fromAddress m)
       (ms_referenceInternetMessageIds m
          @ (case keep_truthy (ms_inReplyToInternetMessageId m) of None \<Rightarrow> [] | Some i \<Rightarrow> [i]))
       (js_coalesce (ms_inReplyToInternetMessageId m) (js_at_last (ms_referenceInternetMessageIds m)))"

definition file_received :: "environment \<Rightarrow> hook_world \<Rightarrow> email_event_data \<Rightarrow> string \<Rightarrow> resend_email \<Rightarrow> unit io" where
  \<comment> \<open>from the retrieved email to its projection\<close>
  "file_received env w ed base re =
     (let inReplyTo = extractMessageIds (getHeader (re_headers re) ''in-reply-to'');
          references = extractMessageIds (getHeader (re_headers re) ''references'')
      in io_bind (hydrateReferencedOutboundMessages env (hw_send w)
           (pa_address (parseAddress (js_or (ed_from ed) (re_from re)))) (references @ inReplyTo)
           (js_coalesce (js_at_last inReplyTo) (js_at_last references))) (\<lambda>_.
         io_bind (projectInboundEmail env (hw_projection w) ed re base) (\<lambda>_. io_return ())))"

definition receive_email :: "environment \<Rightarrow> hook_world \<Rightarrow> email_event_data \<Rightarrow> unit io" where
  \<comment> \<open>the branch of \<open>email.received\<close> after its row is stored\<close>
  "receive_email env w ed s =
     (case keep_truthy (env ''RESEND_REPLY_TO'') of
        None \<Rightarrow> (Inl reply_to_missing, s)
      | Some base \<Rightarrow>
          if \<not> isValidReplyToBaseAddress base then (Inl reply_to_missing, s)
          else if \<not> truthy (env ''RESEND_API_KEY'') then (Inl missing_api_key, s)
          else
            (case find (\<lambda>m. ms_resendEmailId m = Some (ed_email_id ed)) (messages s) of
               Some m \<Rightarrow> rehydrate env w m s
             | None \<Rightarrow>
                 (case sw_getReceived (hw_send w) (ed_email_id ed) of
                    Inl e \<Rightarrow> (Inl e, hw_meanwhile w s)
                  | Inr re \<Rightarrow> file_received env w ed base re (hw_meanwhile w s))))"

definition insertEmailEvent :: "environment \<Rightarrow> hook_world \<Rightarrow> email_event \<Rightarrow> string \<Rightarrow> unit io" where
  "insertEmailEvent env w e svixId s =
     (let received = (wh_type (ee_hook e) = ''email.received''); data = prepareEmailEventData e
      in case (if received then None else find_by we_svixId svixId (webhook_rows s)) of
           Some existing \<Rightarrow>
             transaction (projectOutboundDeliveryStateForResendEmail env (we_emailId existing)) s
         | None \<Rightarrow>
             if \<not> received
             then transaction (io_bind (createEmailEvent svixId data)
                    (\<lambda>_. projectOutboundDeliveryStateForResendEmail env (pe_email_id data))) s
             else io_bind (createEmailEvent svixId data) (\<lambda>_. receive_email env w (ee_data e)) s)"

definition insertContactEvent :: "contact_event \<Rightarrow> string \<Rightarrow> unit task" where
  "insertContactEvent e svixId b =
     (Inr (), if \<exists>r \<in> set (in_contacts b). cr_svixId r = svixId then b
              else b\<lparr>in_contacts := in_contacts b @ [prepareContactEventData svixId e]\<rparr>)"

definition insertDomainEvent :: "domain_event \<Rightarrow> string \<Rightarrow> unit task" where
  "insertDomainEvent e svixId b =
     (Inr (), if \<exists>r \<in> set (in_domains b). dw_svixId r = svixId then b
              else b\<lparr>in_domains := in_domains b @ [prepareDomainEventData svixId e]\<rparr>)"

section \<open>The handler\<close>

definition verifyWebhook ::
  "signature_check \<Rightarrow> string \<Rightarrow> string \<times> string \<times> string \<Rightarrow> string \<Rightarrow> js_error + (string + resend_event)"
where
  \<comment> \<open>outside: the constructor throws; inside: the result, an error message or the event\<close>
  "verifyWebhook webhook rawBody headers secret =
     (case webhook secret of
        Inl e \<Rightarrow> Inl e
      | Inr verify \<Rightarrow>
          Inr (case verify rawBody headers of
                 Inl e \<Rightarrow> Inl (if e = NotAnError then ''Unknown verification error'' else error_message e)
               | Inr event \<Rightarrow> Inr event))"

definition shape_error :: js_error where
  \<comment> \<open>a payload that is not of the shape its type promises: a statement on it throws\<close>
  "shape_error = JsError ''TypeError'' ''Cannot read properties of undefined''"

definition received_reply :: reply where
  "received_reply = json_reply 200 (JObject [(''received'', JBool True)])"

definition dispatch_event :: "environment \<Rightarrow> hook_world \<Rightarrow> resend_event \<Rightarrow> string \<Rightarrow> reply task" where
  \<comment> \<open>the try block\<close>
  "dispatch_event env w event svixId b =
     (let (r, b') =
        (if isEmailEvent event
         then (case event of EmailEvent e \<Rightarrow> on_store (insertEmailEvent env w e svixId) b | _ \<Rightarrow> (Inl shape_error, b))
         else if isContactEvent event
         then (case event of ContactEvent c \<Rightarrow> insertContactEvent c svixId b | _ \<Rightarrow> (Inl shape_error, b))
         else if isDomainEvent event
         then (case event of DomainEvent d \<Rightarrow> insertDomainEvent d svixId b | _ \<Rightarrow> (Inl shape_error, b))
         else (Inr (), b))
      in case r of
           Inl e \<Rightarrow> (Inr (error_reply 500 ''Failed to process webhook''), b')
         | Inr _ \<Rightarrow>
             (Inr (if isEmailEvent event \<or> isContactEvent event \<or> isDomainEvent event then received_reply
                   else error_reply 400 ''Unknown event type''), b'))"

definition svix_headers :: "http_request \<Rightarrow> (string \<times> string \<times> string) option" where
  \<comment> \<open>\<open>None\<close> when one is missing or empty\<close>
  "svix_headers request =
     (case (keep_truthy (rq_header request ''svix-id''), keep_truthy (rq_header request ''svix-timestamp''),
            keep_truthy (rq_header request ''svix-signature'')) of
        (Some i, Some t, Some g) \<Rightarrow> Some (i, t, g)
      | _ \<Rightarrow> None)"

definition webhook_post :: "environment \<Rightarrow> hook_world \<Rightarrow> http_request \<Rightarrow> string \<Rightarrow> reply task" where
  \<comment> \<open>\<open>createWebhookHandler\<close> with the handlers of the route\<close>
  "webhook_post env w request rawBody b =
     (case keep_truthy (env ''RESEND_WEBHOOK_SECRET'') of
        None \<Rightarrow> (Inr misconfigured_reply, b)
      | Some secret \<Rightarrow>
          (case svix_headers request of
             None \<Rightarrow> (Inr (error_reply 400 ''Missing required Svix headers''), b)
           | Some headers \<Rightarrow>
               (case verifyWebhook (hw_webhook w) rawBody headers secret of
                  Inl e \<Rightarrow> (Inl e, b)
                | Inr (Inl _) \<Rightarrow> (Inr (error_reply 401 ''Invalid webhook signature''), b)
                | Inr (Inr event) \<Rightarrow> dispatch_event env w event (fst headers) b)))"

section \<open>Lemmas\<close>

lemma find_append_none: "\<not> (\<exists>x \<in> set xs. P x) \<Longrightarrow> find P (xs @ ys) = find P ys"
  by (induction xs) auto

lemma createEmailEvent_rows:
  assumes "createEmailEvent i data s = (r, t)" and "find_by we_svixId i (webhook_rows s) = None"
  shows "\<exists>row. find_by we_svixId i (webhook_rows t) = Some row \<and> we_emailId row = pe_email_id data"
proof -
  have none: "\<not> (\<exists>r \<in> set (webhook_rows s). we_svixId r = i)"
    using assms(2) by (auto simp: find_by_def find_None_iff)
  then show ?thesis
    using assms(1) find_append_none [OF none] by (auto simp: createEmailEvent_def draw_id_def find_by_def Let_def)
qed

lemma createEmailEvent_Inr: "fst (createEmailEvent i data s) = Inr ()"
  by (simp add: createEmailEvent_def Let_def split: prod.split)

lemma transaction_Inr: "m s = (Inr a, t) \<Longrightarrow> transaction m s = (Inr a, t)"
  by (simp add: transaction_def)

text \<open>A second delivery of a delivery webhook finds its row and projects again, which is idle.\<close>

lemma insertEmailEvent_again:
  assumes run: "insertEmailEvent env w e i s = (Inr (), t)" and type: "wh_type (ee_hook e) \<noteq> ''email.received''"
  shows "insertEmailEvent env w e i t = (Inr (), t)"
proof -
  have "\<exists>row. find_by we_svixId i (webhook_rows t) = Some row
      \<and> projectOutboundDeliveryStateForResendEmail env (we_emailId row) t = (Inr (), t)"
  proof (cases "find_by we_svixId i (webhook_rows s)")
    case (Some row)
    with run type have p: "projectOutboundDeliveryStateForResendEmail env (we_emailId row) s = (Inr (), t)"
      by (simp add: insertEmailEvent_def Let_def) (rule transaction_InrD)
    with Some show ?thesis using project_webhook_rows [OF p] project_replay [OF p] by simp
  next
    case None
    let ?data = "prepareEmailEventData e"
    from None run type have "transaction (io_bind (createEmailEvent i ?data)
        (\<lambda>_. projectOutboundDeliveryStateForResendEmail env (pe_email_id ?data))) s = (Inr (), t)"
      by (simp add: insertEmailEvent_def Let_def)
    from transaction_InrD [OF this] obtain s1 where row: "createEmailEvent i ?data s = (Inr (), s1)"
      and p: "projectOutboundDeliveryStateForResendEmail env (pe_email_id ?data) s1 = (Inr (), t)"
      by (auto elim!: io_bind_InrE)
    show ?thesis
      using createEmailEvent_rows [OF row None] project_webhook_rows [OF p] project_replay [OF p] by auto
  qed
  then show ?thesis
    using type by (auto simp: insertEmailEvent_def Let_def transaction_Inr)
qed

lemma projected_email_there:
  assumes "projectInboundEmail env w ed re base s = (Inr m, t)"
  shows "\<exists>m \<in> set (messages t). known_email ed (inbound_mail_of ed re) m"
proof -
  have "project_attempts env w ed re base a left s = (Inr m, t) \<Longrightarrow>
      \<exists>m \<in> set (messages t). known_email ed (inbound_mail_of ed re) m" for a left s
  proof (induction left arbitrary: a s)
    case (Suc left)
    obtain r s' where run: "attempt_projection env w ed re base a (pw_meanwhile w a s) = (r, s')" by fastforce
    show ?case
    proof (cases r)
      case (Inr m')
      with Suc.prems run have "attempt_projection env w ed re base a (pw_meanwhile w a s) = (Inr m, t)" by simp
      from attempt_has_email [OF this] show ?thesis by (auto simp: has_email_def)
    next
      case (Inl e)
      with Suc run show ?thesis by (auto simp: find_Some_iff split: if_splits option.splits)
    qed
  qed simp
  from this [OF assms [unfolded projectInboundEmail_def]] show ?thesis .
qed

lemma receive_email_filed:
  assumes "receive_email env w ed s = (Inr (), t)"
    and "\<not> (\<exists>m \<in> set (messages s). ms_resendEmailId m = Some (ed_email_id ed))"
  shows "\<exists>re. sw_getReceived (hw_send w) (ed_email_id ed) = Inr re
    \<and> (\<exists>m \<in> set (messages t). known_email ed (inbound_mail_of ed re) m)"
proof -
  have none: "find (\<lambda>m. ms_resendEmailId m = Some (ed_email_id ed)) (messages s) = None"
    using assms(2) by (auto simp: find_None_iff)
  obtain base re where re: "sw_getReceived (hw_send w) (ed_email_id ed) = Inr re"
    "file_received env w ed base re (hw_meanwhile w s) = (Inr (), t)"
    using assms(1) none by (auto simp: receive_email_def split: option.splits if_splits sum.splits)
  then obtain m s1 where "projectInboundEmail env (hw_projection w) ed re base s1 = (Inr m, t)"
    unfolding file_received_def Let_def by (auto elim!: io_bind_InrE)
  with re(1) projected_email_there show ?thesis by blast
qed

text \<open>The event a request carries, when its signature is that of the provider.\<close>

definition signed_event :: "environment \<Rightarrow> hook_world \<Rightarrow> http_request \<Rightarrow> string \<Rightarrow> (string \<times> resend_event) option" where
  "signed_event env w request rawBody =
     (case (keep_truthy (env ''RESEND_WEBHOOK_SECRET''), svix_headers request) of
        (Some secret, Some headers) \<Rightarrow>
          (case hw_webhook w secret of
             Inl _ \<Rightarrow> None
           | Inr verify \<Rightarrow> (case verify rawBody headers of Inl _ \<Rightarrow> None | Inr event \<Rightarrow> Some (fst headers, event)))
      | _ \<Rightarrow> None)"

lemma webhook_signed:
  "signed_event env w request raw = Some (i, event) \<Longrightarrow> webhook_post env w request raw b = dispatch_event env w event i b"
  by (auto simp: signed_event_def webhook_post_def verifyWebhook_def split: option.splits sum.splits prod.splits)

lemma webhook_unsigned:
  "signed_event env w request raw = None \<Longrightarrow> webhook_post env w request raw b = (r, b') \<Longrightarrow> b' = b \<and> r \<noteq> Inr received_reply"
  by (auto simp: signed_event_def webhook_post_def verifyWebhook_def received_reply_def error_reply_def misconfigured_reply_def
      json_reply_def split: option.splits sum.splits prod.splits)

lemma dispatch_email:
  assumes "wh_type (ee_hook e) = type" and "prefix ''email.'' type"
  shows "dispatch_event env w (EmailEvent e) i b = (Inr received_reply, b') \<longleftrightarrow>
    (\<exists>t. insertEmailEvent env w e i (in_store b) = (Inr (), t) \<and> b' = b\<lparr>in_store := t\<rparr>)"
  using assms
  by (cases "insertEmailEvent env w e i (in_store b)")
    (auto simp: dispatch_event_def isEmailEvent_def event_type_def on_store_def received_reply_def error_reply_def
      json_reply_def split: sum.splits)

lemma dispatch_email_only:
  "dispatch_event env w (EmailEvent e) i b = (Inr received_reply, b') \<Longrightarrow> prefix ''email.'' (wh_type (ee_hook e))"
  by (auto simp: dispatch_event_def isEmailEvent_def isContactEvent_def isDomainEvent_def event_type_def received_reply_def
      error_reply_def json_reply_def shape_error_def split: if_splits)

lemma insertEmailEvent_world:
  "wh_type (ee_hook e) \<noteq> ''email.received'' \<Longrightarrow> insertEmailEvent env w' e i s = insertEmailEvent env w e i s"
  by (simp add: insertEmailEvent_def Let_def split: option.split)

section \<open>Properties\<close>

definition sample_hook :: "string \<Rightarrow> email_event" where
  "sample_hook type =
     \<lparr>ee_hook = \<lparr>wh_type = type, wh_bounce = Some \<lparr>bd_message = Some ''gone'', bd_diagnosticCode = None, bd_type = None\<rparr>,
        wh_failed = None, wh_suppressed = None\<rparr>,
      ee_created_at = 6, ee_data = sample_event, ee_subject = ''s'', ee_broadcast_id = None, ee_template_id = None,
      ee_tags = None, ee_bounceSubType = None, ee_click = None\<rparr>"

definition sample_hooks :: "resend_event \<Rightarrow> hook_world" where
  \<comment> \<open>a check that accepts one signature\<close>
  "sample_hooks event =
     \<lparr>hw_send = (sample_world (Inr ''re2'') 5)\<lparr>sw_getReceived := (\<lambda>_. Inr (sample_email ''<o@x>''))\<rparr>, hw_projection = quiet_projection,
      hw_webhook = (\<lambda>secret. Inr (\<lambda>body (i, t, g). if g = ''good'' then Inr event else Inl (JsError ''Error'' ''No matching signature''))),
      hw_meanwhile = (\<lambda>s. s)\<rparr>"

definition hook_request :: "string \<Rightarrow> http_request" where
  "hook_request signature =
     \<lparr>rq_header = (\<lambda>name. if name = ''svix-id'' then Some ''evt1'' else if name = ''svix-timestamp'' then Some ''1''
        else if name = ''svix-signature'' then Some signature else None), rq_body = None, rq_query = []\<rparr>"

definition hook_env :: environment where
  "hook_env name =
     (if name = ''RESEND_WEBHOOK_SECRET'' then Some ''whsec'' else if name = ''RESEND_REPLY_TO'' then Some ''us@x.io''
      else if name = ''RESEND_API_KEY'' then Some ''key'' else nats_on name)"

definition sample_intake :: "store \<Rightarrow> intake" where
  "sample_intake s = \<lparr>in_store = s, in_contacts = [], in_domains = []\<rparr>"

text \<open>Only the provider can make the service act. A request whose signature the check does not accept,
  or without the headers or the secret it needs, changes no table and is not acknowledged.\<close>

theorem unsigned_webhook_changes_nothing:
  assumes "webhook_post env w request raw b = (r, b')" and "signed_event env w request raw = None"
  shows "b' = b \<and> r \<noteq> Inr received_reply"
  using webhook_unsigned [OF assms(2,1)] .

theorem unsigned_webhook_changes_nothing_witness:
  "snd (webhook_post hook_env (sample_hooks (EmailEvent (sample_hook ''email.bounced''))) (hook_request ''bad'') ''{}''
     (sample_intake sample_delivery)) = sample_intake sample_delivery"
proof -
  let ?w = "sample_hooks (EmailEvent (sample_hook ''email.bounced''))"
  have "signed_event hook_env ?w (hook_request ''bad'') ''{}'' = None" by code_simp
  from unsigned_webhook_changes_nothing [OF prod.collapse [symmetric] this] show ?thesis by blast
qed

text \<open>C15: the provider may deliver a webhook more than once. When a webhook about the delivery of a sent
  email was acknowledged, delivering it again, by a request with the same id that is signed anew, is
  acknowledged too and changes nothing: no second row, no second event, no other state.\<close>

theorem webhook_redelivery_is_idle:
  assumes "signed_event env w request raw = Some (i, EmailEvent e)" and "wh_type (ee_hook e) \<noteq> ''email.received''"
    and "webhook_post env w request raw b = (Inr received_reply, b')"
    and "signed_event env w' request' raw' = Some (i, EmailEvent e)"
  shows "webhook_post env w' request' raw' b' = (Inr received_reply, b')"
proof -
  have run: "dispatch_event env w (EmailEvent e) i b = (Inr received_reply, b')"
    using assms(3) webhook_signed [OF assms(1)] by simp
  note email = dispatch_email_only [OF run]
  obtain t where t: "insertEmailEvent env w e i (in_store b) = (Inr (), t)" "b' = b\<lparr>in_store := t\<rparr>"
    using run dispatch_email [OF refl email] by blast
  have "insertEmailEvent env w' e i t = (Inr (), t)"
    using insertEmailEvent_again [OF t(1) assms(2)] insertEmailEvent_world [OF assms(2)] by metis
  then show ?thesis
    using dispatch_email [OF refl email, of env w' i b' b'] webhook_signed [OF assms(4)] t(2) by simp
qed

theorem webhook_redelivery_is_idle_witness:
  "\<exists>b. webhook_post hook_env (sample_hooks (EmailEvent (sample_hook ''email.bounced''))) (hook_request ''good'') ''{}''
       (sample_intake sample_delivery) = (Inr received_reply, b)
     \<and> webhook_post hook_env (sample_hooks (EmailEvent (sample_hook ''email.bounced''))) (hook_request ''good'') ''{}'' b
       = (Inr received_reply, b)"
proof -
  let ?w = "sample_hooks (EmailEvent (sample_hook ''email.bounced''))"
  let ?run = "webhook_post hook_env ?w (hook_request ''good'') ''{}'' (sample_intake sample_delivery)"
  have signed: "signed_event hook_env ?w (hook_request ''good'') ''{}'' = Some (''evt1'', EmailEvent (sample_hook ''email.bounced''))"
    by (simp add: signed_event_def hook_env_def hook_request_def svix_headers_def sample_hooks_def keep_truthy_def truthy_def)
  have type: "wh_type (ee_hook (sample_hook ''email.bounced'')) \<noteq> ''email.received''" by (simp add: sample_hook_def)
  have "case fst ?run of Inl e \<Rightarrow> False | Inr a \<Rightarrow> a = received_reply" by code_simp
  then have "fst ?run = Inr received_reply" by (rule case_sumE) (simp only:)
  then have run: "?run = (Inr received_reply, snd ?run)" by (metis prod.collapse)
  from webhook_redelivery_is_idle [OF signed type run signed] run show ?thesis by blast
qed

text \<open>C14: no received email is lost. When the webhook of a received email is acknowledged, the email was
  retrieved from the provider and a message with its id or its Message-ID is filed.\<close>

theorem acknowledged_email_is_filed:
  assumes "signed_event env w request raw = Some (i, EmailEvent e)" and "wh_type (ee_hook e) = ''email.received''"
    and "webhook_post env w request raw b = (Inr received_reply, b')"
    and "\<not> (\<exists>m \<in> set (messages (in_store b)). ms_resendEmailId m = Some (ed_email_id (ee_data e)))"
  shows "\<exists>re m. sw_getReceived (hw_send w) (ed_email_id (ee_data e)) = Inr re \<and> m \<in> set (messages (in_store b'))
    \<and> (ms_resendEmailId m = Some (ed_email_id (ee_data e))
        \<or> ms_internetMessageId m = Some (case ed_message_id (ee_data e) of None \<Rightarrow> re_message_id re | Some k \<Rightarrow> k))"
proof -
  have run: "dispatch_event env w (EmailEvent e) i b = (Inr received_reply, b')"
    using assms(3) webhook_signed [OF assms(1)] by simp
  obtain t where t: "insertEmailEvent env w e i (in_store b) = (Inr (), t)" "b' = b\<lparr>in_store := t\<rparr>"
    using run dispatch_email [OF refl dispatch_email_only [OF run]] by blast
  obtain s1 where s1: "createEmailEvent i (prepareEmailEventData e) (in_store b) = (Inr (), s1)"
    "receive_email env w (ee_data e) s1 = (Inr (), t)"
    using t(1) assms(2) by (auto simp: insertEmailEvent_def Let_def elim!: io_bind_InrE)
  have "messages s1 = messages (in_store b)" using s1(1) by (auto simp: createEmailEvent_def draw_id_def split: if_splits)
  then obtain re where "sw_getReceived (hw_send w) (ed_email_id (ee_data e)) = Inr re"
    "\<exists>m \<in> set (messages t). known_email (ee_data e) (inbound_mail_of (ee_data e) re) m"
    using receive_email_filed [OF s1(2)] assms(4) by auto
  then show ?thesis using t(2) by (auto simp: known_email_def inbound_mail_of_def Let_def)
qed

theorem acknowledged_email_is_filed_witness:
  "\<exists>b (re :: resend_email) m. webhook_post hook_env (sample_hooks (EmailEvent (sample_hook ''email.received''))) (hook_request ''good'') ''{}''
       (sample_intake sample_threads) = (Inr received_reply, b)
     \<and> m \<in> set (messages (in_store b)) \<and> (ms_resendEmailId m = Some ''re1'' \<or> ms_internetMessageId m = Some (re_message_id re))"
proof -
  let ?e = "sample_hook ''email.received''"
  let ?w = "sample_hooks (EmailEvent ?e)"
  let ?run = "webhook_post hook_env ?w (hook_request ''good'') ''{}'' (sample_intake sample_threads)"
  have signed: "signed_event hook_env ?w (hook_request ''good'') ''{}'' = Some (''evt1'', EmailEvent ?e)"
    by (simp add: signed_event_def hook_env_def hook_request_def svix_headers_def sample_hooks_def keep_truthy_def truthy_def)
  have type: "wh_type (ee_hook ?e) = ''email.received''" "ed_email_id (ee_data ?e) = ''re1''" "ed_message_id (ee_data ?e) = None"
    by (simp_all add: sample_hook_def sample_event_def)
  have "case fst ?run of Inl e \<Rightarrow> False | Inr a \<Rightarrow> a = received_reply" by code_simp
  then have "fst ?run = Inr received_reply" by (rule case_sumE) (simp only:)
  then have run: "?run = (Inr received_reply, snd ?run)" by (metis prod.collapse)
  have "\<not> (\<exists>m \<in> set (messages (in_store (sample_intake sample_threads))). ms_resendEmailId m = Some (ed_email_id (ee_data ?e)))"
    by (simp add: sample_intake_def sample_threads_def plain_message_def type)
  from acknowledged_email_is_filed [OF signed type(1) run this] run show ?thesis
    unfolding type option.case by blast
qed

end
