(* ===== verification/Attachment_Store.thy ===== *)
theory Attachment_Store
  imports Conversation_Routes
begin

text \<open>
  The bytes of attachments: \<open>src/lib/attachments/storage.ts\<close>, \<open>ingest-runtime.ts\<close>, \<open>reaper.ts\<close> and the
  routes under \<open>src/routes/attachments\<close>. A \<open>bucket\<close> is the database with the objects of the store
  beside it. The answers of the object store's client, of the provider and of the clock are arguments,
  and so is what other processes do while a worker waits; a failed request to the store is an error of
  the client with its name and status. A put that fails stores nothing in the model. The timers are in
  \<open>Process_Lifecycle\<close>, the metrics in \<open>Telemetry\<close>.
\<close>

record bucket =
  bk_store :: store
  bk_objects :: "string \<Rightarrow> string option"

type_synonym 'a job = "bucket \<Rightarrow> 'a \<times> bucket"

section \<open>The object store\<close>

record sdk_error =
  se_name :: "string option" \<comment> \<open>\<open>None\<close> for a thrown value that is no \<open>Error\<close>\<close>
  se_status :: "int option"

record storage_fault =
  sf_error :: js_error
  sf_code :: string
  sf_notFound :: bool

definition statusCodeOf :: "sdk_error \<Rightarrow> int" where
  "statusCodeOf e = (case se_status e of None \<Rightarrow> 0 | Some status \<Rightarrow> status)"

definition errorCodeOf :: "sdk_error \<Rightarrow> int \<Rightarrow> string" where
  "errorCodeOf e status =
     (case keep_truthy (se_name e) of
        Some name \<Rightarrow>
          if name \<noteq> ''Error'' then name
          else if status \<noteq> 0 then ''http_'' @ show_int status else ''unknown_error''
      | None \<Rightarrow> if status \<noteq> 0 then ''http_'' @ show_int status else ''unknown_error'')"

definition storage_error :: "string \<Rightarrow> js_error" where
  "storage_error message = JsError ''AttachmentStorageError'' message"

definition storage_fault_of :: "string \<Rightarrow> sdk_error \<Rightarrow> storage_fault" where
  \<comment> \<open>the catch block of \<open>run\<close>\<close>
  "storage_fault_of operation e =
     (let status = statusCodeOf e
      in \<lparr>sf_error = storage_error (''Attachment storage '' @ operation @ '' failed''), sf_code = errorCodeOf e status,
          sf_notFound = (status = 404 \<or> errorCodeOf e status = ''NoSuchKey'')\<rparr>)"

definition storage_run :: "string \<Rightarrow> sdk_error + 'a \<Rightarrow> storage_fault + 'a" where
  "storage_run operation answer = (case answer of Inl e \<Rightarrow> Inl (storage_fault_of operation e) | Inr a \<Rightarrow> Inr a)"

definition empty_body :: storage_fault where
  "empty_body = \<lparr>sf_error = storage_error ''Attachment storage returned an empty body'', sf_code = ''empty_body'', sf_notFound = True\<rparr>"

definition storage_get :: "sdk_error + (string \<times> int option) option \<Rightarrow> storage_fault + string \<times> int option" where
  \<comment> \<open>the body with its length; \<open>None\<close> is a response without a body\<close>
  "storage_get answer =
     (case storage_run ''storage_get'' answer of
        Inl f \<Rightarrow> Inl f
      | Inr None \<Rightarrow> Inl empty_body
      | Inr (Some found) \<Rightarrow> Inr found)"

definition storage_put :: "sdk_error option \<Rightarrow> string \<Rightarrow> string \<Rightarrow> (storage_fault + unit) job" where
  "storage_put failure key body b =
     (case failure of
        Some e \<Rightarrow> (Inl (storage_fault_of ''storage_put'' e), b)
      | None \<Rightarrow> (Inr (), b\<lparr>bk_objects := (bk_objects b)(key := Some body)\<rparr>))"

definition storage_delete :: "sdk_error option \<Rightarrow> bool \<Rightarrow> string \<Rightarrow> (storage_fault + unit) job" where
  \<comment> \<open>\<open>gone\<close>: whether the object is gone after a request that fails\<close>
  "storage_delete failure gone key b =
     (let removed = b\<lparr>bk_objects := (bk_objects b)(key := None)\<rparr>
      in case failure of
           Some e \<Rightarrow> (Inl (storage_fault_of ''storage_delete'' e), if gone then removed else b)
         | None \<Rightarrow> (Inr (), removed))"

section \<open>Rows and tombstones\<close>

definition delete_attachments :: "(attachment \<Rightarrow> bool) \<Rightarrow> store \<Rightarrow> store" where
  \<comment> \<open>\<open>deleteMany\<close> with the trigger that leaves tombstones\<close>
  "delete_attachments P s =
     (let s1 = add_tombstones (filter P (attachments s)) s in s1\<lparr>attachments := delete_where P (attachments s1)\<rparr>)"

definition deleteStoredObject :: "string \<Rightarrow> store \<Rightarrow> store" where
  \<comment> \<open>\<open>createMany\<close> with \<open>skipDuplicates\<close> on the unique storage key\<close>
  "deleteStoredObject key s =
     (let (i, s1) = draw_id s
      in if key \<in> tb_storageKey ` set (tombstones s) then s1
         else s1\<lparr>tombstones := tombstones s @
           [\<lparr>tb_id = i, tb_storageKey = key, tb_attemptCount = 0, tb_nextAttemptAt = db_now s, tb_leaseToken = None,
             tb_leaseUntil = None, tb_lastErrorCode = None\<rparr>]\<rparr>)"

section \<open>Copying inbound attachments\<close>

definition INGEST_LEASE_MS :: int where "INGEST_LEASE_MS = 60000"
definition INGEST_BATCH_SIZE :: nat where "INGEST_BATCH_SIZE = 10"
definition INGEST_RETRY_DELAYS_MS :: "int list" where "INGEST_RETRY_DELAYS_MS = [1000, 5000, 30000, 120000, 300000]"
definition MAX_ATTEMPTS :: nat where "MAX_ATTEMPTS = length INGEST_RETRY_DELAYS_MS + 1"

record claimed_attachment =
  ca_id :: uuid
  ca_resendEmailId :: string
  ca_resendAttachmentId :: string
  ca_storageKey :: string
  ca_contentType :: string
  ca_leaseToken :: uuid
  ca_attemptCount :: nat

definition ingest_ready :: "instant \<Rightarrow> attachment \<Rightarrow> bool" where
  "ingest_ready now a \<longleftrightarrow>
     at_nextAttemptAt a \<le> now \<and> (case at_leaseUntil a of None \<Rightarrow> True | Some u \<Rightarrow> u \<le> now)"

definition pending_inbound :: "attachment \<Rightarrow> bool" where
  "pending_inbound a \<longleftrightarrow>
     at_state a = ATT_PENDING \<and> at_source a = ATT_INBOUND \<and> at_resendEmailId a \<noteq> None \<and> at_resendAttachmentId a \<noteq> None"

definition lease_attachment :: "uuid \<Rightarrow> instant \<Rightarrow> attachment \<Rightarrow> attachment" where
  "lease_attachment token leaseUntil a =
     a\<lparr>at_leaseToken := Some token, at_leaseUntil := Some leaseUntil, at_attemptCount := at_attemptCount a + 1\<rparr>"

definition claimed_attachment_of :: "uuid \<Rightarrow> attachment \<Rightarrow> claimed_attachment" where
  "claimed_attachment_of token a =
     \<lparr>ca_id = at_id a, ca_resendEmailId = (case at_resendEmailId a of None \<Rightarrow> [] | Some i \<Rightarrow> i),
      ca_resendAttachmentId = (case at_resendAttachmentId a of None \<Rightarrow> [] | Some i \<Rightarrow> i),
      ca_storageKey = at_storageKey a, ca_contentType = at_contentType a, ca_leaseToken = token,
      ca_attemptCount = at_attemptCount a + 1\<rparr>"

definition claimable_attachments :: "instant \<Rightarrow> (uuid \<Rightarrow> bool) \<Rightarrow> store \<Rightarrow> attachment list" where
  \<comment> \<open>the SELECT; \<open>locked\<close> are the rows other transactions hold\<close>
  "claimable_attachments now locked s =
     take INGEST_BATCH_SIZE (sort_key (\<lambda>a. (at_nextAttemptAt a, at_id a))
       (filter (\<lambda>a. pending_inbound a \<and> ingest_ready now a \<and> \<not> locked (at_id a)) (attachments s)))"

definition claimPendingAttachments :: "uuid \<Rightarrow> instant \<Rightarrow> (uuid \<Rightarrow> bool) \<Rightarrow> claimed_attachment list io" where
  "claimPendingAttachments token now locked =
     transaction (\<lambda>s.
       let rows = claimable_attachments now locked s
       in if rows = [] then (Inr [], s)
          else (Inr (map (claimed_attachment_of token) rows),
            s\<lparr>attachments := update_where (\<lambda>a. at_id a \<in> set (map at_id rows))
                (lease_attachment token (now + INGEST_LEASE_MS)) (attachments s)\<rparr>))"

definition attachment_owned :: "uuid \<Rightarrow> uuid \<Rightarrow> attachment \<Rightarrow> bool" where
  \<comment> \<open>the WHERE clause of the statements that finish an attempt\<close>
  "attachment_owned i token a \<longleftrightarrow> at_id a = i \<and> at_leaseToken a = Some token"

record ingest_world =
  iw_getReceivedAttachment :: "string \<Rightarrow> string \<Rightarrow> js_error + string option" \<comment> \<open>its \<open>download_url\<close>\<close>
  iw_downloadAttachment :: "string \<Rightarrow> js_error + string"
  iw_put :: "sdk_error option"
  iw_sha256 :: "string \<Rightarrow> string"
  iw_meanwhile :: "bucket \<Rightarrow> bucket"
  iw_later :: instant

definition too_large_error :: "int \<Rightarrow> js_error" where
  "too_large_error maxBytes = JsError ''AttachmentTooLargeError'' (''Attachment exceeds '' @ show_int maxBytes @ '' bytes'')"

definition fetch_attachment :: "environment \<Rightarrow> ingest_world \<Rightarrow> claimed_attachment \<Rightarrow> js_error + string" where
  \<comment> \<open>the first half of \<open>ingest\<close>\<close>
  "fetch_attachment env w ca =
     (case iw_getReceivedAttachment w (ca_resendEmailId ca) (ca_resendAttachmentId ca) of
        Inl e \<Rightarrow> Inl e
      | Inr downloadUrl \<Rightarrow>
          (case keep_truthy downloadUrl of
             None \<Rightarrow> Inl (JsError ''Error'' ''Resend attachment is missing a download URL'')
           | Some url \<Rightarrow>
               (case iw_downloadAttachment w url of
                  Inl e \<Rightarrow> Inl e
                | Inr body \<Rightarrow>
                    (let maxBytes = al_maxBytes (resolveAttachmentLimits env)
                     in if maxBytes < int (length body) then Inl (too_large_error maxBytes) else Inr body))))"

definition store_row :: "string \<Rightarrow> string \<Rightarrow> attachment \<Rightarrow> attachment" where
  "store_row body checksum a =
     a\<lparr>at_state := STORED, at_stateDetail := None, at_sizeBytes := length body, at_checksumSha256 := Some checksum,
       at_leaseToken := None, at_leaseUntil := None, at_lastErrorCode := None\<rparr>"

definition lost_lease_error :: js_error where
  "lost_lease_error = JsError ''Error'' ''Attachment lease was lost before completion''"

definition finish_ingest :: "claimed_attachment \<Rightarrow> string \<Rightarrow> string \<Rightarrow> unit io" where
  \<comment> \<open>the second half, after the object is stored\<close>
  "finish_ingest ca body checksum s =
     (let owned = attachment_owned (ca_id ca) (ca_leaseToken ca);
          s1 = s\<lparr>attachments := update_where owned (store_row body checksum) (attachments s)\<rparr>
      in if count_where owned (attachments s) \<noteq> 1 then (Inl lost_lease_error, deleteStoredObject (ca_storageKey ca) s1)
         else (Inr (), s1))"

definition ingest :: "environment \<Rightarrow> ingest_world \<Rightarrow> claimed_attachment \<Rightarrow> (js_error + unit) job" where
  "ingest env w ca b =
     (let b1 = iw_meanwhile w b
      in case fetch_attachment env w ca of
           Inl e \<Rightarrow> (Inl e, b1)
         | Inr body \<Rightarrow>
             (case resolveAttachmentStorageConfig env of
                Inl e \<Rightarrow> (Inl e, b1)
              | Inr _ \<Rightarrow>
                  (case storage_put (iw_put w) (ca_storageKey ca) body b1 of
                     (Inl f, b2) \<Rightarrow> (Inl (sf_error f), b2)
                   | (Inr _, b2) \<Rightarrow>
                       (case finish_ingest ca body (iw_sha256 w body) (bk_store b2) of
                          (r, s) \<Rightarrow> (r, b2\<lparr>bk_store := s\<rparr>)))))"

datatype ingest_outcome = IngestStored | IngestFailed | IngestRetry

definition ingest_error_code :: "js_error \<Rightarrow> string" where
  "ingest_error_code e = (if e = NotAnError then ''ingest_error'' else take 64 (error_name e))"

definition is_terminal :: "claimed_attachment \<Rightarrow> js_error \<Rightarrow> bool" where
  "is_terminal ca e \<longleftrightarrow>
     (case e of JsError name _ \<Rightarrow> name = ''AttachmentTooLargeError'' | _ \<Rightarrow> False) \<or> MAX_ATTEMPTS \<le> ca_attemptCount ca"

definition failAttachment :: "instant \<Rightarrow> claimed_attachment \<Rightarrow> js_error \<Rightarrow> store \<Rightarrow> ingest_outcome \<times> store" where
  "failAttachment now ca e s =
     (let owned = attachment_owned (ca_id ca) (ca_leaseToken ca)
      in if is_terminal ca e
         then (IngestFailed, s\<lparr>attachments := update_where owned (\<lambda>a. a\<lparr>at_state := ATT_FAILED,
             at_stateDetail := Some (if e = NotAnError then ''Unknown ingest error'' else take 1000 (error_message e)),
             at_leaseToken := None, at_leaseUntil := None, at_lastErrorCode := Some (ingest_error_code e)\<rparr>) (attachments s)\<rparr>)
         else (IngestRetry, s\<lparr>attachments := update_where owned (\<lambda>a. a\<lparr>
             at_nextAttemptAt := now + ladder_delay INGEST_RETRY_DELAYS_MS (ca_attemptCount ca),
             at_leaseToken := None, at_leaseUntil := None, at_lastErrorCode := Some (ingest_error_code e)\<rparr>) (attachments s)\<rparr>))"

definition attempt_ingest :: "environment \<Rightarrow> ingest_world \<Rightarrow> claimed_attachment \<Rightarrow> ingest_outcome job" where
  \<comment> \<open>the body of the loop of \<open>drain\<close>\<close>
  "attempt_ingest env w ca b =
     (case ingest env w ca b of
        (Inr _, b1) \<Rightarrow> (IngestStored, b1)
      | (Inl e, b1) \<Rightarrow>
          (case failAttachment (iw_later w) ca e (bk_store b1) of (outcome, s) \<Rightarrow> (outcome, b1\<lparr>bk_store := s\<rparr>)))"

fun ingest_each :: "environment \<Rightarrow> (nat \<Rightarrow> ingest_world) \<Rightarrow> nat \<Rightarrow> claimed_attachment list \<Rightarrow> bool \<Rightarrow> bool job" where
  "ingest_each env w n [] healthy b = (healthy, b)"
| "ingest_each env w n (ca # cas) healthy b =
     (case attempt_ingest env (w n) ca b of
        (outcome, b1) \<Rightarrow> ingest_each env w (Suc n) cas (healthy \<and> outcome = IngestStored) b1)"

text \<open>The flags of a worker object; both workers skip a cycle while one runs.\<close>

record worker =
  wk_enabled :: bool
  wk_stopped :: bool
  wk_running :: bool
  wk_healthy :: bool

definition idle_cycle :: "worker \<Rightarrow> bool" where
  "idle_cycle wk \<longleftrightarrow> wk_stopped wk \<or> wk_running wk \<or> \<not> wk_enabled wk"

definition ingest_drain ::
  "environment \<Rightarrow> (nat \<Rightarrow> ingest_world) \<Rightarrow> uuid \<Rightarrow> instant \<Rightarrow> (uuid \<Rightarrow> bool) \<Rightarrow> worker \<Rightarrow> worker job"
where
  "ingest_drain env w token now locked wk b =
     (if idle_cycle wk then (wk, b)
      else case claimPendingAttachments token now locked (bk_store b) of
             (Inl _, s) \<Rightarrow> (wk\<lparr>wk_healthy := False\<rparr>, b\<lparr>bk_store := s\<rparr>)
           | (Inr claimed, s) \<Rightarrow>
               (case ingest_each env w 0 claimed True (b\<lparr>bk_store := s\<rparr>) of
                  (cycleHealthy, b1) \<Rightarrow> (wk\<lparr>wk_healthy := cycleHealthy\<rparr>, b1)))"

definition ingest_isHealthy :: "worker \<Rightarrow> bool" where
  "ingest_isHealthy wk \<longleftrightarrow> \<not> wk_enabled wk \<or> wk_healthy wk"

section \<open>Removing objects\<close>

definition REAP_LEASE_MS :: int where "REAP_LEASE_MS = 60000"
definition REAP_BATCH_SIZE :: nat where "REAP_BATCH_SIZE = 50"
definition REAP_RETRY_DELAYS_MS :: "int list" where "REAP_RETRY_DELAYS_MS = [30000, 120000, 300000, 900000]"
definition UNREFERENCED_UPLOAD_TTL_MS :: int where "UNREFERENCED_UPLOAD_TTL_MS = 24 * 60 * 60 * 1000"

record claimed_tombstone =
  ts_id :: uuid
  ts_storageKey :: string
  ts_leaseToken :: uuid
  ts_attemptCount :: nat

definition abandoned :: "instant \<Rightarrow> attachment \<Rightarrow> bool" where
  "abandoned now a \<longleftrightarrow> at_source a = UPLOAD \<and> at_messageId a = None \<and> at_createdAt a < now - UNREFERENCED_UPLOAD_TTL_MS"

definition expireUnreferencedUploads :: "instant \<Rightarrow> store \<Rightarrow> nat \<times> store" where
  "expireUnreferencedUploads now s = (count_where (abandoned now) (attachments s), delete_attachments (abandoned now) s)"

definition tombstone_ready :: "instant \<Rightarrow> tombstone \<Rightarrow> bool" where
  "tombstone_ready now t \<longleftrightarrow>
     tb_nextAttemptAt t \<le> now \<and> (case tb_leaseUntil t of None \<Rightarrow> True | Some u \<Rightarrow> u \<le> now)"

definition lease_tombstone :: "uuid \<Rightarrow> instant \<Rightarrow> tombstone \<Rightarrow> tombstone" where
  "lease_tombstone token leaseUntil t =
     t\<lparr>tb_leaseToken := Some token, tb_leaseUntil := Some leaseUntil, tb_attemptCount := tb_attemptCount t + 1\<rparr>"

definition claimed_tombstone_of :: "uuid \<Rightarrow> tombstone \<Rightarrow> claimed_tombstone" where
  "claimed_tombstone_of token t =
     \<lparr>ts_id = tb_id t, ts_storageKey = tb_storageKey t, ts_leaseToken = token, ts_attemptCount = tb_attemptCount t + 1\<rparr>"

definition claimable_tombstones :: "instant \<Rightarrow> (uuid \<Rightarrow> bool) \<Rightarrow> store \<Rightarrow> tombstone list" where
  "claimable_tombstones now locked s =
     take REAP_BATCH_SIZE (sort_key (\<lambda>t. (tb_nextAttemptAt t, tb_id t))
       (filter (\<lambda>t. tombstone_ready now t \<and> \<not> locked (tb_id t)) (tombstones s)))"

definition claimTombstones :: "uuid \<Rightarrow> instant \<Rightarrow> (uuid \<Rightarrow> bool) \<Rightarrow> store \<Rightarrow> claimed_tombstone list \<times> store" where
  "claimTombstones token now locked s =
     (let rows = claimable_tombstones now locked s
      in (map (claimed_tombstone_of token) rows,
          if rows = [] then s
          else s\<lparr>tombstones := update_where (\<lambda>t. tb_id t \<in> set (map tb_id rows))
                   (lease_tombstone token (now + REAP_LEASE_MS)) (tombstones s)\<rparr>))"

definition tombstone_owned :: "uuid \<Rightarrow> uuid \<Rightarrow> tombstone \<Rightarrow> bool" where
  "tombstone_owned i token t \<longleftrightarrow> tb_id t = i \<and> tb_leaseToken t = Some token"

definition drop_tombstone :: "claimed_tombstone \<Rightarrow> store \<Rightarrow> store" where
  "drop_tombstone ct s = s\<lparr>tombstones := delete_where (tombstone_owned (ts_id ct) (ts_leaseToken ct)) (tombstones s)\<rparr>"

definition retryTombstone :: "instant \<Rightarrow> claimed_tombstone \<Rightarrow> js_error \<Rightarrow> store \<Rightarrow> store" where
  "retryTombstone now ct e s =
     s\<lparr>tombstones := update_where (tombstone_owned (ts_id ct) (ts_leaseToken ct)) (\<lambda>t. t\<lparr>
         tb_nextAttemptAt := now + ladder_delay REAP_RETRY_DELAYS_MS (ts_attemptCount ct), tb_leaseToken := None,
         tb_leaseUntil := None,
         tb_lastErrorCode := Some (if e = NotAnError then ''delete_error'' else take 64 (error_name e))\<rparr>) (tombstones s)\<rparr>"

record reap_world =
  rw_started :: instant
  rw_token :: uuid
  rw_now :: instant
  rw_locked :: "uuid \<Rightarrow> bool"
  rw_delete :: "nat \<Rightarrow> sdk_error option" \<comment> \<open>the answer to the n-th deletion\<close>
  rw_gone :: "nat \<Rightarrow> bool"
  rw_between :: "nat \<Rightarrow> bucket \<Rightarrow> bucket" \<comment> \<open>others, between the deletion and the cleanup\<close>
  rw_later :: "nat \<Rightarrow> instant"

definition reap_one :: "environment \<Rightarrow> reap_world \<Rightarrow> nat \<Rightarrow> claimed_tombstone \<Rightarrow> bool job" where
  \<comment> \<open>the body of the loop: whether the tombstone is done with\<close>
  "reap_one env w n ct b =
     (let cleanup = (\<lambda>b. b\<lparr>bk_store := drop_tombstone ct (bk_store b)\<rparr>);
          retry = (\<lambda>e b. b\<lparr>bk_store := retryTombstone (rw_later w n) ct e (bk_store b)\<rparr>)
      in case resolveAttachmentStorageConfig env of
           Inl e \<Rightarrow> (False, retry e b)
         | Inr _ \<Rightarrow>
             (case storage_delete (rw_delete w n) (rw_gone w n) (ts_storageKey ct) b of
                (Inr _, b1) \<Rightarrow> (True, cleanup (rw_between w n b1))
              | (Inl f, b1) \<Rightarrow>
                  if sf_notFound f then (True, cleanup (rw_between w n b1))
                  else (False, retry (sf_error f) (rw_between w n b1))))"

record reap_result =
  rr_expired :: nat
  rr_deleted :: nat
  rr_retryScheduled :: nat

fun reap_each :: "environment \<Rightarrow> reap_world \<Rightarrow> nat \<Rightarrow> claimed_tombstone list \<Rightarrow> reap_result \<Rightarrow> reap_result job" where
  "reap_each env w n [] r b = (r, b)"
| "reap_each env w n (ct # cts) r b =
     (case reap_one env w n ct b of
        (True, b1) \<Rightarrow> reap_each env w (Suc n) cts (r\<lparr>rr_deleted := rr_deleted r + 1\<rparr>) b1
      | (False, b1) \<Rightarrow> reap_each env w (Suc n) cts (r\<lparr>rr_retryScheduled := rr_retryScheduled r + 1\<rparr>) b1)"

definition reaper_drain :: "environment \<Rightarrow> reap_world \<Rightarrow> worker \<Rightarrow> reap_result job" where
  "reaper_drain env w wk b =
     (if idle_cycle wk then (\<lparr>rr_expired = 0, rr_deleted = 0, rr_retryScheduled = 0\<rparr>, b)
      else
        (let (expired, s1) = expireUnreferencedUploads (rw_started w) (bk_store b);
             (claimed, s2) = claimTombstones (rw_token w) (rw_now w) (rw_locked w) s1
         in reap_each env w 0 claimed \<lparr>rr_expired = expired, rr_deleted = 0, rr_retryScheduled = 0\<rparr> (b\<lparr>bk_store := s2\<rparr>)))"

section \<open>The routes\<close>

subsection \<open>Upload\<close>

record upload_world =
  uw_sha256 :: "string \<Rightarrow> string"
  uw_put :: "sdk_error option"
  uw_storageId :: uuid

definition upload_row :: "string \<Rightarrow> string \<Rightarrow> string \<Rightarrow> string \<Rightarrow> string \<Rightarrow> uuid \<Rightarrow> instant \<Rightarrow> attachment" where
  "upload_row filename contentType body checksum key i now =
     \<lparr>at_id = i, at_messageId = None, at_source = UPLOAD, at_state = STORED, at_stateDetail = None, at_filename = filename,
      at_contentType = contentType, at_contentDisposition = ATTACHMENT, at_contentId = None, at_sizeBytes = length body,
      at_checksumSha256 = Some checksum, at_storageKey = key, at_resendEmailId = None, at_resendAttachmentId = None,
      at_attemptCount = 0, at_nextAttemptAt = now, at_leaseToken = None, at_leaseUntil = None, at_lastErrorCode = None,
      at_createdAt = now\<rparr>"

definition insert_upload :: "(uuid \<Rightarrow> instant \<Rightarrow> attachment) \<Rightarrow> attachment io" where
  \<comment> \<open>\<open>emailAttachment.create\<close>: the storage key is unique\<close>
  "insert_upload row s =
     (let (i, s1) = draw_id s; a = row i (db_now s1)
      in if \<exists>r \<in> set (attachments s1). at_storageKey r = at_storageKey a then (Inl (PrismaError ''P2002''), s1)
         else (Inr a, s1\<lparr>attachments := attachments s1 @ [a]\<rparr>))"

definition store_upload :: "environment \<Rightarrow> upload_world \<Rightarrow> string \<Rightarrow> string \<Rightarrow> string \<Rightarrow> (js_error + reply) job" where
  \<comment> \<open>from the storage key on\<close>
  "store_upload env w filename contentType body b =
     (let key = buildStorageKey env (uw_storageId w)
      in case resolveAttachmentStorageConfig env of
           Inl e \<Rightarrow> (Inl e, b)
         | Inr _ \<Rightarrow>
             (case storage_put (uw_put w) key body b of
                (Inl f, b1) \<Rightarrow> (Inl (sf_error f), b1)
              | (Inr _, b1) \<Rightarrow>
                  (case insert_upload (upload_row filename contentType body (uw_sha256 w body) key) (bk_store b1) of
                     (Inr a, s) \<Rightarrow> (Inr (json_reply 201 (serializeAttachment a)), b1\<lparr>bk_store := s\<rparr>)
                   | (Inl e, s) \<Rightarrow> (Inl e, b1\<lparr>bk_store := deleteStoredObject key s\<rparr>))))"

definition upload_post :: "environment \<Rightarrow> upload_world \<Rightarrow> http_request \<Rightarrow> string \<Rightarrow> (js_error + reply) job" where
  "upload_post env w request body b =
     (if \<not> attachmentsEnabled env then (Inr (error_reply 404 ''Not found''), b)
      else case authorizeEmailV2 (uw_sha256 w) env request of
             Some r \<Rightarrow> (Inr r, b)
           | None \<Rightarrow>
               (let rawFilename = rq_header request ''x-attachment-filename'';
                    maxBytes = al_maxBytes (resolveAttachmentLimits env)
                in if \<not> truthy (map_option js_trim rawFilename)
                   then (Inr (error_reply 400 ''A x-attachment-filename header is required''), b)
                   else if body = [] then (Inr (error_reply 400 ''Request body must contain the attachment bytes''), b)
                   else if maxBytes < int (length body)
                   then (Inr (error_reply 413 (''Attachment must be at most '' @ show_int maxBytes @ '' bytes'')), b)
                   else store_upload env w (normalizeFilename (map_option JString rawFilename))
                          (normalizeContentType (map_option JString (rq_header request ''content-type''))) body b))"

subsection \<open>Download\<close>

record file_reply =
  fl_headers :: "(string \<times> string) list"
  fl_body :: string

definition resolved_or_reply :: "stored_attachment \<Rightarrow> reply + attachment" where
  "resolved_or_reply r =
     (case r of
        StoredAttachment a \<Rightarrow> Inr a
      | DownloadError status message st \<Rightarrow>
          Inl (json_reply (int status) (JObject ((''error'', JString message) # optional ''state'' (map_option JString st)))))"

definition attachment_guard :: "environment \<Rightarrow> (string \<Rightarrow> string) \<Rightarrow> http_request \<Rightarrow> string \<Rightarrow> store \<Rightarrow> reply + attachment" where
  \<comment> \<open>the opening of both handlers\<close>
  "attachment_guard env sha256 request raw s =
     (if \<not> attachmentsEnabled env then Inl (error_reply 404 ''Not found'')
      else case authorizeEmailV2 sha256 env request of
             Some r \<Rightarrow> Inl r
           | None \<Rightarrow> resolved_or_reply (resolveStoredAttachment raw s))"

definition storage_failed :: "storage_fault \<Rightarrow> string \<Rightarrow> reply" where
  "storage_failed f message =
     (if sf_notFound f then error_reply 404 ''Attachment not found'' else error_reply 502 message)"

definition attachment_get ::
  "environment \<Rightarrow> (string \<Rightarrow> string) \<Rightarrow> (string \<Rightarrow> sdk_error + (string \<times> int option) option) \<Rightarrow> http_request \<Rightarrow> string \<Rightarrow>
     store \<Rightarrow> reply + file_reply"
where
  "attachment_get env sha256 get request raw s =
     (case attachment_guard env sha256 request raw s of
        Inl r \<Rightarrow> Inl r
      | Inr a \<Rightarrow>
          (case resolveAttachmentStorageConfig env of
             Inl _ \<Rightarrow> Inl (error_reply 502 ''Failed to read attachment'')
           | Inr _ \<Rightarrow>
               (case storage_get (get (at_storageKey a)) of
                  Inl f \<Rightarrow> Inl (storage_failed f ''Failed to read attachment'')
                | Inr (body, contentLength) \<Rightarrow>
                    Inr \<lparr>fl_headers = [(''content-type'', at_contentType a),
                           (''content-disposition'', buildContentDisposition (at_filename a))]
                         @ (case contentLength of Some n \<Rightarrow> if n \<noteq> 0 then [(''content-length'', show_int n)] else [] | None \<Rightarrow> [])
                         @ [(''cache-control'', ''private, no-store''), (''x-content-type-options'', ''nosniff'')],
                         fl_body = body\<rparr>)))"

definition download_url_post ::
  "environment \<Rightarrow> (string \<Rightarrow> string) \<Rightarrow> (string \<Rightarrow> sdk_error option) \<Rightarrow>
     (string \<Rightarrow> string \<Rightarrow> string \<Rightarrow> int \<Rightarrow> instant \<Rightarrow> string option) \<Rightarrow> instant \<Rightarrow> http_request \<Rightarrow> string \<Rightarrow> store \<Rightarrow> reply"
where
  \<comment> \<open>\<open>presign\<close> is the signer of the package, \<open>None\<close> when it throws\<close>
  "download_url_post env sha256 head presign now request raw s =
     (case attachment_guard env sha256 request raw s of
        Inl r \<Rightarrow> r
      | Inr a \<Rightarrow>
          (let failed = error_reply 502 ''Failed to create attachment download URL'';
               signingDate = now - now mod 1000
           in case resolveAttachmentStorageConfig env of
                Inl _ \<Rightarrow> failed
              | Inr _ \<Rightarrow>
                  (case head (at_storageKey a) of
                     Some e \<Rightarrow> storage_failed (storage_fault_of ''storage_head_object'' e) ''Failed to create attachment download URL''
                   | None \<Rightarrow>
                       (case resolveAttachmentPresignedUrlTtlSeconds env of
                          Inl _ \<Rightarrow> failed
                        | Inr ttl \<Rightarrow>
                            (case presign (at_storageKey a) (at_contentType a) (buildContentDisposition (at_filename a)) ttl signingDate of
                               None \<Rightarrow> failed
                             | Some url \<Rightarrow>
                                 \<lparr>rp_status = 200, rp_headers = [(''cache-control'', ''private, no-store'')],
                                  rp_body = Some (JObject [(''downloadUrl'', JString url),
                                    (''expiresAt'', JString (toISOString (signingDate + ttl * 1000)))])\<rparr>)))))"

section \<open>The leases\<close>

interpretation ingest_lease: leased_queue at_id ingest_ready attachment_owned lease_attachment
  by unfold_locales (auto simp: attachment_owned_def ingest_ready_def lease_attachment_def)

interpretation tombstone_lease: leased_queue tb_id tombstone_ready tombstone_owned lease_tombstone
  by unfold_locales (auto simp: tombstone_owned_def tombstone_ready_def lease_tombstone_def)

interpretation ingest_ladder: retry_ladder "ladder_delay INGEST_RETRY_DELAYS_MS" 1000 300000
  using retry_ladderI [of INGEST_RETRY_DELAYS_MS] by (simp add: INGEST_RETRY_DELAYS_MS_def)

interpretation reap_ladder: retry_ladder "ladder_delay REAP_RETRY_DELAYS_MS" 30000 900000
  using retry_ladderI [of REAP_RETRY_DELAYS_MS] by (simp add: REAP_RETRY_DELAYS_MS_def)

section \<open>An attempt that lost its lease\<close>

lemma deleteStoredObject_frame [simp]:
  "attachments (deleteStoredObject key s) = attachments s" "id_source (deleteStoredObject key s) = id_source s"
  "tb_storageKey ` set (tombstones (deleteStoredObject key s)) = insert key (tb_storageKey ` set (tombstones s))"
  by (auto simp: deleteStoredObject_def draw_id_def)

lemma finish_ingest_lost:
  assumes "count_where (attachment_owned (ca_id ca) (ca_leaseToken ca)) (attachments s) = 0"
  shows "finish_ingest ca body checksum s = (Inl lost_lease_error, deleteStoredObject (ca_storageKey ca) s)"
  using ingest_lease.fenced_idle [OF assms] assms by (simp add: finish_ingest_def)

lemma failAttachment_lost:
  assumes "count_where (attachment_owned (ca_id ca) (ca_leaseToken ca)) (attachments s) = 0"
  shows "snd (failAttachment now ca e s) = s"
  using ingest_lease.fenced_idle [OF assms] by (simp add: failAttachment_def Let_def)

lemma attempt_ingest_lost:
  assumes "fetch_attachment env w ca = Inr body" "resolveAttachmentStorageConfig env = Inr config" "iw_put w = None"
    and "count_where (attachment_owned (ca_id ca) (ca_leaseToken ca)) (attachments (bk_store (iw_meanwhile w b))) = 0"
  shows "bk_store (snd (attempt_ingest env w ca b)) = deleteStoredObject (ca_storageKey ca) (bk_store (iw_meanwhile w b))"
  using assms failAttachment_lost [of ca "deleteStoredObject (ca_storageKey ca) (bk_store (iw_meanwhile w b))" "iw_later w" lost_lease_error]
  by (simp add: attempt_ingest_def ingest_def storage_put_def finish_ingest_lost Let_def case_prod_unfold)

lemma reap_one_deletes:
  assumes "resolveAttachmentStorageConfig env = Inr config" "rw_delete w n = None" "rw_between w n = (\<lambda>b. b)"
  shows "reap_one env w n ct b =
    (True, b\<lparr>bk_objects := (bk_objects b)(ts_storageKey ct := None), bk_store := drop_tombstone ct (bk_store b)\<rparr>)"
  using assms by (simp add: reap_one_def storage_delete_def Let_def)

text \<open>An attempt of the owner either stores the bytes or changes nothing before the failure is recorded.\<close>

lemma ingest_owned:
  assumes "iw_meanwhile w = (\<lambda>b. b)" and "count_where (attachment_owned (ca_id ca) (ca_leaseToken ca)) (attachments (bk_store b)) = 1"
  obtains (stored) body where "fetch_attachment env w ca = Inr body" "ingest env w ca b = (Inr (),
      b\<lparr>bk_objects := (bk_objects b)(ca_storageKey ca := Some body),
        bk_store := (bk_store b)\<lparr>attachments := update_where (attachment_owned (ca_id ca) (ca_leaseToken ca))
          (store_row body (iw_sha256 w body)) (attachments (bk_store b))\<rparr>\<rparr>)"
  | (failed) e where "ingest env w ca b = (Inl e, b)"
proof (cases "fetch_attachment env w ca")
  case (Inl e)
  with failed assms(1) show thesis by (simp add: ingest_def)
next
  case fetched: (Inr body)
  show thesis
  proof (cases "resolveAttachmentStorageConfig env")
    case (Inl e)
    with failed fetched assms(1) show thesis by (simp add: ingest_def)
  next
    case (Inr config)
    show thesis
    proof (cases "iw_put w")
      case None
      with stored [of body] fetched Inr assms show thesis by (simp add: ingest_def storage_put_def finish_ingest_def)
    next
      case (Some e)
      with failed fetched Inr assms(1) show thesis by (simp add: ingest_def storage_put_def)
    qed
  qed
qed

text \<open>What a recorded failure does to the row it owns.\<close>

lemma failAttachment_cases:
  obtains f where "snd (failAttachment now ca e s) =
      s\<lparr>attachments := update_where (attachment_owned (ca_id ca) (ca_leaseToken ca)) f (attachments s)\<rparr>"
    "\<And>a. at_id (f a) = at_id a \<and> at_storageKey (f a) = at_storageKey a \<and> at_leaseToken (f a) = None"
    "case fst (failAttachment now ca e s) of
       IngestStored \<Rightarrow> False
     | IngestFailed \<Rightarrow> \<forall>a. at_state (f a) = ATT_FAILED
     | IngestRetry \<Rightarrow> ca_attemptCount ca < 6 \<and> (\<forall>a. at_state (f a) = at_state a
         \<and> at_nextAttemptAt (f a) = now + ladder_delay INGEST_RETRY_DELAYS_MS (ca_attemptCount ca))"
proof (cases "is_terminal ca e")
  case True
  show thesis
    by (rule that [of "\<lambda>a. a\<lparr>at_state := ATT_FAILED,
        at_stateDetail := Some (if e = NotAnError then ''Unknown ingest error'' else take 1000 (error_message e)),
        at_leaseToken := None, at_leaseUntil := None, at_lastErrorCode := Some (ingest_error_code e)\<rparr>"])
      (simp_all add: failAttachment_def True)
next
  case False
  then have "ca_attemptCount ca < 6" by (simp add: is_terminal_def MAX_ATTEMPTS_def INGEST_RETRY_DELAYS_MS_def)
  then show thesis
    by (intro that [of "\<lambda>a. a\<lparr>at_nextAttemptAt := now + ladder_delay INGEST_RETRY_DELAYS_MS (ca_attemptCount ca),
        at_leaseToken := None, at_leaseUntil := None, at_lastErrorCode := Some (ingest_error_code e)\<rparr>"])
      (simp_all add: failAttachment_def False)
qed

lemma owned_once:
  "distinct (map at_id rows) \<Longrightarrow> a \<in> set rows \<Longrightarrow> attachment_owned i token a \<Longrightarrow> count_where (attachment_owned i token) rows = 1"
  using ingest_lease.owned_at_most_one [of rows i token] by (auto simp: count_where_pos le_Suc_eq dest: count_where_0 [THEN iffD1])

lemma fetch_bounded: "fetch_attachment env w ca = Inr body \<Longrightarrow> int (length body) \<le> al_maxBytes (resolveAttachmentLimits env)"
  by (auto simp: fetch_attachment_def Let_def split: sum.splits option.splits if_splits)

section \<open>Properties\<close>

definition storage_env :: environment where
  "storage_env name =
     (if name = ''ATTACHMENTS_ENABLED'' then Some ''true''
      else if name \<in> {''ATTACHMENTS_S3_BUCKET'', ''ATTACHMENTS_S3_REGION'', ''ATTACHMENTS_S3_ACCESS_KEY_ID'', ''ATTACHMENTS_S3_SECRET_ACCESS_KEY''}
      then Some ''v'' else None)"

definition inbound_sample :: attachment where
  "inbound_sample = (sample_upload ''a1'')\<lparr>at_source := ATT_INBOUND, at_state := ATT_PENDING, at_resendEmailId := Some ''re1'',
     at_resendAttachmentId := Some ''ra1'', at_messageId := Some ''m1'', at_storageKey := ''k1''\<rparr>"

definition sample_bucket :: bucket where
  "sample_bucket = \<lparr>bk_store = empty_store\<lparr>attachments := [inbound_sample]\<rparr>, bk_objects = (\<lambda>k. None)\<rparr>"

definition quick_ingest :: ingest_world where
  "quick_ingest = \<lparr>iw_getReceivedAttachment = (\<lambda>e a. Inr (Some ''url'')), iw_downloadAttachment = (\<lambda>u. Inr ''bytes''),
     iw_put = None, iw_sha256 = (\<lambda>t. ''sum''), iw_meanwhile = (\<lambda>b. b), iw_later = 90000\<rparr>"

definition steady_worker :: worker where
  "steady_worker = \<lparr>wk_enabled = True, wk_stopped = False, wk_running = False, wk_healthy = True\<rparr>"

text \<open>A row claimed at time 0, and a second worker that comes after the lease and stores it.\<close>

definition leased_bucket :: bucket where
  "leased_bucket = sample_bucket\<lparr>bk_store := empty_store\<lparr>attachments := [lease_attachment ''t1'' 60000 inbound_sample]\<rparr>\<rparr>"

definition slow_ingest :: ingest_world where
  "slow_ingest = quick_ingest\<lparr>iw_meanwhile :=
     (\<lambda>b. snd (ingest_drain storage_env (\<lambda>n. quick_ingest) ''t2'' 70000 (\<lambda>i. False) steady_worker b))\<rparr>"

text \<open>C40: an attempt of the worker that owns a row settles it. Afterwards the lease is over, and either the
  row is stored, with the object under its key and its true size, which is within the limit; or it has
  failed for good; or it waits for another attempt, fewer than six were made, and the next comes within
  five minutes.\<close>

theorem owned_attempt_settles:
  assumes "attempt_ingest env w ca b = (outcome, b')" and "iw_meanwhile w = (\<lambda>b. b)"
    and "distinct (map at_id (attachments (bk_store b)))" and "a \<in> set (attachments (bk_store b))"
    and "attachment_owned (ca_id ca) (ca_leaseToken ca) a" and "0 < ca_attemptCount ca"
  shows "\<exists>a' \<in> set (attachments (bk_store b')). at_id a' = at_id a \<and> at_leaseToken a' = None
    \<and> (case outcome of
         IngestStored \<Rightarrow> at_state a' = STORED \<and> (\<exists>body. bk_objects b' (ca_storageKey ca) = Some body
           \<and> at_sizeBytes a' = length body \<and> int (length body) \<le> al_maxBytes (resolveAttachmentLimits env))
       | IngestFailed \<Rightarrow> at_state a' = ATT_FAILED
       | IngestRetry \<Rightarrow> at_state a' = at_state a \<and> ca_attemptCount ca < 6
           \<and> iw_later w + 1000 \<le> at_nextAttemptAt a' \<and> at_nextAttemptAt a' \<le> iw_later w + 300000)"
proof -
  let ?owned = "attachment_owned (ca_id ca) (ca_leaseToken ca)"
  have one: "count_where ?owned (attachments (bk_store b)) = 1" using assms(3-5) by (rule owned_once)
  have hit: "f a \<in> set (update_where ?owned f (attachments (bk_store b)))" for f
    using assms(4,5) by (auto simp: set_update_where image_iff intro!: bexI [of _ a])
  from assms(2) one show ?thesis
  proof (cases rule: ingest_owned [where env = env])
    case (stored body)
    then show ?thesis
      using assms(1) hit [of "store_row body (iw_sha256 w body)"] fetch_bounded [OF stored(1)]
      by (intro bexI [of _ "store_row body (iw_sha256 w body) a"]) (auto simp: attempt_ingest_def store_row_def)
  next
    case (failed e)
    have run: "failAttachment (iw_later w) ca e (bk_store b) = (outcome, bk_store b')"
      using assms(1) failed by (auto simp: attempt_ingest_def split: prod.splits)
    obtain f where f: "snd (failAttachment (iw_later w) ca e (bk_store b)) =
        (bk_store b)\<lparr>attachments := update_where ?owned f (attachments (bk_store b))\<rparr>"
      "\<And>a. at_id (f a) = at_id a \<and> at_storageKey (f a) = at_storageKey a \<and> at_leaseToken (f a) = None"
      "case fst (failAttachment (iw_later w) ca e (bk_store b)) of IngestStored \<Rightarrow> False
       | IngestFailed \<Rightarrow> \<forall>a. at_state (f a) = ATT_FAILED
       | IngestRetry \<Rightarrow> ca_attemptCount ca < 6 \<and> (\<forall>a. at_state (f a) = at_state a
           \<and> at_nextAttemptAt (f a) = iw_later w + ladder_delay INGEST_RETRY_DELAYS_MS (ca_attemptCount ca))"
      using failAttachment_cases [of "iw_later w" ca e "bk_store b"] by blast
    have "f a \<in> set (attachments (bk_store b'))" using f(1) run hit [of f] by simp
    then show ?thesis
      using f(2,3) run ingest_ladder.delay_bounds [OF assms(6)]
      by (intro bexI [of _ "f a"]) (auto split: ingest_outcome.splits)
  qed
qed

theorem owned_attempt_settles_witness:
  "\<exists>a' \<in> set (attachments (bk_store (snd (attempt_ingest storage_env quick_ingest (claimed_attachment_of ''t1'' inbound_sample) leased_bucket)))).
     at_id a' = ''a1'' \<and> at_leaseToken a' = None"
proof -
  let ?ca = "claimed_attachment_of ''t1'' inbound_sample" and ?a = "lease_attachment ''t1'' 60000 inbound_sample"
  have "distinct (map at_id (attachments (bk_store leased_bucket)))" "?a \<in> set (attachments (bk_store leased_bucket))"
    "attachment_owned (ca_id ?ca) (ca_leaseToken ?ca) ?a" "0 < ca_attemptCount ?ca" "iw_meanwhile quick_ingest = (\<lambda>b. b)" "at_id ?a = ''a1''"
    by (simp_all add: leased_bucket_def attachment_owned_def lease_attachment_def claimed_attachment_of_def quick_ingest_def
        inbound_sample_def sample_upload_def)
  with owned_attempt_settles [OF prod.collapse [symmetric], of quick_ingest leased_bucket ?a ?ca storage_env] show ?thesis
    by auto
qed

text \<open>An attempt that lost its lease destroys the object of the row. The worker that took the row over has
  stored the bytes under the key of the row and finished; the late worker stores them again under the
  same key, finds that the lease is gone and leaves a tombstone for the key. The row says that the
  attachment is stored, and the cycle that reaps the tombstone removes its only object.\<close>

theorem lost_lease_destroys_stored_object:
  assumes "fetch_attachment env w ca = Inr body" and "resolveAttachmentStorageConfig env = Inr config" and "iw_put w = None"
    and "count_where (attachment_owned (ca_id ca) (ca_leaseToken ca)) (attachments (bk_store (iw_meanwhile w b))) = 0"
    and "a \<in> set (attachments (bk_store (iw_meanwhile w b)))" and "at_state a = STORED" and "at_storageKey a = ca_storageKey ca"
    and "snd (attempt_ingest env w ca b) = late"
    and "rw_delete rw n = None" and "rw_between rw n = (\<lambda>b. b)" and "ts_storageKey ct = at_storageKey a"
  shows "at_storageKey a \<in> tb_storageKey ` set (tombstones (bk_store late))
    \<and> a \<in> set (attachments (bk_store (snd (reap_one env rw n ct late))))
    \<and> bk_objects (snd (reap_one env rw n ct late)) (at_storageKey a) = None"
proof -
  have late: "bk_store late = deleteStoredObject (ca_storageKey ca) (bk_store (iw_meanwhile w b))"
    using attempt_ingest_lost [OF assms(1-4)] assms(8) by simp
  then show ?thesis
    using assms(5,7,11) reap_one_deletes [OF assms(2,9,10), of ct late] by (simp add: drop_tombstone_def)
qed

theorem lost_lease_destroys_stored_object_witness:
  "\<exists>ct rw a. a \<in> set (attachments (bk_store (snd (reap_one storage_env rw 0 ct
       (snd (attempt_ingest storage_env slow_ingest (claimed_attachment_of ''t1'' inbound_sample) leased_bucket))))))
    \<and> at_state a = STORED
    \<and> bk_objects (snd (reap_one storage_env rw 0 ct
       (snd (attempt_ingest storage_env slow_ingest (claimed_attachment_of ''t1'' inbound_sample) leased_bucket)))) (at_storageKey a) = None"
proof -
  let ?ca = "claimed_attachment_of ''t1'' inbound_sample"
  let ?b = "iw_meanwhile slow_ingest leased_bucket"
  let ?a = "hd (attachments (bk_store ?b))"
  let ?rw = "\<lparr>rw_started = 0, rw_token = ''t'', rw_now = 0, rw_locked = (\<lambda>i. False), rw_delete = (\<lambda>n. None), rw_gone = (\<lambda>n. True),
      rw_between = (\<lambda>n b. b), rw_later = (\<lambda>n. 0)\<rparr>"
  let ?ct = "\<lparr>ts_id = ''id'', ts_storageKey = at_storageKey ?a, ts_leaseToken = ''t'', ts_attemptCount = 1\<rparr>"
  have f: "fetch_attachment storage_env slow_ingest ?ca = Inr ''bytes''" by code_simp
  have c: "resolveAttachmentStorageConfig storage_env = Inr (case resolveAttachmentStorageConfig storage_env of Inr c \<Rightarrow> c)"
    by code_simp
  have p: "iw_put slow_ingest = None" by (simp add: slow_ingest_def quick_ingest_def)
  have n: "count_where (attachment_owned (ca_id ?ca) (ca_leaseToken ?ca)) (attachments (bk_store ?b)) = 0" by code_simp
  have a: "attachments (bk_store ?b) \<noteq> []" "at_state ?a = STORED" "at_storageKey ?a = ca_storageKey ?ca" by code_simp+
  have i: "?a \<in> set (attachments (bk_store ?b))" using a(1) by simp
  from lost_lease_destroys_stored_object [OF f c p n i a(2,3) refl, of ?rw 0 ?ct]
  have "?a \<in> set (attachments (bk_store (snd (reap_one storage_env ?rw 0 ?ct (snd (attempt_ingest storage_env slow_ingest ?ca leased_bucket))))))"
    "bk_objects (snd (reap_one storage_env ?rw 0 ?ct (snd (attempt_ingest storage_env slow_ingest ?ca leased_bucket)))) (at_storageKey ?a) = None"
    by simp_all
  with a(2) show ?thesis by blast
qed

text \<open>Between the deletion of an object and the cleanup of its tombstone a late attempt may store the object
  again: its own tombstone is skipped as a duplicate, the cleanup drops the one there is, and an object
  without a row stays in the store for good.\<close>

definition orphan_tombstone :: tombstone where
  "orphan_tombstone = \<lparr>tb_id = ''x'', tb_storageKey = ''k1'', tb_attemptCount = 1, tb_nextAttemptAt = 0, tb_leaseToken = Some ''t'',
     tb_leaseUntil = Some 60000, tb_lastErrorCode = None\<rparr>"

lemma put_during_reaping_leaks:
  "let b = snd (reap_one storage_env
       \<lparr>rw_started = 0, rw_token = ''t'', rw_now = 0, rw_locked = (\<lambda>i. False), rw_delete = (\<lambda>n. None), rw_gone = (\<lambda>n. True),
        rw_between = (\<lambda>n b. snd (attempt_ingest storage_env quick_ingest (claimed_attachment_of ''t1'' inbound_sample) b)), rw_later = (\<lambda>n. 0)\<rparr>
       0 \<lparr>ts_id = ''x'', ts_storageKey = ''k1'', ts_leaseToken = ''t'', ts_attemptCount = 1\<rparr>
       \<lparr>bk_store = empty_store\<lparr>tombstones := [orphan_tombstone]\<rparr>, bk_objects = (\<lambda>k. None)\<rparr>)
   in bk_objects b ''k1'' = Some ''bytes'' \<and> attachments (bk_store b) = [] \<and> tombstones (bk_store b) = []"
  by code_simp

end
