(* ===== verification/Object_Lifetime.thy ===== *)
theory Object_Lifetime
  imports Attachment_Store
begin

text \<open>
  The life of stored objects, across the components that touch them: the projection of inbound
  attachments, the ingest worker, uploads, the deletion of conversations with its trigger, and the
  reaper. Jobs run one after the other here; only an attempt of the ingest worker may come at any time
  after its claim, so it may find its lease gone and its row deleted. The books say who accounts for an
  object: the row it belongs to, or the tombstone that will remove it.
\<close>

section \<open>The books\<close>

definition rows_of :: "store \<Rightarrow> (uuid \<times> string) set" where
  "rows_of s = (\<lambda>a. (at_id a, at_storageKey a)) ` set (attachments s)"

definition stones_of :: "store \<Rightarrow> (uuid \<times> string) set" where
  "stones_of s = (\<lambda>t. (tb_id t, tb_storageKey t)) ` set (tombstones s)"

definition claims_of :: "claimed_attachment list \<Rightarrow> (uuid \<times> string) set" where
  "claims_of fl = (\<lambda>ca. (ca_id ca, ca_storageKey ca)) ` set fl"

text \<open>\<open>F\<close> are the ids and keys of claims that were handed out, \<open>K\<close> the keys to account for.\<close>

definition books :: "(uuid \<times> string) set \<Rightarrow> string set \<Rightarrow> store \<Rightarrow> bool" where
  "books F K s \<longleftrightarrow>
     ids_fresh s (fst ` (rows_of s \<union> stones_of s \<union> F)) \<and> single_valued (rows_of s \<union> F) \<and> single_valued (stones_of s)
     \<and> K \<subseteq> snd ` (rows_of s \<union> stones_of s)"

lemma books_mono:
  assumes "books F K s" "rows_of t \<subseteq> rows_of s" "stones_of t \<subseteq> stones_of s" "id_source t = id_source s"
    "id_count s \<le> id_count t" "K' \<subseteq> snd ` (rows_of t \<union> stones_of t)"
  shows "books F K' t"
proof -
  have "ids_fresh t (fst ` (rows_of t \<union> stones_of t \<union> F))"
    using assms(1-5) unfolding books_def ids_fresh_def by (auto intro: order_trans)
  moreover have "single_valued (rows_of t \<union> F)" "single_valued (stones_of t)"
    using assms(1-3) unfolding books_def by (auto intro: single_valued_subset [rotated])
  ultimately show ?thesis using assms(6) by (simp add: books_def)
qed

lemma books_same:
  "books F K s \<Longrightarrow> rows_of t = rows_of s \<Longrightarrow> stones_of t = stones_of s \<Longrightarrow> id_source t = id_source s \<Longrightarrow>
     id_count s \<le> id_count t \<Longrightarrow> books F K t"
  by (rule books_mono) (auto simp: books_def)

lemma books_smaller: "books F K s \<Longrightarrow> K' \<subseteq> K \<Longrightarrow> books F K' s"
  unfolding books_def by blast

lemma single_valued_insert: "single_valued R \<Longrightarrow> i \<notin> fst ` R \<Longrightarrow> single_valued (insert (i, k) R)"
  by (auto simp: single_valued_def image_iff)

lemma fresh_id: "books F K s \<Longrightarrow> id_source s (id_count s) \<notin> fst ` (rows_of s \<union> stones_of s \<union> F)"
  unfolding books_def ids_fresh_def by blast

lemma fresh_after:
  "ids_fresh s X \<Longrightarrow> id_source t = id_source s \<Longrightarrow> id_count t = Suc (id_count s) \<Longrightarrow>
     ids_fresh t (insert (id_source s (id_count s)) X)"
  by (auto simp: ids_fresh_def dest: injD)

lemma books_stone:
  assumes "books F K s" "rows_of t = rows_of s" "stones_of t = insert (id_source s (id_count s), k) (stones_of s)"
    "id_source t = id_source s" "id_count t = Suc (id_count s)"
  shows "books F (insert k K) t"
proof -
  have "ids_fresh t (insert (id_source s (id_count s)) (fst ` (rows_of s \<union> stones_of s \<union> F)))"
    using assms(1,4,5) fresh_after unfolding books_def by blast
  moreover have "single_valued (stones_of t)"
    unfolding assms(3) using assms(1) fresh_id [OF assms(1)]
    by (intro single_valued_insert) (auto simp: books_def image_Un)
  ultimately show ?thesis using assms(1) by (auto simp: books_def assms(2,3))
qed

lemma books_row:
  assumes "books F K s" "stones_of t = stones_of s" "rows_of t = insert (id_source s (id_count s), k) (rows_of s)"
    "id_source t = id_source s" "id_count t = Suc (id_count s)"
  shows "books F (insert k K) t"
proof -
  have "ids_fresh t (insert (id_source s (id_count s)) (fst ` (rows_of s \<union> stones_of s \<union> F)))"
    using assms(1,4,5) fresh_after unfolding books_def by blast
  moreover have "single_valued (insert (id_source s (id_count s), k) (rows_of s \<union> F))"
    using assms(1) fresh_id [OF assms(1)] by (intro single_valued_insert) (auto simp: books_def image_Un)
  ultimately show ?thesis using assms(1) by (auto simp: books_def assms(2,3))
qed

section \<open>What keeps the books\<close>

lemma books_deleteStoredObject: "books F K s \<Longrightarrow> books F (insert k K) (deleteStoredObject k s)"
proof (cases "k \<in> tb_storageKey ` set (tombstones s)")
  case True
  assume b: "books F K s"
  have "k \<in> snd ` (rows_of s \<union> stones_of s)" using True by (force simp: stones_of_def)
  with b True show ?thesis
    by (intro books_mono [OF b]) (auto simp: books_def deleteStoredObject_def draw_id_def rows_of_def stones_of_def)
next
  case False
  assume "books F K s"
  then show ?thesis
    by (rule books_stone) (simp_all add: deleteStoredObject_def draw_id_def rows_of_def stones_of_def False)
qed

lemma books_add_tombstones: "books F K s \<Longrightarrow> books F K (add_tombstones as s)"
proof (induction "as" s rule: add_tombstones.induct)
  case (2 a "as" s)
  show ?case
  proof (cases "at_storageKey a \<in> tb_storageKey ` set (tombstones s)")
    case True
    with 2 show ?thesis by simp
  next
    case False
    let ?t = "s\<lparr>id_count := Suc (id_count s), tombstones := tombstones s @
        [\<lparr>tb_id = id_source s (id_count s), tb_storageKey = at_storageKey a, tb_attemptCount = 0, tb_nextAttemptAt = db_now s,
          tb_leaseToken = None, tb_leaseUntil = None, tb_lastErrorCode = None\<rparr>]\<rparr>"
    have "books F (insert (at_storageKey a) K) ?t"
      using 2(3) by (rule books_stone) (simp_all add: rows_of_def stones_of_def)
    then have "books F K ?t" by (rule books_smaller) blast
    with 2(2) False show ?thesis by (simp add: draw_id_def)
  qed
qed simp

lemma stones_add_tombstones_keys:
  "snd ` stones_of (add_tombstones as s) = snd ` stones_of s \<union> at_storageKey ` set as"
  using add_tombstones_keys [of "as" s] by (simp add: stones_of_def image_image)

text \<open>Rows go when their tombstones are there.\<close>

lemma books_remove_rows:
  assumes "books F K s" and "attachments t = delete_where P (attachments s)" and "tombstones t = tombstones (add_tombstones (filter P (attachments s)) s)"
    and "id_source t = id_source s" and "id_count (add_tombstones (filter P (attachments s)) s) \<le> id_count t"
  shows "books F K t"
proof -
  let ?s1 = "add_tombstones (filter P (attachments s)) s"
  have b: "books F K ?s1" using assms(1) by (rule books_add_tombstones)
  have rows: "rows_of ?s1 = rows_of s" by (simp add: rows_of_def)
  have stones: "stones_of t = stones_of ?s1" by (simp add: stones_of_def assms(3))
  have "snd ` rows_of s \<subseteq> snd ` rows_of t \<union> at_storageKey ` set (filter P (attachments s))"
    by (auto simp: rows_of_def assms(2) delete_where_def image_image)
  then have keys: "snd ` (rows_of ?s1 \<union> stones_of ?s1) \<subseteq> snd ` (rows_of t \<union> stones_of t)"
    unfolding rows stones image_Un stones_add_tombstones_keys by auto
  show ?thesis
  proof (rule books_mono [OF b])
    show "rows_of t \<subseteq> rows_of ?s1" unfolding rows by (auto simp: rows_of_def assms(2) delete_where_def)
    show "K \<subseteq> snd ` (rows_of t \<union> stones_of t)" using b keys by (auto simp: books_def)
  qed (use assms stones in simp_all)
qed

lemma books_delete_attachments: "books F K s \<Longrightarrow> books F K (delete_attachments P s)"
  by (rule books_remove_rows [where P = P and s = s]) (simp_all add: delete_attachments_def Let_def)

lemma books_delete_messages: "books F K s \<Longrightarrow> books F K (delete_messages P s)"
  by (rule books_remove_rows [where P = "\<lambda>a. in_messages (filter P (messages s)) (at_messageId a)" and s = s])
    (simp_all add: delete_messages_def Let_def)

lemma books_delete_conversations:
  assumes "books F K s"
  shows "books F K (delete_conversations P s)"
proof -
  let ?P = "\<lambda>m. case ms_conversationId m of None \<Rightarrow> False | Some i \<Rightarrow> i \<in> cv_id ` set (filter P (conversations s))"
  show ?thesis
    by (rule books_same [OF books_delete_messages [OF assms, of ?P]])
      (simp_all add: delete_conversations_def Let_def rows_of_def stones_of_def del: set_filter)
qed

lemma append_count: "appendConversationEvent env input s = (r, t) \<Longrightarrow> id_count s \<le> id_count t"
  by (auto simp: appendConversationEvent_def insert_event_def draw_id_def Let_def split: sum.splits if_splits option.splits)

lemma books_append: "io_keeps (books F K) (appendConversationEvent env input)"
  unfolding io_keeps_def
proof (intro allI impI)
  fix s assume b: "books F K s"
  obtain r t where run: "appendConversationEvent env input s = (r, t)" by fastforce
  have "books F K t"
    by (rule books_same [OF b]) (use append_frame [OF run] append_count [OF run] in \<open>simp_all add: rows_of_def stones_of_def\<close>)
  with run show "books F K (snd (appendConversationEvent env input s))" by simp
qed

lemma books_delete_transaction: "io_keeps (books F K) (delete_transaction env now i)"
  unfolding delete_transaction_def
proof (rule transaction_lambda_keeps)
  fix s assume s: "books F K s"
  have drop: "books F K (drop_events i kept s)" if "books F K s" for kept s
    by (rule books_same [OF that]) (simp_all add: drop_events_def Let_def rows_of_def stones_of_def)
  have "io_keeps (books F K) (io_bind (appendConversationEvent env (plain_event i DELETED now OperatorActor ''manual_delete'')) (\<lambda>event.
      io_bind (io_modify (drop_events i (map_option ep_id event))) (\<lambda>_.
      io_bind (io_modify (delete_conversations (\<lambda>c. cv_id c = i))) (\<lambda>_. io_return True))))"
    by (intro keeps_intros books_append drop books_delete_conversations)
  with s show "books F K (snd (case find_by cv_id i (conversations s) of
      None \<Rightarrow> (Inr False, s)
    | Some current \<Rightarrow>
        io_bind (appendConversationEvent env (plain_event i DELETED now OperatorActor ''manual_delete'')) (\<lambda>event.
        io_bind (io_modify (drop_events i (map_option ep_id event))) (\<lambda>_.
        io_bind (io_modify (delete_conversations (\<lambda>c. cv_id c = i))) (\<lambda>_. io_return True))) s))"
    by (auto simp: io_keeps_def split: option.split)
qed

lemma books_insert_inbound: "books F K s \<Longrightarrow> books F K (snd (insert_inbound env m e srcs n s))"
proof (induction env m e srcs n s rule: insert_inbound.induct)
  case (2 env messageId resendEmailId src srcs n s)
  let ?row = "inbound_row env messageId resendEmailId (id_source s (id_count s)) src (db_now s)"
  let ?s1 = "s\<lparr>id_count := Suc (id_count s)\<rparr>"
  have skip: "books F K ?s1" by (rule books_same [OF 2(3)]) (simp_all add: rows_of_def stones_of_def)
  have "books F (insert (at_storageKey ?row) K) (?s1\<lparr>attachments := attachments s @ [?row]\<rparr>)"
    by (rule books_row [OF 2(3)]) (simp_all add: rows_of_def stones_of_def inbound_row_def)
  then have keep: "books F K (?s1\<lparr>attachments := attachments s @ [?row]\<rparr>)" by (rule books_smaller) blast
  show ?case
    using 2(1,2) skip keep by (auto simp: draw_id_def Let_def)
qed simp

lemma books_inbound: "io_keeps (books F K) (projectInboundAttachments env storageIds m e atts)"
  unfolding io_keeps_def projectInboundAttachments_def Let_def case_prod_unfold
  by (auto intro: books_insert_inbound)

text \<open>Statements that leave ids and keys alone.\<close>

lemma image_update_key: "(\<And>r. h (f r) = h r) \<Longrightarrow> h ` set (update_where P f rs) = h ` set rs"
  by (induction rs) auto

lemma rows_update_where:
  "(\<And>a. at_id (f a) = at_id a \<and> at_storageKey (f a) = at_storageKey a) \<Longrightarrow>
     rows_of (s\<lparr>attachments := update_where P f (attachments s)\<rparr>) = rows_of s"
  by (simp add: rows_of_def image_update_key)

lemma stones_update_where:
  "(\<And>t. tb_id (f t) = tb_id t \<and> tb_storageKey (f t) = tb_storageKey t) \<Longrightarrow>
     stones_of (s\<lparr>tombstones := update_where P f (tombstones s)\<rparr>) = stones_of s"
  by (simp add: stones_of_def image_update_key)

lemma books_attachment_update:
  assumes "books F K s" "\<And>a. at_id (f a) = at_id a \<and> at_storageKey (f a) = at_storageKey a"
  shows "books F K (s\<lparr>attachments := update_where P f (attachments s)\<rparr>)"
  using assms(2) by (intro books_same [OF assms(1)] rows_update_where) (simp_all add: stones_of_def)

lemma books_tombstone_update:
  assumes "books F K s" "\<And>t. tb_id (f t) = tb_id t \<and> tb_storageKey (f t) = tb_storageKey t"
  shows "books F K (s\<lparr>tombstones := update_where P f (tombstones s)\<rparr>)"
  using assms(2) by (intro books_same [OF assms(1)] stones_update_where) (simp_all add: rows_of_def)

lemma books_claim:
  assumes "books F K s" and "claimPendingAttachments token now locked s = (Inr cs, t)"
  shows "books (claims_of cs \<union> F) K t"
proof -
  let ?rows = "claimable_attachments now locked s"
  have run: "cs = map (claimed_attachment_of token) ?rows"
    "t = s \<or> t = s\<lparr>attachments := update_where (\<lambda>a. at_id a \<in> set (map at_id ?rows)) (lease_attachment token (now + INGEST_LEASE_MS)) (attachments s)\<rparr>"
    using transaction_InrD [OF assms(2) [unfolded claimPendingAttachments_def]] by (auto simp: Let_def split: if_splits)
  have t: "books F K t"
    using run(2) assms(1) by (auto intro!: books_attachment_update simp: lease_attachment_def)
  have same: "rows_of t = rows_of s" using run(2) by (auto simp: rows_update_where lease_attachment_def)
  have "set ?rows \<subseteq> set (attachments s)" by (auto simp: claimable_attachments_def dest: in_set_takeD)
  then have "claims_of cs \<subseteq> rows_of s" by (auto simp: run(1) claims_of_def rows_of_def claimed_attachment_of_def)
  then have "rows_of t \<union> (claims_of cs \<union> F) = rows_of t \<union> F" "rows_of t \<union> stones_of t \<union> (claims_of cs \<union> F) = rows_of t \<union> stones_of t \<union> F"
    unfolding same by blast+
  with t show ?thesis by (simp only: books_def)
qed

section \<open>The jobs\<close>

definition held :: "bucket \<Rightarrow> string set" where
  "held b = {k. bk_objects b k \<noteq> None}"

definition bucket_books :: "bucket \<times> claimed_attachment list \<Rightarrow> bool" where
  "bucket_books st \<longleftrightarrow> books (claims_of (snd st)) (held (fst st)) (bk_store (fst st))"

lemma books_finish_ingest:
  assumes "books F K s" and "(ca_id ca, ca_storageKey ca) \<in> F"
  shows "books F (insert (ca_storageKey ca) K) (snd (finish_ingest ca body checksum s))"
proof -
  let ?owned = "attachment_owned (ca_id ca) (ca_leaseToken ca)"
  let ?s1 = "s\<lparr>attachments := update_where ?owned (store_row body checksum) (attachments s)\<rparr>"
  have s1: "books F K ?s1" by (rule books_attachment_update [OF assms(1)]) (simp add: store_row_def)
  show ?thesis
  proof (cases "count_where ?owned (attachments s) = 1")
    case True
    then have "0 < count_where ?owned (attachments s)" by linarith
    then obtain a where a: "a \<in> set (attachments s)" "at_id a = ca_id ca"
      by (auto simp: count_where_pos attachment_owned_def)
    then have "(ca_id ca, at_storageKey a) \<in> rows_of s" by (force simp: rows_of_def)
    then have "at_storageKey a = ca_storageKey ca"
      using assms unfolding books_def by (meson UnI1 UnI2 single_valuedD)
    then have "ca_storageKey ca \<in> snd ` rows_of ?s1"
      using a by (subst rows_update_where) (force simp: rows_of_def store_row_def)+
    with s1 True show ?thesis by (auto simp: books_def finish_ingest_def Let_def)
  next
    case False
    with books_deleteStoredObject [OF s1] show ?thesis by (simp add: finish_ingest_def)
  qed
qed

lemma books_failAttachment: "books F K s \<Longrightarrow> books F K (snd (failAttachment now ca e s))"
proof -
  assume s: "books F K s"
  obtain f where "snd (failAttachment now ca e s) =
      s\<lparr>attachments := update_where (attachment_owned (ca_id ca) (ca_leaseToken ca)) f (attachments s)\<rparr>"
    "\<And>a. at_id (f a) = at_id a \<and> at_storageKey (f a) = at_storageKey a"
    using failAttachment_cases [of now ca e s] by metis
  with s show ?thesis by (simp add: books_attachment_update)
qed

lemma books_attempt_ingest:
  assumes "books F (held b) (bk_store b)" and "(ca_id ca, ca_storageKey ca) \<in> F" and "iw_meanwhile w = (\<lambda>b. b)"
  shows "books F (held (snd (attempt_ingest env w ca b))) (bk_store (snd (attempt_ingest env w ca b)))"
proof -
  obtain r b1 where run: "ingest env w ca b = (r, b1)" by fastforce
  have "books F (held b1) (bk_store b1)"
  proof (cases "fetch_attachment env w ca")
    case (Inl e)
    with run assms show ?thesis by (auto simp: ingest_def)
  next
    case body: (Inr body)
    show ?thesis
    proof (cases "(\<exists>config. resolveAttachmentStorageConfig env = Inr config) \<and> iw_put w = None")
      case True
      let ?b = "b\<lparr>bk_objects := (bk_objects b)(ca_storageKey ca := Some body)\<rparr>"
      have "b1 = ?b\<lparr>bk_store := snd (finish_ingest ca body (iw_sha256 w body) (bk_store b))\<rparr>"
        using run body True assms(3) by (auto simp: ingest_def storage_put_def case_prod_unfold)
      moreover have "held b1 = insert (ca_storageKey ca) (held b)" unfolding calculation by (auto simp: held_def)
      ultimately show ?thesis using books_finish_ingest [OF assms(1,2)] by simp
    next
      case False
      then have "b1 = b" using run body assms(3)
        by (auto simp: ingest_def storage_put_def split: sum.splits option.splits)
      with assms(1) show ?thesis by simp
    qed
  qed
  with run books_failAttachment show ?thesis
    by (cases r) (auto simp: attempt_ingest_def held_def case_prod_unfold)
qed

lemma books_upload:
  assumes "books F (held b) (bk_store b)"
  shows "books F (held (snd (upload_post env w request body b))) (bk_store (snd (upload_post env w request body b)))"
proof -
  have "books F (held (snd (store_upload env w fn ct body b))) (bk_store (snd (store_upload env w fn ct body b)))" for fn ct
  proof (cases "(\<exists>config. resolveAttachmentStorageConfig env = Inr config) \<and> uw_put w = None")
    case True
    let ?key = "buildStorageKey env (uw_storageId w)"
    let ?row = "upload_row fn ct body (uw_sha256 w body) ?key (id_source (bk_store b) (id_count (bk_store b))) (db_now (bk_store b))"
    let ?s1 = "(bk_store b)\<lparr>id_count := Suc (id_count (bk_store b))\<rparr>"
    let ?b = "snd (store_upload env w fn ct body b)"
    have held: "held ?b = insert ?key (held b)"
      using True by (auto simp: store_upload_def storage_put_def held_def Let_def split: sum.splits prod.splits)
    have "bk_store ?b = deleteStoredObject ?key ?s1 \<or> bk_store ?b = ?s1\<lparr>attachments := attachments (bk_store b) @ [?row]\<rparr>"
      using True by (auto simp: store_upload_def storage_put_def insert_upload_def draw_id_def Let_def)
    moreover have "books F (insert ?key (held b)) (deleteStoredObject ?key ?s1)"
      by (intro books_deleteStoredObject books_same [OF assms]) (simp_all add: rows_of_def stones_of_def)
    moreover have "books F (insert ?key (held b)) (?s1\<lparr>attachments := attachments (bk_store b) @ [?row]\<rparr>)"
      by (rule books_row [OF assms]) (simp_all add: rows_of_def stones_of_def upload_row_def)
    ultimately show ?thesis unfolding held by auto
  next
    case False
    then have "snd (store_upload env w fn ct body b) = b"
      by (auto simp: store_upload_def storage_put_def Let_def split: sum.splits option.splits)
    with assms show ?thesis by simp
  qed
  with assms show ?thesis by (auto simp: upload_post_def Let_def split: option.split)
qed

text \<open>The reaper: what the object store says is true, and a removed tombstone leaves no object.\<close>

definition truthful :: "reap_world \<Rightarrow> bool" where
  "truthful w \<longleftrightarrow> rw_between w = (\<lambda>n b. b)
     \<and> (\<forall>n e. rw_delete w n = Some e \<longrightarrow> sf_notFound (storage_fault_of ''storage_delete'' e) \<longrightarrow> rw_gone w n)"

definition matches :: "claimed_tombstone \<Rightarrow> store \<Rightarrow> bool" where
  "matches ct s \<longleftrightarrow> (\<forall>k. (ts_id ct, k) \<in> stones_of s \<longrightarrow> k = ts_storageKey ct)"

lemma books_drop_tombstone:
  assumes "books F K s" and "matches ct s"
  shows "books F (K - {ts_storageKey ct}) (drop_tombstone ct s)" "stones_of (drop_tombstone ct s) \<subseteq> stones_of s"
proof -
  let ?t = "drop_tombstone ct s"
  have rows: "rows_of ?t = rows_of s" by (simp add: rows_of_def drop_tombstone_def)
  show sub: "stones_of ?t \<subseteq> stones_of s" by (auto simp: stones_of_def drop_tombstone_def delete_where_def)
  have "stones_of s \<subseteq> stones_of ?t \<union> {(ts_id ct, ts_storageKey ct)}"
  proof
    fix p assume "p \<in> stones_of s"
    then obtain t where t: "t \<in> set (tombstones s)" "p = (tb_id t, tb_storageKey t)" by (auto simp: stones_of_def)
    show "p \<in> stones_of ?t \<union> {(ts_id ct, ts_storageKey ct)}"
    proof (cases "tb_id t = ts_id ct")
      case True
      then have "tb_storageKey t = ts_storageKey ct" using assms(2) t by (force simp: matches_def stones_of_def)
      with True t(2) show ?thesis by simp
    next
      case False
      then have "t \<in> set (tombstones ?t)" using t(1) by (simp add: drop_tombstone_def delete_where_def tombstone_owned_def)
      with t(2) show ?thesis by (auto simp: stones_of_def)
    qed
  qed
  then have "snd ` stones_of s \<subseteq> snd ` stones_of ?t \<union> {ts_storageKey ct}" by (auto dest!: subsetD)
  moreover have "K \<subseteq> snd ` rows_of s \<union> snd ` stones_of s" using assms(1) by (simp add: books_def image_Un)
  ultimately have "K - {ts_storageKey ct} \<subseteq> snd ` (rows_of ?t \<union> stones_of ?t)" unfolding rows image_Un by blast
  then show "books F (K - {ts_storageKey ct}) ?t"
    using sub rows by (intro books_mono [OF assms(1)]) (simp_all add: drop_tombstone_def)
qed

lemma reap_one_books:
  assumes "books F (held b) (bk_store b)" and "matches ct (bk_store b)" and "truthful w"
  shows "books F (held (snd (reap_one env w n ct b))) (bk_store (snd (reap_one env w n ct b)))"
    "stones_of (bk_store (snd (reap_one env w n ct b))) \<subseteq> stones_of (bk_store b)"
proof -
  let ?removed = "b\<lparr>bk_objects := (bk_objects b)(ts_storageKey ct := None)\<rparr>"
  let ?retry = "\<lambda>e c. c\<lparr>bk_store := retryTombstone (rw_later w n) ct e (bk_store c)\<rparr>"
  have cases: "snd (reap_one env w n ct b) = ?removed\<lparr>bk_store := drop_tombstone ct (bk_store b)\<rparr>
      \<or> (\<exists>e. snd (reap_one env w n ct b) = ?retry e b) \<or> (\<exists>e. snd (reap_one env w n ct b) = ?retry e ?removed)"
    using assms(3) by (auto simp: reap_one_def storage_delete_def truthful_def Let_def split: sum.splits option.splits prod.splits)
  have less: "held ?removed = held b - {ts_storageKey ct}" by (auto simp: held_def)
  have same: "held (c\<lparr>bk_store := x\<rparr>) = held c" for c x by (simp add: held_def)
  have retry: "books F K (retryTombstone now ct e s)" if "books F K s" for K now e s
    unfolding retryTombstone_def by (rule books_tombstone_update [OF that]) simp
  have stones: "stones_of (retryTombstone now ct e s) = stones_of s" for now e s
    unfolding retryTombstone_def by (rule stones_update_where) simp
  show "books F (held (snd (reap_one env w n ct b))) (bk_store (snd (reap_one env w n ct b)))"
    using cases books_drop_tombstone(1) [OF assms(1,2)] retry [OF assms(1)] retry [OF books_smaller [OF assms(1)], of "held ?removed"]
    by (elim disjE exE) (auto simp: same less)
  show "stones_of (bk_store (snd (reap_one env w n ct b))) \<subseteq> stones_of (bk_store b)"
    using cases books_drop_tombstone(2) [OF assms(1,2)] by (elim disjE exE) (auto simp: stones)
qed

lemma reap_each_books:
  "books F (held b) (bk_store b) \<Longrightarrow> \<forall>ct \<in> set cts. matches ct (bk_store b) \<Longrightarrow> truthful w \<Longrightarrow>
     books F (held (snd (reap_each env w n cts r b))) (bk_store (snd (reap_each env w n cts r b)))"
proof (induction cts arbitrary: n r b)
  case (Cons ct cts)
  obtain ok b1 where run: "reap_one env w n ct b = (ok, b1)" by fastforce
  have "books F (held b1) (bk_store b1)" "stones_of (bk_store b1) \<subseteq> stones_of (bk_store b)"
    using reap_one_books [of F b ct w env n] Cons.prems run by simp_all
  moreover from this have "\<forall>ct \<in> set cts. matches ct (bk_store b1)" using Cons.prems(2) by (auto simp: matches_def)
  ultimately show ?case using Cons.IH [of b1] Cons.prems(3) run by (cases ok) simp_all
qed simp

lemma books_reaper_drain:
  assumes "books F (held b) (bk_store b)" and "truthful w"
  shows "books F (held (snd (reaper_drain env w wk b))) (bk_store (snd (reaper_drain env w wk b)))"
proof (cases "idle_cycle wk")
  case True
  with assms(1) show ?thesis by (simp add: reaper_drain_def)
next
  case False
  let ?s1 = "delete_attachments (abandoned (rw_started w)) (bk_store b)"
  let ?rows = "claimable_tombstones (rw_now w) (rw_locked w) ?s1"
  let ?s2 = "snd (claimTombstones (rw_token w) (rw_now w) (rw_locked w) ?s1)"
  have s1: "books F (held b) ?s1" using assms(1) by (rule books_delete_attachments)
  have s2: "books F (held b) ?s2" "stones_of ?s2 = stones_of ?s1"
    using s1 by (auto simp: claimTombstones_def Let_def lease_tombstone_def stones_update_where intro!: books_tombstone_update)
  have "set ?rows \<subseteq> set (tombstones ?s1)" by (auto simp: claimable_tombstones_def dest: in_set_takeD)
  then have "\<forall>t \<in> set ?rows. (tb_id t, tb_storageKey t) \<in> stones_of ?s1" by (auto simp: stones_of_def)
  then have "\<forall>ct \<in> set (map (claimed_tombstone_of (rw_token w)) ?rows). matches ct ?s2"
    using s1 unfolding s2(2) matches_def books_def by (auto simp: claimed_tombstone_of_def dest: single_valuedD)
  moreover have "held (b\<lparr>bk_store := ?s2\<rparr>) = held b" by (simp add: held_def)
  ultimately show ?thesis
    using reap_each_books [of F "b\<lparr>bk_store := ?s2\<rparr>" "map (claimed_tombstone_of (rw_token w)) ?rows" w] s2(1) assms(2) False
    by (simp add: reaper_drain_def expireUnreferencedUploads_def claimTombstones_def Let_def)
qed

section \<open>Any sequence of jobs\<close>

inductive bucket_step ::
  "environment \<Rightarrow> bucket \<times> claimed_attachment list \<Rightarrow> bucket \<times> claimed_attachment list \<Rightarrow> bool" for env
where
  records: "projectInboundAttachments env storageIds m e atts (bk_store b) = (r, s) \<Longrightarrow>
    bucket_step env (b, fl) (b\<lparr>bk_store := s\<rparr>, fl)"
| claims: "claimPendingAttachments token now locked (bk_store b) = (Inr cs, s) \<Longrightarrow>
    bucket_step env (b, fl) (b\<lparr>bk_store := s\<rparr>, cs @ fl)"
| ingests: "ca \<in> set fl \<Longrightarrow> iw_meanwhile w = (\<lambda>b. b) \<Longrightarrow> attempt_ingest env w ca b = (x, b') \<Longrightarrow>
    bucket_step env (b, fl) (b', fl)"
| uploads: "upload_post env u request body b = (y, b') \<Longrightarrow> bucket_step env (b, fl) (b', fl)"
| deletes: "delete_transaction env now i (bk_store b) = (d, s) \<Longrightarrow> bucket_step env (b, fl) (b\<lparr>bk_store := s\<rparr>, fl)"
| reaps: "truthful v \<Longrightarrow> reaper_drain env v wk b = (z, b') \<Longrightarrow> bucket_step env (b, fl) (b', fl)"

lemma held_store [simp]: "held (b\<lparr>bk_store := s\<rparr>) = held b"
  by (simp add: held_def)

lemma bucket_step_books: "bucket_step env x y \<Longrightarrow> bucket_books x \<Longrightarrow> bucket_books y"
proof (induction rule: bucket_step.induct)
  case (records storageIds m e atts b r s fl)
  then show ?case using io_keepsD [OF books_inbound] by (simp add: bucket_books_def)
next
  case (claims token now locked b cs s fl)
  then show ?case
    using books_claim [of "claims_of fl" "held b" "bk_store b"] by (simp add: bucket_books_def claims_of_def image_Un)
next
  case (ingests ca fl w b x b')
  then have "(ca_id ca, ca_storageKey ca) \<in> claims_of fl" by (auto simp: claims_of_def)
  with ingests show ?case using books_attempt_ingest [of "claims_of fl" b ca w env] by (simp add: bucket_books_def)
next
  case (uploads u request body b y b' fl)
  then show ?case using books_upload [of "claims_of fl" b env u request body] by (simp add: bucket_books_def)
next
  case (deletes now i b d s fl)
  then show ?case using io_keepsD [OF books_delete_transaction] by (simp add: bucket_books_def)
next
  case (reaps v wk b z b' fl)
  then show ?case using books_reaper_drain [of "claims_of fl" b v env wk] by (simp add: bucket_books_def)
qed

section \<open>Property\<close>

definition empty_bucket :: bucket where
  "empty_bucket = \<lparr>bk_store = empty_store, bk_objects = (\<lambda>k. None)\<rparr>"

lemma empty_bucket_books: "bucket_books (empty_bucket, [])"
  using empty_store_ids
  by (simp add: bucket_books_def books_def empty_bucket_def rows_of_def stones_of_def claims_of_def held_def ids_fresh_def
      single_valued_def empty_store_def)

definition upload_env :: environment where
  "upload_env name = (if name = ''EMAIL_V2_API_KEY'' then Some ''secret'' else storage_env name)"

definition sample_upload_request :: http_request where
  "sample_upload_request =
     \<lparr>rq_header = (\<lambda>name. if name = ''authorization'' then Some ''Bearer secret''
        else if name = ''x-attachment-filename'' then Some ''a.txt'' else None), rq_body = None, rq_query = []\<rparr>"

definition sample_uploader :: upload_world where
  "sample_uploader = \<lparr>uw_sha256 = (\<lambda>t. t), uw_put = None, uw_storageId = ''o1''\<rparr>"



end
