(* ===== verification/Operations.thy ===== *)
theory Operations
  imports Scheduler Attachment_Store Event_Runtime Webhook Direct_Email
begin

text \<open>
  The two routes that operate the service: the drain an external scheduler calls
  (\<open>src/routes/emails/v2/outbox/drain/route.ts\<close>) and the health check (\<open>src/routes/health/v2/route.ts\<close>).
  What the drain reads from outside is the \<open>drain_world\<close> of the scheduler, of which it makes one pass;
  the state of the two runtimes and whether the database answers are arguments of the health check.
\<close>

section \<open>The drain\<close>

definition drain_state_name :: "drain_state \<Rightarrow> string" where
  "drain_state_name st =
     (case st of SentAccepted \<Rightarrow> ''accepted'' | SentFailed \<Rightarrow> ''failed'' | SentPending \<Rightarrow> ''pending''
      | SentIndeterminate \<Rightarrow> ''indeterminate'')"

definition drain_item_json :: "drain_item \<Rightarrow> json" where
  "drain_item_json i = JObject
     [(''messageId'', JString (di_messageId i)), (''state'', JString (drain_state_name (di_state i))),
      (''resendEmailId'', nullable (di_resendEmailId i))]"

definition drain_counts :: "drain_result \<Rightarrow> (string \<times> json) list" where
  \<comment> \<open>the members both lanes answer\<close>
  "drain_counts r =
     [(''claimed'', JNumber (int (dn_claimed r))), (''accepted'', JNumber (int (dn_accepted r))),
      (''failed'', JNumber (int (dn_failed r))), (''retryScheduled'', JNumber (int (dn_retryScheduled r))),
      (''indeterminate'', JNumber (int (dn_indeterminate r))), (''results'', JArray (map drain_item_json (dn_results r)))]"

definition email_lane_json :: "drain_result \<Rightarrow> (string \<times> json) list" where
  "email_lane_json r = (''batchId'', nullable (dn_batchId r)) # drain_counts r"

definition drain_limit :: "json \<Rightarrow> reply + nat" where
  \<comment> \<open>\<open>parsed.value.limit ?? 100\<close> and its test\<close>
  "drain_limit body =
     (let rejected = error_reply 400 ''limit must be an integer between 1 and 100''
      in if \<not> isRecord (Some body) then Inl (error_reply 400 ''Request body must be an object'')
         else case member_of (Some body) ''limit'' of
                None \<Rightarrow> Inr 100
              | Some JNull \<Rightarrow> Inr 100
              | Some (JNumber n) \<Rightarrow> if n < 1 \<or> 100 < n then Inl rejected else Inr (nat n)
              | Some _ \<Rightarrow> Inl rejected)"

definition one_drain :: "nat \<Rightarrow> drain_schedule" where
  \<comment> \<open>a pass of the lanes with this limit\<close>
  "one_drain limit = \<lparr>sch_expression = [], sch_timezone = [], sch_batchSize = limit, sch_maxBatches = 1\<rparr>"

definition drain_lanes :: "environment \<Rightarrow> drain_world \<Rightarrow> nat \<Rightarrow> reply io" where
  \<comment> \<open>the try block\<close>
  "drain_lanes env w limit =
     io_bind (email_pass env w (one_drain limit) 0) (\<lambda>result.
       if \<not> attachmentsEnabled env then io_return (json_reply 200 (JObject (email_lane_json result)))
       else io_bind (attachment_pass env w (one_drain limit) 0) (\<lambda>atts.
         io_return (json_reply 200 (JObject (email_lane_json result @ [(''attachments'', JObject (drain_counts atts))])))))"

definition drain_post :: "environment \<Rightarrow> (string \<Rightarrow> string) \<Rightarrow> drain_world \<Rightarrow> http_request \<Rightarrow> reply io" where
  "drain_post env sha256 w request =
     or_reply (case authorizeOutboxDrain sha256 env request of Some r \<Rightarrow> Inl r | None \<Rightarrow> Inr ()) (\<lambda>_.
     or_reply (readJson request) (\<lambda>body.
     or_reply (drain_limit body) (\<lambda>limit s.
       (case drain_lanes env w limit s of
          (Inl e, t) \<Rightarrow> (Inr (error_reply 500 ''Failed to drain email outbox''), t)
        | (Inr r, t) \<Rightarrow> (Inr r, t)))))"

section \<open>The health check\<close>

record health_world =
  hl_events :: "(event_sink list \<times> event_runtime) option" \<comment> \<open>\<open>None\<close> while the runtime is not started\<close>
  hl_ingest :: "worker option"
  hl_database :: bool

definition conversationEventRuntimeHealthy :: "health_world \<Rightarrow> bool" where
  "conversationEventRuntimeHealthy h = (case hl_events h of None \<Rightarrow> True | Some (sinks, rt) \<Rightarrow> isHealthy sinks rt)"

definition attachmentIngestRuntimeHealthy :: "health_world \<Rightarrow> bool" where
  "attachmentIngestRuntimeHealthy h = (case hl_ingest h of None \<Rightarrow> True | Some wk \<Rightarrow> ingest_isHealthy wk)"

definition attachmentStorageConfigured :: "environment \<Rightarrow> bool" where
  "attachmentStorageConfigured env \<longleftrightarrow>
     \<not> attachmentsEnabled env \<or>
     truthy (env ''ATTACHMENTS_S3_BUCKET'') \<and> truthy (env ''ATTACHMENTS_S3_REGION'')
       \<and> truthy (env ''ATTACHMENTS_S3_ACCESS_KEY_ID'') \<and> truthy (env ''ATTACHMENTS_S3_SECRET_ACCESS_KEY'')"

definition service_configured :: "environment \<Rightarrow> bool" where
  \<comment> \<open>the tests of the environment alone\<close>
  "service_configured env \<longleftrightarrow>
     truthy (env ''DATABASE_URL'') \<and> truthy (env ''RESEND_API_KEY'') \<and> truthy (env ''RESEND_WEBHOOK_SECRET'')
     \<and> (case keep_truthy (env ''RESEND_REPLY_TO'') of None \<Rightarrow> False | Some a \<Rightarrow> isValidReplyToBaseAddress a)
     \<and> truthy (resolveEmailV2ApiKey env) \<and> truthy (env ''OUTBOX_DRAIN_API_KEY'') \<and> attachmentStorageConfigured env"

definition unhealthy_reply :: reply where
  "unhealthy_reply = json_reply 503 (JObject [(''status'', JString ''unhealthy'')])"

definition health_get :: "environment \<Rightarrow> health_world \<Rightarrow> string \<Rightarrow> reply" where
  "health_get env h search =
     (if search \<noteq> [] then error_reply 400 ''Health check does not accept query parameters''
      else if \<not> service_configured env \<or> \<not> conversationEventRuntimeHealthy h \<or> \<not> attachmentIngestRuntimeHealthy h
      then unhealthy_reply
      else if hl_database h then json_reply 200 (JObject [(''status'', JString ''ok'')])
      else unhealthy_reply)"

section \<open>Lemmas\<close>

lemma drain_limit_bounds: "drain_limit body = Inr limit \<Longrightarrow> 1 \<le> limit \<and> limit \<le> 100"
  by (auto simp: drain_limit_def Let_def split: if_splits option.splits json.splits)

lemma health_ok_configured:
  assumes "rp_status (health_get env h search) = 200"
  shows "service_configured env"
  using assms
  by (auto simp: health_get_def unhealthy_reply_def json_reply_def error_reply_def split: if_splits)

lemma authorize_configured:
  "truthy expected \<Longrightarrow> authorizeWithCredential sha256 request expected \<noteq> Some misconfigured_reply"
  by (auto simp: authorizeWithCredential_def keep_truthy_def truthy_def Let_def unauthorized_reply_def misconfigured_reply_def
      error_reply_def json_reply_def split: option.splits)

text \<open>A drain hands over no more than its limit, whatever the request asks for: the lanes are run with the
  limit the check let through.\<close>

lemma drain_post_bounded:
  assumes "drain_post env sha256 w request s = (Inr r, t)" and "rp_status r = 200"
  shows "authorizeOutboxDrain sha256 env request = None
    \<and> (\<exists>body limit. rq_body request = Some body \<and> drain_limit body = Inr limit \<and> 1 \<le> limit \<and> limit \<le> 100
        \<and> drain_lanes env w limit s = (Inr r, t))"
proof (cases "authorizeOutboxDrain sha256 env request")
  case (Some answer)
  then have "rp_status answer \<noteq> 200"
    by (auto simp: authorizeOutboxDrain_def authorizeWithCredential_def Let_def unauthorized_reply_def misconfigured_reply_def
        error_reply_def json_reply_def split: option.splits if_splits)
  with Some assms show ?thesis by (simp add: drain_post_def or_reply_def io_return_def)
next
  case None
  show ?thesis
  proof (cases "rq_body request")
    case None
    with assms \<open>authorizeOutboxDrain sha256 env request = None\<close> show ?thesis
      by (auto simp: drain_post_def or_reply_def io_return_def readJson_def error_reply_def json_reply_def)
  next
    case (Some body)
    show ?thesis
    proof (cases "drain_limit body")
      case (Inl answer)
      then have "rp_status answer \<noteq> 200"
        by (auto simp: drain_limit_def Let_def error_reply_def json_reply_def split: if_splits option.splits json.splits)
      with Inl Some None assms show ?thesis by (simp add: drain_post_def or_reply_def io_return_def readJson_def)
    next
      case (Inr limit)
      with Some None assms have "drain_lanes env w limit s = (Inr r, t)"
        by (auto simp: drain_post_def or_reply_def readJson_def error_reply_def json_reply_def split: prod.splits sum.splits)
      with Inr Some None drain_limit_bounds [OF Inr] show ?thesis by blast
    qed
  qed
qed

end
