(* ===== verification/Http_Server.thy ===== *)
theory Http_Server
  imports Operations
begin

text \<open>
  \<open>src/server.ts\<close>: the table of routes with their guards, the dispatch of a request to the first route that
  matches, the guards themselves, the adapters and the error handler. The express package is a
  parameter: whether a route's verb and path match a request (with the parameters of the path), and its
  body parser, which reads the body or fails with a typed error. A \<open>service\<close> is the whole state the
  handlers change: the tables, the rows of contacts and domains, the objects of the store.
\<close>

section \<open>Requests, routes and the state\<close>

record incoming =
  im_method :: string
  im_path :: string
  im_search :: string
  im_query :: "(string \<times> string) list"
  im_header :: "string \<Rightarrow> string option"
  im_bytes :: string

datatype verb =
    Verb string
  | AllVerbs \<comment> \<open>\<open>app.all\<close>\<close>
  | Mounted \<comment> \<open>\<open>app.use\<close>\<close>

text \<open>The options of a raw body parser: whether only JSON is read, the limit (a text or a number of
  bytes) and whether compressed bodies are inflated.\<close>

record body_options =
  bo_json :: bool
  bo_limit :: "string + int"
  bo_inflate :: bool

datatype middleware = RequireEmailV2Auth | RequireDrainAuth | RequireIdempotency | RawBody body_options

datatype endpoint =
    HealthV2 | ResendWebhook | DrainEmailOutboxV2 | EnqueueDirectEmailV2 | SendDirectEmailV2
  | UploadAttachmentV2 | DownloadAttachmentV2 | CreateAttachmentDownloadUrlV2
  | EnqueueConversationV2 | GetConversationSummaryV2 | GetConversationByTopicV2 | ListConversationsV2 | CreateConversationV2
  | EnqueueMessageV2 | SendMessageV2 | SetConversationStateV2
  | GetConversationV2 | PatchConversationV2 | DeleteConversationV2
  | StaticFile string | NotFoundReply

record route =
  ro_verb :: verb
  ro_path :: string
  ro_chain :: "middleware list"
  ro_endpoint :: endpoint

definition BODY_LIMIT :: string where "BODY_LIMIT = ''2100kb''"

definition rawBody :: middleware where
  "rawBody = RawBody \<lparr>bo_json = True, bo_limit = Inl BODY_LIMIT, bo_inflate = False\<rparr>"

definition attachmentBody :: "environment \<Rightarrow> middleware" where
  "attachmentBody env = RawBody \<lparr>bo_json = False, bo_limit = Inr (al_maxBytes (resolveAttachmentLimits env)), bo_inflate = False\<rparr>"

definition on :: "verb \<Rightarrow> string \<Rightarrow> middleware list \<Rightarrow> endpoint \<Rightarrow> route" where
  "on verb path chain ep = \<lparr>ro_verb = verb, ro_path = path, ro_chain = chain, ro_endpoint = ep\<rparr>"

definition GET :: verb where "GET = Verb ''GET''"
definition POST :: verb where "POST = Verb ''POST''"

definition operation_routes :: "route list" where
  "operation_routes =
     [on GET ''/api/health/v2'' [] HealthV2,
      on POST ''/api/webhooks/resend/v1'' [rawBody] ResendWebhook,
      on POST ''/api/emails/v2/outbox/drain'' [RequireDrainAuth, rawBody] DrainEmailOutboxV2,
      on POST ''/api/emails/v2/outbox'' [RequireEmailV2Auth, RequireIdempotency, rawBody] EnqueueDirectEmailV2,
      on AllVerbs ''/api/emails/v2/outbox'' [RequireEmailV2Auth] NotFoundReply,
      on POST ''/api/emails/v2'' [RequireEmailV2Auth, RequireIdempotency, rawBody] SendDirectEmailV2]"

definition attachment_routes :: "environment \<Rightarrow> route list" where
  "attachment_routes env =
     [on POST ''/api/attachments/v2'' [RequireEmailV2Auth, attachmentBody env] UploadAttachmentV2,
      on GET ''/api/attachments/v2/:attachmentId'' [RequireEmailV2Auth] DownloadAttachmentV2,
      on POST ''/api/attachments/v2/:attachmentId/download-url'' [RequireEmailV2Auth] CreateAttachmentDownloadUrlV2]"

definition conversation_routes :: "route list" where
  "conversation_routes =
     [on POST ''/api/conversations/v2/outbox'' [RequireEmailV2Auth, RequireIdempotency, rawBody] EnqueueConversationV2,
      on AllVerbs ''/api/conversations/v2/outbox'' [RequireEmailV2Auth] NotFoundReply,
      on GET ''/api/conversations/v2/summary'' [RequireEmailV2Auth] GetConversationSummaryV2,
      on GET ''/api/conversations/v2/topics/:topicType/:externalTopicId'' [RequireEmailV2Auth] GetConversationByTopicV2,
      on GET ''/api/conversations/v2'' [RequireEmailV2Auth] ListConversationsV2,
      on POST ''/api/conversations/v2'' [RequireEmailV2Auth, RequireIdempotency, rawBody] CreateConversationV2,
      on POST ''/api/conversations/v2/:conversationId/messages/outbox'' [RequireEmailV2Auth, RequireIdempotency, rawBody]
        EnqueueMessageV2,
      on POST ''/api/conversations/v2/:conversationId/messages'' [RequireEmailV2Auth, RequireIdempotency, rawBody] SendMessageV2,
      on POST ''/api/conversations/v2/:conversationId/state'' [RequireEmailV2Auth, rawBody] SetConversationStateV2,
      on GET ''/api/conversations/v2/:conversationId'' [RequireEmailV2Auth] GetConversationV2,
      on (Verb ''PATCH'') ''/api/conversations/v2/:conversationId'' [RequireEmailV2Auth, rawBody] PatchConversationV2,
      on (Verb ''DELETE'') ''/api/conversations/v2/:conversationId'' [RequireEmailV2Auth] DeleteConversationV2]"

definition document_routes :: "route list" where
  "document_routes =
     [on GET ''/openapi.json'' [] (StaticFile ''public/openapi.json''),
      on GET ''/asyncapi.json'' [] (StaticFile ''public/asyncapi.json''),
      on Mounted ''/docs/assets'' [] (StaticFile ''swagger-ui-dist''),
      on GET ''/docs'' [] (StaticFile ''docs''),
      on Mounted ''/'' [] NotFoundReply]"

definition app_routes :: "environment \<Rightarrow> route list" where
  \<comment> \<open>\<open>createApp\<close>: the routes in the order they are registered\<close>
  "app_routes env =
     operation_routes @ (if attachmentsEnabled env then attachment_routes env else []) @ conversation_routes @ document_routes"

record service =
  sv_store :: store
  sv_contacts :: "contact_row list"
  sv_domains :: "domain_row list"
  sv_objects :: "string \<Rightarrow> string option"

definition run_io :: "'a io \<Rightarrow> service \<Rightarrow> (js_error + 'a) \<times> service" where
  "run_io m v = (case m (sv_store v) of (r, s) \<Rightarrow> (r, v\<lparr>sv_store := s\<rparr>))"

definition run_task :: "'a task \<Rightarrow> service \<Rightarrow> (js_error + 'a) \<times> service" where
  "run_task m v =
     (case m \<lparr>in_store = sv_store v, in_contacts = sv_contacts v, in_domains = sv_domains v\<rparr> of
        (r, b) \<Rightarrow> (r, v\<lparr>sv_store := in_store b, sv_contacts := in_contacts b, sv_domains := in_domains b\<rparr>))"

definition run_job :: "'a job \<Rightarrow> service \<Rightarrow> 'a \<times> service" where
  "run_job m v =
     (case m \<lparr>bk_store = sv_store v, bk_objects = sv_objects v\<rparr> of
        (a, b) \<Rightarrow> (a, v\<lparr>sv_store := bk_store b, sv_objects := bk_objects b\<rparr>))"

section \<open>Errors\<close>

datatype server_error =
    ParserError string \<comment> \<open>an error of the body parser, with its \<open>type\<close>\<close>
  | Thrown js_error

datatype answer = Json reply | File file_reply | Static string

definition not_found :: reply where "not_found = error_reply 404 ''Not found''"

definition error_answer :: "server_error \<Rightarrow> answer" where
  \<comment> \<open>the error handler\<close>
  "error_answer e =
     (if e = ParserError ''encoding.unsupported'' then Json (error_reply 415 ''Compressed request bodies are not supported'')
      else if e = ParserError ''entity.parse.failed'' \<or> (case e of Thrown (JsError name _) \<Rightarrow> name = ''SyntaxError'' | _ \<Rightarrow> False)
      then Json (error_reply 400 ''Request body must be valid JSON'')
      else if e = ParserError ''entity.too.large'' then Json (error_reply 413 ''Request body is too large'')
      else Json (error_reply 500 ''Internal server error''))"

section \<open>The guards\<close>

record express =
  ex_match :: "verb \<Rightarrow> string \<Rightarrow> string \<Rightarrow> string \<Rightarrow> (string \<Rightarrow> string) option" \<comment> \<open>verb, path, and those of the request\<close>
  ex_raw :: "body_options \<Rightarrow> incoming \<Rightarrow> server_error + string"

definition authorizationRequest :: "incoming \<Rightarrow> http_request" where
  "authorizationRequest i =
     \<lparr>rq_header = (\<lambda>name. if name = ''authorization'' then Some (case im_header i ''authorization'' of None \<Rightarrow> [] | Some a \<Rightarrow> a) else None),
      rq_body = None, rq_query = []\<rparr>"

definition requireIdempotency :: "incoming \<Rightarrow> reply option" where
  "requireIdempotency i =
     (case keep_truthy (im_header i ''idempotency-key'') of
        None \<Rightarrow> Some (error_reply 400 ''A valid Idempotency-Key header is required'')
      | Some key \<Rightarrow> if 256 < length key then Some (error_reply 400 ''A valid Idempotency-Key header is required'') else None)"

fun run_chain ::
  "(string \<Rightarrow> string) \<Rightarrow> environment \<Rightarrow> express \<Rightarrow> incoming \<Rightarrow> middleware list \<Rightarrow> string \<Rightarrow> answer + string"
where
  \<comment> \<open>the answer of the first guard that ends the request, or the body that was read\<close>
  "run_chain sha256 env x i [] body = Inr body"
| "run_chain sha256 env x i (RequireEmailV2Auth # ms) body =
     (case authorizeEmailV2 sha256 env (authorizationRequest i) of
        Some r \<Rightarrow> Inl (Json r) | None \<Rightarrow> run_chain sha256 env x i ms body)"
| "run_chain sha256 env x i (RequireDrainAuth # ms) body =
     (case authorizeOutboxDrain sha256 env (authorizationRequest i) of
        Some r \<Rightarrow> Inl (Json r) | None \<Rightarrow> run_chain sha256 env x i ms body)"
| "run_chain sha256 env x i (RequireIdempotency # ms) body =
     (case requireIdempotency i of Some r \<Rightarrow> Inl (Json r) | None \<Rightarrow> run_chain sha256 env x i ms body)"
| "run_chain sha256 env x i (RawBody options # ms) body =
     (case ex_raw x options i of Inl e \<Rightarrow> Inl (error_answer e) | Inr bytes \<Rightarrow> run_chain sha256 env x i ms bytes)"

section \<open>The handlers\<close>

text \<open>What the handlers read from outside.\<close>

record app_world =
  aw_request :: request_world
  aw_hook :: hook_world
  aw_upload :: upload_world
  aw_drain :: drain_world
  aw_health :: health_world
  aw_otherDate :: "string \<Rightarrow> instant option"
  aw_updatedAt :: "conversation \<Rightarrow> instant"
  aw_get :: "string \<Rightarrow> sdk_error + (string \<times> int option) option"
  aw_head :: "string \<Rightarrow> sdk_error option"
  aw_presign :: "string \<Rightarrow> string \<Rightarrow> string \<Rightarrow> int \<Rightarrow> instant \<Rightarrow> string option"

definition toFetchRequest :: "incoming \<Rightarrow> string \<Rightarrow> http_request" where
  \<comment> \<open>a request without a body has none that parses\<close>
  "toFetchRequest i body =
     \<lparr>rq_header = im_header i, rq_body = (if body = [] then None else JSON_parse body), rq_query = im_query i\<rparr>"

definition json_io :: "reply io \<Rightarrow> service \<Rightarrow> (js_error + answer) \<times> service" where
  "json_io m = run_io (io_bind m (\<lambda>r. io_return (Json r)))"

definition handle ::
  "environment \<Rightarrow> app_world \<Rightarrow> endpoint \<Rightarrow> incoming \<Rightarrow> string \<Rightarrow> (string \<Rightarrow> string) \<Rightarrow> service \<Rightarrow> (js_error + answer) \<times> service"
where
  "handle env w ep i body params v =
     (let req = toFetchRequest i body; q = aw_request w; sha256 = qw_sha256 q; conversation = params ''conversationId'';
          fine = (\<lambda>a. (Inr a, v))
      in case ep of
        HealthV2 \<Rightarrow> fine (Json (health_get env (aw_health w) (im_search i)))
      | ResendWebhook \<Rightarrow> (case run_task (webhook_post env (aw_hook w) req body) v of (r, v') \<Rightarrow> (map_sum id Json r, v'))
      | DrainEmailOutboxV2 \<Rightarrow> json_io (drain_post env sha256 (aw_drain w) req) v
      | EnqueueDirectEmailV2 \<Rightarrow> json_io (sendDirectEmailV2 env q req True) v
      | SendDirectEmailV2 \<Rightarrow> json_io (sendDirectEmailV2 env q req False) v
      | UploadAttachmentV2 \<Rightarrow> (case run_job (upload_post env (aw_upload w) req body) v of (r, v') \<Rightarrow> (map_sum id Json r, v'))
      | DownloadAttachmentV2 \<Rightarrow>
          fine (case attachment_get env sha256 (aw_get w) req (params ''attachmentId'') (sv_store v) of Inl r \<Rightarrow> Json r | Inr f \<Rightarrow> File f)
      | CreateAttachmentDownloadUrlV2 \<Rightarrow>
          fine (Json (download_url_post env sha256 (aw_head w) (aw_presign w) (sw_now (qw_send q)) req (params ''attachmentId'') (sv_store v)))
      | EnqueueConversationV2 \<Rightarrow> json_io (createConversationV2 env q req True) v
      | GetConversationSummaryV2 \<Rightarrow> fine (Json (summary_get env sha256 (aw_otherDate w) req (sv_store v)))
      | GetConversationByTopicV2 \<Rightarrow>
          json_io (topic_get env q (aw_updatedAt w) req (params ''topicType'') (params ''externalTopicId'')) v
      | ListConversationsV2 \<Rightarrow> fine (Json (conversations_get env sha256 (aw_otherDate w) req (sv_store v)))
      | CreateConversationV2 \<Rightarrow> json_io (createConversationV2 env q req False) v
      | EnqueueMessageV2 \<Rightarrow> json_io (createMessageV2 env q req conversation True) v
      | SendMessageV2 \<Rightarrow> json_io (createMessageV2 env q req conversation False) v
      | SetConversationStateV2 \<Rightarrow> json_io (state_post env q (aw_updatedAt w) req conversation) v
      | GetConversationV2 \<Rightarrow> json_io (conversation_get env q (aw_updatedAt w) req conversation) v
      | PatchConversationV2 \<Rightarrow> json_io (conversation_patch env q (aw_updatedAt w) req conversation) v
      | DeleteConversationV2 \<Rightarrow> json_io (conversation_delete env q req conversation) v
      | StaticFile name \<Rightarrow> fine (Static name)
      | NotFoundReply \<Rightarrow> fine (Json not_found))"

section \<open>Dispatch\<close>

fun find_route :: "express \<Rightarrow> incoming \<Rightarrow> route list \<Rightarrow> (route \<times> (string \<Rightarrow> string)) option" where
  \<comment> \<open>the first route that matches\<close>
  "find_route x i [] = None"
| "find_route x i (r # rs) =
     (case ex_match x (ro_verb r) (ro_path r) (im_method i) (im_path i) of
        Some params \<Rightarrow> Some (r, params) | None \<Rightarrow> find_route x i rs)"

definition serve_route :: "environment \<Rightarrow> express \<Rightarrow> app_world \<Rightarrow> incoming \<Rightarrow> route \<times> (string \<Rightarrow> string) \<Rightarrow> service \<Rightarrow> answer \<times> service" where
  \<comment> \<open>the guards, the adapter, the error handler\<close>
  "serve_route env x w i found v =
     (case run_chain (qw_sha256 (aw_request w)) env x i (ro_chain (fst found)) [] of
        Inl a \<Rightarrow> (a, v)
      | Inr body \<Rightarrow>
          (case handle env w (ro_endpoint (fst found)) i body (snd found) v of
             (Inl e, v') \<Rightarrow> (error_answer (Thrown e), v') | (Inr a, v') \<Rightarrow> (a, v')))"

definition serve :: "environment \<Rightarrow> express \<Rightarrow> app_world \<Rightarrow> incoming \<Rightarrow> service \<Rightarrow> answer \<times> service" where
  "serve env x w i v =
     (case find_route x i (app_routes env) of None \<Rightarrow> (Json not_found, v) | Some found \<Rightarrow> serve_route env x w i found v)"

section \<open>What is measured\<close>

definition knownHttpMethod :: "string \<Rightarrow> string" where
  "knownHttpMethod m =
     (if m \<in> set [''CONNECT'', ''DELETE'', ''GET'', ''HEAD'', ''OPTIONS'', ''PATCH'', ''POST'', ''PUT'', ''QUERY'', ''TRACE'']
      then m else ''_OTHER'')"

definition matchedRoute :: "(route \<times> (string \<Rightarrow> string)) option \<Rightarrow> string" where
  \<comment> \<open>\<open>request.route\<close> is set by routes, not by what is mounted\<close>
  "matchedRoute found =
     (case found of
        Some (r, _) \<Rightarrow> if ro_verb r = Mounted then ''/unmatched'' else js_or (ro_path r) ''/''
      | None \<Rightarrow> ''/unmatched'')"

section \<open>Lemmas\<close>

lemmas route_tables = operation_routes_def attachment_routes_def conversation_routes_def document_routes_def on_def GET_def POST_def

text \<open>Every route is guarded first of all, takes what the provider signs, or has no state to change.\<close>

lemma route_guarded:
  assumes "r \<in> set (app_routes env)"
  shows "(\<exists>ms. ro_chain r = RequireEmailV2Auth # ms) \<or> (\<exists>ms. ro_chain r = RequireDrainAuth # ms)
    \<or> ro_endpoint r = ResendWebhook \<and> ro_chain r = [rawBody]
    \<or> ro_chain r = [] \<and> (ro_endpoint r = HealthV2 \<or> ro_endpoint r = NotFoundReply \<or> (\<exists>f. ro_endpoint r = StaticFile f))"
  using assms by (auto simp: app_routes_def route_tables split: if_splits)

lemma find_route_in: "find_route x i rs = Some (r, params) \<Longrightarrow> r \<in> set rs"
  by (induction rs) (auto split: option.splits)

lemma find_route_raw [simp]: "find_route (x\<lparr>ex_raw := f\<rparr>) i rs = find_route x i rs"
  by (induction rs) (auto split: option.splits)

lemma run_io_unchanged: "m (sv_store v) = (r, sv_store v) \<Longrightarrow> run_io m v = (r, v)"
  by (simp add: run_io_def)

lemma webhook_handler_unsigned:
  assumes "signed_event env (aw_hook w) (toFetchRequest i body) body = None"
    and "handle env w ResendWebhook i body params v = (r, v')"
  shows "v' = v"
proof -
  let ?b = "\<lparr>in_store = sv_store v, in_contacts = sv_contacts v, in_domains = sv_domains v\<rparr>"
  obtain r0 b where run: "webhook_post env (aw_hook w) (toFetchRequest i body) body ?b = (r0, b)" by fastforce
  from webhook_unsigned [OF assms(1) run] have "b = ?b" by simp
  with run assms(2) show ?thesis by (simp add: handle_def run_task_def Let_def)
qed

text \<open>The answers of a guard.\<close>

lemma authorize_status:
  "authorizeWithCredential sha256 request expected = Some r \<Longrightarrow> rp_status r = 401 \<or> rp_status r = 500"
  by (auto simp: authorizeWithCredential_def Let_def unauthorized_reply_def misconfigured_reply_def error_reply_def
      json_reply_def split: option.splits if_splits)

section \<open>Properties\<close>

text \<open>C9: without a credential nothing happens. A request that carries neither the key of the service nor
  that of the drain, and that the provider did not sign, changes no table and no object, whatever its
  method, path, headers and body; and its body is read on the route of the webhook only.\<close>

theorem unauthenticated_request_changes_nothing:
  assumes "authorizeEmailV2 (qw_sha256 (aw_request w)) env (authorizationRequest i) = Some denied"
    and "authorizeOutboxDrain (qw_sha256 (aw_request w)) env (authorizationRequest i) = Some refused"
    and "\<And>body. signed_event env (aw_hook w) (toFetchRequest i body) body = None"
  shows "snd (serve env x w i v) = v
    \<and> (serve env (x\<lparr>ex_raw := f\<rparr>) w i v = serve env x w i v
        \<or> (\<exists>r params. find_route x i (app_routes env) = Some (r, params) \<and> ro_endpoint r = ResendWebhook))"
proof (cases "find_route x i (app_routes env)")
  case None
  then show ?thesis by (simp add: serve_def)
next
  case (Some found)
  obtain r params where found: "found = (r, params)" by fastforce
  have "r \<in> set (app_routes env)" using Some found find_route_in by metis
  from route_guarded [OF this] show ?thesis
  proof (elim disjE exE conjE)
    fix ms assume "ro_chain r = RequireEmailV2Auth # ms"
    then show ?thesis using Some found assms(1) by (simp add: serve_def serve_route_def)
  next
    fix ms assume "ro_chain r = RequireDrainAuth # ms"
    then show ?thesis using Some found assms(2) by (simp add: serve_def serve_route_def)
  next
    assume "ro_endpoint r = ResendWebhook" and "ro_chain r = [rawBody]"
    then show ?thesis
      using Some found webhook_handler_unsigned [OF assms(3)]
      by (auto simp: serve_def serve_route_def rawBody_def split: sum.splits prod.splits)
  next
    fix f assume "ro_chain r = []" "ro_endpoint r = StaticFile f"
    then show ?thesis using Some found by (simp add: serve_def serve_route_def handle_def Let_def)
  qed (use Some found in \<open>simp_all add: serve_def serve_route_def handle_def Let_def\<close>)
qed

definition sample_incoming :: incoming where
  "sample_incoming =
     \<lparr>im_method = ''POST'', im_path = ''/api/emails/v2'', im_search = [], im_query = [],
      im_header = (\<lambda>name. if name = ''authorization'' then Some ''Bearer wrong'' else None), im_bytes = ''{}''\<rparr>"

definition sample_express :: express where
  "sample_express =
     \<lparr>ex_match = (\<lambda>verb path method asked. if (verb = Verb method \<or> verb = AllVerbs) \<and> path = asked then Some (\<lambda>name. []) else None),
      ex_raw = (\<lambda>options i. Inr (im_bytes i))\<rparr>"

definition sample_app :: app_world where
  "sample_app =
     \<lparr>aw_request = plain_world, aw_hook = sample_hooks (EmailEvent (sample_hook ''email.bounced'')), 
      aw_upload = \<lparr>uw_sha256 = (\<lambda>t. t), uw_put = None, uw_storageId = ''o1''\<rparr>,
      aw_drain = Scheduler.sample_world, aw_health = \<lparr>hl_events = None, hl_ingest = None, hl_database = True\<rparr>,
      aw_otherDate = (\<lambda>t. None),
      aw_updatedAt = cv_lastMessageAt, aw_get = (\<lambda>k. Inr None), aw_head = (\<lambda>k. None), aw_presign = (\<lambda>k c d n t. None)\<rparr>"

definition sample_service :: service where
  "sample_service = \<lparr>sv_store = sample_delivery, sv_contacts = [], sv_domains = [], sv_objects = (\<lambda>k. None)\<rparr>"

definition service_env :: environment where
  "service_env name = (if name = ''OUTBOX_DRAIN_API_KEY'' then Some ''drain'' else if name = ''EMAIL_V2_API_KEY'' then Some ''secret'' else hook_env name)"

theorem unauthenticated_request_changes_nothing_witness:
  "find_route sample_express sample_incoming (app_routes service_env) \<noteq> None
     \<and> snd (serve service_env sample_express sample_app sample_incoming sample_service) = sample_service"
proof -
  have "authorizeEmailV2 (qw_sha256 (aw_request sample_app)) service_env (authorizationRequest sample_incoming) = Some unauthorized_reply"
    "authorizeOutboxDrain (qw_sha256 (aw_request sample_app)) service_env (authorizationRequest sample_incoming) = Some unauthorized_reply"
    by code_simp+
  moreover have "signed_event service_env (aw_hook sample_app) (toFetchRequest sample_incoming body) body = None" for body
    by (simp add: signed_event_def svix_headers_def toFetchRequest_def sample_incoming_def keep_truthy_def truthy_def split: option.split)
  moreover have "find_route sample_express sample_incoming (app_routes service_env) \<noteq> None"
    by (simp add: app_routes_def route_tables sample_express_def sample_incoming_def)
  ultimately show ?thesis using unauthenticated_request_changes_nothing by blast
qed

end
