(* ===== verification/Startup.thy ===== *)
theory Startup
  imports Http_Server "HOL-Library.AList"
begin

text \<open>
  From the environment to a listening server: the check of the container's entry point
  (\<open>scripts/validate-runtime-env.mjs\<close>), the settings of \<open>src/lib/telemetry.ts\<close>, the connection of
  the event sinks in \<open>src/lib/conversation-event-runtime.ts\<close> and \<open>startServer\<close> of \<open>src/server.ts\<close>. The
  URL parser and the decoder of the language, the cron library, the NATS client and the object store
  are parameters. Of a startup error only the operation that failed is kept here; its text is in
  \<open>Nats_Diagnostics\<close>.
\<close>

section \<open>The check of the entry point\<close>

type_synonym failure = "string \<times> (string \<times> string) list"

record url_tools =
  ut_protocol :: "string \<Rightarrow> string option" \<comment> \<open>\<open>new URL(text).protocol\<close>, \<open>None\<close> when it throws\<close>
  ut_join :: "string \<Rightarrow> string \<Rightarrow> string" \<comment> \<open>\<open>new URL(path, base)\<close>\<close>
  ut_decode :: "string \<Rightarrow> string option" \<comment> \<open>\<open>decodeURIComponent\<close>\<close>

definition first_failure :: "failure option list \<Rightarrow> failure option" where
  \<comment> \<open>the first \<open>fail\<close> ends the process\<close>
  "first_failure checks = (case filter (\<lambda>c. c \<noteq> None) checks of [] \<Rightarrow> None | c # _ \<Rightarrow> c)"

definition REQUIRED_ENV_VARS :: "string list" where
  "REQUIRED_ENV_VARS =
     [''DATABASE_URL'', ''RESEND_API_KEY'', ''RESEND_WEBHOOK_SECRET'', ''RESEND_REPLY_TO'', ''OUTBOX_DRAIN_API_KEY'']"

definition missing_variables :: "environment \<Rightarrow> string list" where
  "missing_variables env =
     filter (\<lambda>name. \<not> truthy (env name)) REQUIRED_ENV_VARS
     @ (if truthy (resolveEmailV2ApiKey env) then [] else [''EMAIL_v2_API_KEY or EMAIL_V2_API_KEY''])"

definition check_required :: "environment \<Rightarrow> failure option" where
  "check_required env =
     (if missing_variables env \<noteq> []
      then Some (''runtime_environment_missing'', [(''variables'', js_join '','' (missing_variables env))]) else None)"

definition script_valid_reply_to :: "string \<Rightarrow> bool" where
  \<comment> \<open>the script's own \<open>isValidReplyToBaseAddress\<close>\<close>
  "script_valid_reply_to address =
     (let normalized = js_toLower (js_trim address)
      in case lastIndexOf (CHR ''@'') normalized of
           None \<Rightarrow> False
         | Some at \<Rightarrow>
             if at = 0 \<or> at = length normalized - 1 \<or> CHR ''<'' \<in> set normalized \<or> CHR ''>'' \<in> set normalized
                \<or> CHR ''+'' \<in> set (take at normalized)
             then False
             else
               (let l = take at normalized; d = drop (Suc at) normalized; generatedLocalLength = length l + 1 + 2 + 32;
                    domainLabels = js_split (CHR ''.'') d
                in l \<noteq> [] \<and> list_all local_char l \<and> \<not> prefix ''.'' l \<and> \<not> suffix ''.'' l \<and> \<not> sublist ''..'' l
                   \<and> generatedLocalLength \<le> 64 \<and> length d \<le> 253 \<and> 2 \<le> length domainLabels
                   \<and> list_all valid_label domainLabels \<and> generatedLocalLength + length d + 1 \<le> 254))"

definition check_reply_to :: "environment \<Rightarrow> failure option" where
  "check_reply_to env =
     (if script_valid_reply_to (env_or env ''RESEND_REPLY_TO'') then None else Some (''runtime_reply_to_invalid'', []))"

definition missing_one :: "string \<Rightarrow> string list \<Rightarrow> environment \<Rightarrow> failure option" where
  "missing_one event names env =
     (case find (\<lambda>name. \<not> truthy (env name)) names of None \<Rightarrow> None | Some name \<Rightarrow> Some (event, [(''name'', name)]))"

definition out_of_range :: "environment \<Rightarrow> string \<times> int \<times> int \<Rightarrow> bool" where
  \<comment> \<open>the body of both loops over \<open>bounded\<close>\<close>
  "out_of_range env bound =
     (case bound of (name, minimum, maximum) \<Rightarrow>
        let raw = trimmed_setting env name
        in raw \<noteq> [] \<and> (case js_Number_integer raw of None \<Rightarrow> True | Some n \<Rightarrow> n < minimum \<or> maximum < n))"

definition out_of_bounds :: "string \<Rightarrow> (string \<times> int \<times> int) list \<Rightarrow> environment \<Rightarrow> failure option" where
  "out_of_bounds event bounded env =
     (case find (out_of_range env) bounded of None \<Rightarrow> None | Some (name, _) \<Rightarrow> Some (event, [(''name'', name)]))"

definition event_sink_names :: "environment \<Rightarrow> string list" where
  "event_sink_names env =
     filter (\<lambda>v. v \<noteq> []) (map (\<lambda>v. js_toLower (js_trim v)) (js_split (CHR '','') (env_or env ''CONVERSATION_EVENTS_SINKS'')))"

definition NATS_VARS :: "string list" where
  "NATS_VARS = [''CONVERSATION_EVENTS_NATS_SERVERS'', ''CONVERSATION_EVENTS_NATS_STREAM'', ''CONVERSATION_EVENTS_NATS_SUBJECT'']"

definition check_sinks :: "environment \<Rightarrow> failure option" where
  "check_sinks env =
     first_failure
       [if \<exists>sink \<in> set (event_sink_names env). sink \<noteq> ''nats'' then Some (''runtime_conversation_event_sinks_invalid'', []) else None,
        if ''nats'' \<in> set (event_sink_names env)
        then missing_one ''runtime_conversation_events_configuration_missing'' NATS_VARS env else None]"

fun space_runs :: "bool \<Rightarrow> string \<Rightarrow> nat" where
  \<comment> \<open>the separators \<open>split(/\s+/)\<close> finds\<close>
  "space_runs within [] = 0"
| "space_runs within (c # cs) =
     (if js_space c then (if within then 0 else 1) + space_runs True cs else space_runs False cs)"

definition check_schedule :: "environment \<Rightarrow> failure option" where
  "check_schedule env =
     (let enabled = trimmed_setting env ''OUTBOX_DRAIN_SCHEDULE_ENABLED''; expression = trimmed_setting env ''OUTBOX_DRAIN_SCHEDULE'';
          fields = space_runs False expression + 1
      in if enabled = [] then None
         else first_failure
           [if js_toLower enabled \<noteq> ''true'' then Some (''runtime_outbox_schedule_enabled_invalid'', []) else None,
            if expression = [] then Some (''runtime_outbox_schedule_missing'', []) else None,
            if fields \<noteq> 5 \<and> fields \<noteq> 6 then Some (''runtime_outbox_schedule_invalid'', []) else None,
            out_of_bounds ''runtime_outbox_schedule_bound_invalid''
              [(''OUTBOX_DRAIN_SCHEDULE_BATCH_SIZE'', 1, 100), (''OUTBOX_DRAIN_SCHEDULE_MAX_BATCHES'', 1, 100)] env])"

definition web_url :: "url_tools \<Rightarrow> string \<Rightarrow> bool" where
  "web_url u text = (case ut_protocol u text of None \<Rightarrow> False | Some p \<Rightarrow> p = ''http:'' \<or> p = ''https:'')"

definition S3_VARS :: "string list" where
  "S3_VARS = [''ATTACHMENTS_S3_BUCKET'', ''ATTACHMENTS_S3_REGION'', ''ATTACHMENTS_S3_ACCESS_KEY_ID'', ''ATTACHMENTS_S3_SECRET_ACCESS_KEY'']"

definition check_attachments :: "url_tools \<Rightarrow> environment \<Rightarrow> failure option" where
  "check_attachments u env =
     (let enabled = trimmed_setting env ''ATTACHMENTS_ENABLED''; endpoint = trimmed_setting env ''ATTACHMENTS_S3_ENDPOINT'';
          forcePathStyle = trimmed_setting env ''ATTACHMENTS_S3_FORCE_PATH_STYLE''
      in if enabled = [] then None
         else first_failure
           [if js_toLower enabled \<noteq> ''true'' then Some (''runtime_attachments_enabled_invalid'', []) else None,
            missing_one ''runtime_attachments_configuration_missing'' S3_VARS env,
            if endpoint \<noteq> [] \<and> \<not> web_url u endpoint then Some (''runtime_attachments_endpoint_invalid'', []) else None,
            if forcePathStyle \<noteq> [] \<and> js_toLower forcePathStyle \<notin> set [''true'', ''false'']
            then Some (''runtime_attachments_force_path_style_invalid'', []) else None,
            out_of_bounds ''runtime_attachments_bound_invalid''
              [(''ATTACHMENTS_MAX_BYTES'', 1, 41943040), (''ATTACHMENTS_MAX_TOTAL_BYTES'', 1, 41943040),
               (''ATTACHMENTS_MAX_COUNT'', 1, 100), (''ATTACHMENTS_PRESIGNED_URL_TTL_SECONDS'', 1, 900)] env])"

definition attribute_pair :: "string \<Rightarrow> (string \<times> string) option" where
  \<comment> \<open>one \<open>=\<close>, neither first nor last\<close>
  "attribute_pair entry =
     (case js_split (CHR ''='') entry of [k, v] \<Rightarrow> if k = [] \<or> v = [] then None else Some (k, v) | _ \<Rightarrow> None)"

definition decoded_attribute :: "url_tools \<Rightarrow> string \<times> string \<Rightarrow> (string \<times> string) option" where
  "decoded_attribute u p =
     (case (ut_decode u (js_trim (fst p)), ut_decode u (js_trim (snd p))) of (Some k, Some v) \<Rightarrow> Some (k, v) | _ \<Rightarrow> None)"

definition attribute_ok :: "url_tools \<Rightarrow> string \<Rightarrow> bool" where
  "attribute_ok u entry =
     (case Option.bind (attribute_pair entry) (decoded_attribute u) of None \<Rightarrow> False | Some (k, v) \<Rightarrow> k \<noteq> [] \<and> v \<noteq> [])"

definition telemetry_on :: "environment \<Rightarrow> bool" where
  "telemetry_on env \<longleftrightarrow> js_toLower (trimmed_setting env ''TELEMETRY_ENABLED'') = ''true''"

definition OTLP_VARS :: "string list" where
  "OTLP_VARS = [''OTEL_EXPORTER_OTLP_ENDPOINT'', ''OTEL_EXPORTER_OTLP_METRICS_ENDPOINT'', ''OTEL_EXPORTER_OTLP_LOGS_ENDPOINT'']"

definition check_telemetry :: "url_tools \<Rightarrow> environment \<Rightarrow> failure option" where
  "check_telemetry u env =
     (let attributes = trimmed_setting env ''OTEL_RESOURCE_ATTRIBUTES''
      in if \<not> telemetry_on env then None
         else first_failure
           [(case find (\<lambda>name. trimmed_setting env name \<noteq> [] \<and> \<not> web_url u (trimmed_setting env name)) OTLP_VARS of
               None \<Rightarrow> None | Some name \<Rightarrow> Some (''runtime_telemetry_endpoint_invalid'', [(''name'', name)])),
            if attributes \<noteq> [] \<and> \<not> list_all (attribute_ok u) (js_split (CHR '','') attributes)
            then Some (''runtime_telemetry_resource_attributes_invalid'', []) else None])"

definition validate_runtime_env :: "url_tools \<Rightarrow> environment \<Rightarrow> failure option" where
  \<comment> \<open>the script: \<open>None\<close> lets the service start\<close>
  "validate_runtime_env u env =
     first_failure [check_required env, check_reply_to env, check_sinks env, check_schedule env, check_attachments u env,
       check_telemetry u env]"

section \<open>Telemetry\<close>

record telemetry_config =
  tc_metricsEndpoint :: "string option"
  tc_logsEndpoint :: "string option"
  tc_exportIntervalMillis :: int
  tc_exportTimeoutMillis :: int
  tc_resource :: "(string \<times> string) list"

definition METER_NAME :: string where "METER_NAME = ''resend-conversation-service''"
definition DEFAULT_EXPORT_INTERVAL_MS :: int where "DEFAULT_EXPORT_INTERVAL_MS = 60000"
definition DEFAULT_EXPORT_TIMEOUT_MS :: int where "DEFAULT_EXPORT_TIMEOUT_MS = 10000"

definition plain_error :: "string \<Rightarrow> js_error" where
  "plain_error message = JsError ''Error'' message"

definition optionalHttpEndpoint :: "url_tools \<Rightarrow> environment \<Rightarrow> string \<Rightarrow> js_error + string option" where
  "optionalHttpEndpoint u env name =
     (let raw = trimmed_setting env name
      in if raw = [] then Inr None
         else case ut_protocol u raw of
                None \<Rightarrow> Inl (plain_error (name @ '' must be a valid URL''))
              | Some p \<Rightarrow>
                  if p \<noteq> ''http:'' \<and> p \<noteq> ''https:'' then Inl (plain_error (name @ '' must be an http(s) URL'')) else Inr (Some raw))"

definition drop_slash :: "string \<Rightarrow> string" where
  \<comment> \<open>\<open>replace(/\/$/, '')\<close>\<close>
  "drop_slash t = (if suffix ''/'' t then butlast t else t)"

definition signalEndpoint :: "url_tools \<Rightarrow> string option \<Rightarrow> string option \<Rightarrow> string \<Rightarrow> string option" where
  "signalEndpoint u signal baseEndpoint signalPath =
     (case (signal, baseEndpoint) of
        (None, Some b) \<Rightarrow> Some (ut_join u signalPath (drop_slash b @ ''/''))
      | _ \<Rightarrow> signal)"

definition positiveInteger :: "environment \<Rightarrow> string \<Rightarrow> int \<Rightarrow> js_error + int" where
  "positiveInteger env name fallback =
     (let raw = trimmed_setting env name; bad = Inl (plain_error (name @ '' must be an integer between 1 and 3600000''))
      in if raw = [] then Inr fallback
         else case js_Number_integer raw of None \<Rightarrow> bad | Some n \<Rightarrow> if n < 1 \<or> 3600000 < n then bad else Inr n)"

fun resource_attributes :: "url_tools \<Rightarrow> string list \<Rightarrow> (string \<times> string) list \<Rightarrow> js_error + (string \<times> string) list" where
  \<comment> \<open>the loop of \<open>parseResourceAttributes\<close>\<close>
  "resource_attributes u [] attributes = Inr attributes"
| "resource_attributes u (entry # entries) attributes =
     (case attribute_pair entry of
        None \<Rightarrow> Inl (plain_error ''OTEL_RESOURCE_ATTRIBUTES must contain comma-separated key=value pairs'')
      | Some p \<Rightarrow>
          (case decoded_attribute u p of
             None \<Rightarrow> Inl (plain_error ''OTEL_RESOURCE_ATTRIBUTES contains invalid percent-encoding'')
           | Some (k, v) \<Rightarrow>
               if k = [] \<or> v = [] then Inl (plain_error ''OTEL_RESOURCE_ATTRIBUTES keys and values must not be empty'')
               else resource_attributes u entries
                 (if k = ''__proto__'' then attributes else AList.update k v attributes)))"

definition parseResourceAttributes :: "url_tools \<Rightarrow> environment \<Rightarrow> js_error + (string \<times> string) list" where
  "parseResourceAttributes u env =
     (let raw = trimmed_setting env ''OTEL_RESOURCE_ATTRIBUTES''
      in if raw = [] then Inr [] else resource_attributes u (js_split (CHR '','') raw) [])"

definition safe_char :: "char \<Rightarrow> bool" where
  \<comment> \<open>\<open>[a-zA-Z0-9._-]\<close>\<close>
  "safe_char c \<longleftrightarrow>
     is_digit c \<or> is_lower_alpha c \<or> CHR ''A'' \<le> c \<and> c \<le> CHR ''Z'' \<or> c = CHR ''.'' \<or> c = CHR ''_'' \<or> c = CHR ''-''"

definition safe_label :: "nat \<Rightarrow> string \<Rightarrow> string option \<Rightarrow> string" where
  "safe_label n fallback v =
     (let normalized = (case v of None \<Rightarrow> [] | Some t \<Rightarrow> js_trim t)
      in if normalized \<noteq> [] \<and> length normalized \<le> n \<and> list_all safe_char normalized then normalized else fallback)"

definition safeInstanceId :: "string option \<Rightarrow> string" where "safeInstanceId = safe_label 128 ''unknown''"
definition safeEnvironment :: "string option \<Rightarrow> string" where "safeEnvironment = safe_label 64 ''unspecified''"

definition telemetryResource :: "url_tools \<Rightarrow> string \<Rightarrow> environment \<Rightarrow> js_error + (string \<times> string) list" where
  "telemetryResource u version env =
     (case parseResourceAttributes u env of
        Inl e \<Rightarrow> Inl e
      | Inr configured \<Rightarrow>
          Inr (foldl (\<lambda>attributes (k, v). AList.update k v attributes) configured
            [(''service.name'', METER_NAME), (''service.version'', version),
             (''service.instance.id'', safeInstanceId (js_coalesce (env ''HOSTNAME'') (map_of configured ''service.instance.id''))),
             (''deployment.environment.name'',
               safeEnvironment (js_coalesce (env ''OTEL_DEPLOYMENT_ENVIRONMENT'') (map_of configured ''deployment.environment.name'')))]))"

record telemetry =
  tl_meterProvider :: "telemetry_config option"
  tl_logger :: bool

definition idle_telemetry :: telemetry where
  "idle_telemetry = \<lparr>tl_meterProvider = None, tl_logger = False\<rparr>"

definition then_try :: "js_error + 'a \<Rightarrow> ('a \<Rightarrow> js_error + 'b) \<Rightarrow> js_error + 'b" where
  \<comment> \<open>a statement that may throw\<close>
  "then_try r f = (case r of Inl e \<Rightarrow> Inl e | Inr a \<Rightarrow> f a)"

definition telemetry_settings :: "url_tools \<Rightarrow> string \<Rightarrow> environment \<Rightarrow> js_error + telemetry_config" where
  \<comment> \<open>what \<open>initializeTelemetry\<close> reads and tests\<close>
  "telemetry_settings u version env =
     then_try (optionalHttpEndpoint u env ''OTEL_EXPORTER_OTLP_ENDPOINT'') (\<lambda>baseEndpoint.
     then_try (optionalHttpEndpoint u env ''OTEL_EXPORTER_OTLP_METRICS_ENDPOINT'') (\<lambda>m.
     then_try (optionalHttpEndpoint u env ''OTEL_EXPORTER_OTLP_LOGS_ENDPOINT'') (\<lambda>l.
     then_try (positiveInteger env ''OTEL_METRIC_EXPORT_INTERVAL'' DEFAULT_EXPORT_INTERVAL_MS) (\<lambda>interval.
     then_try (positiveInteger env ''OTEL_EXPORTER_OTLP_METRICS_TIMEOUT'' DEFAULT_EXPORT_TIMEOUT_MS) (\<lambda>timeout.
       if interval < timeout
       then Inl (plain_error ''OTEL_EXPORTER_OTLP_METRICS_TIMEOUT must not exceed OTEL_METRIC_EXPORT_INTERVAL'')
       else then_try (telemetryResource u version env) (\<lambda>resource.
         Inr \<lparr>tc_metricsEndpoint = signalEndpoint u m baseEndpoint ''v1/metrics'',
              tc_logsEndpoint = signalEndpoint u l baseEndpoint ''v1/logs'',
              tc_exportIntervalMillis = interval, tc_exportTimeoutMillis = timeout, tc_resource = resource\<rparr>))))))"

definition initializeTelemetry :: "url_tools \<Rightarrow> string \<Rightarrow> environment \<Rightarrow> telemetry \<Rightarrow> js_error + telemetry" where
  "initializeTelemetry u version env t =
     (if \<not> telemetry_on env \<or> tl_meterProvider t \<noteq> None then Inr t
      else case telemetry_settings u version env of
             Inl e \<Rightarrow> Inl e
           | Inr c \<Rightarrow> Inr \<lparr>tl_meterProvider = Some c, tl_logger = (tc_logsEndpoint c \<noteq> None)\<rparr>)"

definition shutdownTelemetry :: "telemetry \<Rightarrow> telemetry" where
  "shutdownTelemetry t = idle_telemetry"

section \<open>The event sinks\<close>

datatype tls_options =
    NoTls
  | Tls "string option" "(string \<times> string) option" \<comment> \<open>\<open>ca\<close>, and \<open>cert\<close> with \<open>key\<close>\<close>

record nats_config =
  nc_servers :: "string list"
  nc_stream :: string
  nc_subject :: string
  nc_token :: "string option"
  nc_user :: "string option"
  nc_pass :: "string option"
  nc_tls :: tls_options

definition optional_setting :: "environment \<Rightarrow> string \<Rightarrow> string option" where
  "optional_setting env name = keep_truthy (map_option js_trim (env name))"

definition required_setting :: "environment \<Rightarrow> string \<Rightarrow> js_error + string" where
  "required_setting env name =
     (case optional_setting env name of
        None \<Rightarrow> Inl (plain_error (''Missing '' @ name @ '' environment variable'')) | Some v \<Rightarrow> Inr v)"

definition requiredList :: "environment \<Rightarrow> string \<Rightarrow> js_error + string list" where
  "requiredList env name =
     then_try (required_setting env name) (\<lambda>v. Inr (filter (\<lambda>t. t \<noteq> []) (map js_trim (js_split (CHR '','') v))))"

definition natsTlsOptions :: "environment \<Rightarrow> js_error + tls_options" where
  "natsTlsOptions env =
     (let mode = (case optional_setting env ''CONVERSATION_EVENTS_NATS_TLS_MODE'' of None \<Rightarrow> ''disabled'' | Some m \<Rightarrow> m);
          cert = optional_setting env ''CONVERSATION_EVENTS_NATS_TLS_CERT_PEM'';
          key = optional_setting env ''CONVERSATION_EVENTS_NATS_TLS_KEY_PEM''
      in if mode = ''disabled'' then Inr NoTls
         else if mode = ''system'' then Inr (Tls None None)
         else if mode \<noteq> ''custom''
         then Inl (plain_error ''CONVERSATION_EVENTS_NATS_TLS_MODE must be disabled, system, or custom'')
         else if (cert = None) \<noteq> (key = None) then Inl (plain_error ''NATS TLS certificate and key must be provided together'')
         else Inr (Tls (optional_setting env ''CONVERSATION_EVENTS_NATS_TLS_CA_PEM'')
           (case (cert, key) of (Some c, Some k) \<Rightarrow> Some (c, k) | _ \<Rightarrow> None)))"

definition nats_settings :: "environment \<Rightarrow> js_error + nats_config" where
  "nats_settings env =
     then_try (requiredList env ''CONVERSATION_EVENTS_NATS_SERVERS'') (\<lambda>servers.
     then_try (required_setting env ''CONVERSATION_EVENTS_NATS_STREAM'') (\<lambda>stream.
     then_try (required_setting env ''CONVERSATION_EVENTS_NATS_SUBJECT'') (\<lambda>subject.
       let token = optional_setting env ''CONVERSATION_EVENTS_NATS_TOKEN'';
           user = optional_setting env ''CONVERSATION_EVENTS_NATS_USERNAME'';
           pass = optional_setting env ''CONVERSATION_EVENTS_NATS_PASSWORD''
       in if token \<noteq> None \<and> (user \<noteq> None \<or> pass \<noteq> None)
          then Inl (plain_error ''NATS token and username/password cannot be combined'')
          else if (user = None) \<noteq> (pass = None)
          then Inl (plain_error ''NATS username and password must be provided together'')
          else then_try (natsTlsOptions env) (\<lambda>tls.
            Inr \<lparr>nc_servers = servers, nc_stream = stream, nc_subject = subject, nc_token = token, nc_user = user, nc_pass = pass,
                 nc_tls = tls\<rparr>))))"

text \<open>The NATS client: what each call answers. The second component of a run is the number of
  connections that are open.\<close>

record nats_world =
  nw_connect :: "nats_config \<Rightarrow> js_error option"
  nw_manager :: "js_error option"
  nw_info :: "string \<Rightarrow> js_error option"
  nw_find :: "string \<Rightarrow> js_error + string"

type_synonym 'a dial = "nat \<Rightarrow> (js_error + 'a) \<times> nat"

definition startupFailure :: "string \<Rightarrow> js_error" where
  \<comment> \<open>of the text the operation\<close>
  "startupFailure operation = JsError ''ConversationEventSinkStartupError'' operation"

definition verify_stream :: "nats_world \<Rightarrow> nats_config \<Rightarrow> js_error + string" where
  \<comment> \<open>after the connection stands: the subject of the sink\<close>
  "verify_stream w c =
     (if nw_manager w \<noteq> None then Inl (startupFailure ''access JetStream manager'')
      else if nw_info w (nc_stream c) \<noteq> None then Inl (startupFailure ''verify configured stream'')
      else case nw_find w (nc_subject c) of
             Inl _ \<Rightarrow> Inl (startupFailure ''resolve configured subject'')
           | Inr found \<Rightarrow>
               if found \<noteq> nc_stream c then Inl (startupFailure ''verify configured subject'') else Inr (nc_subject c))"

definition hang_up :: "nat \<Rightarrow> nat \<Rightarrow> nat" where
  \<comment> \<open>after the close of \<open>k\<close> connections\<close>
  "hang_up k n = n - k"

definition createNatsSink :: "environment \<Rightarrow> nats_world \<Rightarrow> string dial" where
  \<comment> \<open>a failure after the connection closes it\<close>
  "createNatsSink env w n =
     (case nats_settings env of
        Inl _ \<Rightarrow> (Inl (startupFailure ''validate configuration''), n)
      | Inr c \<Rightarrow>
          if nw_connect w c \<noteq> None then (Inl (startupFailure ''connect''), n)
          else (case verify_stream w c of Inl e \<Rightarrow> (Inl e, hang_up 1 (n + 1)) | Inr subject \<Rightarrow> (Inr subject, n + 1)))"

fun settle_all :: "environment \<Rightarrow> nats_world list \<Rightarrow> nat \<Rightarrow> (js_error + string) list \<times> nat" where
  \<comment> \<open>\<open>Promise.allSettled\<close>\<close>
  "settle_all env [] n = ([], n)"
| "settle_all env (w # ws) n =
     (let (r, n1) = createNatsSink env w n; (rs, n2) = settle_all env ws n1 in (r # rs, n2))"

definition fulfilled :: "(js_error + string) list \<Rightarrow> string list" where
  "fulfilled results = List.map_filter (\<lambda>r. case r of Inl _ \<Rightarrow> None | Inr s \<Rightarrow> Some s) results"

definition createConfiguredSinks :: "environment \<Rightarrow> (event_sink \<Rightarrow> nats_world) \<Rightarrow> string list dial" where
  "createConfiguredSinks env w n =
     (case getEnabledConversationEventSinks env of
        Inl e \<Rightarrow> (Inl e, n)
      | Inr names \<Rightarrow>
          (let (results, n1) = settle_all env (map w names) n; sinks = fulfilled results
           in case find isl results of
                Some (Inl e) \<Rightarrow> (Inl e, hang_up (length sinks) n1)
              | _ \<Rightarrow> (Inr sinks, n1)))"

section \<open>Starting the server\<close>

record startup_world =
  st_url :: url_tools
  st_version :: string
  st_cron :: cron_test
  st_nats :: "event_sink \<Rightarrow> nats_world"
  st_headBucket :: "sdk_error option"

definition listen_port :: "environment \<Rightarrow> js_error + int" where
  \<comment> \<open>\<open>Number(process.env.PORT ?? 3000)\<close>, and the test of \<open>listen\<close>\<close>
  "listen_port env =
     (case js_Number_integer (case env ''PORT'' of None \<Rightarrow> ''3000'' | Some t \<Rightarrow> t) of
        Some port \<Rightarrow> if 0 \<le> port \<and> port \<le> 65535 then Inr port
          else Inl (JsError ''RangeError'' ''options.port should be >= 0 and < 65536'')
      | None \<Rightarrow> Inl (JsError ''RangeError'' ''options.port should be >= 0 and < 65536''))"

definition listen_host :: "environment \<Rightarrow> string" where
  "listen_host env = (case js_coalesce (env ''HOST'') (env ''HOSTNAME'') of None \<Rightarrow> ''0.0.0.0'' | Some host \<Rightarrow> host)"

text \<open>What runs once the server listens.\<close>

record running =
  rn_telemetry :: telemetry
  rn_sinks :: "string list"
  rn_events :: event_runtime
  rn_ingest :: worker
  rn_reaper :: worker
  rn_schedule :: "drain_schedule option"
  rn_port :: int
  rn_host :: string

definition new_worker :: "environment \<Rightarrow> worker" where
  "new_worker env = \<lparr>wk_enabled = attachmentsEnabled env, wk_stopped = False, wk_running = False, wk_healthy = True\<rparr>"

definition getPrismaClient :: "environment \<Rightarrow> js_error + unit" where
  "getPrismaClient env =
     (if truthy (env ''DATABASE_URL'') then Inr () else Inl (plain_error ''Missing DATABASE_URL environment variable''))"

definition verify_storage :: "environment \<Rightarrow> startup_world \<Rightarrow> js_error + unit" where
  "verify_storage env w =
     (if \<not> attachmentsEnabled env then Inr ()
      else then_try (resolveAttachmentPresignedUrlTtlSeconds env) (\<lambda>_.
           then_try (resolveAttachmentStorageConfig env) (\<lambda>_.
             case st_headBucket w of None \<Rightarrow> Inr () | Some e \<Rightarrow> Inl (sf_error (storage_fault_of ''storage_head_bucket'' e)))))"

definition startServer :: "environment \<Rightarrow> startup_world \<Rightarrow> js_error + running" where
  \<comment> \<open>\<open>Inl\<close>: the process exits\<close>
  "startServer env w =
     then_try (initializeTelemetry (st_url w) (st_version w) env idle_telemetry) (\<lambda>t.
     then_try (getPrismaClient env) (\<lambda>_.
     then_try (fst (createConfiguredSinks env (st_nats w) 0)) (\<lambda>sinks.
     then_try (verify_storage env w) (\<lambda>_.
     then_try (resolveOutboxDrainSchedule (st_cron w) env) (\<lambda>schedule.
     then_try (listen_port env) (\<lambda>port.
       Inr \<lparr>rn_telemetry = t, rn_sinks = sinks, rn_events = \<lparr>rt_stopped = False, rt_running = False, rt_healthy = True\<rparr>,
            rn_ingest = new_worker env, rn_reaper = new_worker env, rn_schedule = schedule, rn_port = port,
            rn_host = listen_host env\<rparr>))))))"

definition health_of :: "running \<Rightarrow> bool \<Rightarrow> health_world" where
  \<comment> \<open>what the health check finds in a running server\<close>
  "health_of r database =
     \<lparr>hl_events = Some (map (\<lambda>_. NATS) (rn_sinks r), rn_events r), hl_ingest = Some (rn_ingest r), hl_database = database\<rparr>"

section \<open>Lemmas\<close>

lemma first_failure_None [simp]: "first_failure cs = None \<longleftrightarrow> (\<forall>c \<in> set cs. c = None)"
  by (cases "filter (\<lambda>c. c \<noteq> None) cs")
    (auto simp: first_failure_def filter_eq_Cons_iff filter_empty_conv simp del: not_None_eq)

lemma then_try_Inr [simp]: "then_try (Inr a) f = f a"
  by (simp add: then_try_def)

lemma then_try_eq_Inr: "then_try r f = Inr b \<longleftrightarrow> (\<exists>a. r = Inr a \<and> f a = Inr b)"
  by (cases r) (simp_all add: then_try_def)

text \<open>The script and the service agree on the Reply-To address.\<close>

lemma script_valid_reply_to_eq: "script_valid_reply_to address \<longleftrightarrow> isValidReplyToBaseAddress address"
  by (auto simp: script_valid_reply_to_def isValidReplyToBaseAddress_def parseBaseMailbox_def Let_def ROUTING_TAG_PREFIX_def
      ROUTING_TOKEN_LENGTH_def split: option.splits if_splits)

lemma check_required_configured:
  "check_required env = None \<longleftrightarrow>
     truthy (env ''DATABASE_URL'') \<and> truthy (env ''RESEND_API_KEY'') \<and> truthy (env ''RESEND_WEBHOOK_SECRET'')
     \<and> truthy (env ''RESEND_REPLY_TO'') \<and> truthy (env ''OUTBOX_DRAIN_API_KEY'') \<and> truthy (resolveEmailV2ApiKey env)"
  by (auto simp: check_required_def missing_variables_def REQUIRED_ENV_VARS_def)

lemma trimmed_setting_env_or: "trimmed_setting env name = js_trim (env_or env name)"
  by (simp add: trimmed_setting_def env_or_def js_trim_def js_ltrim_def js_rtrim_def split: option.split)

lemma attachmentsEnabled_trimmed: "attachmentsEnabled env \<longleftrightarrow> js_toLower (trimmed_setting env ''ATTACHMENTS_ENABLED'') = ''true''"
  by (simp add: attachmentsEnabled_def trimmed_setting_env_or)

lemma missing_one_None: "missing_one event names env = None \<longleftrightarrow> (\<forall>name \<in> set names. truthy (env name))"
  by (auto simp: missing_one_def find_None_iff find_Some_iff split: option.splits)

lemma out_of_bounds_None:
  assumes "out_of_bounds event bounded env = None" and "(name, lo, hi) \<in> set bounded" and "trimmed_setting env name \<noteq> []"
  shows "\<exists>n. js_Number_integer (trimmed_setting env name) = Some n \<and> lo \<le> n \<and> n \<le> hi"
proof -
  have "\<not> out_of_range env (name, lo, hi)"
    using assms(1,2) by (auto simp: out_of_bounds_def find_None_iff split: option.splits prod.splits)
  with assms(3) show ?thesis by (auto simp: out_of_range_def Let_def split: option.splits)
qed

text \<open>What the script lets pass and the service still tests: blank names of the object store, empty entries
  in the list of sinks, the settings of the NATS client, the periods of the metric export, and the port.\<close>

definition unchecked_settings_ok :: "environment \<Rightarrow> bool" where
  "unchecked_settings_ok env \<longleftrightarrow>
     (attachmentsEnabled env \<longrightarrow> trimmed_setting env ''ATTACHMENTS_S3_BUCKET'' \<noteq> []
        \<and> trimmed_setting env ''ATTACHMENTS_S3_REGION'' \<noteq> [] \<and> trimmed_setting env ''ATTACHMENTS_S3_ACCESS_KEY_ID'' \<noteq> [])
     \<and> (let raw = trimmed_setting env ''CONVERSATION_EVENTS_SINKS''
        in raw \<noteq> [] \<longrightarrow> [] \<notin> set (map js_trim (js_split (CHR '','') raw)) \<and> \<not> isl (nats_settings env))
     \<and> (telemetry_on env \<longrightarrow>
          (\<exists>interval timeout. positiveInteger env ''OTEL_METRIC_EXPORT_INTERVAL'' DEFAULT_EXPORT_INTERVAL_MS = Inr interval
            \<and> positiveInteger env ''OTEL_EXPORTER_OTLP_METRICS_TIMEOUT'' DEFAULT_EXPORT_TIMEOUT_MS = Inr timeout
            \<and> timeout \<le> interval))
     \<and> \<not> isl (listen_port env)"

text \<open>Everything the service connects to answers as it should.\<close>

definition world_answers :: "environment \<Rightarrow> startup_world \<Rightarrow> bool" where
  "world_answers env w \<longleftrightarrow>
     st_headBucket w = None \<and> st_cron w (trimmed_setting env ''OUTBOX_DRAIN_SCHEDULE'')
        (js_or (trimmed_setting env ''OUTBOX_DRAIN_SCHEDULE_TIMEZONE'') DEFAULT_TIMEZONE) = None
     \<and> (\<forall>c. nats_settings env = Inr c \<longrightarrow> nw_connect (st_nats w NATS) c = None \<and> nw_manager (st_nats w NATS) = None
          \<and> nw_info (st_nats w NATS) (nc_stream c) = None \<and> nw_find (st_nats w NATS) (nc_subject c) = Inr (nc_stream c))"

lemma optionalHttpEndpoint_ok:
  "trimmed_setting env name \<noteq> [] \<longrightarrow> web_url u (trimmed_setting env name) \<Longrightarrow> \<exists>e. optionalHttpEndpoint u env name = Inr e"
  by (auto simp: optionalHttpEndpoint_def web_url_def Let_def split: option.splits)

lemma resource_attributes_ok:
  "list_all (attribute_ok u) entries \<Longrightarrow> \<exists>r. resource_attributes u entries attributes = Inr r"
proof (induction entries arbitrary: attributes)
  case (Cons entry entries)
  then obtain p k v where "attribute_pair entry = Some p" "decoded_attribute u p = Some (k, v)" "k \<noteq> []" "v \<noteq> []"
    by (auto simp: attribute_ok_def split: option.splits bind_splits)
  with Cons show ?case by simp
qed simp

lemma telemetry_starts:
  assumes "check_telemetry u env = None" and "unchecked_settings_ok env"
  shows "\<exists>t. initializeTelemetry u version env idle_telemetry = Inr t"
proof (cases "telemetry_on env")
  case True
  have urls: "trimmed_setting env name \<noteq> [] \<longrightarrow> web_url u (trimmed_setting env name)" if "name \<in> set OTLP_VARS" for name
    using assms(1) True that by (auto simp: check_telemetry_def Let_def find_None_iff split: option.splits)
  obtain b m l where ends: "optionalHttpEndpoint u env ''OTEL_EXPORTER_OTLP_ENDPOINT'' = Inr b"
    "optionalHttpEndpoint u env ''OTEL_EXPORTER_OTLP_METRICS_ENDPOINT'' = Inr m"
    "optionalHttpEndpoint u env ''OTEL_EXPORTER_OTLP_LOGS_ENDPOINT'' = Inr l"
    using urls [THEN optionalHttpEndpoint_ok] by (force simp: OTLP_VARS_def)
  have "\<exists>r. parseResourceAttributes u env = Inr r"
    using assms(1) True resource_attributes_ok
    by (auto simp: parseResourceAttributes_def check_telemetry_def Let_def split: option.splits if_splits)
  then obtain r where "telemetryResource u version env = Inr r" by (auto simp: telemetryResource_def)
  moreover obtain interval timeout where "positiveInteger env ''OTEL_METRIC_EXPORT_INTERVAL'' DEFAULT_EXPORT_INTERVAL_MS = Inr interval"
    "positiveInteger env ''OTEL_EXPORTER_OTLP_METRICS_TIMEOUT'' DEFAULT_EXPORT_TIMEOUT_MS = Inr timeout" "timeout \<le> interval"
    using assms(2) True by (auto simp: unchecked_settings_ok_def)
  ultimately show ?thesis using ends by (simp add: initializeTelemetry_def telemetry_settings_def idle_telemetry_def)
qed (simp add: initializeTelemetry_def)

subsection \<open>The list of sinks\<close>

lemma js_trim_Cons_space: "js_space c \<Longrightarrow> js_trim (c # p) = js_trim p"
  by (simp add: js_trim_def js_ltrim_def)

lemma js_trim_snoc_space:
  assumes "js_space c"
  shows "js_trim (p @ [c]) = js_trim p"
proof (cases "\<forall>x \<in> set p. js_space x")
  case True
  with assms have none: "dropWhile js_space p = []" "dropWhile js_space (p @ [c]) = []" by auto
  show ?thesis by (simp only: js_trim_def js_ltrim_def none)
next
  case False
  then have "dropWhile js_space (p @ [c]) = dropWhile js_space p @ [c]" by (auto simp: dropWhile_append)
  with assms show ?thesis by (simp add: js_trim_def js_ltrim_def js_rtrim_snoc)
qed

lemma js_split_snoc: "c \<noteq> d \<Longrightarrow> js_split d (s @ [c]) = butlast (js_split d s) @ [last (js_split d s) @ [c]]"
  by (induction s) (auto split: list.splits)

lemma split_ltrim:
  assumes "\<not> js_space d"
  shows "map js_trim (js_split d (js_ltrim s)) = map js_trim (js_split d s)"
proof (induction s)
  case (Cons c s)
  show ?case
  proof (cases "js_space c")
    case True
    obtain p ps where "js_split d s = p # ps" by (cases "js_split d s") auto
    with Cons True assms show ?thesis by (auto simp: js_ltrim_def js_trim_Cons_space)
  qed (simp add: js_ltrim_def)
qed (simp add: js_ltrim_def)

lemma split_rtrim:
  assumes "\<not> js_space d"
  shows "map js_trim (js_split d (js_rtrim s)) = map js_trim (js_split d s)"
proof (induction s rule: rev_induct)
  case (snoc c s)
  show ?case
  proof (cases "js_space c")
    case True
    then have "c \<noteq> d" using assms by auto
    obtain ps p where "js_split d s = ps @ [p]" by (cases "js_split d s" rule: rev_cases) auto
    then have "map js_trim (js_split d (s @ [c])) = map js_trim (js_split d s)"
      using True \<open>c \<noteq> d\<close> by (simp add: js_split_snoc js_trim_snoc_space)
    then show ?thesis using snoc True by (simp add: js_rtrim_snoc)
  qed (simp add: js_rtrim_snoc)
qed simp

lemma split_trimmed: "\<not> js_space d \<Longrightarrow> map js_trim (js_split d (js_trim s)) = map js_trim (js_split d s)"
  by (simp add: js_trim_def split_rtrim split_ltrim)

lemma of_char_upper_char:
  "(of_char (upper_char c) :: nat) =
     (if 97 \<le> (of_char c :: nat) \<and> of_char c \<le> (122 :: nat)
        \<or> 224 \<le> (of_char c :: nat) \<and> of_char c \<le> (254 :: nat) \<and> of_char c \<noteq> (247 :: nat)
      then of_char c - 32 else of_char c)"
  by (auto simp: upper_char_def Let_def of_char_of)

lemma upper_lower_char: "upper_char (lower_char c) = upper_char c"
  by (rule of_char_eqI) (auto simp: of_char_upper_char of_char_lower_char)

lemma js_toUpper_lower: "js_toUpper (js_toLower t) = js_toUpper t"
  by (simp add: js_toUpper_def js_toLower_def upper_lower_char)

lemma distinct_singleton: "distinct xs \<Longrightarrow> xs \<noteq> [] \<Longrightarrow> \<forall>x \<in> set xs. x = a \<Longrightarrow> xs = [a]"
  by (cases xs; cases "tl xs") auto

lemma js_set_Nil_iff: "js_set xs = [] \<longleftrightarrow> xs = []"
  by (cases xs) auto

lemma sinks_accepted:
  assumes "check_sinks env = None" and "unchecked_settings_ok env"
  shows "getEnabledConversationEventSinks env = Inr []
    \<or> getEnabledConversationEventSinks env = Inr [NATS] \<and> \<not> isl (nats_settings env)"
proof (cases "env ''CONVERSATION_EVENTS_SINKS''")
  case None
  then show ?thesis by (simp add: getEnabledConversationEventSinks_def)
next
  case (Some listed)
  let ?raw = "js_trim listed"
  let ?entries = "map js_trim (js_split (CHR '','') ?raw)"
  show ?thesis
  proof (cases "?raw = []")
    case True
    with Some show ?thesis by (simp add: getEnabledConversationEventSinks_def)
  next
    case False
    have raw: "trimmed_setting env ''CONVERSATION_EVENTS_SINKS'' = ?raw" using Some by (simp add: trimmed_setting_def)
    have ok: "[] \<notin> set ?entries" "\<not> isl (nats_settings env)"
      using assms(2) False raw by (simp_all add: unchecked_settings_ok_def Let_def)
    have same: "map js_trim (js_split (CHR '','') listed) = ?entries" by (simp add: split_trimmed js_space_def)
    have names: "event_sink_names env = filter (\<lambda>v. v \<noteq> []) (map js_toLower ?entries)"
      using Some same [symmetric] by (simp add: event_sink_names_def env_or_def comp_def)
    have "\<forall>sink \<in> set (event_sink_names env). sink = ''nats''" using assms(1) by (auto simp: check_sinks_def split: if_splits)
    moreover have "js_toLower v \<in> set (event_sink_names env)" if "v \<in> set ?entries" for v
    proof -
      have "v \<noteq> []" using that ok(1) by metis
      then have "js_toLower v \<noteq> []" by (simp add: js_toLower_def)
      then show ?thesis using imageI [OF that, of js_toLower] by (simp only: names set_filter set_map mem_Collect_eq simp_thms)
    qed
    ultimately have lower: "\<forall>v \<in> set ?entries. js_toLower v = ''nats''" by blast
    have "js_toUpper v = ''NATS''" if "v \<in> set ?entries" for v
    proof -
      have "js_toUpper (js_toLower v) = js_toUpper ''nats''" using lower that by metis
      moreover have "js_toUpper ''nats'' = ''NATS''" by code_simp
      ultimately show ?thesis by (simp only: js_toUpper_lower)
    qed
    then have vals: "js_set (map js_toUpper ?entries) = [''NATS'']"
      by (intro distinct_singleton) (auto simp: js_set_Nil_iff)
    have "map (\<lambda>v. js_toUpper (js_trim v)) (js_split (CHR '','') ?raw) = map js_toUpper ?entries" by simp
    with vals have "js_set (map (\<lambda>v. js_toUpper (js_trim v)) (js_split (CHR '','') ?raw)) = [''NATS'']" by (simp only:)
    then show ?thesis
      using Some False ok(2)
      by (simp add: getEnabledConversationEventSinks_def Let_def sink_of_name_def CONVERSATION_EVENT_SINKS_def sink_name_def
          List.map_filter_simps del: set_js_set)
  qed
qed

lemma one_sink:
  assumes "\<not> isl (nats_settings env)" and "world_answers env w"
  shows "\<exists>subject. settle_all env (map (st_nats w) [NATS]) 0 = ([Inr subject], 1)"
proof -
  obtain c where c: "nats_settings env = Inr c" using assms(1) by (cases "nats_settings env") auto
  with assms(2) show ?thesis by (simp add: world_answers_def createNatsSink_def verify_stream_def)
qed

lemma sinks_start:
  assumes "check_sinks env = None" and "unchecked_settings_ok env" and "world_answers env w"
  shows "\<exists>sinks. fst (createConfiguredSinks env (st_nats w) 0) = Inr sinks"
  using sinks_accepted [OF assms(1,2)] one_sink [OF _ assms(3)]
  by (auto simp: createConfiguredSinks_def fulfilled_def List.map_filter_simps)

lemma bounded_setting:
  assumes "out_of_bounds event bounded env = None" and "(name, 1, 100) \<in> set bounded"
  shows "\<exists>n. boundedInteger (env name) name fallback = Inr n"
proof (cases "trimmed_setting env name = []")
  case True
  then show ?thesis by (simp add: boundedInteger_def trimmed_setting_def split: option.splits)
next
  case False
  from out_of_bounds_None [OF assms this] False show ?thesis
    by (auto simp: boundedInteger_def trimmed_setting_def Let_def split: option.splits)
qed

lemma schedule_starts:
  assumes "check_schedule env = None" and "world_answers env w"
  shows "\<exists>schedule. resolveOutboxDrainSchedule (st_cron w) env = Inr schedule"
proof (cases "trimmed_setting env ''OUTBOX_DRAIN_SCHEDULE_ENABLED'' = []")
  case True
  then show ?thesis by (simp add: resolveOutboxDrainSchedule_def)
next
  case False
  then have fine: "js_toLower (trimmed_setting env ''OUTBOX_DRAIN_SCHEDULE_ENABLED'') = ''true''"
    "trimmed_setting env ''OUTBOX_DRAIN_SCHEDULE'' \<noteq> []"
    "out_of_bounds ''runtime_outbox_schedule_bound_invalid''
       [(''OUTBOX_DRAIN_SCHEDULE_BATCH_SIZE'', 1, 100), (''OUTBOX_DRAIN_SCHEDULE_MAX_BATCHES'', 1, 100)] env = None"
    using assms(1) by (auto simp: check_schedule_def Let_def split: if_splits)
  obtain b m where "boundedInteger (env ''OUTBOX_DRAIN_SCHEDULE_BATCH_SIZE'') ''OUTBOX_DRAIN_SCHEDULE_BATCH_SIZE'' DEFAULT_BATCH_SIZE = Inr b"
    "boundedInteger (env ''OUTBOX_DRAIN_SCHEDULE_MAX_BATCHES'') ''OUTBOX_DRAIN_SCHEDULE_MAX_BATCHES'' DEFAULT_MAX_BATCHES = Inr m"
    using bounded_setting [OF fine(3)] by (metis list.set_intros(1) list.set_intros(2))
  with False fine(1,2) assms(2) show ?thesis by (simp add: resolveOutboxDrainSchedule_def world_answers_def Let_def)
qed

lemma storage_starts:
  assumes "check_attachments u env = None" and "unchecked_settings_ok env" and "world_answers env w"
  shows "verify_storage env w = Inr () \<and> attachmentStorageConfigured env"
proof (cases "attachmentsEnabled env")
  case True
  then have on: "trimmed_setting env ''ATTACHMENTS_ENABLED'' \<noteq> []" by (auto simp: attachmentsEnabled_trimmed js_toLower_def)
  have set: "\<forall>name \<in> set S3_VARS. truthy (env name)"
    using assms(1) on by (auto simp: check_attachments_def Let_def missing_one_None)
  have "\<exists>ttl. resolveAttachmentPresignedUrlTtlSeconds env = Inr ttl"
  proof (cases "trimmed_setting env ''ATTACHMENTS_PRESIGNED_URL_TTL_SECONDS'' = []")
    case True
    then show ?thesis by (simp add: resolveAttachmentPresignedUrlTtlSeconds_def trimmed_setting_def split: option.splits)
  next
    case False
    have "\<exists>n. js_Number_integer (trimmed_setting env ''ATTACHMENTS_PRESIGNED_URL_TTL_SECONDS'') = Some n \<and> 1 \<le> n \<and> n \<le> 900"
      using assms(1) on False
      by (intro out_of_bounds_None [where event = "''runtime_attachments_bound_invalid''" and bounded =
            "[(''ATTACHMENTS_MAX_BYTES'', 1, 41943040), (''ATTACHMENTS_MAX_TOTAL_BYTES'', 1, 41943040),
               (''ATTACHMENTS_MAX_COUNT'', 1, 100), (''ATTACHMENTS_PRESIGNED_URL_TTL_SECONDS'', 1, 900)]"])
        (auto simp: check_attachments_def Let_def)
    with False show ?thesis
      by (auto simp: resolveAttachmentPresignedUrlTtlSeconds_def trimmed_setting_def MAX_PRESIGNED_URL_TTL_SECONDS_def
          split: option.splits list.splits)
  qed
  moreover have "\<exists>c. resolveAttachmentStorageConfig env = Inr c"
    using assms(2) True set
    by (auto simp: resolveAttachmentStorageConfig_def unchecked_settings_ok_def trimmed_setting_def S3_VARS_def truthy_def Let_def
        split: option.splits)
  ultimately show ?thesis
    using assms(3) True set by (auto simp: verify_storage_def world_answers_def attachmentStorageConfigured_def S3_VARS_def)
qed (simp add: verify_storage_def attachmentStorageConfigured_def)

lemma listening_healthy:
  assumes "startServer env w = Inr r" and "service_configured env"
  shows "health_get env (health_of r True) [] = json_reply 200 (JObject [(''status'', JString ''ok'')])"
proof -
  have "rt_healthy (rn_events r)" "wk_healthy (rn_ingest r)"
    using assms(1) by (auto simp: startServer_def then_try_eq_Inr new_worker_def)
  with assms(2) show ?thesis
    by (simp add: health_get_def health_of_def conversationEventRuntimeHealthy_def attachmentIngestRuntimeHealthy_def isHealthy_def
        ingest_isHealthy_def)
qed

section \<open>Properties\<close>


definition full_env :: environment where
  "full_env name =
     (if name = ''DATABASE_URL'' then Some ''postgres'' else if name = ''CONVERSATION_EVENTS_SINKS'' then Some '' nats ''
      else if name \<in> set NATS_VARS then Some ''v'' else if name = ''TELEMETRY_ENABLED'' then Some ''true''
      else if name = ''OTEL_EXPORTER_OTLP_ENDPOINT'' then Some ''http://otel/'' else if name = ''OTEL_RESOURCE_ATTRIBUTES'' then Some ''a=b''
      else if name = ''CONVERSATION_EVENTS_NATS_TLS_MODE'' then Some ''system'' else
        (case service_env name of Some v \<Rightarrow> Some v
         | None \<Rightarrow> (case storage_env name of Some v \<Rightarrow> Some v | None \<Rightarrow> (if name = ''OUTBOX_DRAIN_SCHEDULE'' then Some ''*/5 * * * *'' else sample_settings name))))"

definition full_world :: startup_world where
  "full_world =
     \<lparr>st_url = \<lparr>ut_protocol = (\<lambda>t. Some ''http:''), ut_join = (\<lambda>p b. b @ p), ut_decode = Some\<rparr>, st_version = ''1.0.0'',
      st_cron = (\<lambda>e z. None), st_nats = (\<lambda>s. \<lparr>nw_connect = (\<lambda>c. None), nw_manager = None, nw_info = (\<lambda>t. None), nw_find = (\<lambda>t. Inr ''v'')\<rparr>),
      st_headBucket = None\<rparr>"


text \<open>The script lets pass what stops the service: a comma at the end of the list of sinks, a blank name of
  a bucket, a word as the port.\<close>

lemma trailing_comma_stops:
  "let env = full_env(''CONVERSATION_EVENTS_SINKS'' := Some ''nats,'')
   in validate_runtime_env (st_url full_world) env = None \<and> startServer env full_world = Inl sinks_error"
  by code_simp

lemma blank_bucket_stops:
  "let env = full_env(''ATTACHMENTS_S3_BUCKET'' := Some '' '')
   in validate_runtime_env (st_url full_world) env = None
      \<and> startServer env full_world = Inl (plain_error ''Missing attachment storage configuration'')"
  by code_simp

lemma port_word_stops:
  "let env = full_env(''PORT'' := Some ''http'')
   in validate_runtime_env (st_url full_world) env = None
      \<and> startServer env full_world = Inl (JsError ''RangeError'' ''options.port should be >= 0 and < 65536'')"
  by code_simp

text \<open>A start that fails leaves no connection behind. Whatever NATS answers to the configuration, when
  the sinks cannot be created every connection that was opened is closed again, and otherwise each sink
  holds one.\<close>

theorem failed_sinks_close_connections:
  "case createConfiguredSinks env w n of (Inl e, m) \<Rightarrow> m = n | (Inr sinks, m) \<Rightarrow> m = n + length sinks"
proof -
  have one: "case createNatsSink env v k of (Inl e, m) \<Rightarrow> m = k | (Inr subject, m) \<Rightarrow> m = k + 1" for v k
    by (auto simp: createNatsSink_def hang_up_def split: sum.splits)
  have all: "snd (settle_all env ws k) = k + length (fulfilled (fst (settle_all env ws k)))" for ws k
  proof (induction ws arbitrary: k)
    case (Cons v ws)
    then show ?case using one [where v = v and k = k]
      by (auto simp: fulfilled_def List.map_filter_simps case_prod_unfold Let_def split: sum.splits)
  qed (simp add: fulfilled_def List.map_filter_simps)
  show ?thesis
    using all by (auto simp: createConfiguredSinks_def hang_up_def case_prod_unfold Let_def split: sum.splits option.splits)
qed

end
