(* ===== verification/Process_Lifecycle.thy ===== *)
theory Process_Lifecycle
  imports Startup
begin

text \<open>
  The life of the process: the four background services that \<open>startServer\<close> sets going
  (\<open>outbox-drain-scheduler.ts\<close>, \<open>attachments/ingest-runtime.ts\<close>, \<open>attachments/reaper.ts\<close>,
  \<open>conversation-event-runtime.ts\<close>), their flags \<open>running\<close> and \<open>stopped\<close>, their timers and the calls
  that wake and stop them, and the shutdown that \<open>server.ts\<close> runs on a signal. What a cycle does to
  the database is in the theories of the services; here a cycle has a beginning and an end, and
  everything else may happen between them.
\<close>

section \<open>A background service\<close>

datatype role = DrainJob | IngestWorker | ReaperWorker | EventWorker

text \<open>\<open>sv_working\<close> counts the cycles under way and \<open>sv_closed\<close> the times the sinks were closed; the code
  has no such counters, they are what the properties are about.\<close>

record background =
  sv_present :: bool \<comment> \<open>the module variable (\<open>runtime\<close> or \<open>job\<close>) is set\<close>
  sv_enabled :: bool
  sv_stopped :: bool
  sv_timer :: bool
  sv_running :: bool
  sv_working :: nat
  sv_closed :: nat

definition begin_cycle :: "background \<Rightarrow> background" where
  "begin_cycle sv = sv\<lparr>sv_running := True, sv_working := sv_working sv + 1\<rparr>"

text \<open>The guards in front of a cycle.\<close>

definition job_tick :: "background \<Rightarrow> background" where
  "job_tick sv = (if sv_running sv then sv else begin_cycle sv)"

definition ingest_entry :: "background \<Rightarrow> background" where
  "ingest_entry sv = (if sv_stopped sv \<or> sv_running sv \<or> \<not> sv_enabled sv then sv else begin_cycle sv)"

definition reaper_entry :: "background \<Rightarrow> background" where
  "reaper_entry sv = (if sv_stopped sv \<or> sv_running sv \<or> \<not> sv_enabled sv then sv else begin_cycle sv)"

definition event_entry :: "background \<Rightarrow> background" where
  "event_entry sv = (if sv_stopped sv \<or> sv_running sv then sv else begin_cycle sv)"

definition drain_call :: "role \<Rightarrow> background \<Rightarrow> background" where
  "drain_call r sv =
     (case r of DrainJob \<Rightarrow> job_tick sv | IngestWorker \<Rightarrow> ingest_entry sv | ReaperWorker \<Rightarrow> reaper_entry sv
      | EventWorker \<Rightarrow> event_entry sv)"

lemmas entry_defs = job_tick_def ingest_entry_def reaper_entry_def event_entry_def

definition drain_end :: "background \<Rightarrow> background" where
  \<comment> \<open>the \<open>finally\<close>\<close>
  "drain_end sv = sv\<lparr>sv_running := False, sv_working := sv_working sv - 1\<rparr>"

definition new_service :: "bool \<Rightarrow> background" where
  "new_service enabled =
     \<lparr>sv_present = True, sv_enabled = enabled, sv_stopped = False, sv_timer = False, sv_running = False, sv_working = 0,
      sv_closed = 0\<rparr>"

definition job_start :: "background \<Rightarrow> background" where
  \<comment> \<open>no schedule, no job; the first cycle waits for the clock\<close>
  "job_start sv = sv\<lparr>sv_present := sv_enabled sv, sv_timer := sv_enabled sv\<rparr>"

definition worker_start :: "role \<Rightarrow> background \<Rightarrow> background" where
  "worker_start r sv = (if \<not> sv_enabled sv then sv else drain_call r (sv\<lparr>sv_timer := True\<rparr>))"

definition service_start :: "role \<Rightarrow> background \<Rightarrow> background" where
  "service_start r sv = (if r = DrainJob then job_start sv else worker_start r sv)"

definition service_wake :: "role \<Rightarrow> background \<Rightarrow> background" where
  "service_wake r sv = (if \<not> sv_present sv \<or> sv_stopped sv then sv else drain_call r sv)"

definition wakeable :: "role \<Rightarrow> bool" where
  "wakeable r \<longleftrightarrow> r = IngestWorker \<or> r = EventWorker"

definition job_stop :: "background \<Rightarrow> background" where
  "job_stop sv = sv\<lparr>sv_timer := False, sv_present := False\<rparr>"

definition worker_stop :: "background \<Rightarrow> background" where
  "worker_stop sv = (if sv_present sv then sv\<lparr>sv_stopped := True, sv_timer := False\<rparr> else sv)"

definition stop_begin :: "role \<Rightarrow> background \<Rightarrow> background" where
  \<comment> \<open>the stop of a service up to its first wait\<close>
  "stop_begin r sv = (if r = DrainJob then job_stop sv else worker_stop sv)"

definition stop_waits :: "role \<Rightarrow> background \<Rightarrow> bool" where
  \<comment> \<open>the condition of its loop\<close>
  "stop_waits r sv \<longleftrightarrow> (r = DrainJob \<or> sv_present sv) \<and> sv_running sv"

definition stop_end :: "role \<Rightarrow> background \<Rightarrow> background" where
  \<comment> \<open>what follows the loop\<close>
  "stop_end r sv =
     (if r = EventWorker \<and> sv_present sv then sv\<lparr>sv_closed := sv_closed sv + 1, sv_present := False\<rparr>
      else sv\<lparr>sv_present := False\<rparr>)"

section \<open>The process\<close>

datatype phase = Serving | Stopping role | Disconnecting | Flushing

record process =
  pr_service :: "role \<Rightarrow> background"
  pr_listening :: bool
  pr_sockets :: nat \<comment> \<open>open connections\<close>
  pr_closing :: bool
  pr_phase :: phase
  pr_connected :: bool \<comment> \<open>to the database\<close>
  pr_exit :: "int option"

definition on_service :: "role \<Rightarrow> (background \<Rightarrow> background) \<Rightarrow> process \<Rightarrow> process" where
  "on_service r f p = p\<lparr>pr_service := (pr_service p)(r := f (pr_service p r))\<rparr>"

definition enter_stop :: "role \<Rightarrow> process \<Rightarrow> process" where
  "enter_stop r p = on_service r (stop_begin r) (p\<lparr>pr_phase := Stopping r\<rparr>)"

definition after_stop :: "role \<Rightarrow> process \<Rightarrow> process" where
  \<comment> \<open>the statement behind the awaited stop\<close>
  "after_stop r p =
     (case r of
        DrainJob \<Rightarrow> enter_stop IngestWorker p
      | IngestWorker \<Rightarrow> enter_stop ReaperWorker p
      | ReaperWorker \<Rightarrow> enter_stop EventWorker p
      | EventWorker \<Rightarrow> p\<lparr>pr_phase := Disconnecting\<rparr>)"

definition shutdown_signal :: "process \<Rightarrow> process" where
  "shutdown_signal p = (if pr_closing p then p else p\<lparr>pr_closing := True, pr_listening := False\<rparr>)"

definition exited :: "process \<Rightarrow> bool" where
  "exited p \<longleftrightarrow> pr_exit p \<noteq> None"

definition enabled_role :: "running \<Rightarrow> role \<Rightarrow> bool" where
  "enabled_role r role =
     (case role of
        DrainJob \<Rightarrow> rn_schedule r \<noteq> None
      | IngestWorker \<Rightarrow> wk_enabled (rn_ingest r)
      | ReaperWorker \<Rightarrow> wk_enabled (rn_reaper r)
      | EventWorker \<Rightarrow> rn_sinks r \<noteq> [])"

definition process_of :: "running \<Rightarrow> process" where
  \<comment> \<open>after \<open>listen\<close>\<close>
  "process_of r =
     \<lparr>pr_service = (\<lambda>role. service_start role (new_service (enabled_role r role))), pr_listening = True, pr_sockets = 0,
      pr_closing = False, pr_phase = Serving, pr_connected = True,
      pr_exit = None\<rparr>"

text \<open>One step: a timer fires, a request wakes a worker, a cycle ends, a connection comes or goes, a signal
  arrives, the shutdown goes on, or its deadline passes.\<close>

inductive process_step :: "process \<Rightarrow> process \<Rightarrow> bool" where
  tick: "\<not> exited p \<Longrightarrow> sv_timer (pr_service p r) \<Longrightarrow> process_step p (on_service r (drain_call r) p)"
| wake: "\<not> exited p \<Longrightarrow> wakeable r \<Longrightarrow> process_step p (on_service r (service_wake r) p)"
| cycle: "\<not> exited p \<Longrightarrow> 0 < sv_working (pr_service p r) \<Longrightarrow> process_step p (on_service r drain_end p)"
| accept: "\<not> exited p \<Longrightarrow> pr_listening p \<Longrightarrow> process_step p (p\<lparr>pr_sockets := pr_sockets p + 1\<rparr>)"
| hangup: "\<not> exited p \<Longrightarrow> 0 < pr_sockets p \<Longrightarrow> process_step p (p\<lparr>pr_sockets := pr_sockets p - 1\<rparr>)"
| signal: "\<not> exited p \<Longrightarrow> process_step p (shutdown_signal p)"
| closed: "\<not> exited p \<Longrightarrow> pr_phase p = Serving \<Longrightarrow> pr_closing p \<Longrightarrow> pr_sockets p = 0 \<Longrightarrow> process_step p (enter_stop DrainJob p)"
| stopped: "\<not> exited p \<Longrightarrow> pr_phase p = Stopping r \<Longrightarrow> \<not> stop_waits r (pr_service p r) \<Longrightarrow>
    process_step p (after_stop r (on_service r (stop_end r) p))"
| disconnect: "\<not> exited p \<Longrightarrow> pr_phase p = Disconnecting \<Longrightarrow> process_step p (p\<lparr>pr_phase := Flushing, pr_connected := False\<rparr>)"
| flush: "\<not> exited p \<Longrightarrow> pr_phase p = Flushing \<Longrightarrow> process_step p (p\<lparr>pr_exit := Some 0\<rparr>)"
| deadline: "\<not> exited p \<Longrightarrow> pr_closing p \<Longrightarrow> process_step p (p\<lparr>pr_exit := Some 1\<rparr>)"

inductive_cases process_stepE: "process_step p q"

section \<open>Invariant\<close>

text \<open>How far the shutdown has come with a service.\<close>

fun role_rank :: "role \<Rightarrow> nat" where
  "role_rank DrainJob = 0" | "role_rank IngestWorker = 1" | "role_rank ReaperWorker = 2" | "role_rank EventWorker = 3"

fun phase_rank :: "phase \<Rightarrow> nat" where
  "phase_rank Serving = 0"
| "phase_rank (Stopping r) = Suc (role_rank r)"
| "phase_rank Disconnecting = 5"
| "phase_rank Flushing = 6"

definition counted :: "background \<Rightarrow> bool" where
  "counted sv \<longleftrightarrow> sv_working sv = (if sv_running sv then 1 else 0)"

definition halted :: "role \<Rightarrow> background \<Rightarrow> bool" where
  \<comment> \<open>no new cycle begins\<close>
  "halted r sv \<longleftrightarrow> \<not> sv_timer sv \<and> (r \<noteq> DrainJob \<longrightarrow> sv_stopped sv)"

definition in_service :: "role \<Rightarrow> background \<Rightarrow> bool" where
  "in_service r sv \<longleftrightarrow> sv_closed sv = 0 \<and> (r \<noteq> DrainJob \<longrightarrow> sv_present sv)"

definition at_rest :: "role \<Rightarrow> background \<Rightarrow> bool" where
  "at_rest r sv \<longleftrightarrow> halted r sv \<and> \<not> sv_running sv \<and> \<not> sv_present sv \<and> sv_closed sv = (if r = EventWorker then 1 else 0)"

definition service_inv :: "role \<Rightarrow> nat \<Rightarrow> background \<Rightarrow> bool" where
  "service_inv r n sv \<longleftrightarrow>
     counted sv \<and> (if role_rank r + 1 < n then at_rest r sv else in_service r sv) \<and> (role_rank r + 1 \<le> n \<longrightarrow> halted r sv)"

definition process_inv :: "process \<Rightarrow> bool" where
  "process_inv p \<longleftrightarrow>
     (\<forall>r. service_inv r (phase_rank (pr_phase p)) (pr_service p r))
     \<and> (pr_phase p \<noteq> Serving \<longrightarrow> pr_closing p) \<and> (pr_connected p \<longleftrightarrow> pr_phase p \<noteq> Flushing)
     \<and> (pr_exit p = Some 0 \<longrightarrow> pr_phase p = Flushing) \<and> (\<not> pr_closing p \<longrightarrow> pr_exit p = None)"

lemma on_service_simps [simp]:
  "pr_service (on_service r f p) = (pr_service p)(r := f (pr_service p r))"
  "pr_phase (on_service r f p) = pr_phase p" "pr_closing (on_service r f p) = pr_closing p"
  "pr_connected (on_service r f p) = pr_connected p" "pr_sockets (on_service r f p) = pr_sockets p"
  "pr_exit (on_service r f p) = pr_exit p"
  by (simp_all add: on_service_def)

lemma shutdown_signal_simps [simp]:
  "pr_service (shutdown_signal p) = pr_service p" "pr_phase (shutdown_signal p) = pr_phase p"
  "pr_closing (shutdown_signal p)" "pr_connected (shutdown_signal p) = pr_connected p"
  "pr_exit (shutdown_signal p) = pr_exit p"
  by (simp_all add: shutdown_signal_def)

text \<open>What happens to one service.\<close>

lemma begin_cycle_simps [simp]:
  "sv_present (begin_cycle sv) = sv_present sv" "sv_enabled (begin_cycle sv) = sv_enabled sv"
  "sv_stopped (begin_cycle sv) = sv_stopped sv" "sv_timer (begin_cycle sv) = sv_timer sv"
  "sv_closed (begin_cycle sv) = sv_closed sv" "sv_running (begin_cycle sv)" "sv_working (begin_cycle sv) = sv_working sv + 1"
  by (simp_all add: begin_cycle_def)

lemma drain_call_cases:
  "drain_call r sv = sv \<or> (\<not> sv_running sv \<and> (r \<noteq> DrainJob \<longrightarrow> \<not> sv_stopped sv) \<and> drain_call r sv = begin_cycle sv)"
  by (cases r) (simp_all add: drain_call_def entry_defs)

lemma service_inv_begin:
  "service_inv r n sv \<Longrightarrow> \<not> sv_running sv \<Longrightarrow> \<not> halted r sv \<Longrightarrow> service_inv r n (begin_cycle sv)"
  by (auto simp: service_inv_def counted_def at_rest_def in_service_def)

lemma tick_inv: "service_inv r n sv \<Longrightarrow> sv_timer sv \<Longrightarrow> service_inv r n (drain_call r sv)"
  using drain_call_cases [of r sv] by (auto intro!: service_inv_begin simp: halted_def)

lemma wake_inv: "service_inv r n sv \<Longrightarrow> wakeable r \<Longrightarrow> service_inv r n (service_wake r sv)"
  using drain_call_cases [of r sv] by (auto intro!: service_inv_begin simp: halted_def service_wake_def wakeable_def)

lemma cycle_inv: "service_inv r n sv \<Longrightarrow> 0 < sv_working sv \<Longrightarrow> service_inv r n (drain_end sv)"
  by (auto simp: service_inv_def counted_def at_rest_def in_service_def halted_def drain_end_def split: if_splits)

lemma stop_begin_inv:
  "service_inv r (role_rank r) sv \<Longrightarrow> service_inv r (Suc (role_rank r)) (stop_begin r sv)"
  by (auto simp: service_inv_def counted_def in_service_def halted_def stop_begin_def job_stop_def worker_stop_def)

lemma stop_end_inv:
  "service_inv r (Suc (role_rank r)) sv \<Longrightarrow> \<not> stop_waits r sv \<Longrightarrow> service_inv r (Suc (Suc (role_rank r))) (stop_end r sv)"
  by (auto simp: service_inv_def counted_def in_service_def halted_def stop_end_def at_rest_def stop_waits_def)

text \<open>What happens to the process.\<close>

lemma on_service_inv:
  assumes "process_inv p" and "service_inv r (phase_rank (pr_phase p)) (f (pr_service p r))"
  shows "process_inv (on_service r f p)"
  using assms by (auto simp: process_inv_def)

lemma service_inv_other:
  "role_rank q \<noteq> n \<Longrightarrow> Suc (role_rank q) \<noteq> n \<Longrightarrow> service_inv q n sv \<Longrightarrow> service_inv q (Suc n) sv"
  by (auto simp: service_inv_def split: if_splits)

lemma rank_apart: "role_rank q = role_rank r \<longleftrightarrow> q = r"
  by (cases q; cases r) simp_all

lemma rank_below: "role_rank r < 4"
  by (cases r) simp_all

lemma enter_stop_inv:
  assumes "\<forall>q. service_inv q (if role_rank q + 1 = role_rank r then Suc (role_rank r) else role_rank r) (pr_service p q)"
    and "pr_closing p" "pr_connected p" "pr_exit p = None"
  shows "process_inv (enter_stop r p)"
proof -
  have "service_inv q (Suc (role_rank r)) (pr_service (enter_stop r p) q)" for q
  proof (cases "q = r")
    case True
    then show ?thesis using spec [OF assms(1), of r] by (simp add: enter_stop_def stop_begin_inv)
  next
    case False
    then show ?thesis
      using spec [OF assms(1), of q] rank_apart [of q r] by (auto simp: enter_stop_def intro: service_inv_other split: if_splits)
  qed
  then show ?thesis using assms(2-4) by (simp add: process_inv_def enter_stop_def)
qed

lemma stopped_inv:
  assumes "process_inv p" and "pr_phase p = Stopping r" and "\<not> stop_waits r (pr_service p r)" and "\<not> exited p"
  shows "process_inv (after_stop r (on_service r (stop_end r) p))"
proof -
  let ?p = "on_service r (stop_end r) p"
  have inv: "service_inv q (Suc (role_rank r)) (pr_service p q)" for q using assms(1,2) by (simp add: process_inv_def)
  have r: "service_inv r (Suc (Suc (role_rank r))) (pr_service ?p r)" using stop_end_inv [OF inv assms(3)] by simp
  have q: "service_inv q (if role_rank q + 1 = Suc (role_rank r) then Suc (Suc (role_rank r)) else Suc (role_rank r)) (pr_service ?p q)" for q
    using r inv [of q] rank_apart [of q r] by auto
  have more: "pr_closing p" "pr_connected p" "pr_exit p = None"
    using assms(1,2,4) by (auto simp: process_inv_def exited_def)
  show ?thesis
  proof (cases "r = EventWorker")
    case True
    have "service_inv q 5 (pr_service ?p q)" for q
      using q [of q] service_inv_other [of q 4 "pr_service ?p q"] True by (cases q) (simp_all add: numeral_eq_Suc)
    then show ?thesis using more True by (simp add: process_inv_def after_stop_def)
  next
    case False
    then obtain r' where r': "after_stop r ?p = enter_stop r' ?p" "role_rank r' = Suc (role_rank r)"
      by (cases r) (auto simp: after_stop_def)
    show ?thesis unfolding r'(1)
    proof (rule enter_stop_inv)
      show "\<forall>q. service_inv q (if role_rank q + 1 = role_rank r' then Suc (role_rank r') else role_rank r') (pr_service ?p q)"
        unfolding r'(2) using q by blast
    qed (use more in simp_all)
  qed
qed

lemma process_step_inv:
  assumes "process_step p q" and "process_inv p"
  shows "process_inv q"
  using assms
proof cases
  case (closed)
  then show ?thesis using enter_stop_inv [of DrainJob p] assms(2) by (auto simp: process_inv_def exited_def)
next
  case (disconnect)
  then have "service_inv r 6 (pr_service p r)" for r
    using assms(2) service_inv_other [of r 5 "pr_service p r"] by (cases r) (simp_all add: process_inv_def numeral_eq_Suc)
  then show ?thesis using disconnect assms(2) by (auto simp: process_inv_def exited_def)
next
  case (stopped r)
  then show ?thesis using stopped_inv assms(2) by simp
qed (use assms(2) in \<open>auto simp: process_inv_def exited_def intro!: tick_inv wake_inv cycle_inv\<close>)

lemma process_of_inv: "process_inv (process_of r)"
  by (auto simp: process_inv_def process_of_def service_start_def job_start_def worker_start_def new_service_def drain_call_def entry_defs service_inv_def counted_def
      in_service_def begin_cycle_def split: role.splits)

lemma reachable_inv: "process_step\<^sup>*\<^sup>* p q \<Longrightarrow> process_inv p \<Longrightarrow> process_inv q"
  by (induction rule: rtranclp_induct) (auto intro: process_step_inv)

text \<open>While the shutdown is not through, some step brings it closer.\<close>

definition shutdown_measure :: "process \<Rightarrow> nat" where
  "shutdown_measure p =
     pr_sockets p + 2 * (6 - phase_rank (pr_phase p))
     + (\<Sum>r \<leftarrow> [DrainJob, IngestWorker, ReaperWorker, EventWorker]. if sv_running (pr_service p r) then 1 else 0)"

lemma stop_flags [simp]:
  "sv_running (stop_begin r sv) = sv_running sv" "sv_running (stop_end r sv) = sv_running sv"
  "\<not> sv_running (drain_end sv)"
  by (simp_all add: stop_begin_def job_stop_def worker_stop_def stop_end_def drain_end_def)

lemma running_flags [simp]:
  "sv_running (pr_service (enter_stop r p) q) = sv_running (pr_service p q)" "pr_phase (enter_stop r p) = Stopping r"
  "pr_sockets (enter_stop r p) = pr_sockets p" "pr_closing (enter_stop r p) = pr_closing p"
  "pr_exit (enter_stop r p) = pr_exit p"
  by (simp_all add: enter_stop_def)

lemma after_stop_simps [simp]:
  "phase_rank (pr_phase (after_stop r p)) = role_rank r + 2" "pr_sockets (after_stop r p) = pr_sockets p"
  "pr_closing (after_stop r p) = pr_closing p" "pr_exit (after_stop r p) = pr_exit p"
  "sv_running (pr_service (after_stop r p) q) = sv_running (pr_service p q)"
  by (cases r; simp add: after_stop_def)+

lemma on_service_running:
  "sv_running (pr_service (on_service r (stop_end r) p) q) = sv_running (pr_service p q)"
  by simp

lemma measure_rank:
  assumes "\<And>r. sv_running (pr_service q r) = sv_running (pr_service p r)" and "pr_sockets q = pr_sockets p"
    and "phase_rank (pr_phase p) < phase_rank (pr_phase q)" and "phase_rank (pr_phase q) \<le> 6"
  shows "shutdown_measure q < shutdown_measure p"
  using assms by (simp add: shutdown_measure_def)

lemma measure_cycle:
  assumes "sv_running (pr_service p r)"
  shows "shutdown_measure (on_service r drain_end p) < shutdown_measure p"
  using assms by (cases r) (simp_all add: shutdown_measure_def)

lemma progress:
  assumes "process_inv p" and "pr_closing p" and "\<not> exited p"
  shows "\<exists>q. process_step p q \<and> (pr_exit q = Some 0 \<or> pr_closing q \<and> \<not> exited q \<and> shutdown_measure q < shutdown_measure p)"
proof (cases "pr_phase p")
  case Serving
  show ?thesis
  proof (cases "pr_sockets p")
    case 0
    have "pr_closing (enter_stop DrainJob p) \<and> \<not> exited (enter_stop DrainJob p) \<and> shutdown_measure (enter_stop DrainJob p) < shutdown_measure p"
      using assms(2,3) Serving measure_rank [of "enter_stop DrainJob p" p] by (simp add: exited_def)
    with process_step.closed [OF assms(3) Serving assms(2) 0] show ?thesis by blast
  next
    case (Suc n)
    let ?q = "p\<lparr>pr_sockets := pr_sockets p - 1\<rparr>"
    have "pr_closing ?q \<and> \<not> exited ?q \<and> shutdown_measure ?q < shutdown_measure p"
      using assms(2,3) Suc by (simp add: shutdown_measure_def exited_def)
    moreover have "process_step p ?q" using process_step.hangup [OF assms(3)] Suc by simp
    ultimately show ?thesis by blast
  qed
next
  case (Stopping r)
  show ?thesis
  proof (cases "stop_waits r (pr_service p r)")
    case True
    then have running: "sv_running (pr_service p r)" by (simp add: stop_waits_def)
    then have "0 < sv_working (pr_service p r)" using assms(1) by (auto simp: process_inv_def service_inv_def counted_def)
    note step = process_step.cycle [OF assms(3) this]
    have "pr_closing (on_service r drain_end p) \<and> \<not> exited (on_service r drain_end p)" using assms(2,3) by (simp add: exited_def)
    with step measure_cycle [OF running] show ?thesis by blast
  next
    case False
    let ?q = "after_stop r (on_service r (stop_end r) p)"
    have "shutdown_measure ?q < shutdown_measure p"
      using Stopping rank_below [of r] by (intro measure_rank) (simp_all del: on_service_simps(1) add: on_service_running)
    moreover have "pr_closing ?q \<and> \<not> exited ?q" using assms(2,3) by (simp add: exited_def)
    ultimately show ?thesis using process_step.stopped [OF assms(3) Stopping False] by blast
  qed
next
  case Disconnecting
  let ?q = "p\<lparr>pr_phase := Flushing, pr_connected := False\<rparr>"
  have "pr_closing ?q \<and> \<not> exited ?q \<and> shutdown_measure ?q < shutdown_measure p"
    using assms(2,3) Disconnecting by (simp add: shutdown_measure_def exited_def)
  with process_step.disconnect [OF assms(3) Disconnecting] show ?thesis by blast
next
  case Flushing
  have "pr_exit (p\<lparr>pr_exit := Some 0\<rparr>) = Some 0" by simp
  with process_step.flush [OF assms(3) Flushing] show ?thesis by blast
qed

lemma completes:
  "process_inv p \<Longrightarrow> pr_closing p \<Longrightarrow> \<not> exited p \<Longrightarrow> \<exists>q. process_step\<^sup>*\<^sup>* p q \<and> pr_exit q = Some 0"
proof (induction "shutdown_measure p" arbitrary: p rule: less_induct)
  case less
  from progress [OF less.prems] obtain q where q: "process_step p q"
    "pr_exit q = Some 0 \<or> pr_closing q \<and> \<not> exited q \<and> shutdown_measure q < shutdown_measure p" by blast
  show ?case
  proof (cases "pr_exit q = Some 0")
    case False
    with q(2) less.hyps [of q] process_step_inv [OF q(1) less.prems(1)] obtain u where "process_step\<^sup>*\<^sup>* q u" "pr_exit u = Some 0" by blast
    with q(1) show ?thesis by (blast intro: converse_rtranclp_into_rtranclp)
  qed (use q(1) in blast)
qed

section \<open>Properties\<close>

definition busy_running :: running where
  "busy_running =
     \<lparr>rn_telemetry = idle_telemetry, rn_sinks = [''conversations''],
      rn_events = \<lparr>rt_stopped = False, rt_running = False, rt_healthy = True\<rparr>, rn_ingest = steady_worker,
      rn_reaper = steady_worker, rn_schedule = Some sample_schedule, rn_port = 3000, rn_host = ''0.0.0.0''\<rparr>"

lemma fresh_process [simp]: "pr_exit (process_of r) = None" "pr_phase (process_of r) = Serving"
  by (simp_all add: process_of_def)

lemma busy_signal: "process_step (process_of r) (shutdown_signal (process_of r))"
  by (rule process_step.signal) (simp add: exited_def)

lemma busy_shutdown: "\<exists>q. process_step\<^sup>*\<^sup>* (shutdown_signal (process_of busy_running)) q \<and> pr_exit q = Some 0"
  by (rule completes [OF process_step_inv [OF busy_signal process_of_inv]]) (simp_all add: exited_def)

text \<open>C19: the shutdown is orderly. Whatever timers, requests, signals and connections do, a service never has
  two cycles at once, the sinks are closed only when no cycle of the event worker can use them, and
  only once; and when the database is disconnected, or the process exits with 0, no service works any
  more, no timer is left and the sinks are closed.\<close>

theorem shutdown_is_orderly:
  assumes "process_step\<^sup>*\<^sup>* (process_of r) p"
  shows "(\<forall>role. sv_working (pr_service p role) \<le> 1)
    \<and> (0 < sv_closed (pr_service p EventWorker) \<longrightarrow>
         sv_closed (pr_service p EventWorker) = 1 \<and> sv_working (pr_service p EventWorker) = 0)
    \<and> (\<not> pr_connected p \<or> pr_exit p = Some 0 \<longrightarrow>
         (\<forall>role. sv_working (pr_service p role) = 0 \<and> \<not> sv_timer (pr_service p role))
         \<and> sv_closed (pr_service p EventWorker) = 1)"
proof -
  have inv: "process_inv p" by (rule reachable_inv [OF assms process_of_inv])
  have service: "service_inv role (phase_rank (pr_phase p)) (pr_service p role)" for role using inv by (simp add: process_inv_def)
  have one: "sv_working (pr_service p role) \<le> 1" for role using service [of role] by (simp add: service_inv_def counted_def)
  have closed: "sv_closed (pr_service p EventWorker) = 1 \<and> sv_working (pr_service p EventWorker) = 0"
    if "0 < sv_closed (pr_service p EventWorker)"
    using service [of EventWorker] that by (auto simp: service_inv_def counted_def at_rest_def in_service_def split: if_splits)
  have rest: "at_rest role (pr_service p role) \<and> counted (pr_service p role)" if "\<not> pr_connected p \<or> pr_exit p = Some 0" for role
    using service [of role] inv that rank_below [of role] by (auto simp: process_inv_def service_inv_def)
  have "(\<forall>role. sv_working (pr_service p role) = 0 \<and> \<not> sv_timer (pr_service p role)) \<and> sv_closed (pr_service p EventWorker) = 1"
    if "\<not> pr_connected p \<or> pr_exit p = Some 0"
    using rest [OF that] unfolding at_rest_def counted_def halted_def by simp
  with one closed show ?thesis by blast
qed

theorem shutdown_is_orderly_witness:
  "\<exists>q. process_step\<^sup>*\<^sup>* (process_of busy_running) q \<and> pr_exit q = Some 0
    \<and> sv_working (pr_service q DrainJob) = 0 \<and> sv_closed (pr_service q EventWorker) = 1"
proof -
  obtain q where q: "process_step\<^sup>*\<^sup>* (shutdown_signal (process_of busy_running)) q" "pr_exit q = Some 0"
    using busy_shutdown by blast
  have run: "process_step\<^sup>*\<^sup>* (process_of busy_running) q" by (rule converse_rtranclp_into_rtranclp [OF busy_signal q(1)])
  from shutdown_is_orderly [OF run] q(2) run show ?thesis by blast
qed



end
