(* ===== verification/Telemetry.thy ===== *)
theory Telemetry
  imports Startup Complex_Main
begin

text \<open>
  \<open>src/lib/telemetry-metrics.ts\<close>, \<open>src/lib/logger.ts\<close> and \<open>emitTelemetryLog\<close> of \<open>src/lib/telemetry.ts\<close>,
  with the places that measure: the requests of \<open>server.ts\<close>, the calls of \<open>resend-client.ts\<close> and of
  \<open>attachments/storage.ts\<close>. What a meter was told is the list of the measurements, in order; durations
  are arguments. The exporters of OpenTelemetry and the output of pino are not modelled.
\<close>

section \<open>Instruments\<close>

datatype label = LText string | LNumber int | LFlag bool

datatype instrument =
    HttpRequests | HttpDuration | HttpActive | ProviderRequests | ProviderDuration | WebhookEvents | EmailIntents
  | OutboxMessages | OutboxDrainDuration | SchedulerRuns | SchedulerDuration | EventDeliveries | AttachmentIngests
  | AttachmentReaps
  | OutboxPending | OutboxOldest | ConversationsCurrent | EventBacklog | EventOldest | RuntimeInfo | RuntimeUptime | RuntimeMemory

datatype instrument_kind = Counter | Histogram | UpDownCounter | ObservableGauge

definition createInstruments :: "(instrument \<times> instrument_kind \<times> string \<times> string) list" where
  \<comment> \<open>kind, name and unit\<close>
  "createInstruments =
     [(HttpRequests, Counter, ''http.server.request.count'', ''{request}''),
      (HttpDuration, Histogram, ''http.server.request.duration'', ''s''),
      (HttpActive, UpDownCounter, ''http.server.active_requests'', ''{request}''),
      (ProviderRequests, Counter, ''resend_conversation.email.provider.request.count'', ''{request}''),
      (ProviderDuration, Histogram, ''resend_conversation.email.provider.request.duration'', ''s''),
      (WebhookEvents, Counter, ''resend_conversation.webhook.event.count'', ''{event}''),
      (EmailIntents, Counter, ''resend_conversation.email.intent.count'', ''{message}''),
      (OutboxMessages, Counter, ''resend_conversation.outbox.message.count'', ''{message}''),
      (OutboxDrainDuration, Histogram, ''resend_conversation.outbox.drain.duration'', ''s''),
      (SchedulerRuns, Counter, ''resend_conversation.scheduler.run.count'', ''{run}''),
      (SchedulerDuration, Histogram, ''resend_conversation.scheduler.run.duration'', ''s''),
      (EventDeliveries, Counter, ''resend_conversation.conversation_event.delivery.count'', ''{event}''),
      (AttachmentIngests, Counter, ''resend_conversation.attachment.ingest.count'', ''{attachment}''),
      (AttachmentReaps, Counter, ''resend_conversation.attachment.reap.count'', ''{object}'')]"

definition database_gauges :: "(instrument \<times> instrument_kind \<times> string \<times> string) list" where
  "database_gauges =
     [(OutboxPending, ObservableGauge, ''resend_conversation.outbox.pending'', ''{message}''),
      (OutboxOldest, ObservableGauge, ''resend_conversation.outbox.oldest_pending.age'', ''s''),
      (ConversationsCurrent, ObservableGauge, ''resend_conversation.conversation.current'', ''{conversation}''),
      (EventBacklog, ObservableGauge, ''resend_conversation.conversation_event.delivery.pending'', ''{event}''),
      (EventOldest, ObservableGauge, ''resend_conversation.conversation_event.delivery.oldest_pending.age'', ''s''),
      (RuntimeInfo, ObservableGauge, ''resend_conversation.runtime.info'', ''{service}''),
      (RuntimeUptime, ObservableGauge, ''resend_conversation.runtime.uptime'', ''s''),
      (RuntimeMemory, ObservableGauge, ''resend_conversation.runtime.memory.rss'', ''By'')]"

record measurement =
  mt_instrument :: instrument
  mt_amount :: rat
  mt_labels :: "(string \<times> label) list"

type_synonym meter = "measurement list"

definition tell :: "instrument \<Rightarrow> rat \<Rightarrow> (string \<times> label) list \<Rightarrow> meter \<Rightarrow> meter" where
  \<comment> \<open>\<open>add\<close> and \<open>record\<close>\<close>
  "tell i amount labels mt = mt @ [\<lparr>mt_instrument = i, mt_amount = amount, mt_labels = labels\<rparr>]"

definition told :: "instrument \<Rightarrow> meter \<Rightarrow> meter" where
  "told i mt = filter (\<lambda>m. mt_instrument m = i) mt"

definition total :: "instrument \<Rightarrow> meter \<Rightarrow> rat" where
  "total i mt = (\<Sum>m \<leftarrow> told i mt. mt_amount m)"

section \<open>What is recorded\<close>

definition recordHttpRequest :: "rat \<Rightarrow> (string \<times> label) list \<Rightarrow> meter \<Rightarrow> meter" where
  "recordHttpRequest durationSeconds labels mt = tell HttpDuration durationSeconds labels (tell HttpRequests 1 labels mt)"

definition changeHttpActive :: "rat \<Rightarrow> (string \<times> label) list \<Rightarrow> meter \<Rightarrow> meter" where
  "changeHttpActive delta labels mt = tell HttpActive delta labels mt"

datatype provider_operation =
    OpSend | OpSendBatch | OpGetSent | OpGetReceived | OpListReceivedAttachments | OpGetReceivedAttachment
  | OpDownloadAttachment | OpStoragePut | OpStorageGet | OpStorageDelete | OpStorageHeadBucket | OpStorageHeadObject

definition operation_name :: "provider_operation \<Rightarrow> string" where
  "operation_name op =
     (case op of
        OpSend \<Rightarrow> ''send'' | OpSendBatch \<Rightarrow> ''send_batch'' | OpGetSent \<Rightarrow> ''get_sent'' | OpGetReceived \<Rightarrow> ''get_received''
      | OpListReceivedAttachments \<Rightarrow> ''list_received_attachments'' | OpGetReceivedAttachment \<Rightarrow> ''get_received_attachment''
      | OpDownloadAttachment \<Rightarrow> ''download_attachment'' | OpStoragePut \<Rightarrow> ''storage_put'' | OpStorageGet \<Rightarrow> ''storage_get''
      | OpStorageDelete \<Rightarrow> ''storage_delete'' | OpStorageHeadBucket \<Rightarrow> ''storage_head_bucket''
      | OpStorageHeadObject \<Rightarrow> ''storage_head_object'')"

definition status_class_name :: "status_class \<Rightarrow> string" where
  "status_class_name c = (case c of NoStatus \<Rightarrow> ''none'' | Status2xx \<Rightarrow> ''2xx'' | Status4xx \<Rightarrow> ''4xx'' | Status5xx \<Rightarrow> ''5xx'')"

definition recordProviderRequest :: "rat \<Rightarrow> provider_operation \<Rightarrow> bool \<Rightarrow> status_class \<Rightarrow> meter \<Rightarrow> meter" where
  "recordProviderRequest durationSeconds operation success statusClass mt =
     (let labels = [(''operation'', LText (operation_name operation)),
                    (''outcome'', LText (if success then ''success'' else ''failure'')),
                    (''http.response.status_class'', LText (status_class_name statusClass))]
      in tell ProviderDuration durationSeconds labels (tell ProviderRequests 1 labels mt))"

definition recordWebhookEvent :: "string \<Rightarrow> string \<Rightarrow> meter \<Rightarrow> meter" where
  "recordWebhookEvent eventType outcome mt = tell WebhookEvents 1 [(''event_type'', LText eventType), (''outcome'', LText outcome)] mt"

definition recordEmailIntent :: "bool \<Rightarrow> bool \<Rightarrow> meter \<Rightarrow> meter" where
  \<comment> \<open>\<open>direct\<close> or for a conversation, \<open>queued\<close> or synchronous\<close>
  "recordEmailIntent direct queued mt =
     tell EmailIntents 1
       [(''kind'', LText (if direct then ''direct'' else ''conversation'')),
        (''delivery_mode'', LText (if queued then ''outbox'' else ''synchronous''))] mt"

definition drain_outcomes :: "drain_result \<Rightarrow> (string \<times> nat) list" where
  "drain_outcomes result =
     [(''accepted'', dn_accepted result), (''failed'', dn_failed result), (''retry_scheduled'', dn_retryScheduled result),
      (''indeterminate'', dn_indeterminate result)]"

fun tell_outcomes :: "(string \<times> nat) list \<Rightarrow> meter \<Rightarrow> meter" where
  "tell_outcomes [] mt = mt"
| "tell_outcomes ((outcome, n) # rest) mt =
     tell_outcomes rest (if 0 < n then tell OutboxMessages (of_nat n) [(''outcome'', LText outcome)] mt else mt)"

definition recordOutboxDrain :: "rat \<Rightarrow> drain_result \<Rightarrow> meter \<Rightarrow> meter" where
  "recordOutboxDrain durationSeconds result mt =
     tell_outcomes (drain_outcomes result) (tell OutboxDrainDuration durationSeconds [] mt)"

definition recordScheduledDrain :: "rat \<Rightarrow> bool \<Rightarrow> meter \<Rightarrow> meter" where
  "recordScheduledDrain durationSeconds success mt =
     (let labels = [(''outcome'', LText (if success then ''success'' else ''failure''))]
      in tell SchedulerDuration durationSeconds labels (tell SchedulerRuns 1 labels mt))"

definition recordConversationEventDelivery :: "string \<Rightarrow> meter \<Rightarrow> meter" where
  "recordConversationEventDelivery outcome mt = tell EventDeliveries 1 [(''sink'', LText ''nats''), (''outcome'', LText outcome)] mt"

definition recordAttachmentIngest :: "ingest_outcome \<Rightarrow> meter \<Rightarrow> meter" where
  "recordAttachmentIngest outcome mt =
     tell AttachmentIngests 1
       [(''outcome'', LText (case outcome of IngestStored \<Rightarrow> ''stored'' | IngestRetry \<Rightarrow> ''retry_scheduled'' | IngestFailed \<Rightarrow> ''failed''))] mt"

definition recordAttachmentReap :: "bool \<Rightarrow> meter \<Rightarrow> meter" where
  "recordAttachmentReap deleted mt =
     tell AttachmentReaps 1 [(''outcome'', LText (if deleted then ''deleted'' else ''retry_scheduled''))] mt"

section \<open>The gauges over the database\<close>

definition pending_queued :: "store \<Rightarrow> instant list" where
  \<comment> \<open>the join of the entries with their pending messages\<close>
  "pending_queued s =
     concat (map (\<lambda>e. map (\<lambda>m. oe_queuedAt e)
       (filter (\<lambda>m. ms_id m = oe_messageId e \<and> ms_state m = PENDING) (messages s))) (outbox_entries s))"

definition age_seconds :: "instant \<Rightarrow> instant list \<Rightarrow> rat option" where
  \<comment> \<open>\<open>EXTRACT(EPOCH FROM (now() - MIN(...)))\<close>, \<open>NULL\<close> over no rows\<close>
  "age_seconds now ts = (case ts of [] \<Rightarrow> None | t # rest \<Rightarrow> Some (of_int (now - foldl min t rest) / 1000))"

definition conversations_by_state :: "store \<Rightarrow> (conversation_state \<times> nat) list" where
  \<comment> \<open>\<open>GROUP BY state\<close>, in the order of their first rows\<close>
  "conversations_by_state s =
     map (\<lambda>st. (st, count_where (\<lambda>c. cv_state c = st) (conversations s))) (js_set (map cv_state (conversations s)))"

definition unpublished_created :: "store \<Rightarrow> instant list" where
  "unpublished_created s =
     map dl_createdAt (filter (\<lambda>d. dl_sink d = NATS \<and> dl_publishedAt d = None) (deliveries s))"

definition observe_age :: "instrument \<Rightarrow> rat option \<Rightarrow> (string \<times> label) list \<Rightarrow> meter \<Rightarrow> meter" where
  "observe_age i age labels mt = (case age of None \<Rightarrow> mt | Some a \<Rightarrow> tell i a labels mt)"

fun observe_states :: "(conversation_state \<times> nat) list \<Rightarrow> meter \<Rightarrow> meter" where
  "observe_states [] mt = mt"
| "observe_states ((st, n) # rest) mt =
     observe_states rest (tell ConversationsCurrent (of_nat n) [(''state'', LText (js_toLower (state_name st)))] mt)"

definition observe_database :: "rat \<Rightarrow> rat \<Rightarrow> store \<Rightarrow> meter \<Rightarrow> meter" where
  \<comment> \<open>the callback, when the queries answer\<close>
  "observe_database uptime rss s mt =
     (let queued = pending_queued s; waiting = unpublished_created s; nats = [(''sink'', LText ''nats'')]
      in tell RuntimeMemory rss []
          (tell RuntimeUptime uptime []
          (tell RuntimeInfo 1 [(''runtime'', LText ''nodejs'')]
          (observe_age EventOldest (age_seconds (db_now s) waiting) nats
          (tell EventBacklog (of_nat (length waiting)) nats
          (observe_states (conversations_by_state s)
          (observe_age OutboxOldest (age_seconds (db_now s) queued) []
          (tell OutboxPending (of_nat (length queued)) [] mt))))))))"

definition collect_gauges :: "bool \<Rightarrow> rat \<Rightarrow> rat \<Rightarrow> store \<Rightarrow> meter \<Rightarrow> string option \<times> meter" where
  \<comment> \<open>the callback: without an answer of the database nothing is observed and an event is logged\<close>
  "collect_gauges answered uptime rss s mt =
     (if answered then (None, observe_database uptime rss s mt) else (Some ''database_telemetry_gauge_collection_failed'', mt))"

section \<open>Measured requests\<close>

datatype request_event =
    Started incoming
  | Finished incoming int rat \<comment> \<open>the \<open>finish\<close> of the response: its status and the duration\<close>
  | Aborted incoming \<comment> \<open>the connection broke: there is no \<open>finish\<close>\<close>

definition active_labels :: "incoming \<Rightarrow> (string \<times> label) list" where
  "active_labels i = [(''http.request.method'', LText (knownHttpMethod (im_method i))), (''url.scheme'', LText ''http'')]"

definition request_labels :: "environment \<Rightarrow> express \<Rightarrow> incoming \<Rightarrow> int \<Rightarrow> (string \<times> label) list" where
  "request_labels env x i status =
     active_labels i @ [(''http.route'', LText (matchedRoute (find_route x i (app_routes env)))),
                        (''http.response.status_code'', LNumber status)]"

definition measure_request :: "environment \<Rightarrow> express \<Rightarrow> request_event \<Rightarrow> meter \<Rightarrow> meter" where
  \<comment> \<open>the first middleware of \<open>createApp\<close>\<close>
  "measure_request env x e mt =
     (case e of
        Started i \<Rightarrow> changeHttpActive 1 (active_labels i) mt
      | Finished i status durationSeconds \<Rightarrow>
          recordHttpRequest durationSeconds (request_labels env x i status) (changeHttpActive (- 1) (active_labels i) mt)
      | Aborted i \<Rightarrow> mt)"

section \<open>Measured calls\<close>

definition provider_call ::
  "fetch \<Rightarrow> rat \<Rightarrow> provider_operation \<Rightarrow> string \<Rightarrow> string option \<Rightarrow> send_email_input list \<Rightarrow> meter \<Rightarrow> (js_error + json) \<times> meter"
where
  \<comment> \<open>\<open>request\<close> with its \<open>finally\<close>; \<open>outcome\<close> is set before the body is parsed\<close>
  "provider_call fetch durationSeconds operation path key emails mt =
     (let (success, statusClass) =
        (case fetch path key emails of
           Inl _ \<Rightarrow> (False, NoStatus)
         | Inr response \<Rightarrow> (response_ok response, responseStatusClass (rs_status response)))
      in (resend_request fetch path key emails, recordProviderRequest durationSeconds operation success statusClass mt))"

definition getSent :: "fetch \<Rightarrow> rat \<Rightarrow> string \<Rightarrow> meter \<Rightarrow> (js_error + json) \<times> meter" where
  "getSent fetch d i = provider_call fetch d OpGetSent (''/emails/'' @ encodeURIComponent i) None []"

definition getReceived :: "fetch \<Rightarrow> rat \<Rightarrow> string \<Rightarrow> meter \<Rightarrow> (js_error + json) \<times> meter" where
  "getReceived fetch d i =
     provider_call fetch d OpGetReceived (''/emails/receiving/'' @ encodeURIComponent i @ ''?html_format=cid'') None []"

definition listReceivedAttachments :: "fetch \<Rightarrow> rat \<Rightarrow> string \<Rightarrow> meter \<Rightarrow> (js_error + json) \<times> meter" where
  "listReceivedAttachments fetch d emailId =
     provider_call fetch d OpListReceivedAttachments
       (''/emails/receiving/'' @ encodeURIComponent emailId @ ''/attachments?limit=100'') None []"

definition getReceivedAttachment :: "fetch \<Rightarrow> rat \<Rightarrow> string \<Rightarrow> string \<Rightarrow> meter \<Rightarrow> (js_error + json) \<times> meter" where
  "getReceivedAttachment fetch d emailId attachmentId =
     provider_call fetch d OpGetReceivedAttachment
       (''/emails/receiving/'' @ encodeURIComponent emailId @ ''/attachments/'' @ encodeURIComponent attachmentId) None []"

definition downloadAttachment ::
  "(string \<Rightarrow> js_error + int \<times> (js_error + string)) \<Rightarrow> rat \<Rightarrow> string \<Rightarrow> meter \<Rightarrow> (js_error + string) \<times> meter"
where
  \<comment> \<open>the status and the body, which may break off; no credential goes along\<close>
  "downloadAttachment fetchUrl d downloadUrl mt =
     (case fetchUrl downloadUrl of
        Inl e \<Rightarrow> (Inl e, recordProviderRequest d OpDownloadAttachment False NoStatus mt)
      | Inr (status, body) \<Rightarrow>
          (let statusClass = responseStatusClass status
           in if \<not> (200 \<le> status \<and> status < 300)
              then (Inl (ResendApiError status None), recordProviderRequest d OpDownloadAttachment False statusClass mt)
              else case body of
                     Inl e \<Rightarrow> (Inl e, recordProviderRequest d OpDownloadAttachment False statusClass mt)
                   | Inr bytes \<Rightarrow> (Inr bytes, recordProviderRequest d OpDownloadAttachment True statusClass mt)))"

definition storage_call ::
  "provider_operation \<Rightarrow> rat \<Rightarrow> sdk_error + 'a \<Rightarrow> meter \<Rightarrow> (storage_fault + 'a) \<times> meter"
where
  \<comment> \<open>\<open>run\<close> of the object storage\<close>
  "storage_call operation d answer mt =
     (storage_run (operation_name operation) answer,
      case answer of
        Inl e \<Rightarrow> recordProviderRequest d operation False (responseStatusClass (statusCodeOf e)) mt
      | Inr _ \<Rightarrow> recordProviderRequest d operation True Status2xx mt)"

definition buildKey :: "string \<Rightarrow> uuid \<Rightarrow> string" where
  "buildKey keyPrefix i = keyPrefix @ i"

definition getBuffer :: "sdk_error + (string list \<times> int option) option \<Rightarrow> rat \<Rightarrow> meter \<Rightarrow> (storage_fault + string) \<times> meter" where
  \<comment> \<open>the chunks of the body, joined\<close>
  "getBuffer answer d mt =
     (case storage_call OpStorageGet d answer mt of
        (Inl f, mt') \<Rightarrow> (Inl f, mt')
      | (Inr None, mt') \<Rightarrow> (Inl empty_body, mt')
      | (Inr (Some (chunks, _)), mt') \<Rightarrow> (Inr (concat chunks), mt'))"

section \<open>The log\<close>

datatype log_level = LevelDebug | LevelInfo | LevelWarn | LevelError

definition level_name :: "log_level \<Rightarrow> string" where
  "level_name l = (case l of LevelDebug \<Rightarrow> ''debug'' | LevelInfo \<Rightarrow> ''info'' | LevelWarn \<Rightarrow> ''warn'' | LevelError \<Rightarrow> ''error'')"

definition log_levels :: "log_level list" where "log_levels = [LevelDebug, LevelInfo, LevelWarn, LevelError]"

definition configured_level :: "environment \<Rightarrow> log_level" where
  "configured_level env =
     (case env ''LOG_LEVEL'' of
        None \<Rightarrow> LevelInfo
      | Some t \<Rightarrow> (case find (\<lambda>l. level_name l = js_toLower (js_trim t)) log_levels of None \<Rightarrow> LevelInfo | Some l \<Rightarrow> l))"

definition severity :: "log_level \<Rightarrow> nat" where
  \<comment> \<open>the order of pino's levels\<close>
  "severity l = (case l of LevelDebug \<Rightarrow> 0 | LevelInfo \<Rightarrow> 1 | LevelWarn \<Rightarrow> 2 | LevelError \<Rightarrow> 3)"

definition isLevelEnabled :: "environment \<Rightarrow> log_level \<Rightarrow> bool" where
  "isLevelEnabled env l \<longleftrightarrow> severity (configured_level env) \<le> severity l"

definition redact_paths :: "string list" where
  \<comment> \<open>those for the members of the line; the others reach into objects, which no line has\<close>
  "redact_paths =
     [''address'', ''attachments'', ''authorization'', ''body'', ''downloadUrl'', ''email'', ''filename'', ''from'', ''headers'',
      ''html'', ''idempotencyKey'', ''messageId'', ''replyTo'', ''resendEmailId'', ''storageKey'', ''subject'', ''text'', ''to'']"

definition safe_attribute_names :: "string list" where
  \<comment> \<open>\<open>SafeLogAttributeName\<close>\<close>
  "safe_attribute_names =
     [''attempt'', ''credential'', ''duration_ms'', ''error_type'', ''method'', ''operation'', ''port'', ''route'',
      ''status_code'', ''terminal'']"

record log_context =
  lc_requestId :: "string option"
  lc_traceId :: "string option"
  lc_spanId :: "string option"

definition mixin_fields :: "log_context \<Rightarrow> (string \<times> label) list" where
  "mixin_fields c =
     (case lc_requestId c of None \<Rightarrow> [] | Some i \<Rightarrow> [(''request_id'', LText i)])
     @ (case keep_truthy (lc_traceId c) of None \<Rightarrow> [] | Some i \<Rightarrow> [(''trace_id'', LText i)])
     @ (case keep_truthy (lc_spanId c) of None \<Rightarrow> [] | Some i \<Rightarrow> [(''span_id'', LText i)])"

definition definedAttributes :: "(string \<times> label option) list \<Rightarrow> (string \<times> label) list" where
  "definedAttributes attributes = List.map_filter (\<lambda>(k, v). map_option (Pair k) v) attributes"

definition log_line :: "log_context \<Rightarrow> string \<Rightarrow> (string \<times> label option) list \<Rightarrow> (string \<times> label) list" where
  \<comment> \<open>the members pino writes: the mixin, then the object of the call, without what is redacted\<close>
  "log_line c event attributes =
     filter (\<lambda>(k, _). k \<notin> set redact_paths)
       (foldl (\<lambda>fields (k, v). AList.update k v fields) (mixin_fields c)
         ((''event'', LText event) # definedAttributes attributes))"

record telemetry_log =
  tg_eventName :: string
  tg_severity :: log_level
  tg_severityText :: string
  tg_attributes :: "(string \<times> label) list"

definition emitTelemetryLog :: "telemetry \<Rightarrow> log_level \<Rightarrow> string \<Rightarrow> (string \<times> label) list \<Rightarrow> telemetry_log option" where
  "emitTelemetryLog t l event attributes =
     (if tl_logger t
      then Some \<lparr>tg_eventName = event, tg_severity = l, tg_severityText = js_toUpper (level_name l), tg_attributes = attributes\<rparr>
      else None)"

definition logEvent ::
  "environment \<Rightarrow> telemetry \<Rightarrow> log_context \<Rightarrow> log_level \<Rightarrow> string \<Rightarrow> (string \<times> label option) list \<Rightarrow>
     ((string \<times> label) list \<times> telemetry_log option) option"
where
  \<comment> \<open>the line for pino and the record for OpenTelemetry\<close>
  "logEvent env t c l event attributes =
     (if \<not> isLevelEnabled env l then None
      else Some (log_line c event attributes,
        emitTelemetryLog t l event
          (foldl (\<lambda>fields (k, v). AList.update k v fields) [(''event'', LText event)]
            (definedAttributes attributes @ (case lc_requestId c of None \<Rightarrow> [] | Some i \<Rightarrow> [(''request_id'', LText i)])))))"

section \<open>Lemmas\<close>

lemma told_tell [simp]:
  "told i (tell j a ls mt) = told i mt @ (if i = j then [\<lparr>mt_instrument = j, mt_amount = a, mt_labels = ls\<rparr>] else [])"
  by (simp add: told_def tell_def)

lemma total_tell [simp]: "total i (tell j a ls mt) = total i mt + (if i = j then a else 0)"
  by (simp add: total_def)

lemma total_Nil [simp]: "total i [] = 0"
  by (simp add: total_def told_def)

text \<open>The outcomes of a drain are counted in full, and no count is 0.\<close>

lemma total_outcomes: "total OutboxMessages (tell_outcomes os mt) = total OutboxMessages mt + of_nat (\<Sum>(k, n) \<leftarrow> os. n)"
  by (induction os mt rule: tell_outcomes.induct) simp_all

lemma outbox_drain_counted:
  "total OutboxMessages (recordOutboxDrain d r mt) =
     total OutboxMessages mt + of_nat (dn_accepted r + dn_failed r + dn_retryScheduled r + dn_indeterminate r)"
  by (simp add: recordOutboxDrain_def total_outcomes drain_outcomes_def)

lemma outcomes_positive:
  assumes "list_all (\<lambda>m. 0 < mt_amount m) (told OutboxMessages mt)"
  shows "list_all (\<lambda>m. 0 < mt_amount m) (told OutboxMessages (tell_outcomes os mt))"
  using assms by (induction os mt rule: tell_outcomes.induct) simp_all

text \<open>What is active is what was started and has finished; a connection that breaks stays counted.\<close>

lemma active_requests:
  "total HttpActive (foldl (\<lambda>mt e. measure_request env x e mt) mt es) =
     total HttpActive mt + of_nat (count_where (\<lambda>e. \<exists>i. e = Started i) es)
       - of_nat (count_where (\<lambda>e. \<exists>i st d. e = Finished i st d) es)"
proof (induction es arbitrary: mt)
  case (Cons e es)
  then show ?case
    by (cases e) (simp_all add: measure_request_def changeHttpActive_def recordHttpRequest_def)
qed simp

lemma aborted_request_stays_active:
  "total HttpActive (foldl (\<lambda>mt e. measure_request env x e mt) [] [Started i, Aborted i]) = 1"
  by (subst active_requests) simp

text \<open>The labels of a request come from the code, not from the caller.\<close>

lemma find_route_known: "find_route x i rs = Some (r, params) \<Longrightarrow> r \<in> set rs"
  by (induction rs) (auto split: option.splits)

lemma one_of: "r = (if m \<in> A then m else d) \<Longrightarrow> r = d \<or> r \<in> A"
  by (cases "m \<in> A") simp_all

lemma request_labels_known:
  "\<exists>m route. request_labels env x i status =
     [(''http.request.method'', LText m), (''url.scheme'', LText ''http''), (''http.route'', LText route),
      (''http.response.status_code'', LNumber status)]
   \<and> (m = ''_OTHER'' \<or> m \<in> set [''CONNECT'', ''DELETE'', ''GET'', ''HEAD'', ''OPTIONS'', ''PATCH'', ''POST'', ''PUT'', ''QUERY'', ''TRACE''])
   \<and> (route = ''/unmatched'' \<or> route = ''/'' \<or> route \<in> ro_path ` set (app_routes env))"
proof -
  have "knownHttpMethod (im_method i) = ''_OTHER''
    \<or> knownHttpMethod (im_method i) \<in> set [''CONNECT'', ''DELETE'', ''GET'', ''HEAD'', ''OPTIONS'', ''PATCH'', ''POST'', ''PUT'', ''QUERY'', ''TRACE'']"
    by (rule one_of [OF knownHttpMethod_def])
  moreover have "matchedRoute found = ''/unmatched'' \<or> matchedRoute found = ''/'' \<or> matchedRoute found \<in> ro_path ` set (app_routes env)"
    if "found = find_route x i (app_routes env)" for found
    using that find_route_known [of x i "app_routes env"]
    by (auto simp: matchedRoute_def js_or_def split: option.splits)
  ultimately show ?thesis unfolding request_labels_def active_labels_def append.simps by blast
qed

text \<open>Each call to the provider is counted once; a call that returns counts as a success, in the 200s.\<close>

lemma provider_call_counted:
  "told ProviderRequests (snd (provider_call fetch d op path key emails mt)) = told ProviderRequests mt @
     [\<lparr>mt_instrument = ProviderRequests, mt_amount = 1,
       mt_labels = [(''operation'', LText (operation_name op)),
         (''outcome'', LText (case fetch path key emails of Inr r \<Rightarrow> if response_ok r then ''success'' else ''failure'' | _ \<Rightarrow> ''failure'')),
         (''http.response.status_class'', LText (status_class_name
            (case fetch path key emails of Inr r \<Rightarrow> responseStatusClass (rs_status r) | _ \<Rightarrow> NoStatus)))]\<rparr>]"
  by (simp add: provider_call_def recordProviderRequest_def Let_def split: sum.splits)

lemma unreadable_body_counts_as_success:
  assumes "fetch path key emails = Inr r" and "response_ok r" and "rs_json r = None"
  shows "fst (provider_call fetch d op path key emails mt) = Inl syntax_error"
    and "snd (provider_call fetch d op path key emails mt) = recordProviderRequest d op True (responseStatusClass (rs_status r)) mt"
  using assms by (simp_all add: provider_call_def resend_request_def)

text \<open>The attachment lane is in no gauge.\<close>

lemma attachment_lane_unobserved:
  "observe_database uptime rss (s\<lparr>attachment_outbox := es\<rparr>) mt = observe_database uptime rss s mt"
  by (simp add: observe_database_def pending_queued_def unpublished_created_def conversations_by_state_def)

text \<open>What the typed attributes allow is not redacted and names no customer data.\<close>

lemma keys_foldl_update:
  "fst ` set (foldl (\<lambda>fields (k, v). AList.update k v fields) fs kvs) = fst ` set fs \<union> fst ` set kvs"
proof (induction kvs arbitrary: fs)
  case (Cons kv kvs)
  then show ?case by (cases kv) (simp add: dom_update)
qed simp

lemma log_line_fields:
  assumes "fst ` set attributes \<subseteq> set safe_attribute_names"
  shows "fst ` set (log_line c event attributes) \<subseteq>
    {''request_id'', ''trace_id'', ''span_id'', ''event''} \<union> set safe_attribute_names"
proof -
  have "fst ` set (log_line c event attributes) \<subseteq> fst ` set (mixin_fields c) \<union> {''event''} \<union> fst ` set (definedAttributes attributes)"
    using keys_foldl_update [of "mixin_fields c" "(''event'', LText event) # definedAttributes attributes"]
    by (auto simp: log_line_def image_iff)
  moreover have "fst ` set (mixin_fields c) \<subseteq> {''request_id'', ''trace_id'', ''span_id''}"
    by (auto simp: mixin_fields_def split: option.splits)
  moreover have "fst ` set (definedAttributes attributes) \<subseteq> fst ` set attributes"
    by (force simp: definedAttributes_def List.map_filter_def)
  ultimately show ?thesis using assms by blast
qed

text \<open>The gauges.\<close>

lemma sum_indicator: "distinct ks \<Longrightarrow> k \<in> set ks \<Longrightarrow> (\<Sum>x \<leftarrow> ks. if k = x then 1 else 0 :: nat) = 1"
  by (simp add: sum_list_distinct_conv_sum_set)

lemma sum_counts:
  "distinct ks \<Longrightarrow> f ` set xs \<subseteq> set ks \<Longrightarrow> (\<Sum>k \<leftarrow> ks. count_where (\<lambda>x. f x = k) xs) = length xs"
proof (induction xs)
  case (Cons x xs)
  have "(\<Sum>k \<leftarrow> ks. count_where (\<lambda>x. f x = k) (x # xs)) =
      (\<Sum>k \<leftarrow> ks. if f x = k then 1 else 0) + (\<Sum>k \<leftarrow> ks. count_where (\<lambda>x. f x = k) xs)"
    unfolding sum_list_addf [symmetric] by (rule arg_cong [of _ _ sum_list], rule map_cong) simp_all
  with Cons sum_indicator [of ks "f x"] show ?case by simp
qed simp

lemma rat_sum_list: "(\<Sum>x \<leftarrow> xs. of_nat (f x) :: rat) = of_nat (\<Sum>x \<leftarrow> xs. f x)"
  by (induction xs) simp_all

lemma state_label_inj: "js_toLower (state_name a) = js_toLower (state_name b) \<Longrightarrow> a = b"
  by (cases a; cases b; simp add: state_name_def js_toLower_def lower_char_def)

lemma told_states [simp]:
  "told i (observe_states sts mt) = told i mt @ (if i = ConversationsCurrent
     then map (\<lambda>(st, n). \<lparr>mt_instrument = ConversationsCurrent, mt_amount = of_nat n,
        mt_labels = [(''state'', LText (js_toLower (state_name st)))]\<rparr>) sts else [])"
  by (induction sts mt rule: observe_states.induct) simp_all

lemma told_age [simp]:
  "told i (observe_age j age ls mt) = told i mt @ (if i = j then (case age of None \<Rightarrow> []
     | Some a \<Rightarrow> [\<lparr>mt_instrument = j, mt_amount = a, mt_labels = ls\<rparr>]) else [])"
  by (simp add: observe_age_def split: option.splits)

lemma foldl_min_le: "foldl min u us \<le> (u :: int) \<and> (\<forall>t \<in> set us. foldl min u us \<le> t)"
proof (induction us arbitrary: u)
  case (Cons v us)
  from Cons.IH [of "min u v"] show ?case by simp
qed simp

lemma oldest_age:
  assumes "t \<in> set ts"
  obtains a where "age_seconds now ts = Some a" and "of_int (now - t) / 1000 \<le> a"
proof -
  obtain u us where ts: "ts = u # us" using assms by (cases ts) auto
  then have "foldl min u us \<le> t" using foldl_min_le [of u us] assms by auto
  then have "(of_int (now - t) :: rat) \<le> of_int (now - foldl min u us)" by simp
  then show ?thesis by (intro that [of "of_int (now - foldl min u us) / 1000"]) (simp_all add: ts age_seconds_def divide_right_mono)
qed

lemma age_seconds_None: "age_seconds now ts = None \<longleftrightarrow> ts = []"
  by (simp add: age_seconds_def split: list.split)

lemma join_single:
  assumes "distinct (map ms_id ms)"
  shows "length (filter (\<lambda>m. ms_id m = k \<and> P m) ms) = (if \<exists>m \<in> set ms. ms_id m = k \<and> P m then 1 else 0)"
  using assms
proof (induction ms)
  case (Cons m ms)
  then show ?case by (auto simp: image_iff)
qed simp

lemma pending_entries:
  assumes "distinct (map ms_id (messages s))"
  shows "length (pending_queued s) =
    count_where (\<lambda>e. \<exists>m \<in> set (messages s). ms_id m = oe_messageId e \<and> ms_state m = PENDING) (outbox_entries s)"
proof -
  have "(\<Sum>e \<leftarrow> es. length (filter (\<lambda>m. ms_id m = oe_messageId e \<and> ms_state m = PENDING) (messages s))) =
      count_where (\<lambda>e. \<exists>m \<in> set (messages s). ms_id m = oe_messageId e \<and> ms_state m = PENDING) es" for es
    using join_single [OF assms] by (induction es) simp_all
  then show ?thesis by (simp add: pending_queued_def length_concat comp_def)
qed

section \<open>Properties\<close>


definition gauge_store :: store where
  "gauge_store = empty_store\<lparr>conversations := [plain_conversation ''c1'' CONCLUDED, plain_conversation ''c2'' CONCLUDED],
     messages := [plain_message ''m1'' PENDING, plain_message ''m2'' ACCEPTED], db_now := 5000,
     outbox_entries := [\<lparr>oe_messageId = ''m1'', oe_batchId = None, oe_batchPosition = None, oe_queuedAt = 2000\<rparr>]\<rparr>"


end
