(* ===== verification/Nats_Diagnostics.thy ===== *)
theory Nats_Diagnostics
  imports Startup "HOL-Library.Sublist"
begin

text \<open>
  The rest of \<open>src/lib/conversation-event-runtime.ts\<close>: the message a sink publishes, and the text of a
  startup error, with the endpoints it names and the secrets it hides. The regular expressions are
  matched by backtracking, in the order in which JavaScript tries the alternatives; \<open>URL\<close> is a
  function from the text to its host name and port.
\<close>

section \<open>The published message\<close>

record nats_message =
  nm_subject :: string
  nm_data :: string
  nm_msgID :: uuid
  nm_headers :: "(string \<times> string) list"

definition nats_publish :: "(event_payload option \<Rightarrow> string) \<Rightarrow> string \<Rightarrow> claimed_delivery \<Rightarrow> nats_message" where
  \<comment> \<open>\<open>stringify\<close>: \<open>JSON.stringify\<close> of the payload\<close>
  "nats_publish stringify subject event =
     \<lparr>nm_subject = subject, nm_data = stringify (cd_payload event), nm_msgID = cd_id event,
      nm_headers = [(''x-conversation-event-id'', cd_id event), (''x-conversation-event-schema-version'', ''1'')]\<rparr>"

section \<open>Regular expressions\<close>

datatype rx = Eps | One "char \<Rightarrow> bool" | Seq rx rx | Alt rx rx | Perhaps rx | Many "char \<Rightarrow> bool" | ManyLazy "char \<Rightarrow> bool"

fun run_rests :: "(char \<Rightarrow> bool) \<Rightarrow> string \<Rightarrow> string list" where
  \<comment> \<open>what is left after a run of the class, the shortest run first\<close>
  "run_rests P [] = [[]]"
| "run_rests P (c # cs) = (c # cs) # (if P c then run_rests P cs else [])"

primrec rests :: "rx \<Rightarrow> string \<Rightarrow> string list" where
  \<comment> \<open>what is left after a match at the beginning, the preferred match first\<close>
  "rests Eps t = [t]"
| "rests (One P) t = (case t of [] \<Rightarrow> [] | c # cs \<Rightarrow> if P c then [cs] else [])"
| "rests (Seq a b) t = concat (map (rests b) (rests a t))"
| "rests (Alt a b) t = rests a t @ rests b t"
| "rests (Perhaps a) t = rests a t @ [t]"
| "rests (Many P) t = rev (run_rests P t)"
| "rests (ManyLazy P) t = run_rests P t"

definition Many1 :: "(char \<Rightarrow> bool) \<Rightarrow> rx" where "Many1 P = Seq (One P) (Many P)"

definition This :: "char \<Rightarrow> rx" where "This c = One (\<lambda>x. x = c)"

definition AnyCase :: "string \<Rightarrow> rx" where
  \<comment> \<open>in any letter case; the word is in lower case\<close>
  "AnyCase w = foldr (\<lambda>c r. Seq (One (\<lambda>x. lower_char x = c)) r) w Eps"

definition Exactly :: "string \<Rightarrow> rx" where "Exactly w = foldr (\<lambda>c r. Seq (This c) r) w Eps"

definition rx_hit :: "rx \<Rightarrow> (string \<Rightarrow> string) \<Rightarrow> string \<Rightarrow> (nat \<times> string) option" where
  \<comment> \<open>the length of the match at the beginning and its replacement\<close>
  "rx_hit r f t =
     (case rests r t of
        [] \<Rightarrow> None
      | rest # _ \<Rightarrow> (let n = length t - length rest in if n = 0 then None else Some (n, f (take n t))))"

function rewrite_all :: "(string \<Rightarrow> (nat \<times> string) option) \<Rightarrow> string \<Rightarrow> string" where
  \<comment> \<open>a global replacement, from left to right\<close>
  "rewrite_all hit [] = []"
| "rewrite_all hit (c # cs) =
     (case hit (c # cs) of None \<Rightarrow> c # rewrite_all hit cs | Some (n, out) \<Rightarrow> out @ rewrite_all hit (drop (n - 1) cs))"
  by pat_completeness auto
termination by (relation "measure (length \<circ> snd)") auto

section \<open>Endpoints\<close>

definition optionalList :: "environment \<Rightarrow> string \<Rightarrow> string list" where
  "optionalList env name =
     (case optional_setting env name of
        None \<Rightarrow> [] | Some v \<Rightarrow> filter (\<lambda>t. t \<noteq> []) (map js_trim (js_split (CHR '','') v)))"

definition letter :: "char \<Rightarrow> bool" where "letter c \<longleftrightarrow> is_lower_alpha (lower_char c)"

definition scheme_char :: "char \<Rightarrow> bool" where
  \<comment> \<open>\<open>[a-z\d+.-]\<close> in any letter case\<close>
  "scheme_char c \<longleftrightarrow> letter c \<or> is_digit c \<or> c = CHR ''+'' \<or> c = CHR ''.'' \<or> c = CHR ''-''"

definition scheme_rx :: rx where
  "scheme_rx = Seq (One letter) (Seq (Many scheme_char) (Exactly ''://''))"

definition userinfo_rx :: rx where
  "userinfo_rx = Seq (Many1 (\<lambda>c. c \<noteq> CHR ''@'' \<and> c \<noteq> CHR ''/'' \<and> \<not> js_space c)) (This (CHR ''@''))"

definition drop_match :: "rx \<Rightarrow> string \<Rightarrow> string" where
  \<comment> \<open>the replacement of an anchored match by nothing\<close>
  "drop_match r t = (case rests r t of [] \<Rightarrow> t | rest # _ \<Rightarrow> rest)"

definition sanitizeEndpoint :: "(string \<Rightarrow> (string \<times> string) option) \<Rightarrow> string \<Rightarrow> string \<Rightarrow> string" where
  "sanitizeEndpoint url defaultPort endpoint =
     (case url (if sublist ''://'' endpoint then endpoint else ''tcp://'' @ endpoint) of
        Some (hostname, port) \<Rightarrow> hostname @ '':'' @ (if port = [] then defaultPort else port)
      | None \<Rightarrow>
          (let authority = takeWhile (\<lambda>c. c \<noteq> CHR ''/'' \<and> c \<noteq> CHR ''?'' \<and> c \<noteq> CHR ''#'')
                 (drop_match userinfo_rx (drop_match scheme_rx endpoint))
           in if authority = [] then ''<invalid>'' else authority))"

definition sanitizeEndpoints :: "(string \<Rightarrow> (string \<times> string) option) \<Rightarrow> string list \<Rightarrow> string \<Rightarrow> string" where
  "sanitizeEndpoints url endpoints defaultPort = js_join '','' (map (sanitizeEndpoint url defaultPort) endpoints)"

definition natsStartupContext ::
  "(string \<Rightarrow> (string \<times> string) option) \<Rightarrow> environment \<Rightarrow> nats_config option \<Rightarrow> string"
where
  \<comment> \<open>without an input every part comes from the environment; with it the absent credentials do\<close>
  "natsStartupContext url env input =
     (let servers = (case input of None \<Rightarrow> optionalList env ''CONVERSATION_EVENTS_NATS_SERVERS'' | Some c \<Rightarrow> nc_servers c);
          setting = (\<lambda>given name. js_coalesce given (optional_setting env name));
          stream = setting (map_option nc_stream input) ''CONVERSATION_EVENTS_NATS_STREAM'';
          subject = setting (map_option nc_subject input) ''CONVERSATION_EVENTS_NATS_SUBJECT'';
          token = setting (Option.bind input nc_token) ''CONVERSATION_EVENTS_NATS_TOKEN'';
          user = setting (Option.bind input nc_user) ''CONVERSATION_EVENTS_NATS_USERNAME'';
          tls = (case optional_setting env ''CONVERSATION_EVENTS_NATS_TLS_MODE'' of None \<Rightarrow> ''disabled'' | Some m \<Rightarrow> m);
          shown = (\<lambda>v. case v of None \<Rightarrow> ''<unset>'' | Some t \<Rightarrow> t)
      in ''stream=\"'' @ shown stream @ ''\", subject=\"'' @ shown subject @ ''\", endpoints=['' @
         sanitizeEndpoints url servers ''4222'' @ ''], auth='' @
         (if truthy token then ''token'' else if truthy user then ''username_password'' else ''none'') @ '', tls='' @ tls)"

section \<open>Secrets\<close>

definition MASK :: string where "MASK = ''[redacted]''"

definition SECRET_VARS :: "string list" where
  "SECRET_VARS =
     [''CONVERSATION_EVENTS_NATS_TOKEN'', ''CONVERSATION_EVENTS_NATS_USERNAME'', ''CONVERSATION_EVENTS_NATS_PASSWORD'',
      ''CONVERSATION_EVENTS_NATS_TLS_CA_PEM'', ''CONVERSATION_EVENTS_NATS_TLS_CERT_PEM'', ''CONVERSATION_EVENTS_NATS_TLS_KEY_PEM'']"

definition configuredSecretValues :: "environment \<Rightarrow> string list" where
  \<comment> \<open>the longest first\<close>
  "configuredSecretValues env =
     sort_key (\<lambda>s. - int (length s)) (List.map_filter (\<lambda>name. optional_setting env name) SECRET_VARS)"

definition secret_hit :: "string \<Rightarrow> string \<Rightarrow> (nat \<times> string) option" where
  \<comment> \<open>\<open>replaceAll\<close> of a text\<close>
  "secret_hit secret t = (if secret \<noteq> [] \<and> prefix secret t then Some (length secret, MASK) else None)"

definition redactConfiguredSecrets :: "environment \<Rightarrow> string \<Rightarrow> string" where
  "redactConfiguredSecrets env v = foldl (\<lambda>redacted secret. rewrite_all (secret_hit secret) redacted) v (configuredSecretValues env)"

definition pem_rx :: rx where
  "pem_rx =
     Seq (Exactly ''-----BEGIN '') (Seq (Many1 (\<lambda>c. c \<noteq> CHR ''-'')) (Seq (Exactly ''-----'') (Seq (ManyLazy (\<lambda>c. True))
       (Seq (Exactly ''-----END '') (Seq (Many1 (\<lambda>c. c \<noteq> CHR ''-'')) (Exactly ''-----''))))))"

definition url_user_rx :: rx where
  "url_user_rx = Seq scheme_rx (Seq (Many1 (\<lambda>c. c \<noteq> CHR ''/'' \<and> \<not> js_space c \<and> c \<noteq> CHR ''@'')) (This (CHR ''@'')))"

definition scheme_of :: "string \<Rightarrow> string" where
  \<comment> \<open>the first group\<close>
  "scheme_of t = (case rests scheme_rx t of [] \<Rightarrow> [] | rest # _ \<Rightarrow> take (length t - length rest) t)"

definition quote_rx :: rx where "quote_rx = Perhaps (One (\<lambda>c. c = CHR 0x22 \<or> c = CHR 0x27))"

definition pair_rx :: rx where
  "pair_rx =
     Seq quote_rx
       (Seq (foldr (\<lambda>w r. Alt (AnyCase w) r)
              [''password'', ''passwd'', ''token'', ''secret'', ''authorization'', ''username'', ''user'', ''key'', ''cert''] (AnyCase ''ca''))
       (Seq quote_rx (Seq (Many js_space) (Seq (One (\<lambda>c. c = CHR ''='' \<or> c = CHR '':'')) (Seq (Many js_space)
         (Alt (Seq (This (CHR 0x22)) (Seq (Many (\<lambda>c. c \<noteq> CHR 0x22)) (This (CHR 0x22))))
         (Alt (Seq (This (CHR 0x27)) (Seq (Many (\<lambda>c. c \<noteq> CHR 0x27)) (This (CHR 0x27))))
           (Many1 (\<lambda>c. \<not> js_space c \<and> c \<noteq> CHR '','' \<and> c \<noteq> CHR '';'' \<and> c \<noteq> CHR ''}'')))))))))"

definition hide_pems :: "string \<Rightarrow> string" where "hide_pems = rewrite_all (rx_hit pem_rx (\<lambda>m. ''[redacted PEM]''))"

definition hide_url_users :: "string \<Rightarrow> string" where
  \<comment> \<open>\<open>'$1[redacted]@'\<close>\<close>
  "hide_url_users = rewrite_all (rx_hit url_user_rx (\<lambda>m. scheme_of m @ MASK @ ''@''))"

definition mark_pairs :: "string \<Rightarrow> string" where
  \<comment> \<open>\<open>'$1[redacted]'\<close>, where the group is the whole match\<close>
  "mark_pairs = rewrite_all (rx_hit pair_rx (\<lambda>m. m @ MASK))"

datatype thrown = ThrownError string "string option" string | ThrownOther string \<comment> \<open>name, \<open>code\<close>, message; a text\<close>

definition error_text :: "thrown \<Rightarrow> string" where
  "error_text e =
     (case e of
        ThrownError name code message \<Rightarrow>
          name @ (case keep_truthy code of None \<Rightarrow> [] | Some c \<Rightarrow> '' ['' @ c @ '']'') @ '': '' @ message
      | ThrownOther t \<Rightarrow> t)"

definition safeErrorDetails :: "environment \<Rightarrow> thrown \<Rightarrow> string" where
  "safeErrorDetails env e = mark_pairs (hide_url_users (hide_pems (redactConfiguredSecrets env (error_text e))))"

definition startup_message :: "environment \<Rightarrow> string \<Rightarrow> string \<Rightarrow> thrown \<Rightarrow> string \<Rightarrow> string" where
  \<comment> \<open>the message of \<open>startupFailure\<close>\<close>
  "startup_message env operation context e remediation =
     ''Conversation event sink NATS failed to '' @ operation @ '' ('' @ context @ ''): '' @ safeErrorDetails env e @ ''. '' @ remediation"

section \<open>Lemmas\<close>

text \<open>A replacement is framed when it puts a bracketed text of its own between a beginning and an end of
  what it replaces. Nothing without brackets then appears that was not there.\<close>

definition framed :: "string set \<Rightarrow> (string \<Rightarrow> (nat \<times> string) option) \<Rightarrow> bool" where
  "framed W hit \<longleftrightarrow>
     (\<forall>t n out. hit t = Some (n, out) \<longrightarrow> 0 < n \<and>
        (\<exists>p w q. out = p @ ''['' @ w @ '']'' @ q \<and> w \<in> W \<and> prefix p (take n t) \<and> suffix q (take n t)))"

lemma framedE:
  assumes "framed W hit" and "hit t = Some (n, out)"
  obtains p w q where "0 < n" "out = p @ ''['' @ w @ '']'' @ q" "w \<in> W" "prefix p (take n t)" "suffix q (take n t)"
  using assms unfolding framed_def by metis

definition bracket_free :: "string \<Rightarrow> bool" where
  "bracket_free s \<longleftrightarrow> CHR ''['' \<notin> set s \<and> CHR '']'' \<notin> set s"

lemma prefix_stop: "prefix u (p @ c # q) \<Longrightarrow> c \<notin> set u \<Longrightarrow> prefix u p"
  by (auto simp: prefix_append prefix_Cons)

lemma suffix_stop: "suffix u (p @ [c]) \<Longrightarrow> c \<notin> set u \<Longrightarrow> u = []"
  by (auto simp: suffix_append suffix_Cons)

lemma rewrite_prefix:
  assumes "framed W hit" and "bracket_free u" and "prefix u (rewrite_all hit t)"
  shows "prefix u t"
  using assms
proof (induction hit t arbitrary: u rule: rewrite_all.induct)
  case (2 hit c cs)
  show ?case
  proof (cases "hit (c # cs)")
    case None
    show ?thesis
    proof (cases u)
      case (Cons x us)
      then have "x = c" "prefix us (rewrite_all hit cs)" "bracket_free us" using "2.prems"(2,3) None by (auto simp: bracket_free_def)
      with "2.IH"(1) [OF None "2.prems"(1)] Cons show ?thesis by simp
    qed simp
  next
    case (Some no)
    then obtain n out where hit: "hit (c # cs) = Some (n, out)" by (cases no) simp
    obtain p w q where f: "out = p @ ''['' @ w @ '']'' @ q" "prefix p (take n (c # cs))"
      using "2.prems"(1) hit by (rule framedE)
    have "prefix u p"
      using "2.prems"(2,3) hit prefix_stop [of u p "CHR ''[''"] by (auto simp: f(1) bracket_free_def)
    then show ?thesis using f(2) take_is_prefix by (rule prefix_order.trans [OF prefix_order.trans])
  qed
qed simp

lemma sublist_take: "sublist s (take n t) \<Longrightarrow> sublist s t"
  by (metis append_take_drop_id sublist_append)

lemma sublist_drop: "sublist s (drop n t) \<Longrightarrow> sublist s t"
  by (metis append_take_drop_id sublist_append)

lemma sublist_stop:
  assumes "sublist s (p @ c # q)" and "c \<notin> set s"
  shows "sublist s p \<or> sublist s q"
proof -
  have "sublist s ((p @ [c]) @ q)" using assms(1) by simp
  then consider "sublist s (p @ [c])" | "sublist s q" | xs1 xs2 where "s = xs1 @ xs2" "suffix xs1 (p @ [c])" "prefix xs2 q"
    unfolding sublist_append by blast
  then show ?thesis
  proof cases
    case 1
    then consider "sublist s p" | "sublist s [c]" | xs1 xs2 where "s = xs1 @ xs2" "suffix xs1 p" "prefix xs2 [c]"
      unfolding sublist_append by blast
    then show ?thesis
    proof cases
      case 2
      then have "s = []" using assms(2) by (auto simp: sublist_Cons_right prefix_Cons)
      then show ?thesis by simp
    next
      case 3
      then have "xs2 = []" using assms(2) by (auto simp: prefix_Cons)
      with 3 show ?thesis by (simp add: suffix_imp_sublist)
    qed simp
  next
    case 3
    then have "xs1 = []" using assms(2) suffix_stop [of xs1 p c] by simp
    with 3 show ?thesis by (simp add: prefix_imp_sublist)
  qed simp
qed

lemma sublist_framed:
  assumes "sublist s (p @ ''['' @ w @ '']'' @ rest)" and "bracket_free s" and "\<not> sublist s w"
  shows "sublist s p \<or> sublist s rest"
  using assms sublist_stop [of s p "CHR ''[''" "w @ '']'' @ rest"] sublist_stop [of s w "CHR '']''" rest]
  by (auto simp: bracket_free_def)

lemma rewrite_sublist:
  assumes "framed W hit" and "bracket_free s" and "\<forall>w \<in> W. \<not> sublist s w" and "sublist s (rewrite_all hit t)"
  shows "sublist s t"
  using assms
proof (induction hit t rule: rewrite_all.induct)
  case (2 hit c cs)
  show ?case
  proof (cases "hit (c # cs)")
    case None
    from "2.prems"(4) None consider "prefix s (c # rewrite_all hit cs)" | "sublist s (rewrite_all hit cs)"
      by (auto simp: sublist_Cons_right)
    then show ?thesis
    proof cases
      case 1
      then have "prefix s (rewrite_all hit (c # cs))" using None by simp
      from rewrite_prefix [OF "2.prems"(1,2) this] show ?thesis by (rule prefix_imp_sublist)
    next
      case 2
      from "2.IH"(1) [OF None "2.prems"(1-3) this] show ?thesis by (rule sublist_Cons_right [THEN iffD2, OF disjI2])
    qed
  next
    case (Some no)
    then obtain n out where hit: "hit (c # cs) = Some (n, out)" by (cases no) simp
    let ?rest = "rewrite_all hit (drop (n - 1) cs)"
    obtain p w q where f: "0 < n" "out = p @ ''['' @ w @ '']'' @ q" "w \<in> W" "prefix p (take n (c # cs))" "suffix q (take n (c # cs))"
      using "2.prems"(1) hit by (rule framedE)
    have d: "drop (n - 1) cs = drop n (c # cs)" using f(1) by (cases n) simp_all
    have "sublist s (p @ ''['' @ w @ '']'' @ (q @ ?rest))" using "2.prems"(4) hit f(2) by simp
    from sublist_framed [OF this "2.prems"(2)] "2.prems"(3) f(3) consider "sublist s p" | "sublist s (q @ ?rest)" by blast
    then show ?thesis
    proof cases
      case 1
      then have "sublist s (take n (c # cs))" using f(4) prefix_imp_sublist sublist_order.order.trans by blast
      then show ?thesis by (rule sublist_take)
    next
      case 2
      then consider "sublist s q" | "sublist s ?rest" | s1 s2 where "s = s1 @ s2" "suffix s1 q" "prefix s2 ?rest"
        unfolding sublist_append by blast
      then show ?thesis
      proof cases
        case 1
        then have "sublist s (take n (c # cs))" using f(5) suffix_imp_sublist sublist_order.order.trans by blast
        then show ?thesis by (rule sublist_take)
      next
        case 2
        from "2.IH"(2) [OF hit refl "2.prems"(1-3) this] show ?thesis unfolding d by (rule sublist_drop)
      next
        case (3 s1 s2)
        have "bracket_free s2" using "2.prems"(2) 3(1) by (simp add: bracket_free_def)
        from rewrite_prefix [OF "2.prems"(1) this 3(3)] have "prefix s2 (drop n (c # cs))" by (simp only: d)
        moreover have "suffix s1 (take n (c # cs))" using 3(2) f(5) by (rule suffix_order.trans)
        ultimately have "sublist s (take n (c # cs) @ drop n (c # cs))" unfolding 3(1) sublist_append by blast
        then show ?thesis by simp
      qed
    qed
  qed
qed simp

text \<open>The replacements of the code are framed.\<close>

lemma run_rests_suffix: "rest \<in> set (run_rests P t) \<Longrightarrow> suffix rest t"
  by (induction P t rule: run_rests.induct) (auto simp: suffix_Cons split: if_splits)

lemma rests_suffix: "rest \<in> set (rests r t) \<Longrightarrow> suffix rest t"
proof (induction r arbitrary: t rest)
  case (Seq a b)
  then obtain mid where "mid \<in> set (rests a t)" "rest \<in> set (rests b mid)" by auto
  with Seq.IH have "suffix mid t" "suffix rest mid" by blast+
  then show ?case by (rule suffix_order.trans [rotated])
next
  case (One P)
  then show ?case by (auto simp: suffix_Cons split: list.splits if_splits)
qed (auto dest: run_rests_suffix)

lemma rx_hit_SomeD:
  assumes "rx_hit r f t = Some (n, out)"
  obtains rest where "rest \<in> set (rests r t)" "t = take n t @ rest" "0 < n" "out = f (take n t)"
proof -
  obtain rest rest' where r: "rests r t = rest # rest'" and n: "n = length t - length rest" "n \<noteq> 0" "out = f (take n t)"
    using assms by (auto simp: rx_hit_def Let_def split: list.splits if_splits)
  have "suffix rest t" by (rule rests_suffix [of _ r]) (simp add: r)
  then obtain m where m: "t = m @ rest" by (auto simp: suffix_def)
  then have "n = length m" using n(1) by simp
  with m have "t = take n t @ rest" by simp
  then show ?thesis using that [of rest] r n(2,3) by auto
qed

lemma secret_hit_framed: "framed {''redacted''} (secret_hit secret)"
  unfolding framed_def secret_hit_def MASK_def
  by (auto intro!: exI [of _ "[]"] split: if_splits)

lemma pem_framed: "framed {''redacted PEM''} (rx_hit pem_rx (\<lambda>m. ''[redacted PEM]''))"
  unfolding framed_def by (auto intro!: exI [of _ "[]"] elim!: rx_hit_SomeD)

lemma pair_framed: "framed {''redacted''} (rx_hit pair_rx (\<lambda>m. m @ MASK))"
  unfolding framed_def MASK_def
proof (intro allI impI)
  fix t n out assume "rx_hit pair_rx (\<lambda>m. m @ ''[redacted]'') t = Some (n, out)"
  then show "0 < n \<and> (\<exists>p w q. out = p @ ''['' @ w @ '']'' @ q \<and> w \<in> {''redacted''} \<and> prefix p (take n t) \<and> suffix q (take n t))"
    by (elim rx_hit_SomeD, intro conjI exI [of _ "take n t"] exI [of _ "''redacted''"] exI [of _ "[]"]) simp_all
qed

lemma url_user_ends: "rest \<in> set (rests url_user_rx t) \<Longrightarrow> suffix (CHR ''@'' # rest) t"
proof -
  assume "rest \<in> set (rests url_user_rx t)"
  then obtain a b where "a \<in> set (rests scheme_rx t)" "b \<in> set (rests (Many1 (\<lambda>c. c \<noteq> CHR ''/'' \<and> \<not> js_space c \<and> c \<noteq> CHR ''@'')) a)"
    "b = CHR ''@'' # rest"
    by (auto simp: url_user_rx_def This_def split: list.splits if_splits)
  then show ?thesis using rests_suffix suffix_order.trans by blast
qed

lemma scheme_of_prefix: "prefix (scheme_of m) m"
  by (simp add: scheme_of_def take_is_prefix split: list.split)

lemma url_framed: "framed {''redacted''} (rx_hit url_user_rx (\<lambda>m. scheme_of m @ MASK @ ''@''))"
  unfolding framed_def MASK_def
proof (intro allI impI)
  fix t n out assume "rx_hit url_user_rx (\<lambda>m. scheme_of m @ ''[redacted]'' @ ''@'') t = Some (n, out)"
  then obtain rest where r: "rest \<in> set (rests url_user_rx t)" "t = take n t @ rest" "0 < n"
    "out = scheme_of (take n t) @ ''[redacted]'' @ ''@''"
    by (rule rx_hit_SomeD)
  obtain pre where "t = pre @ CHR ''@'' # rest" using url_user_ends [OF r(1)] by (auto simp: suffix_def)
  then have "take n t = pre @ ''@''" using r(2) by (metis append.assoc append_Cons append_Nil same_append_eq append_same_eq)
  then have "suffix ''@'' (take n t)" by (simp add: suffix_def)
  moreover have "prefix (scheme_of (take n t)) (take n t)" by (rule scheme_of_prefix)
  ultimately show "0 < n \<and> (\<exists>p w q. out = p @ ''['' @ w @ '']'' @ q \<and> w \<in> {''redacted''} \<and> prefix p (take n t) \<and> suffix q (take n t))"
    using r(3,4) by (intro conjI exI [of _ "scheme_of (take n t)"] exI [of _ "''redacted''"] exI [of _ "''@''"]) simp_all
qed

text \<open>A secret is gone after its replacement.\<close>

lemma secret_gone:
  assumes "s \<noteq> []" and "bracket_free s" and "\<not> sublist s ''redacted''"
  shows "\<not> sublist s (rewrite_all (secret_hit s) t)"
proof (induction "secret_hit s" t rule: rewrite_all.induct)
  case (2 c cs)
  show ?case
  proof (cases "prefix s (c # cs)")
    case True
    then have hit: "secret_hit s (c # cs) = Some (length s, MASK)" using assms(1) by (simp add: secret_hit_def)
    let ?rest = "rewrite_all (secret_hit s) (drop (length s - 1) cs)"
    have "\<not> sublist s ?rest" using "2"(2) [OF hit refl] .
    then have "\<not> sublist s ([] @ ''['' @ ''redacted'' @ '']'' @ ?rest)"
      using sublist_framed [of s "[]" "''redacted''" ?rest] assms by auto
    then show ?thesis by (simp add: hit MASK_def)
  next
    case False
    then have none: "secret_hit s (c # cs) = None" by (simp add: secret_hit_def)
    have "\<not> prefix s (rewrite_all (secret_hit s) (c # cs))"
      using rewrite_prefix [OF secret_hit_framed assms(2)] False by blast
    with "2"(1) [OF none] show ?thesis by (simp add: none sublist_Cons_right)
  qed
qed (use assms(1) in simp)

lemma secrets_gone:
  assumes "s \<in> set ss" and "s \<noteq> []" and "bracket_free s" and "\<not> sublist s ''redacted''"
  shows "\<not> sublist s (foldl (\<lambda>redacted secret. rewrite_all (secret_hit secret) redacted) t ss)"
  using assms(1)
proof (induction ss rule: rev_induct)
  case (snoc x ss)
  then show ?case
    using secret_gone [OF assms(2-4)] rewrite_sublist [OF secret_hit_framed assms(3)] assms(4) by (auto simp del: rewrite_all.simps)
qed simp

text \<open>The last pass takes nothing away: what it finds it only marks.\<close>

lemma pairs_stay: "subseq t (mark_pairs t)"
proof -
  let ?hit = "rx_hit pair_rx (\<lambda>m. m @ MASK)"
  have "subseq t (rewrite_all ?hit t)"
  proof (induction ?hit t rule: rewrite_all.induct)
    case (2 c cs)
    show ?case
    proof (cases "?hit (c # cs)")
      case None
      with "2"(1) show ?thesis by simp
    next
      case (Some no)
      then obtain n out where hit: "?hit (c # cs) = Some (n, out)" by (cases no) simp
      obtain rest where r: "c # cs = take n (c # cs) @ rest" "0 < n" "out = take n (c # cs) @ MASK"
        using rx_hit_SomeD [OF hit] by metis
      have d: "drop (n - 1) cs = drop n (c # cs)" using r(2) by (cases n) simp_all
      have "subseq (drop n (c # cs)) (rewrite_all ?hit (drop n (c # cs)))" using "2"(2) [OF hit refl] by (simp only: d)
      then have "subseq (take n (c # cs) @ drop n (c # cs)) (out @ rewrite_all ?hit (drop n (c # cs)))"
        unfolding r(3) by (intro list_emb_append_mono) (auto intro: subseq_rev_drop_many list_emb_append2)
      then show ?thesis by (simp only: append_take_drop_id rewrite_all.simps hit option.case prod.case d)
    qed
  qed simp
  then show ?thesis by (simp add: mark_pairs_def)
qed

lemma password_stays: "mark_pairs ''failed: password=hunter2, retry'' = ''failed: password=hunter2[redacted], retry''"
  by code_simp

lemma fallback_shows_credentials: "sanitizeEndpoint (\<lambda>t. None) ''4222'' ''nats://user:pa/ss@host'' = ''user:pa''"
  by code_simp

section \<open>Properties\<close>

lemma configured_secret_not_empty: "s \<in> set (configuredSecretValues env) \<Longrightarrow> s \<noteq> []"
  by (auto simp: configuredSecretValues_def List.map_filter_def optional_setting_def keep_truthy_def split: option.splits if_splits)


definition secret_env :: environment where
  "secret_env name =
     (if name = ''CONVERSATION_EVENTS_NATS_USERNAME'' then Some ''service''
      else if name = ''CONVERSATION_EVENTS_NATS_PASSWORD'' then Some '' hunter2 '' else None)"


end
