(* ===== verification/Release_Check.thy ===== *)
theory Release_Check
  imports Startup
begin

text \<open>
  \<open>scripts/validate-release-version.mjs\<close>: the check that a release runs before it is built. The contents of
  the files are arguments, the JSON ones as the version each has (\<open>None\<close> for a member that is absent); a
  check that fails is \<open>Inl\<close> of the message with which the process exits, without what it received from a
  JSON file.
\<close>

definition release_number :: "string \<Rightarrow> bool" where
  \<comment> \<open>\<open>0|[1-9]\d*\<close>\<close>
  "release_number t \<longleftrightarrow> t = ''0'' \<or> (t \<noteq> [] \<and> hd t \<noteq> CHR ''0'' \<and> list_all is_digit t)"

definition release_semver :: "string \<Rightarrow> bool" where
  \<comment> \<open>\<open>releaseSemverPattern\<close>: no part has a dot, so the dots split a match\<close>
  "release_semver v \<longleftrightarrow>
     (case js_split (CHR ''.'') v of
        [a, b, c] \<Rightarrow> release_number a \<and> release_number b \<and> release_number c
      | [a, b, c, n] \<Rightarrow>
          release_number a \<and> release_number b \<and> suffix ''-rc'' c \<and> release_number (take (length c - 3) c) \<and> release_number n
      | _ \<Rightarrow> False)"

definition OBSERVED :: string where "OBSERVED = ''Contract/package version observed in repository: `''"

fun extractObservedVersion :: "string \<Rightarrow> string option" where
  \<comment> \<open>the first match of the expression; \<open>None\<close> is the failure\<close>
  "extractObservedVersion [] = None"
| "extractObservedVersion (c # cs) =
     (let behind = drop (length OBSERVED) (c # cs); v = takeWhile (\<lambda>x. x \<noteq> CHR ''`'') behind
      in if prefix OBSERVED (c # cs) \<and> v \<noteq> [] \<and> v \<noteq> behind then Some v else extractObservedVersion cs)"

record release_files =
  rf_package :: "json option"
  rf_lock :: "json option"
  rf_lockRoot :: "json option"
  rf_openapi :: "json option"
  rf_asyncapi :: "json option"
  rf_guide :: string

record release_call =
  rl_argument :: "string option" \<comment> \<open>\<open>process.argv[2]\<close>\<close>
  rl_refType :: "string option"
  rl_refName :: "string option"
  rl_ref :: "string option"

definition release_versions :: "release_files \<Rightarrow> string \<Rightarrow> (string \<times> json option) list" where
  "release_versions f observed =
     [(''package.json'', rf_package f), (''package-lock.json'', rf_lock f), (''package-lock.json packages['' @ [CHR 0x27, CHR 0x27] @ '']'', rf_lockRoot f),
      (''public/openapi.json'', rf_openapi f), (''public/asyncapi.json'', rf_asyncapi f),
      (''docs/api-consumer-guide.md'', Some (JString observed))]"

definition raw_tag :: "release_call \<Rightarrow> string option" where
  "raw_tag c =
     js_coalesce (rl_argument c)
       (js_coalesce (if rl_refType c = Some ''tag'' then rl_refName c else None)
         (case rl_ref c of Some r \<Rightarrow> if prefix ''refs/tags/'' r then Some r else None | None \<Rightarrow> None))"

definition check_tag :: "string \<Rightarrow> string \<Rightarrow> string + unit" where
  "check_tag version raw =
     (let tag = (if prefix ''refs/tags/'' raw then drop (length ''refs/tags/'') raw else raw)
      in if \<not> prefix ''v'' tag then Inl (''Release tags must start with v. Received: '' @ tag)
         else if \<not> release_semver (tl tag)
         then Inl (''Release tags must use stable SemVer like v0.0.1 or RC SemVer like v0.7.0-rc.1. Received: '' @ tag)
         else if tl tag \<noteq> version then Inl (''Release tag '' @ tag @ '' must match package.json version '' @ version @ ''.'')
         else Inr ())"

definition validate_release :: "release_files \<Rightarrow> release_call \<Rightarrow> string + string" where
  "validate_release f c =
     (case json_string (rf_package f) of
        None \<Rightarrow> Inl ''package.json version must be stable SemVer x.y.z or RC SemVer x.y.z-rc.n.''
      | Some version \<Rightarrow>
          if \<not> release_semver version
          then Inl (''package.json version must be stable SemVer x.y.z or RC SemVer x.y.z-rc.n. Received: '' @ version)
          else (case extractObservedVersion (rf_guide f) of
             None \<Rightarrow> Inl ''Could not find the observed contract/package version in docs/api-consumer-guide.md.''
           | Some observed \<Rightarrow>
               (case find (\<lambda>(name, v). v \<noteq> Some (JString version)) (release_versions f observed) of
                  Some (name, v) \<Rightarrow> Inl (name @ '' version must match package.json ('' @ version @ '').'')
                | None \<Rightarrow>
                    (case keep_truthy (raw_tag c) of
                       None \<Rightarrow> Inr version
                     | Some raw \<Rightarrow> (case check_tag version raw of Inl e \<Rightarrow> Inl e | Inr _ \<Rightarrow> Inr version)))))"

text \<open>What a release that passes has: one version in every file, and the tag of that version.\<close>

lemma release_aligned:
  assumes "validate_release f c = Inr version"
  shows "release_semver version" and "\<forall>(name, v) \<in> set (release_versions f version). v = Some (JString version)"
    and "extractObservedVersion (rf_guide f) = Some version"
    and "raw_tag c = None \<or> raw_tag c = Some [] \<or> raw_tag c = Some (''v'' @ version) \<or> raw_tag c = Some (''refs/tags/v'' @ version)"
proof -
  obtain observed where o: "json_string (rf_package f) = Some version" "release_semver version"
    "extractObservedVersion (rf_guide f) = Some observed"
    "find (\<lambda>(name, v). v \<noteq> Some (JString version)) (release_versions f observed) = None"
    and tag: "\<And>raw. keep_truthy (raw_tag c) = Some raw \<Longrightarrow> check_tag version raw = Inr ()"
    using assms by (auto simp: validate_release_def split: option.splits if_splits sum.splits)
  show "release_semver version" by (rule o(2))
  have all: "\<forall>(name, v) \<in> set (release_versions f observed). v = Some (JString version)" using o(4) by (auto simp: find_None_iff)
  then have "observed = version" by (simp add: release_versions_def)
  with all o(3) show "\<forall>(name, v) \<in> set (release_versions f version). v = Some (JString version)"
    "extractObservedVersion (rf_guide f) = Some version" by simp_all
  show "raw_tag c = None \<or> raw_tag c = Some [] \<or> raw_tag c = Some (''v'' @ version) \<or> raw_tag c = Some (''refs/tags/v'' @ version)"
  proof (cases "keep_truthy (raw_tag c)")
    case None
    then show ?thesis by (cases "raw_tag c") (auto simp: keep_truthy_def split: if_splits)
  next
    case (Some raw)
    then have raw: "raw_tag c = Some raw" by (cases "raw_tag c") (auto simp: keep_truthy_def split: if_splits)
    have "check_tag version raw = Inr ()" by (rule tag [OF Some])
    then have "raw = ''v'' @ version \<or> raw = ''refs/tags/v'' @ version"
      by (auto simp: check_tag_def Let_def prefix_def split: if_splits)
    with raw show ?thesis by simp
  qed
qed

lemma release_semver_samples:
  "release_semver ''0.7.0''" "release_semver ''1.10.2-rc.3''" "\<not> release_semver ''01.0.0''" "\<not> release_semver ''1.0''"
  "\<not> release_semver ''1.0.0-rc''" "\<not> release_semver ''1.0.0-beta.1''"
  by code_simp+

end
