(* ===== verification/Reply_Path.thy ===== *)
theory Reply_Path
  imports Conversation_V2
begin

text \<open>
  The way of a reply: what an opened conversation stores of its Reply-To address, how the routing of a
  received email finds it again, and where the projection then files the email. The property that joins
  them is in the root theory.
\<close>

section \<open>The base of an accepted request\<close>

lemma trim_lower_idem: "js_toLower (js_trim (js_toLower (js_trim t))) = js_toLower (js_trim t)"
proof -
  have "trimmed (js_toLower (js_trim t))" by simp
  then show ?thesis by simp
qed

lemma normalizeEmailIdentity_normal:
  "normalizeEmailIdentity v field replyTo = Inr i \<Longrightarrow> js_toLower (js_trim (ii_address i)) = ii_address i"
  by (auto simp: normalizeEmailIdentity_def Let_def trim_lower_idem split: option.splits if_splits)

lemma validated_reply_base:
  assumes "validateCreateV2Body env v = Inr i"
  shows "js_toLower (js_trim (ii_address (mi_replyTo (cy_message i)))) = ii_address (mi_replyTo (cy_message i))"
  using assms unfolding validateCreateV2Body_def Let_def
  by (elim or_else_InrE) (auto split: if_splits elim!: or_else_InrE dest: normalizeEmailIdentity_normal)

lemma validated_reply_valid:
  assumes "validateCreateV2Body env v = Inr i"
  shows "isValidReplyToBaseAddress (ii_address (mi_replyTo (cy_message i)))"
  using validateCreateV2Body_parts [OF assms] by (metis message_safe_def)

section \<open>The route\<close>

definition recipients_read :: "email_event_data \<Rightarrow> resend_email \<Rightarrow> string list" where
  \<comment> \<open>the addresses \<open>projectInboundEmail\<close> looks for tokens in\<close>
  "recipients_read ed re =
     re_to re @ ed_to ed @ (case re_received_for re of None \<Rightarrow> [] | Some xs \<Rightarrow> xs)
       @ (case ed_received_for ed of None \<Rightarrow> [] | Some xs \<Rightarrow> xs)"

lemma candidates_read: "im_candidates (inbound_mail_of ed re) = extractRoutingCandidates (recipients_read ed re)"
  by (simp add: inbound_mail_of_def recipients_read_def Let_def)

lemma one_candidate:
  assumes "extractRoutingCandidates [received] = [k]" and "received \<in> set addresses"
    and "\<forall>a \<in> set addresses. routing_candidate_of a = None \<or> routing_candidate_of a = routing_candidate_of received"
  shows "set (extractRoutingCandidates addresses) = {k}"
proof -
  have k: "routing_candidate_of received = Some k"
    using assms(1) by (auto simp: extractRoutingCandidates_def List.map_filter_def split: if_splits)
  have "set (extractRoutingCandidates addresses) = {x. \<exists>a \<in> set addresses. routing_candidate_of a = Some x}"
    by (force simp: extractRoutingCandidates_def List.map_filter_def)
  also have "\<dots> = {k}" using k assms(2,3) by force
  finally show ?thesis .
qed

lemma routed_unique:
  assumes "conversations t = cs @ [c]" and "set (im_candidates im) = {k}"
    and "rc_routingToken k = cv_routingToken c" and "cv_replyToBaseAddress c = Some (rc_baseAddress k)"
    and "same_participant (im_participantAddress im) c"
    and "\<And>d. d \<in> set cs \<Longrightarrow> cv_routingToken d \<noteq> cv_routingToken c"
    and "\<And>a. a \<in> set (aliases t) \<Longrightarrow> ra_routingToken a \<noteq> cv_routingToken c"
  shows "routed_conversation base im t = Some c"
proof -
  have "routes_to base im t c" using assms(2-5) by (simp add: routes_to_def)
  moreover have "\<not> routes_to base im t d" if "d \<in> set cs" for d
  proof -
    have "cv_routingToken d \<noteq> rc_routingToken k" using assms(6) [OF that] assms(3) by simp
    moreover have "ra_routingToken a \<noteq> rc_routingToken k" if "a \<in> set (aliases t)" for a
      using assms(7) [OF that] assms(3) by simp
    ultimately show ?thesis unfolding routes_to_def assms(2) by (metis singletonD)
  qed
  ultimately have "filter (routes_to base im t) (conversations t) = [c]" using assms(1) by simp
  moreover have "im_candidates im \<noteq> []" using assms(2) by auto
  ultimately show ?thesis by (simp add: routed_conversation_def)
qed

text \<open>Once a conversation is open, its address routes to it and to nothing else.\<close>

lemma map_snocD: "map f xs = ys @ [y] \<Longrightarrow> \<exists>us u. xs = us @ [u] \<and> map f us = ys \<and> f u = y"
  by (auto simp: map_eq_append_conv map_eq_Cons_conv)

lemma stripped_eqD:
  "(c::conversation)\<lparr>cv_eventSequence := 0\<rparr> = d\<lparr>cv_eventSequence := 0\<rparr> \<Longrightarrow>
     cv_id c = cv_id d \<and> cv_routingToken c = cv_routingToken d \<and> cv_replyToBaseAddress c = cv_replyToBaseAddress d
     \<and> cv_participantAddress c = cv_participantAddress d"
  by (cases c; cases d) simp

lemma opened_last:
  assumes "open_conversation env w v subject key hash queued s = (Inr (cid, mid), t)"
  obtains cs c where "conversations t = cs @ [c]" "aliases t = aliases s" "cv_id c = cid" "cv_routingToken c = qw_token w"
    "cv_replyToBaseAddress c = Some (ii_address (mi_replyTo (cy_message v)))"
    "cv_participantAddress c = ii_address (cy_participant v)"
    "\<forall>d \<in> set cs. cv_routingToken d \<noteq> cv_routingToken c"
proof -
  obtain c token at where strip: "conversations_stripped t = conversations_stripped s @ [c\<lparr>cv_eventSequence := 0\<rparr>]"
    and c: "c = opened_conversation v subject (qw_token w) (sw_now (qw_send w)) cid token at"
    and new: "\<And>r. r \<in> set (conversations s) \<Longrightarrow> \<not> conversation_conflict c r" and al: "aliases t = aliases s"
    by (rule open_conversation_effect [OF assms]) blast
  obtain cs d where t: "conversations t = cs @ [d]" and cs: "map (\<lambda>c. c\<lparr>cv_eventSequence := 0\<rparr>) cs = conversations_stripped s"
    and d: "d\<lparr>cv_eventSequence := 0\<rparr> = c\<lparr>cv_eventSequence := 0\<rparr>"
    using map_snocD [OF strip [unfolded conversations_stripped_def [of t]]] by blast
  note d = stripped_eqD [OF d]
  show ?thesis
  proof (rule that [OF t al _ _ _ _ ballI])
    fix e assume "e \<in> set cs"
    then have "e\<lparr>cv_eventSequence := 0\<rparr> \<in> set (conversations_stripped s)" using cs by (metis imageI list.set_map)
    then obtain f where f: "f \<in> set (conversations s)" "e\<lparr>cv_eventSequence := 0\<rparr> = f\<lparr>cv_eventSequence := 0\<rparr>"
      by (auto simp: conversations_stripped_def)
    from new [OF f(1)] have "cv_routingToken c \<noteq> cv_routingToken f" by (simp add: conversation_conflict_def)
    then show "cv_routingToken e \<noteq> cv_routingToken d" using stripped_eqD [OF f(2)] d by simp
  qed (use d in \<open>simp_all add: c opened_conversation_def\<close>)
qed

lemma opened_route:
  assumes opened: "open_conversation env w v subject key hash queued s = (Inr (cid, mid), t)"
    and accepted: "validateCreateV2Body env' body = Inr v" and token: "canonical_uuid (qw_token w)"
    and aliases: "\<forall>a \<in> set (aliases s). ra_routingToken a \<noteq> qw_token w"
    and reply: "buildConversationReplyTo (ii_address (mi_replyTo (cy_message v))) (qw_token w) = Inr (js_toLower (js_trim received))"
    and received: "received \<in> set (recipients_read ed re)"
      "\<forall>a \<in> set (recipients_read ed re). routing_candidate_of a = None \<or> routing_candidate_of a = routing_candidate_of received"
    and sender: "im_participantAddress (inbound_mail_of ed re) = js_toLower (ii_address (cy_participant v))"
  obtains c where "routed_conversation base (inbound_mail_of ed re) t = Some c" and "cv_id c = cid"
proof -
  let ?k = "\<lparr>rc_routingToken = qw_token w, rc_baseAddress = ii_address (mi_replyTo (cy_message v))\<rparr>"
  obtain cs c where c: "conversations t = cs @ [c]" "aliases t = aliases s" "cv_id c = cid" "cv_routingToken c = qw_token w"
    "cv_replyToBaseAddress c = Some (ii_address (mi_replyTo (cy_message v)))"
    "cv_participantAddress c = ii_address (cy_participant v)"
    and other: "\<forall>d \<in> set cs. cv_routingToken d \<noteq> cv_routingToken c"
    by (rule opened_last [OF opened]) blast
  have k: "routing_candidate_of received = Some ?k"
    using generated_candidate [OF token refl reply] validated_reply_base [OF accepted] by metis
  then have "extractRoutingCandidates [received] = [?k]"
    by (simp add: extractRoutingCandidates_def List.map_filter_simps)
  from one_candidate [OF this received] have "set (im_candidates (inbound_mail_of ed re)) = {?k}"
    by (simp add: candidates_read)
  from routed_unique [OF c(1) this] have "routed_conversation base (inbound_mail_of ed re) t = Some c"
    using c sender aliases other by (simp add: same_participant_def)
  from that [OF this c(3)] show ?thesis .
qed

section \<open>The place of the message\<close>

text \<open>A message in a conversation stays there while only that conversation is touched.\<close>

definition filed_under :: "uuid \<Rightarrow> uuid \<Rightarrow> store \<Rightarrow> bool" where
  "filed_under k i s \<longleftrightarrow> (\<exists>m \<in> set (messages s). ms_id m = k \<and> ms_conversationId m = Some i)"

interpretation filed: thread_invariant "filed_under k i" "\<lambda>j. j = i" "\<lambda>j. True" for k i
proof
  fix s and Q :: "message \<Rightarrow> bool" and g :: "message \<Rightarrow> message"
  assume s: "filed_under k i s" and Q: "\<And>m. Q m \<Longrightarrow> \<exists>j. ms_conversationId m = Some j \<and> j = i"
    "\<And>m. Q m \<Longrightarrow> \<exists>j. ms_conversationId (g m) = Some j \<and> j = i" and g: "\<And>m. unplaced (g m) = unplaced m"
  obtain m where m: "m \<in> set (messages s)" "ms_id m = k" "ms_conversationId m = Some i" using s by (auto simp: filed_under_def)
  let ?m = "if Q m then g m else m"
  have "?m \<in> set (update_where Q g (messages s))" using m(1) by (auto simp: set_update_where)
  moreover have "ms_id ?m = k" "ms_conversationId ?m = Some i" using m(2,3) Q(2) unplaced_eqD(1) [OF g [of m]] by auto
  ultimately show "filed_under k i (s\<lparr>messages := update_where Q g (messages s)\<rparr>)" by (auto simp: filed_under_def)
qed (auto simp: filed_under_def)

text \<open>An email without ancestors and without waiting replies goes where its recipients route it.\<close>

lemma routed_email_filed:
  assumes run: "project_transaction env storageIds ed re base t = (Inr r, u)"
    and fresh: "\<not> (\<exists>m \<in> set (messages t). known_email ed (inbound_mail_of ed re) m)"
    and lone: "im_references (inbound_mail_of ed re) = []" "waiting_children (inbound_mail_of ed re) t = []"
    and routed: "routed_conversation base (inbound_mail_of ed re) t = Some c"
  shows "ms_direction r = INBOUND \<and> ms_conversationId r = Some (cv_id c) \<and> filed_under (ms_id r) (cv_id c) u"
proof -
  let ?im = "inbound_mail_of ed re"
  have none: "find (\<lambda>m. ms_kind m = CONVERSATION \<and> known_email ed ?im m) (messages t) = None"
    using fresh by (auto simp: find_None_iff)
  have rel: "related_messages ?im t = []" using lone(1) by (simp add: related_messages_def)
  have no_parent: "parent_of ?im [] = None"
    by (auto simp: parent_of_def by_message_id_def bind_eq_None_conv split: option.split)
  have "threaded_conversation ?im [] [] = None"
    using lone(1) no_parent by (simp add: threaded_conversation_def with_topic_def List.map_filter_simps Let_def)
  then have "io_bind (reconcile_threads env ?im c []) (\<lambda>_. place_message env storageIds ed re ?im None c False) t = (Inr r, u)"
    using run none rel lone(2) routed no_parent by (simp add: project_transaction_def Let_def)
  then obtain s2 s3 where m: "r = inbound_message ed re ?im (cv_id c) None (id_source s2 (id_count s2)) (db_now s2)"
    and s3: "s3 = s2\<lparr>messages := messages s2 @ [r], id_count := Suc (id_count s2)\<rparr>"
    and fin: "finish_message env storageIds ed re ?im c False r s3 = (Inr r, u)"
    by (rule filed_InrE)
  have r: "ms_direction r = INBOUND" "ms_conversationId r = Some (cv_id c)" by (simp_all add: m inbound_message_def)
  then have "filed_under (ms_id r) (cv_id c) s3" by (simp add: s3 filed_under_def)
  from io_keepsD [OF filed.finish_keeps [OF refl] this fin] r show ?thesis by simp
qed

text \<open>Undisturbed attempts all start from the same state.\<close>

lemma undisturbed_attempt:
  "project_attempts env v ed re base a left t = (Inr r, u) \<Longrightarrow> pw_meanwhile v = (\<lambda>n s. s) \<Longrightarrow>
     \<not> (\<exists>m \<in> set (messages t). known_email ed (inbound_mail_of ed re) m) \<Longrightarrow>
     \<exists>n. project_transaction env (pw_storageIds v n) ed re base t = (Inr r, u)"
proof (induction left arbitrary: a)
  case (Suc left)
  obtain x s' where run: "attempt_projection env v ed re base a t = (x, s')" by fastforce
  show ?case
  proof (cases x)
    case (Inr m)
    with Suc.prems(1,2) run have "attempt_projection env v ed re base a t = (Inr r, u)" by simp
    then show ?thesis by (blast dest: attempt_InrD)
  next
    case (Inl e)
    with run have s': "s' = t" by (blast dest: attempt_InlD)
    have "find (known_email ed (inbound_mail_of ed re)) (messages t) = None" using Suc.prems(3) by (auto simp: find_None_iff)
    with Suc.prems(1,2) run Inl s' have "project_attempts env v ed re base (Suc a) left t = (Inr r, u)"
      by (auto split: if_splits)
    from Suc.IH [OF this Suc.prems(2,3)] show ?thesis .
  qed
qed simp

end
