(* ===== verification/Queued_Path.thy ===== *)
theory Queued_Path
  imports Conversation_V2 Outbox
begin

text \<open>
  The way of a queued message: the row that the opening of a conversation leaves in the batch lane, the
  claim that must take it when the lane has room, and the drain that settles it. The property that
  joins them is in the root theory.
\<close>

text \<open>An opening without attachments leaves its pending message in the batch lane.\<close>

lemma opening_queues:
  assumes "open_conversation env w v subject key hash True s = (Inr (cid, mid), t)"
    and "\<not> has_refs (mi_attachments (cy_message v))" and "distinct (map ms_id (messages t))"
  shows "message_is PENDING mid t" and "\<exists>e \<in> set (outbox_entries t). oe_messageId e = mid \<and> oe_batchId e = None"
proof -
  obtain replyTo m created where m: "m = messageCreateData v subject replyTo (sw_now (qw_send w)) key hash cid mid created"
    and t: "messages t = messages s @ [m]" "outbox_entries t = outbox_entries s @ lane_rows (opening_lane v True) mid s"
    by (rule open_conversation_effect [OF assms(1)]) blast
  have row: "ms_id m = mid" "ms_state m = PENDING" by (simp_all add: m messageCreateData_def)
  then have "find_by ms_id mid (messages t) = Some m" using find_by_distinct [OF assms(3), of m] t(1) by simp
  then show "message_is PENDING mid t" using row(2) by (simp add: message_is_def)
  show "\<exists>e \<in> set (outbox_entries t). oe_messageId e = mid \<and> oe_batchId e = None"
    using assms(2) by (auto simp: t(2) opening_lane_def outboxRelationData_def lane_rows_def)
qed

text \<open>A lane with room takes every free entry.\<close>

lemma queued_with_room:
  assumes "e \<in> set (outbox_entries s)" and "oe_batchId e = None" and "message_is PENDING (oe_messageId e) s"
    and "\<not> locked (oe_messageId e)" and "length (outbox_entries s) \<le> limit"
  shows "oe_messageId e \<in> set (queued_messages limit locked s)"
proof -
  let ?q = "\<lambda>e. oe_batchId e = None \<and> message_is PENDING (oe_messageId e) s \<and> \<not> locked (oe_messageId e)"
  have "length (filter ?q (outbox_entries s)) \<le> limit" using assms(5) length_filter_le le_trans by blast
  then show ?thesis using assms(1-4) by (simp add: queued_messages_def)
qed

lemma claim_None:
  assumes "claimOutboxBatch tk now limit lb le s = (Inr None, t)" and "retryable_batch now lb s = None"
  shows "queued_messages limit le s = []"
proof -
  have "claim_transaction tk now limit lb le s = (Inr None, t)"
    using assms(1) by (auto simp: claimOutboxBatch_def elim!: io_bind_InrE dest!: transaction_InrD split: option.splits if_splits)
  then show ?thesis
    using assms(2) by (auto simp: claim_transaction_def Let_def retryable_batch_drop queued_messages_drop split: if_splits prod.splits option.splits)
qed

text \<open>A drain whose provider accepts everything accepts what was free in a lane with room.\<close>

lemma drain_accepts:
  assumes wf: "outbox_wf s" and idle: "retryable_batch now lb s = None" and i: "i \<in> set (queued_messages limit le s)"
    and accepts: "\<And>inputs k. \<exists>ids. provider inputs k = Inr ids \<and> length ids = length inputs \<and> (\<forall>x \<in> set ids. truthy (json_string x))"
    and run: "drainEmailOutbox env provider (\<lambda>s. s) tk now later lb le limit s = (Inr r, u)"
  shows "\<exists>x. accepted_as i x u"
proof -
  obtain claimed t where claim: "claimOutboxBatch tk now limit lb le s = (Inr claimed, t)"
    and rest: "(case claimed of None \<Rightarrow> io_return emptyDrainResult
        | Some batch \<Rightarrow> if 1 < cb_attemptCount batch \<and> window_expired now (cb_firstAttemptAt batch)
            then finalizeIndeterminateBatch batch window_detail
            else io_bind (io_modify (\<lambda>s. s)) (\<lambda>_. settle_batch env later batch
               (provider (map (\<lambda>m. buildSendEmailInput m []) (cb_messages batch)) (batch_key (cb_id batch))))) t = (Inr r, u)"
    using run unfolding drainEmailOutbox_def by (rule io_bind_InrE)
  have "claimed \<noteq> None" using claim_None [OF _ idle] claim i by (metis empty_iff empty_set)
  then obtain batch where b: "claimed = Some batch" by blast
  have first: "cb_attemptCount batch = 1" and ids: "map ms_id (cb_messages batch) = queued_messages limit le s"
    using wf claim [unfolded b] by (cases rule: claim_cases; simp add: idle)+
  have wft: "outbox_wf t" by (rule claim_post(1) [OF wf claim [unfolded b]])
  let ?inputs = "map (\<lambda>m. buildSendEmailInput m []) (cb_messages batch)"
  obtain answer where a: "provider ?inputs (batch_key (cb_id batch)) = Inr answer" "length answer = length ?inputs"
    "\<forall>x \<in> set answer. truthy (json_string x)" using accepts by blast
  let ?ids = "List.map_filter json_string answer"
  have "finalizeAcceptedBatch env batch ?ids t = (Inr r, u)"
    using rest a by (simp add: b first settle_batch_def io_bind_def io_modify_def)
  moreover have len: "length ?ids = length (cb_messages batch)"
    using a(2,3) length_map_filter_all [of answer json_string] by (metis length_map truthy_simps(1))
  moreover have "distinct (map ms_id (cb_messages batch))"
    unfolding ids using queued_messages_facts(1) wf by (simp add: outbox_wf_def)
  moreover have "distinct (map ms_id (messages t))" "distinct (map ob_id (outbox_batches t))"
    using wft unfolding outbox_wf_def by blast+
  ultimately have "\<forall>(j, x) \<in> set (zip (map ms_id (cb_messages batch)) ?ids). accepted_as j x u"
    by (intro finalize_accepted_effect(1))
  moreover obtain x where "(i, x) \<in> set (zip (map ms_id (cb_messages batch)) ?ids)"
  proof -
    obtain n where "n < length (queued_messages limit le s)" "queued_messages limit le s ! n = i" using i by (auto simp: in_set_conv_nth)
    then have "(i, ?ids ! n) \<in> set (zip (queued_messages limit le s) ?ids)"
      using len ids by (metis in_set_zip fst_conv length_map snd_conv)
    then show ?thesis using that ids by simp
  qed
  ultimately show ?thesis by blast
qed

text \<open>An opening draws from the ids the database has.\<close>

lemma ids_claim: "io_keeps (\<lambda>s. id_source s = f) (claim_refs env i refs)"
proof -
  have inline: "io_keeps (\<lambda>s. id_source s = f) (inline_content i r)" for r
    unfolding inline_content_def by (intro keeps_intros) simp
  have "id_source (snd (claimAttachmentsForMessage env i rs s)) = f" if s: "id_source s = f" for rs and s :: store
  proof -
    let ?s1 = "s\<lparr>attachments := update_where (claimable (map ar_id rs)) (\<lambda>a. a\<lparr>at_messageId := Some i\<rparr>) (attachments s)\<rparr>"
    obtain r t where run: "io_each (inline_content i) (filter (\<lambda>r. truthy (ar_contentId r)) rs) ?s1 = (r, t)" by fastforce
    then have "id_source t = f" using io_keepsD [OF io_keeps_each [OF inline] _ run] s by simp
    then show ?thesis using s run by (cases r) (simp_all add: claimAttachmentsForMessage_def Let_def)
  qed
  then have "io_keeps (\<lambda>s. id_source s = f) (claimAttachmentsForMessage env i rs)" for rs by (simp add: io_keeps_def)
  then show ?thesis unfolding claim_refs_def by (intro keeps_intros)
qed

lemma ids_append: "io_keeps (\<lambda>s. id_source s = f) (append_event env input)"
  unfolding io_keeps_def
proof (intro allI impI)
  fix s :: store assume "id_source s = f"
  moreover obtain r t where run: "appendConversationEvent env input s = (r, t)" by fastforce
  ultimately show "id_source (snd (append_event env input s)) = f"
    using append_frame [OF run] by (cases r) (simp_all add: append_event_def io_bind_def)
qed

lemma ids_opening: "io_keeps (\<lambda>s. id_source s = f) (open_conversation env w v subject key hash queued)"
proof -
  have "io_keeps (\<lambda>s. id_source s = f) (require_identities u)" "io_keeps (\<lambda>s. id_source s = f) (reply_to_or_throw b k)"
    "io_keeps (\<lambda>s. id_source s = f) (insert_conversation row)" "io_keeps (\<lambda>s. id_source s = f) (create_intent lane mrow)" for u b k row lane mrow
    by (auto simp: io_keeps_def require_identities_def reply_to_or_throw_def insert_conversation_def create_intent_def
        insert_message_def enqueue_def draw_id_def io_bind_def Let_def split: sum.split outbox_lane.split)
  then show ?thesis
    unfolding open_conversation_def Let_def by (intro keeps_intros ids_append ids_claim)
qed

end
