(* ===== verification/Conversation_Pages.thy ===== *)
theory Conversation_Pages
  imports Conversation_Lists
begin

text \<open>
  What a client sees that follows the cursors of the two lists of conversations. A cursor is an opaque text: the
  instant and the id of the last row of a page, printed as JSON in base64url. The first section shows that every cursor the
  service hands out is read back as what went in; the locale \<open>keyset_list\<close> says what a list with cursors promises
  and shows that its pages cover it, and both lists are interpretations of it.
\<close>

section \<open>Cursors are read back\<close>

lemma utf8_roundtrip: "utf8_decode (utf8_encode s) = Some s"
proof (induction s)
  case (Cons c s)
  define n where "n = (of_char c :: nat)"
  have n: "n < 256" "c = char_of n" by (simp_all add: n_def)
  show ?case
  proof (cases "n < 128")
    case False
    have "n div 64 = 2 \<or> n div 64 = 3" using False n(1) by auto
    moreover have "192 + n div 64 < 256" "128 + n mod 64 < 256" using n(1) by auto
    moreover have "n div 64 * 64 + n mod 64 = n" by simp
    ultimately show ?thesis using Cons False n
      by (auto simp: utf8_encode_def n_def [symmetric] Let_def of_char_of)
  qed (use Cons n in \<open>simp add: utf8_encode_def n_def [symmetric]\<close>)
qed (simp add: utf8_encode_def)

lemma cursor_text:
  "Option.bind (utf8_decode (base64url_decode (encode_cursor at i))) JSON_parse = Some (JArray [JString (toISOString at), JString i])"
  using JSON_roundtrip [of "JArray [JString (toISOString at), JString i]"]
  by (simp add: encode_cursor_def base64url_roundtrip utf8_roundtrip)

lemma cursor_read_back:
  "abs at \<le> 8640000000000000 \<Longrightarrow> isUuid i \<Longrightarrow> decode_cursor otherwise (encode_cursor at i) = Some (at, i)"
  by (simp add: decode_cursor_def cursor_text new_Date_toISOString)

lemma cursor_not_empty: "encode_cursor at i \<noteq> []"
  using cursor_text [of at i] by (auto simp: base64url_decode_def List.map_filter_simps JSON_parse_def)

section \<open>Following the cursors\<close>

definition reply_member :: "string \<Rightarrow> reply \<Rightarrow> json option" where
  "reply_member name answer = (case rp_body answer of Some (JObject ms) \<Rightarrow> map_of ms name | _ \<Rightarrow> None)"

definition listed :: "reply \<Rightarrow> json list" where
  \<comment> \<open>\<open>conversations\<close> of a page\<close>
  "listed answer = (case reply_member ''conversations'' answer of Some (JArray vs) \<Rightarrow> vs | _ \<Rightarrow> [])"

definition next_cursor :: "reply \<Rightarrow> string option" where
  \<comment> \<open>\<open>page.before\<close>, which is null on the last page\<close>
  "next_cursor answer =
     (case reply_member ''page'' answer of
        Some (JObject ms) \<Rightarrow> (case map_of ms ''before'' of Some (JString c) \<Rightarrow> Some c | _ \<Rightarrow> None)
      | _ \<Rightarrow> None)"

fun follow_pages :: "(string option \<Rightarrow> reply) \<Rightarrow> nat \<Rightarrow> string option \<Rightarrow> json list" where
  \<comment> \<open>a client that asks for the next page as long as there is a cursor\<close>
  "follow_pages ask 0 before = []"
| "follow_pages ask (Suc n) before =
     listed (ask before) @ (case next_cursor (ask before) of None \<Rightarrow> [] | Some c \<Rightarrow> follow_pages ask n (Some c))"

definition with_before :: "http_request \<Rightarrow> string option \<Rightarrow> http_request" where
  \<comment> \<open>the same request with another \<open>before\<close>\<close>
  "with_before request before =
     request\<lparr>rq_query := (case before of None \<Rightarrow> [] | Some c \<Rightarrow> [(''before'', c)])
       @ filter (\<lambda>(k, v). k \<noteq> ''before'') (rq_query request)\<rparr>"

locale keyset_list =
  fixes valid :: "'s \<Rightarrow> bool" and later :: "'k \<Rightarrow> 'k \<Rightarrow> bool" and mark :: "'a \<Rightarrow> 'k"
    and items :: "'s \<Rightarrow> 'a list" and found :: "'k option \<Rightarrow> nat \<Rightarrow> 's \<Rightarrow> 'a list"
  assumes asym: "later a b \<Longrightarrow> \<not> later b a"
    and ordered: "valid s \<Longrightarrow> sorted_wrt (\<lambda>x y. later (mark x) (mark y)) (items s)"
    and from_start: "found None n s = take n (items s)"
    and from_mark: "valid s \<Longrightarrow> x \<in> set (items s) \<Longrightarrow>
      found (Some (mark x)) n s = take n (filter (\<lambda>y. later (mark x) (mark y)) (items s))"
begin

lemma after_nth:
  assumes "sorted_wrt (\<lambda>x y. later (mark x) (mark y)) xs" "k < length xs"
  shows "filter (\<lambda>y. later (mark (xs ! k)) (mark y)) xs = drop (Suc k) xs"
proof -
  have "\<not> later (mark (xs ! k)) (mark y)" if y: "y \<in> set (take (Suc k) xs)" for y
  proof -
    obtain i where i: "i < Suc k" "y = xs ! i" using y assms(2) by (auto simp: in_set_conv_nth)
    show ?thesis
    proof (cases "i = k")
      case False
      then have "later (mark y) (mark (xs ! k))" using sorted_wrt_nth_less [OF assms(1), of i k] i assms(2) by simp
      then show ?thesis by (rule asym)
    qed (use i asym in blast)
  qed
  moreover have "later (mark (xs ! k)) (mark y)" if y: "y \<in> set (drop (Suc k) xs)" for y
  proof -
    obtain i where "i < length xs - Suc k" "y = xs ! (Suc k + i)" using y by (auto simp: in_set_conv_nth)
    then show ?thesis using sorted_wrt_nth_less [OF assms(1), of k "Suc k + i"] by simp
  qed
  ultimately have "filter (\<lambda>y. later (mark (xs ! k)) (mark y)) (take (Suc k) xs @ drop (Suc k) xs) = drop (Suc k) xs"
    unfolding filter_append by (simp add: filter_id_conv filter_empty_conv del: append_take_drop_id)
  then show ?thesis by simp
qed

lemma resumes:
  "valid s \<Longrightarrow> k < length (items s) \<Longrightarrow> found (Some (mark (items s ! k))) n s = take n (drop (Suc k) (items s))"
  using from_mark [of s "items s ! k" n] after_nth [OF ordered] by simp

lemma pages_cover:
  assumes "valid s" "0 < limit"
    and answers: "\<And>before. before = None \<or> (\<exists>x \<in> set (items s). before = Some (mark x)) \<Longrightarrow>
      listed (ask (map_option print before)) = map view (take limit (found before (limit + 1) s))
      \<and> next_cursor (ask (map_option print before)) =
          (if limit < length (found before (limit + 1) s)
           then map_option (\<lambda>x. print (mark x)) (js_at_last (take limit (found before (limit + 1) s))) else None)"
  shows "length (items s) < fuel \<Longrightarrow> follow_pages ask fuel None = map view (items s)"
proof -
  have rest: "follow_pages ask fuel (map_option print before) = map view (drop k (items s))"
    if "length (items s) - k < fuel" "k \<le> length (items s)"
      "before = (if k = 0 then None else Some (mark (items s ! (k - 1))))" for fuel k before
    using that
  proof (induction fuel arbitrary: k before)
    case (Suc fuel)
    have known: "before = None \<or> (\<exists>x \<in> set (items s). before = Some (mark x))"
      using Suc.prems(2,3) nth_mem [of "k - 1" "items s"] by (cases "k = 0") auto
    have rows: "found before (limit + 1) s = take (limit + 1) (drop k (items s))"
    proof (cases "k = 0")
      case False
      then show ?thesis using resumes [OF assms(1), of "k - 1" "limit + 1"] Suc.prems(2,3) by simp
    qed (simp add: Suc.prems(3) from_start)
    have page: "take limit (found before (limit + 1) s) = take limit (drop k (items s))" unfolding rows take_take by simp
    show ?case
    proof (cases "k + limit < length (items s)")
      case True
      then have more: "limit < length (found before (limit + 1) s)" unfolding rows by simp
      have l: "take limit (drop k (items s)) = take (limit - 1) (drop k (items s)) @ [items s ! (k + limit - 1)]"
        using True assms(2) take_Suc_conv_app_nth [of "limit - 1" "drop k (items s)"] by simp
      have "follow_pages ask fuel (map_option print (Some (mark (items s ! (k + limit - 1))))) = map view (drop (k + limit) (items s))"
        by (rule Suc.IH) (use True Suc.prems assms(2) in auto)
      moreover have "next_cursor (ask (map_option print before)) = Some (print (mark (items s ! (k + limit - 1))))"
        using answers [OF known] more unfolding page l by simp
      moreover have "take limit (drop k (items s)) @ drop (k + limit) (items s) = drop k (items s)"
        by (metis add.commute append_take_drop_id drop_drop)
      ultimately show ?thesis using answers [OF known] unfolding page by (simp flip: map_append)
    next
      case False
      then have "\<not> limit < length (found before (limit + 1) s)" "take limit (drop k (items s)) = drop k (items s)" unfolding rows by simp_all
      then show ?thesis using answers [OF known] unfolding page by simp
    qed
  qed simp
  from rest [of 0 fuel None] show "length (items s) < fuel \<Longrightarrow> follow_pages ask fuel None = map view (items s)" by simp
qed

end

section \<open>The two lists\<close>

definition listable :: "store \<Rightarrow> bool" where
  \<comment> \<open>ids and instants as the database keeps them\<close>
  "listable s \<longleftrightarrow>
     distinct (map cv_id (conversations s))
     \<and> (\<forall>c \<in> set (conversations s). isUuid (cv_id c) \<and> js_toLower (cv_id c) = cv_id c
          \<and> abs (cv_lastMessageAt c) \<le> 8640000000000000 \<and> abs (cv_stateChangedAt c) \<le> 8640000000000000)"

definition summary_mark :: "conversation \<Rightarrow> instant \<times> uuid" where
  "summary_mark c = (cv_stateChangedAt c, cv_id c)"

definition summary_items :: "conversation_state list \<Rightarrow> store \<Rightarrow> conversation list" where
  "summary_items selected s = sort_key summary_mark (filter (\<lambda>c. cv_state c \<in> set selected) (conversations s))"

definition unassigned_mark :: "conversation \<Rightarrow> instant \<times> uuid" where
  "unassigned_mark c = (cv_lastMessageAt c, cv_id c)"

definition unassigned_items :: "store \<Rightarrow> conversation list" where
  "unassigned_items s =
     rev (sort_key unassigned_mark (filter (\<lambda>c. cv_topicType c = None \<and> cv_externalTopicId c = None) (conversations s)))"

lemma mark_less:
  "summary_mark a < summary_mark b \<longleftrightarrow>
     cv_stateChangedAt a < cv_stateChangedAt b \<or> cv_stateChangedAt b = cv_stateChangedAt a \<and> cv_id a < cv_id b"
  "unassigned_mark a < unassigned_mark b \<longleftrightarrow>
     cv_lastMessageAt a < cv_lastMessageAt b \<or> cv_lastMessageAt a = cv_lastMessageAt b \<and> cv_id a < cv_id b"
  by (auto simp: summary_mark_def unassigned_mark_def less_prod_def')

lemma strictly_sorted:
  fixes mark :: "conversation \<Rightarrow> instant \<times> uuid"
  assumes "distinct (map cv_id (conversations s))" and "\<And>c. snd (mark c) = cv_id c"
  shows "sorted_wrt (\<lambda>a b. mark a < mark b) (sort_key mark (filter P (conversations s)))"
proof -
  have "distinct (map cv_id (filter P (conversations s)))" using assms(1) by (rule distinct_map_filter)
  then have "distinct (map mark (sort_key mark (filter P (conversations s))))"
    using assms(2) by (auto simp: distinct_map inj_on_def) (metis)
  moreover have "sorted (map mark (sort_key mark (filter P (conversations s))))" by simp
  ultimately have "sorted_wrt (<) (map mark (sort_key mark (filter P (conversations s))))" by (simp add: strict_sorted_iff)
  then show ?thesis by (simp add: sorted_wrt_map)
qed

lemma summary_after_marks:
  "summary_after selected None n s = take n (summary_items selected s)"
  "js_toLower (cv_id x) = cv_id x \<Longrightarrow>
    summary_after selected (Some (summary_mark x)) n s = take n (filter (\<lambda>y. summary_mark x < summary_mark y) (summary_items selected s))"
  unfolding summary_after_def summary_mark_def [abs_def, symmetric] summary_items_def mark_less
  by (simp_all add: summary_mark_def filter_sort conj_commute)

lemma unassigned_before_marks:
  "unassigned_before None n s = take n (unassigned_items s)"
  "js_toLower (cv_id x) = cv_id x \<Longrightarrow>
    unassigned_before (Some (unassigned_mark x)) n s = take n (filter (\<lambda>y. unassigned_mark y < unassigned_mark x) (unassigned_items s))"
  unfolding unassigned_before_def unassigned_mark_def [abs_def, symmetric] unassigned_items_def mark_less rev_filter [symmetric] filter_sort
  by (simp_all add: unassigned_mark_def conj_commute conj_left_commute)

lemma marks_sorted:
  assumes "listable s"
  shows "sorted_wrt (\<lambda>x y. summary_mark x < summary_mark y) (summary_items selected s)"
    "sorted_wrt (\<lambda>x y. unassigned_mark y < unassigned_mark x) (unassigned_items s)"
proof -
  have ids: "distinct (map cv_id (conversations s))" using assms by (simp add: listable_def)
  have mark: "snd (summary_mark c) = cv_id c" "snd (unassigned_mark c) = cv_id c" for c
    by (simp_all add: summary_mark_def unassigned_mark_def)
  show "sorted_wrt (\<lambda>x y. summary_mark x < summary_mark y) (summary_items selected s)"
    unfolding summary_items_def by (rule strictly_sorted [OF ids mark(1)])
  show "sorted_wrt (\<lambda>x y. unassigned_mark y < unassigned_mark x) (unassigned_items s)"
    unfolding unassigned_items_def sorted_wrt_rev by (rule strictly_sorted [OF ids mark(2)])
qed

interpretation summary_list: keyset_list listable "(<)" summary_mark "summary_items selected" "summary_after selected" for selected
proof unfold_locales
  fix s x n assume "listable s" "x \<in> set (summary_items selected s)"
  then show "summary_after selected (Some (summary_mark x)) n s = take n (filter (\<lambda>y. summary_mark x < summary_mark y) (summary_items selected s))"
    by (intro summary_after_marks(2)) (simp add: listable_def summary_items_def)
qed (auto simp: summary_after_marks(1) marks_sorted)

interpretation unassigned_list: keyset_list listable "\<lambda>a b. b < a" unassigned_mark unassigned_items unassigned_before
proof unfold_locales
  fix s x n assume "listable s" "x \<in> set (unassigned_items s)"
  then show "unassigned_before (Some (unassigned_mark x)) n s = take n (filter (\<lambda>y. unassigned_mark y < unassigned_mark x) (unassigned_items s))"
    by (intro unassigned_before_marks(2)) (simp add: listable_def unassigned_items_def)
qed (auto simp: unassigned_before_marks(1) marks_sorted)

section \<open>Pages over requests\<close>

lemma query_with_before:
  "query_param (with_before request before) ''before'' = before"
  "name \<noteq> ''before'' \<Longrightarrow> query_param (with_before request before) name = query_param request name"
  "name \<noteq> ''before'' \<Longrightarrow> query_all (with_before request before) name = query_all request name"
proof -
  have "map_of (filter (\<lambda>(k, v). k \<noteq> ''before'') q) ''before'' = None" for q :: "(string \<times> string) list"
    by (auto simp: map_of_eq_None_iff)
  then show "query_param (with_before request before) ''before'' = before"
    by (cases before) (simp_all add: query_param_def with_before_def)
  assume name: "name \<noteq> ''before''"
  have "map_of (filter (\<lambda>(k, v). k \<noteq> ''before'') q) name = map_of q name" for q :: "(string \<times> string) list"
    using name by (induction q) auto
  then show "query_param (with_before request before) name = query_param request name"
    using name by (cases before) (auto simp: query_param_def with_before_def)
  have "filter (\<lambda>(k, v). k = name) (filter (\<lambda>(k, v). k \<noteq> ''before'') q) = filter (\<lambda>(k, v). k = name) q" for q :: "(string \<times> string) list"
    using name by (induction q) auto
  then show "query_all (with_before request before) name = query_all request name"
    using name by (cases before) (auto simp: query_all_def with_before_def)
qed

lemma limit_with_before: "getPageLimit (with_before request before) = getPageLimit request"
  by (simp add: getPageLimit_def query_with_before)

lemma authorized_with_before: "authorizeEmailV2 sha256 env (with_before request before) = authorizeEmailV2 sha256 env request"
  by (simp add: authorizeEmailV2_def authorizeWithCredential_def with_before_def cong: option.case_cong)

lemma page_limit_positive: "0 < nat (getPageLimit request)"
  by (auto simp: getPageLimit_def split: option.splits)

lemma cursor_param_of_mark:
  assumes "abs at \<le> 8640000000000000" "isUuid i"
  shows "cursor_param (decode_cursor otherwise) (with_before request (Some (encode_cursor at i))) = Inr (Some (at, i))"
  using assms cursor_not_empty [of at i]
  by (simp add: cursor_param_def query_with_before keep_truthy_def cursor_read_back)

lemma cursor_param_start: "cursor_param (decode_cursor otherwise) (with_before request None) = Inr None"
  by (simp add: cursor_param_def query_with_before keep_truthy_def)

lemma page_members:
  assumes "answer = json_reply 200 (JObject (ms @ [(''conversations'', JArray vs), (''page'', page_json hasMore final)]))"
    and "map_of ms ''conversations'' = None" "map_of ms ''page'' = None"
  shows "listed answer = vs" "next_cursor answer = (if hasMore then final else None)"
proof -
  have "reply_member ''conversations'' answer = Some (JArray vs)" "reply_member ''page'' answer = Some (page_json hasMore final)"
    unfolding assms(1) using assms(2,3) by (simp_all add: reply_member_def json_reply_def map_add_def)
  then show "listed answer = vs" "next_cursor answer = (if hasMore then final else None)"
    by (simp_all add: listed_def next_cursor_def page_json_def nullable_def split: option.split)
qed

lemma summary_page:
  fixes s :: store
  assumes "authorizeEmailV2 sha256 env request = None" "parseStateFilter (query_all request ''state'') = Some selected"
    and "cursor_param (decode_cursor otherwise) (with_before request text) = Inr before"
  defines "answer \<equiv> summary_get env sha256 otherwise (with_before request text) s"
    and "found \<equiv> summary_after selected before (nat (getPageLimit request) + 1) s" and "limit \<equiv> nat (getPageLimit request)"
  shows "listed answer = map summary_json (take limit found)"
    "next_cursor answer = (if limit < length found
       then map_option (\<lambda>c. encode_cursor (cv_stateChangedAt c) (cv_id c)) (js_at_last (take limit found)) else None)"
proof -
  have answer: "answer = json_reply 200 (JObject
      ([(''count'', JNumber (int (sum_list (map (\<lambda>st. state_count st s) selected)))),
        (''counts'', JObject (map (\<lambda>st. (serializeConversationState st, JNumber (int (state_count st s)))) CONVERSATION_STATES))]
       @ [(''conversations'', JArray (map summary_json (take limit found))),
          (''page'', page_json (limit < length found) (map_option (\<lambda>c. encode_cursor (cv_stateChangedAt c) (cv_id c)) (js_at_last (take limit found))))]))"
    using assms(1-3) by (simp add: answer_def found_def limit_def summary_get_def authorized_with_before query_with_before limit_with_before Let_def)
  show "listed answer = map summary_json (take limit found)" by (rule page_members(1) [OF answer]) simp_all
  show "next_cursor answer = (if limit < length found
       then map_option (\<lambda>c. encode_cursor (cv_stateChangedAt c) (cv_id c)) (js_at_last (take limit found)) else None)"
    by (subst page_members(2) [OF answer]) (simp_all add: option.map_comp comp_def)
qed

lemma unassigned_page:
  fixes s :: store
  assumes "authorizeEmailV2 sha256 env request = None" "query_param request ''assignment'' = Some ''unassigned''"
    and "cursor_param (decode_cursor otherwise) (with_before request text) = Inr before"
  defines "answer \<equiv> conversations_get env sha256 otherwise (with_before request text) s"
    and "found \<equiv> unassigned_before before (nat (getPageLimit request) + 1) s" and "limit \<equiv> nat (getPageLimit request)"
  shows "listed answer = map unassigned_json (take limit found)"
    "next_cursor answer = (if limit < length found
       then map_option (\<lambda>c. encode_cursor (cv_lastMessageAt c) (cv_id c)) (js_at_last (take limit found)) else None)"
proof -
  have answer: "answer = json_reply 200 (JObject
      ([] @ [(''conversations'', JArray (map unassigned_json (take limit found))),
          (''page'', page_json (limit < length found) (map_option (\<lambda>c. encode_cursor (cv_lastMessageAt c) (cv_id c)) (js_at_last (take limit found))))]))"
    using assms(1-3) by (simp add: answer_def found_def limit_def conversations_get_def authorized_with_before query_with_before limit_with_before Let_def)
  show "listed answer = map unassigned_json (take limit found)" by (rule page_members(1) [OF answer]) simp_all
  show "next_cursor answer = (if limit < length found
       then map_option (\<lambda>c. encode_cursor (cv_lastMessageAt c) (cv_id c)) (js_at_last (take limit found)) else None)"
    by (subst page_members(2) [OF answer]) (simp_all add: option.map_comp comp_def)
qed

lemma cursor_of_listed:
  assumes "listable s" "c \<in> set (conversations s)"
  shows "cursor_param (decode_cursor otherwise) (with_before request (Some (encode_cursor (cv_stateChangedAt c) (cv_id c)))) = Inr (Some (summary_mark c))"
    "cursor_param (decode_cursor otherwise) (with_before request (Some (encode_cursor (cv_lastMessageAt c) (cv_id c)))) = Inr (Some (unassigned_mark c))"
  using assms by (simp_all add: listable_def summary_mark_def unassigned_mark_def cursor_param_of_mark)

section \<open>Properties\<close>

text \<open>C25: a cursor is read back. What the lists print as \<open>before\<close>, for a row whose instant is within the
  range of dates and whose id is a UUID, the next request decodes to that instant and that id: through base64url, UTF-8,
  \<open>JSON.parse\<close> and the date parser.\<close>

theorem cursor_roundtrip:
  assumes "abs at \<le> 8640000000000000" and "isUuid i"
  shows "decode_cursor otherwise (encode_cursor at i) = Some (at, i)"
  using assms by (rule cursor_read_back)

text \<open>The pages of the unassigned conversations, the newest first.\<close>

lemma unassigned_pages_cover:
  assumes "listable s" and "authorizeEmailV2 sha256 env request = None"
    and "query_param request ''assignment'' = Some ''unassigned''" and "length (conversations s) < fuel"
  shows "follow_pages (\<lambda>before. conversations_get env sha256 otherwise (with_before request before) s) fuel None
    = map unassigned_json (rev (sort_key (\<lambda>c. (cv_lastMessageAt c, cv_id c))
        (filter (\<lambda>c. cv_topicType c = None \<and> cv_externalTopicId c = None) (conversations s))))"
proof -
  let ?print = "\<lambda>(at, i). encode_cursor at i" and ?limit = "nat (getPageLimit request)"
  let ?ask = "\<lambda>before. conversations_get env sha256 otherwise (with_before request before) s"
  have "listed (?ask (map_option ?print before)) = map unassigned_json (take ?limit (unassigned_before before (?limit + 1) s))
      \<and> next_cursor (?ask (map_option ?print before)) = (if ?limit < length (unassigned_before before (?limit + 1) s)
          then map_option (\<lambda>c. ?print (unassigned_mark c)) (js_at_last (take ?limit (unassigned_before before (?limit + 1) s))) else None)"
    if "before = None \<or> (\<exists>c \<in> set (unassigned_items s). before = Some (unassigned_mark c))" for before
  proof -
    have "cursor_param (decode_cursor otherwise) (with_before request (map_option ?print before)) = Inr before"
      using that cursor_of_listed(2) [OF assms(1)] by (auto simp: cursor_param_start unassigned_items_def unassigned_mark_def)
    note page = unassigned_page [OF assms(2,3) this, of s]
    show ?thesis using page by (simp add: unassigned_mark_def)
  qed
  moreover have "length (unassigned_items s) < fuel"
    using assms(4) le_less_trans [OF length_filter_le] by (simp add: unassigned_items_def)
  ultimately have "follow_pages ?ask fuel None = map unassigned_json (unassigned_items s)"
    by (rule unassigned_list.pages_cover [where ask = ?ask and print = ?print, OF assms(1) page_limit_positive [of request]])
  then show ?thesis by (simp add: unassigned_items_def unassigned_mark_def [abs_def])
qed

text \<open>C24: the pages of the summary cover it. A client that sends its request for the summary and then follows the
  cursors of the answers, with any limit and any filter of states that is accepted, is shown every
  conversation in the states it asked for exactly once, the longest unchanged first. More requests than there are
  conversations are never needed.\<close>

theorem summary_pages_cover:
  assumes "listable s" and "authorizeEmailV2 sha256 env request = None"
    and "parseStateFilter (query_all request ''state'') = Some selected" and "length (conversations s) < fuel"
  shows "follow_pages (\<lambda>before. summary_get env sha256 otherwise (with_before request before) s) fuel None
    = map summary_json (sort_key (\<lambda>c. (cv_stateChangedAt c, cv_id c)) (filter (\<lambda>c. cv_state c \<in> set selected) (conversations s)))"
proof -
  let ?print = "\<lambda>(at, i). encode_cursor at i" and ?limit = "nat (getPageLimit request)"
  let ?ask = "\<lambda>before. summary_get env sha256 otherwise (with_before request before) s"
  have "listed (?ask (map_option ?print before)) = map summary_json (take ?limit (summary_after selected before (?limit + 1) s))
      \<and> next_cursor (?ask (map_option ?print before)) = (if ?limit < length (summary_after selected before (?limit + 1) s)
          then map_option (\<lambda>c. ?print (summary_mark c)) (js_at_last (take ?limit (summary_after selected before (?limit + 1) s))) else None)"
    if "before = None \<or> (\<exists>c \<in> set (summary_items selected s). before = Some (summary_mark c))" for before
  proof -
    have "cursor_param (decode_cursor otherwise) (with_before request (map_option ?print before)) = Inr before"
      using that cursor_of_listed(1) [OF assms(1)] by (auto simp: cursor_param_start summary_items_def summary_mark_def)
    note page = summary_page [OF assms(2,3) this, of s]
    show ?thesis using page by (simp add: summary_mark_def)
  qed
  moreover have "length (summary_items selected s) < fuel"
    using assms(4) le_less_trans [OF length_filter_le] by (simp add: summary_items_def)
  ultimately have "follow_pages ?ask fuel None = map summary_json (summary_items selected s)"
    by (rule summary_list.pages_cover [where ask = ?ask and print = ?print, OF assms(1) page_limit_positive [of request]])
  then show ?thesis by (simp add: summary_items_def summary_mark_def [abs_def])
qed

definition uuid_a :: uuid where "uuid_a = ''0123abcd-0123-4567-89ab-0123456789ab''"
definition uuid_b :: uuid where "uuid_b = ''f123abcd-0123-4567-89ab-0123456789ab''"

theorem cursor_roundtrip_witness:
  "decode_cursor (\<lambda>t. None) (encode_cursor 1772366400123 uuid_a) = Some (1772366400123, uuid_a)"
proof (rule cursor_roundtrip)
  show "isUuid uuid_a" by code_simp
qed simp

definition sample_list :: store where
  "sample_list = empty_store\<lparr>conversations :=
     [(plain_conversation uuid_a AWAITING_US)\<lparr>cv_stateChangedAt := 9\<rparr>, plain_conversation uuid_b AWAITING_US,
      (plain_conversation ''0123abcd-0123-4567-89ab-0123456789ac'' TERMINATED)\<lparr>cv_stateChangedAt := 2\<rparr>]\<rparr>"

definition page_request :: http_request where
  "page_request = (sample_request JNull)\<lparr>rq_query := [(''limit'', ''1''), (''state'', ''awaiting_us'')]\<rparr>"

theorem summary_pages_cover_witness:
  "follow_pages (\<lambda>before. summary_get keyed_env (\<lambda>t. t) (\<lambda>t. None) (with_before page_request before) sample_list) 4 None
    = map summary_json [plain_conversation uuid_b AWAITING_US, (plain_conversation uuid_a AWAITING_US)\<lparr>cv_stateChangedAt := 9\<rparr>]"
proof -
  have "listable sample_list" by (simp add: listable_def sample_list_def plain_conversation_def uuid_a_def uuid_b_def) code_simp
  moreover have "authorizeEmailV2 (\<lambda>t. t) keyed_env page_request = None" by code_simp
  moreover have "parseStateFilter (query_all page_request ''state'') = Some [AWAITING_US]" by code_simp
  moreover have "length (conversations sample_list) < 4" by (simp add: sample_list_def)
  ultimately have "follow_pages (\<lambda>before. summary_get keyed_env (\<lambda>t. t) (\<lambda>t. None) (with_before page_request before) sample_list) 4 None
    = map summary_json (sort_key (\<lambda>c. (cv_stateChangedAt c, cv_id c)) (filter (\<lambda>c. cv_state c \<in> set [AWAITING_US]) (conversations sample_list)))"
    by (rule summary_pages_cover)
  moreover have "filter (\<lambda>c. cv_state c \<in> set [AWAITING_US]) (conversations sample_list)
    = [(plain_conversation uuid_a AWAITING_US)\<lparr>cv_stateChangedAt := 9\<rparr>, plain_conversation uuid_b AWAITING_US]"
    by (simp add: sample_list_def plain_conversation_def)
  ultimately show ?thesis by (simp add: plain_conversation_def less_prod_def')
qed

end
