(* ===== verification/Request_Identity.thy ===== *)
theory Request_Identity
  imports Direct_Email Js_Json
begin

text \<open>
  The other half of idempotency: a key answers for one request only. The three kinds of sending requests are told
  apart by the text that is hashed. The theory shows that two different accepted requests have different
  texts, so that a key that is used again for another request is refused, in all three handlers, as long as the
  digests of the two texts differ.
\<close>

section \<open>The text that is hashed\<close>

datatype send_request =
    Opening_request bool create_v2_input
  | Reply_request bool uuid message_v2_input
  | Direct_request bool direct_email_input
  \<comment> \<open>with whether it is queued\<close>

definition request_json :: "send_request \<Rightarrow> json" where
  "request_json r =
     (case r of
        Opening_request queued v \<Rightarrow> JObject [(''operation'', JString (if queued then ''outbox-opening-v2'' else ''opening-v2'')), (''request'', create_v2_json v)]
      | Reply_request queued i v \<Rightarrow> JObject [(''operation'', JString (if queued then ''outbox-reply-v2'' else ''reply-v2'')),
          (''conversationId'', JString i), (''request'', message_v2_json v)]
      | Direct_request queued v \<Rightarrow> JObject [(''operation'', JString (if queued then ''outbox-direct-email-v2'' else ''direct-email-v2'')),
          (''request'', direct_email_json v)])"

definition request_text :: "send_request \<Rightarrow> string" where
  "request_text r = JSON_stringify (request_json r)"

definition request_hash :: "request_world \<Rightarrow> send_request \<Rightarrow> string" where
  "request_hash w r =
     (case r of Opening_request queued v \<Rightarrow> opening_hash w queued v | Reply_request queued i v \<Rightarrow> reply_hash w queued i v
      | Direct_request queued v \<Rightarrow> direct_hash w queued v)"

definition handle_request :: "environment \<Rightarrow> request_world \<Rightarrow> string \<Rightarrow> send_request \<Rightarrow> reply io" where
  \<comment> \<open>the handler after the checks of the request\<close>
  "handle_request env w key r =
     (case r of Opening_request queued v \<Rightarrow> create_intent_v2 env w queued key v | Reply_request queued i v \<Rightarrow> reply_intent_v2 env w queued key i v
      | Direct_request queued v \<Rightarrow> direct_intent env w queued key v)"

lemma request_hash_text: "request_hash w r = qw_sha256 w (request_text r)"
  by (cases r) (simp_all add: request_hash_def request_text_def request_json_def opening_hash_def reply_hash_def direct_hash_def
    hashSendRequest_def)

section \<open>Different requests have different texts\<close>

lemma lettered [simp]: "\<not> is_digit c \<Longrightarrow> \<not> array_index (c # cs)"
  by (simp add: array_index_def)

lemma letters [simp]: "\<not> is_digit (CHR ''a'')" "\<not> is_digit (CHR ''c'')" "\<not> is_digit (CHR ''e'')" "\<not> is_digit (CHR ''f'')"
    "\<not> is_digit (CHR ''h'')" "\<not> is_digit (CHR ''i'')" "\<not> is_digit (CHR ''m'')" "\<not> is_digit (CHR ''n'')" "\<not> is_digit (CHR ''o'')"
    "\<not> is_digit (CHR ''p'')" "\<not> is_digit (CHR ''r'')" "\<not> is_digit (CHR ''s'')" "\<not> is_digit (CHR ''t'')" "\<not> is_digit (CHR ''v'')"
  by (simp_all add: is_digit_def char_le_of_char)

lemma optional_facts [simp]:
  "map fst (optional name v) = (case v of None \<Rightarrow> [] | Some _ \<Rightarrow> [name])"
  "list_all P (optional name v) \<longleftrightarrow> (case v of None \<Rightarrow> True | Some j \<Rightarrow> P (name, j))"
  "map_of (optional name v) k = (if k = name then v else None)"
  by (cases v; simp add: optional_def)+

lemma plain_leaves [simp]: "plain_json (nullable v)" "plain_json (identity_json i)" "plain_json (identities_json is)"
    "plain_json (tags_json ts)" "plain_json (refs_json rs)"
proof -
  show null: "plain_json (nullable v)" for v by (cases v) (simp_all add: nullable_def)
  show identity: "plain_json (identity_json i)" for i by (simp add: identity_json_def null)
  show "plain_json (identities_json is)" by (simp add: identities_json_def list_all_iff identity)
  show "plain_json (tags_json ts)" by (simp add: tags_json_def list_all_iff)
  have "plain_json (JObject ((''id'', JString (ar_id r)) # optional ''contentId'' (map_option JString (ar_contentId r))))" for r
    by (simp split: option.split)
  then show "plain_json (refs_json rs)" unfolding refs_json_def plain_json.simps(3) list_all_iff by auto
qed

lemma plain_message: "plain_json (message_v2_json v)"
  by (simp add: message_v2_json_def split: option.split)

lemma plain_request: "plain_json (request_json r)"
  by (cases r) (simp_all add: request_json_def create_v2_json_def direct_email_json_def plain_message split: option.split)

lemma inj_nullable: "nullable a = nullable b \<longleftrightarrow> a = b"
  by (cases a; cases b) (simp_all add: nullable_def)

lemma inj_identity: "identity_json a = identity_json b \<longleftrightarrow> a = b"
  by (cases a; cases b) (simp add: identity_json_def inj_nullable)

lemma inj_identities: "identities_json a = identities_json b \<longleftrightarrow> a = b"
  by (auto simp: identities_json_def inj_identity dest: map_injective intro!: injI)

lemma inj_tags: "tags_json a = tags_json b \<longleftrightarrow> a = b"
  by (auto simp: tags_json_def dest!: map_injective intro!: injI)

lemma inj_refs: "refs_json a = refs_json b \<longleftrightarrow> a = b"
  by (auto simp: refs_json_def optional_def dest!: map_injective intro!: injI split: option.splits)

lemma inj_optional: "map_option f a = map_option f b \<Longrightarrow> (\<And>x y. f x = f y \<longleftrightarrow> x = y) \<Longrightarrow> a = b"
  by (cases a; cases b) simp_all

lemma members_equal: "JObject ms = JObject ms' \<Longrightarrow> map_of ms name = map_of ms' name"
  by simp

lemma inj_message: "message_v2_json a = message_v2_json b \<longleftrightarrow> a = b"
proof
  assume "message_v2_json a = message_v2_json b"
  note member = members_equal [OF this [unfolded message_v2_json_def]]
  note optional_member = inj_optional [of JString] inj_optional [of identities_json, OF _ inj_identities]
    inj_optional [of tags_json, OF _ inj_tags] inj_optional [of refs_json, OF _ inj_refs]
  have "mi_text a = mi_text b" "mi_html a = mi_html b" "mi_replyToMessageId a = mi_replyToMessageId b"
    using member [of "''text''"] member [of "''html''"] member [of "''replyToMessageId''"]
    by (auto intro!: optional_member(1) simp: map_add_def split: option.splits)
  moreover have "mi_from a = mi_from b" "mi_replyTo a = mi_replyTo b"
    using member [of "''from''"] member [of "''replyTo''"] by (simp_all add: map_add_def inj_identity)
  moreover have "mi_to a = mi_to b" "mi_tags a = mi_tags b" "mi_attachments a = mi_attachments b"
    using member [of "''to''"] member [of "''tags''"] member [of "''attachments''"]
    by (auto intro!: optional_member(2-4) simp: map_add_def inj_identities inj_tags inj_refs split: option.splits)
  ultimately show "a = b" by (cases a; cases b) simp
qed simp

lemma inj_create: "create_v2_json a = create_v2_json b \<longleftrightarrow> a = b"
proof
  assume "create_v2_json a = create_v2_json b"
  note member = members_equal [OF this [unfolded create_v2_json_def]]
  have "cy_topic a = cy_topic b" "cy_participant a = cy_participant b"
    using member [of "''topic''"] member [of "''participant''"]
    by (cases "cy_topic a"; cases "cy_topic b"; cases "cy_participant a"; cases "cy_participant b"; simp add: inj_nullable)+
  moreover have "cy_subject a = cy_subject b" "cy_message a = cy_message b"
    using member [of "''subject''"] member [of "''message''"]
    by (auto intro!: inj_optional [of JString] simp: map_add_def inj_message split: option.splits)
  ultimately show "a = b" by (cases a; cases b) simp
qed simp

lemma inj_direct: "direct_email_json a = direct_email_json b \<longleftrightarrow> a = b"
proof
  assume "direct_email_json a = direct_email_json b"
  note member = members_equal [OF this [unfolded direct_email_json_def]]
  have "di_from a = di_from b" "di_to a = di_to b" "di_subject a = di_subject b"
    using member [of "''from''"] member [of "''to''"] member [of "''subject''"]
    by (simp_all add: map_add_def inj_identity inj_identities)
  moreover have "di_text a = di_text b" "di_html a = di_html b" "di_tags a = di_tags b" "di_attachments a = di_attachments b"
    using member [of "''text''"] member [of "''html''"] member [of "''tags''"] member [of "''attachments''"]
    by (auto intro!: inj_optional [of JString] inj_optional [of tags_json, OF _ inj_tags] inj_optional [of refs_json, OF _ inj_refs]
      simp: map_add_def inj_tags inj_refs split: option.splits)
  ultimately show "a = b" by (cases a; cases b) simp
qed simp

lemma request_text_inj: "request_text a = request_text b \<longleftrightarrow> a = b"
proof
  assume "request_text a = request_text b"
  then have "request_json a = request_json b"
    using JSON_roundtrip [OF plain_request] unfolding request_text_def by (metis option.inject)
  then show "a = b"
    by (cases a; cases b) (auto simp: request_json_def inj_create inj_message inj_direct split: if_splits)
qed simp

section \<open>Properties\<close>

text \<open>C7: a key answers for one request only. When the message that is filed under a key was stored for
  one accepted request, every other accepted request that comes with that key, to the same route or to another
  one, queued or not, is answered 409 by its handler and changes nothing, unless the digests of
  the two texts collide.\<close>

theorem reused_key_is_refused:
  assumes "by_key key s = Some m" and "ms_requestHash m = Some (request_hash w first)" and "second \<noteq> first"
    and "qw_sha256 w (request_text second) = qw_sha256 w (request_text first) \<Longrightarrow> request_text second = request_text first"
  shows "handle_request env w key second s = (Inr key_conflict, s)"
proof -
  have "ms_requestHash m \<noteq> Some (request_hash w second)"
    using assms(2-4) request_text_inj by (auto simp: request_hash_text)
  with assms(1) show ?thesis
    by (cases second) (auto simp: handle_request_def request_hash_def Let_def create_intent_v2_def reply_intent_v2_def direct_intent_def
      replay_opening_def replay_direct_def same_intent_def same_direct_def same_reply_def split: option.split)
qed

definition sample_answer :: message_v2_input where
  "sample_answer = \<lparr>mi_text = Some ''hello'', mi_html = None, mi_replyToMessageId = None,
     mi_from = \<lparr>ii_address = ''us@x.io'', ii_name = None\<rparr>, mi_to = None,
     mi_replyTo = \<lparr>ii_address = ''us@x.io'', ii_name = Some ''Us''\<rparr>, mi_tags = None, mi_attachments = None\<rparr>"

definition sample_first :: send_request where "sample_first = Reply_request True ''c1'' sample_answer"

definition sample_second :: send_request where "sample_second = Reply_request True ''c1'' (sample_answer\<lparr>mi_text := Some ''hello!''\<rparr>)"

definition keyed_message :: message where
  "keyed_message = (plain_message ''m1'' ACCEPTED)\<lparr>ms_idempotencyKey := Some ''k1'', ms_requestHash := Some (request_hash plain_world sample_first)\<rparr>"

theorem reused_key_is_refused_witness:
  "handle_request keyed_env plain_world ''k1'' sample_second (empty_store\<lparr>messages := [keyed_message]\<rparr>)
    = (Inr key_conflict, empty_store\<lparr>messages := [keyed_message]\<rparr>)"
proof (rule reused_key_is_refused)
  show "by_key ''k1'' (empty_store\<lparr>messages := [keyed_message]\<rparr>) = Some keyed_message" by (simp add: by_key_def keyed_message_def)
  show "ms_requestHash keyed_message = Some (request_hash plain_world sample_first)" by (simp add: keyed_message_def)
  show "sample_second \<noteq> sample_first" by (simp add: sample_first_def sample_second_def sample_answer_def)
  show "qw_sha256 plain_world (request_text sample_second) = qw_sha256 plain_world (request_text sample_first)
    \<Longrightarrow> request_text sample_second = request_text sample_first" by (simp add: plain_world_def)
qed

end
