(* ===== verification/Storage_Client.thy ===== *)
theory Storage_Client
  imports Telemetry
begin

text \<open>
  \<open>src/lib/attachments/storage.ts\<close> as a client of the S3 package: how the client is configured, the command each
  operation sends and what it makes of the answer, the request that is signed for a download, and the one
  storage the process keeps. The package is the argument \<open>send\<close> (a command to a response, or an error) and the
  signer \<open>sign\<close>. The theories of attachments see the operations by their answers alone; the second section shows that
  this is what the client does.
\<close>

section \<open>Commands\<close>

record s3_client =
  s3_region :: string
  s3_credentials :: "string \<times> string" \<comment> \<open>access key id and secret\<close>
  s3_endpoint :: "string option"
  s3_forcePathStyle :: bool
  s3_requestTimeout :: int

record response_overrides =
  ro_cacheControl :: string
  ro_contentDisposition :: string
  ro_contentType :: string

datatype s3_command =
    PutObject string string string string \<comment> \<open>bucket, key, body and content type\<close>
  | GetObject string string "response_overrides option"
  | HeadObject string string
  | DeleteObject string string
  | HeadBucket string

record s3_response =
  sr_body :: "string list option" \<comment> \<open>the chunks\<close>
  sr_contentLength :: "int option"

type_synonym s3_send = "s3_client \<Rightarrow> s3_command \<Rightarrow> int \<Rightarrow> sdk_error + s3_response"
  \<comment> \<open>with the time after which the request is aborted\<close>

record attachment_storage =
  as_bucket :: string
  as_keyPrefix :: string
  as_client :: s3_client

definition STORAGE_TIMEOUT_MS :: int where "STORAGE_TIMEOUT_MS = 30000"

definition createAttachmentStorage :: "storage_config \<Rightarrow> attachment_storage" where
  "createAttachmentStorage config =
     \<lparr>as_bucket = sc_bucket config, as_keyPrefix = sc_keyPrefix config,
      as_client = \<lparr>s3_region = sc_region config, s3_credentials = (sc_accessKeyId config, sc_secretAccessKey config),
        s3_endpoint = keep_truthy (sc_endpoint config), s3_forcePathStyle = sc_forcePathStyle config,
        s3_requestTimeout = STORAGE_TIMEOUT_MS\<rparr>\<rparr>"

definition run_command ::
  "s3_send \<Rightarrow> attachment_storage \<Rightarrow> rat \<Rightarrow> provider_operation \<Rightarrow> s3_command \<Rightarrow> meter \<Rightarrow> (storage_fault + s3_response) \<times> meter"
where
  \<comment> \<open>\<open>run\<close> around \<open>client.send\<close>\<close>
  "run_command send st d operation command = storage_call operation d (send (as_client st) command STORAGE_TIMEOUT_MS)"

definition ignore_answer :: "(storage_fault + 'a) \<times> meter \<Rightarrow> (storage_fault + unit) \<times> meter" where
  "ignore_answer r = (map_sum (\<lambda>f. f) (\<lambda>_. ()) (fst r), snd r)"

definition object_put :: "s3_send \<Rightarrow> attachment_storage \<Rightarrow> rat \<Rightarrow> string \<Rightarrow> string \<Rightarrow> string \<Rightarrow> meter \<Rightarrow> (storage_fault + unit) \<times> meter" where
  "object_put send st d key body contentType mt =
     ignore_answer (run_command send st d OpStoragePut (PutObject (as_bucket st) key body contentType) mt)"

definition object_get :: "s3_send \<Rightarrow> attachment_storage \<Rightarrow> rat \<Rightarrow> string \<Rightarrow> meter \<Rightarrow> (storage_fault + string list \<times> int option) \<times> meter" where
  "object_get send st d key mt =
     (case run_command send st d OpStorageGet (GetObject (as_bucket st) key None) mt of
        (Inl f, mt') \<Rightarrow> (Inl f, mt')
      | (Inr r, mt') \<Rightarrow>
          (case sr_body r of None \<Rightarrow> (Inl empty_body, mt') | Some chunks \<Rightarrow> (Inr (chunks, sr_contentLength r), mt')))"

definition object_getBuffer :: "s3_send \<Rightarrow> attachment_storage \<Rightarrow> rat \<Rightarrow> string \<Rightarrow> meter \<Rightarrow> (storage_fault + string) \<times> meter" where
  \<comment> \<open>\<open>this.get\<close>, then the chunks as they come\<close>
  "object_getBuffer send st d key mt =
     (case object_get send st d key mt of (Inl f, mt') \<Rightarrow> (Inl f, mt') | (Inr (chunks, _), mt') \<Rightarrow> (Inr (concat chunks), mt'))"

definition object_head :: "s3_send \<Rightarrow> attachment_storage \<Rightarrow> rat \<Rightarrow> string \<Rightarrow> meter \<Rightarrow> (storage_fault + unit) \<times> meter" where
  "object_head send st d key mt = ignore_answer (run_command send st d OpStorageHeadObject (HeadObject (as_bucket st) key) mt)"

definition object_delete :: "s3_send \<Rightarrow> attachment_storage \<Rightarrow> rat \<Rightarrow> string \<Rightarrow> meter \<Rightarrow> (storage_fault + unit) \<times> meter" where
  "object_delete send st d key mt = ignore_answer (run_command send st d OpStorageDelete (DeleteObject (as_bucket st) key) mt)"

definition object_headBucket :: "s3_send \<Rightarrow> attachment_storage \<Rightarrow> rat \<Rightarrow> meter \<Rightarrow> (storage_fault + unit) \<times> meter" where
  "object_headBucket send st d mt = ignore_answer (run_command send st d OpStorageHeadBucket (HeadBucket (as_bucket st)) mt)"

type_synonym s3_sign = "s3_client \<Rightarrow> s3_command \<Rightarrow> int \<Rightarrow> instant \<Rightarrow> string option"
  \<comment> \<open>with the seconds it is valid for and the signing date; \<open>None\<close> when the signer throws\<close>

definition presignGet :: "s3_sign \<Rightarrow> attachment_storage \<Rightarrow> string \<Rightarrow> string \<Rightarrow> string \<Rightarrow> int \<Rightarrow> instant \<Rightarrow> string option" where
  "presignGet sign st key contentType contentDisposition expiresInSeconds signingDate =
     sign (as_client st)
       (GetObject (as_bucket st) key (Some \<lparr>ro_cacheControl = ''private, no-store'', ro_contentDisposition = contentDisposition,
          ro_contentType = contentType\<rparr>))
       expiresInSeconds signingDate"

definition getConfiguredAttachmentStorage ::
  "environment \<Rightarrow> attachment_storage option \<Rightarrow> (js_error + attachment_storage) \<times> attachment_storage option"
where
  \<comment> \<open>\<open>configured ??= ...\<close>\<close>
  "getConfiguredAttachmentStorage env configured =
     (case configured of
        Some st \<Rightarrow> (Inr st, configured)
      | None \<Rightarrow>
          (case resolveAttachmentStorageConfig env of
             Inl e \<Rightarrow> (Inl e, None)
           | Inr config \<Rightarrow> (Inr (createAttachmentStorage config), Some (createAttachmentStorage config))))"

section \<open>The answers the other theories see\<close>

definition get_answer :: "sdk_error + s3_response \<Rightarrow> sdk_error + (string \<times> int option) option" where
  "get_answer = map_sum (\<lambda>e. e) (\<lambda>r. map_option (\<lambda>chunks. (concat chunks, sr_contentLength r)) (sr_body r))"

definition failure_of :: "sdk_error + 'a \<Rightarrow> sdk_error option" where
  "failure_of answer = (case answer of Inl e \<Rightarrow> Some e | Inr _ \<Rightarrow> None)"

lemma object_get_answer:
  "map_sum (\<lambda>f. f) (\<lambda>(chunks, n). (concat chunks, n)) (fst (object_get send st d key mt))
     = storage_get (get_answer (send (as_client st) (GetObject (as_bucket st) key None) STORAGE_TIMEOUT_MS))"
  by (auto simp: object_get_def run_command_def storage_call_def storage_get_def get_answer_def storage_run_def operation_name_def
      split: sum.splits option.splits)

lemma object_put_answer:
  "fst (object_put send st d key body contentType mt)
     = fst (storage_put (failure_of (send (as_client st) (PutObject (as_bucket st) key body contentType) STORAGE_TIMEOUT_MS)) key body b)"
  by (auto simp: object_put_def ignore_answer_def run_command_def storage_call_def storage_put_def storage_run_def operation_name_def
      failure_of_def split: sum.splits)

lemma object_delete_answer:
  "fst (object_delete send st d key mt)
     = fst (storage_delete (failure_of (send (as_client st) (DeleteObject (as_bucket st) key) STORAGE_TIMEOUT_MS)) gone key b)"
  by (auto simp: object_delete_def ignore_answer_def run_command_def storage_call_def storage_delete_def storage_run_def
      operation_name_def failure_of_def Let_def split: sum.splits)

lemma object_head_answer:
  "fst (object_head send st d key mt)
     = (case failure_of (send (as_client st) (HeadObject (as_bucket st) key) STORAGE_TIMEOUT_MS) of
          None \<Rightarrow> Inr () | Some e \<Rightarrow> Inl (storage_fault_of ''storage_head_object'' e))"
  by (auto simp: object_head_def ignore_answer_def run_command_def storage_call_def storage_run_def operation_name_def failure_of_def
      split: sum.splits)

text \<open>The start checks the bucket with this operation, over the storage the process keeps from then on.\<close>

lemma verify_storage_by_client:
  assumes "attachmentsEnabled env" and "resolveAttachmentPresignedUrlTtlSeconds env = Inr ttl"
    and "st_headBucket w = failure_of (send (as_client st) (HeadBucket (as_bucket st)) STORAGE_TIMEOUT_MS)"
    and "getConfiguredAttachmentStorage env None = (Inr st, kept)"
  shows "verify_storage env w = map_sum sf_error (\<lambda>u. u) (fst (object_headBucket send st d mt))" "kept = Some st"
  using assms
  by (auto simp: verify_storage_def getConfiguredAttachmentStorage_def object_headBucket_def ignore_answer_def run_command_def
      storage_call_def storage_run_def operation_name_def failure_of_def split: sum.splits)

text \<open>The storage of the process is made once; a configuration that cannot be read is tried again.\<close>

lemma configured_once:
  assumes "getConfiguredAttachmentStorage env None = (Inr st, kept)"
  shows "getConfiguredAttachmentStorage env' kept = (Inr st, kept)"
  using assms by (auto simp: getConfiguredAttachmentStorage_def split: sum.splits)

lemma configured_later:
  assumes "getConfiguredAttachmentStorage env None = (Inl e, kept)"
  shows "kept = None"
  using assms by (auto simp: getConfiguredAttachmentStorage_def split: sum.splits)

text \<open>Every call is measured once, also one that fails.\<close>

lemma storage_call_measured: "length (told ProviderRequests (snd (storage_call operation d answer mt))) = Suc (length (told ProviderRequests mt))"
  by (auto simp: storage_call_def recordProviderRequest_def tell_def told_def Let_def split: sum.splits)

lemma object_calls_measured:
  "length (told ProviderRequests (snd (object_put send st d key body contentType mt))) = Suc (length (told ProviderRequests mt))"
  "length (told ProviderRequests (snd (object_getBuffer send st d key mt))) = Suc (length (told ProviderRequests mt))"
  "length (told ProviderRequests (snd (object_delete send st d key mt))) = Suc (length (told ProviderRequests mt))"
  "length (told ProviderRequests (snd (object_headBucket send st d mt))) = Suc (length (told ProviderRequests mt))"
proof -
  have run: "length (told ProviderRequests (snd (run_command send st d op c mt))) = Suc (length (told ProviderRequests mt))" for op c
    by (simp add: run_command_def storage_call_measured)
  show "length (told ProviderRequests (snd (object_put send st d key body contentType mt))) = Suc (length (told ProviderRequests mt))"
    "length (told ProviderRequests (snd (object_delete send st d key mt))) = Suc (length (told ProviderRequests mt))"
    "length (told ProviderRequests (snd (object_headBucket send st d mt))) = Suc (length (told ProviderRequests mt))"
    by (simp_all add: object_put_def object_delete_def object_headBucket_def ignore_answer_def run)
  show "length (told ProviderRequests (snd (object_getBuffer send st d key mt))) = Suc (length (told ProviderRequests mt))"
    using run [of OpStorageGet "GetObject (as_bucket st) key None"]
    by (auto simp: object_getBuffer_def object_get_def split: prod.splits sum.splits option.splits)
qed

end
