(* ===== verification/Process_Exit.thy ===== *)
theory Process_Exit
  imports Process_Lifecycle
begin

text \<open>
  How long the process takes to end and with which code: \<open>shutdownTelemetry\<close> of \<open>src/lib/telemetry.ts\<close> with its time limit,
  under the limit that \<open>src/server.ts\<close> sets on the whole shutdown, and the exit of a start that fails. Times
  are in milliseconds. What the exporters of the OpenTelemetry packages do is an argument. Both limits are timers that do
  not keep the process alive by themselves; an exporter that waits for its collector does.
\<close>

section \<open>The telemetry\<close>

datatype settling = Settles nat | Rejects nat | Hangs
  \<comment> \<open>a promise and when it settles\<close>

definition TELEMETRY_TIMEOUT_MS :: nat where "TELEMETRY_TIMEOUT_MS = 10000"

definition FORCED_EXIT_MS :: nat where "FORCED_EXIT_MS = 10000"

fun promise_all :: "settling list \<Rightarrow> settling" where
  \<comment> \<open>the last to settle or the first to reject\<close>
  "promise_all [] = Settles 0"
| "promise_all (p # ps) =
     (case (p, promise_all ps) of
        (Rejects a, Rejects b) \<Rightarrow> Rejects (min a b)
      | (Rejects a, _) \<Rightarrow> Rejects a
      | (_, Rejects b) \<Rightarrow> Rejects b
      | (Settles a, Settles b) \<Rightarrow> Settles (max a b)
      | _ \<Rightarrow> Hangs)"

definition race_timeout :: "nat \<Rightarrow> settling \<Rightarrow> settling" where
  \<comment> \<open>\<open>Promise.race\<close> with a timer that resolves\<close>
  "race_timeout limit p =
     (case p of Settles t \<Rightarrow> Settles (min t limit) | Rejects t \<Rightarrow> if t < limit then Rejects t else Settles limit | Hangs \<Rightarrow> Settles limit)"

definition shutdown_telemetry :: "telemetry \<Rightarrow> settling \<Rightarrow> settling \<Rightarrow> telemetry \<times> settling" where
  \<comment> \<open>with the shutdown of the logger provider and of the meter provider; the state changes at once\<close>
  "shutdown_telemetry t loggerShutdown meterShutdown =
     (shutdownTelemetry t,
      if tl_meterProvider t = None \<and> \<not> tl_logger t then Settles 0
      else race_timeout TELEMETRY_TIMEOUT_MS (promise_all
        ((if tl_logger t then [loggerShutdown] else []) @ (if tl_meterProvider t \<noteq> None then [meterShutdown] else []))))"

definition orderly_exit :: "nat \<Rightarrow> settling \<Rightarrow> nat \<times> int" where
  \<comment> \<open>the time after the signal and the code, when the services and the database took \<open>elapsed\<close>: the forced exit
    comes first when both are due, and a rejection that nothing catches ends the process with 1\<close>
  "orderly_exit elapsed p =
     (case p of
        Settles t \<Rightarrow> if elapsed + t < FORCED_EXIT_MS then (elapsed + t, 0) else (FORCED_EXIT_MS, 1)
      | Rejects t \<Rightarrow> (min (elapsed + t) FORCED_EXIT_MS, 1)
      | Hangs \<Rightarrow> (FORCED_EXIT_MS, 1))"

definition failed_start_exit :: "settling \<Rightarrow> (nat \<times> int) option" where
  \<comment> \<open>the catch block of \<open>startServer\<close>, which has no forced exit\<close>
  "failed_start_exit p = (case p of Settles t \<Rightarrow> Some (t, 1) | Rejects t \<Rightarrow> Some (t, 1) | Hangs \<Rightarrow> None)"

definition process_end :: "environment \<Rightarrow> startup_world \<Rightarrow> telemetry \<Rightarrow> settling \<Rightarrow> settling \<Rightarrow> nat \<Rightarrow> (nat \<times> int) option" where
  \<comment> \<open>of a process that was to start: \<open>reached\<close> is the telemetry that was set up when a start fails\<close>
  "process_end env w reached loggerShutdown meterShutdown elapsed =
     (case startServer env w of
        Inl e \<Rightarrow> failed_start_exit (snd (shutdown_telemetry reached loggerShutdown meterShutdown))
      | Inr r \<Rightarrow> Some (orderly_exit elapsed (snd (shutdown_telemetry (rn_telemetry r) loggerShutdown meterShutdown))))"

section \<open>What the limits give\<close>

lemma race_settles: "race_timeout limit p \<noteq> Hangs"
  by (cases p) (simp_all add: race_timeout_def)

lemma telemetry_settles: "snd (shutdown_telemetry t l m) \<noteq> Hangs"
  by (simp add: shutdown_telemetry_def race_settles)

lemma telemetry_within:
  "case snd (shutdown_telemetry t l m) of Settles a \<Rightarrow> a \<le> TELEMETRY_TIMEOUT_MS | Rejects a \<Rightarrow> a < TELEMETRY_TIMEOUT_MS | Hangs \<Rightarrow> False"
  by (auto simp: shutdown_telemetry_def race_timeout_def split: settling.split)

text \<open>The process always ends, within ten seconds of the signal or of the failure.\<close>

lemma process_ends:
  "\<exists>t code. process_end env w reached l m elapsed = Some (t, code) \<and> t \<le> 10000 \<and> code \<in> {0, 1}"
proof (cases "startServer env w")
  case (Inl e)
  then show ?thesis using telemetry_within [of reached l m]
    by (auto simp: process_end_def failed_start_exit_def TELEMETRY_TIMEOUT_MS_def split: settling.splits)
next
  case (Inr r)
  then show ?thesis
    by (auto simp: process_end_def orderly_exit_def FORCED_EXIT_MS_def split: settling.split)
qed

text \<open>It ends with 0 when the services and the exporters together keep within the limit.\<close>

lemma orderly_exit_clean: "snd (orderly_exit elapsed p) = 0 \<longleftrightarrow> (\<exists>t. p = Settles t \<and> elapsed + t < 10000)"
  by (auto simp: orderly_exit_def FORCED_EXIT_MS_def split: settling.split)

text \<open>The limit of \<open>shutdownTelemetry\<close> never helps a shutdown: the forced exit was set before and waits as long, so
  a collector that does not answer turns the end of a process that did everything else into a
  failure.\<close>

lemma hanging_collector_fails_shutdown:
  assumes "tl_meterProvider t \<noteq> None"
  shows "orderly_exit elapsed (snd (shutdown_telemetry t l Hangs)) = (10000, 1) \<or> (\<exists>a. l = Rejects a)"
proof (cases l)
  case (Settles a)
  then show ?thesis using assms
    by (auto simp: shutdown_telemetry_def orderly_exit_def race_timeout_def TELEMETRY_TIMEOUT_MS_def FORCED_EXIT_MS_def)
next
  case Hangs
  then show ?thesis using assms
    by (auto simp: shutdown_telemetry_def orderly_exit_def race_timeout_def TELEMETRY_TIMEOUT_MS_def FORCED_EXIT_MS_def)
qed simp

end
