(* ===== verification/Webhook_Metrics.thy ===== *)
theory Webhook_Metrics
  imports Telemetry
begin

text \<open>
  The webhook handler of \<open>src/lib/webhook-handler.ts\<close> with the counter it keeps: which category and which outcome a request
  is counted under. The theory \<open>Webhook\<close> has the handler without the counter; the second section shows that both answer
  and store the same, that a request that is answered is counted once, and under the outcome its answer has.
\<close>

section \<open>The measured handler\<close>

definition webhookEventCategory :: "resend_event \<Rightarrow> string" where
  "webhookEventCategory event =
     (if isEmailEvent event then ''email'' else if isContactEvent event then ''contact'' else ''domain'')"

definition settle_event :: "resend_event \<Rightarrow> string \<Rightarrow> (js_error + unit) \<times> intake \<Rightarrow> meter \<Rightarrow> ((js_error + reply) \<times> intake) \<times> meter" where
  \<comment> \<open>what follows an insert: the count of its branch and the answer, or the catch block\<close>
  "settle_event event category inserted mt =
     (case inserted of
        (Inr _, b) \<Rightarrow> ((Inr received_reply, b), recordWebhookEvent category ''accepted'' mt)
      | (Inl _, b) \<Rightarrow> ((Inr (error_reply 500 ''Failed to process webhook''), b), recordWebhookEvent (webhookEventCategory event) ''failed'' mt))"

definition measured_dispatch ::
  "environment \<Rightarrow> hook_world \<Rightarrow> resend_event \<Rightarrow> string \<Rightarrow> intake \<Rightarrow> meter \<Rightarrow> ((js_error + reply) \<times> intake) \<times> meter"
where
  "measured_dispatch env w event svixId b mt =
     (if isEmailEvent event
      then settle_event event ''email'' (case event of EmailEvent e \<Rightarrow> on_store (insertEmailEvent env w e svixId) b | _ \<Rightarrow> (Inl shape_error, b)) mt
      else if isContactEvent event
      then settle_event event ''contact'' (case event of ContactEvent c \<Rightarrow> insertContactEvent c svixId b | _ \<Rightarrow> (Inl shape_error, b)) mt
      else if isDomainEvent event
      then settle_event event ''domain'' (case event of DomainEvent d \<Rightarrow> insertDomainEvent d svixId b | _ \<Rightarrow> (Inl shape_error, b)) mt
      else ((Inr (error_reply 400 ''Unknown event type''), b), recordWebhookEvent ''unknown'' ''rejected'' mt))"

definition measured_webhook ::
  "environment \<Rightarrow> hook_world \<Rightarrow> http_request \<Rightarrow> string \<Rightarrow> intake \<Rightarrow> meter \<Rightarrow> ((js_error + reply) \<times> intake) \<times> meter"
where
  "measured_webhook env w request raw b mt =
     (case keep_truthy (env ''RESEND_WEBHOOK_SECRET'') of
        None \<Rightarrow> ((Inr misconfigured_reply, b), recordWebhookEvent ''unknown'' ''failed'' mt)
      | Some secret \<Rightarrow>
          (case svix_headers request of
             None \<Rightarrow> ((Inr (error_reply 400 ''Missing required Svix headers''), b), recordWebhookEvent ''unknown'' ''rejected'' mt)
           | Some headers \<Rightarrow>
               (case verifyWebhook (hw_webhook w) raw headers secret of
                  Inl e \<Rightarrow> ((Inl e, b), mt)
                | Inr (Inl _) \<Rightarrow> ((Inr (error_reply 401 ''Invalid webhook signature''), b), recordWebhookEvent ''unknown'' ''rejected'' mt)
                | Inr (Inr event) \<Rightarrow> measured_dispatch env w event (fst headers) b mt)))"

section \<open>What the counter says\<close>

definition counted_outcome :: "reply \<Rightarrow> string" where
  "counted_outcome answer =
     (if rp_status answer = 200 then ''accepted'' else if rp_status answer = 500 then ''failed'' else ''rejected'')"

lemma measured_dispatch_same: "fst (measured_dispatch env w event svixId b mt) = dispatch_event env w event svixId b"
  by (auto simp: measured_dispatch_def dispatch_event_def settle_event_def Let_def split: prod.splits sum.splits)

lemma measured_webhook_same: "fst (measured_webhook env w request raw b mt) = webhook_post env w request raw b"
  by (simp add: measured_webhook_def webhook_post_def measured_dispatch_same split: option.split sum.split)

lemma statuses [simp]: "rp_status (error_reply n t) = n" "rp_status received_reply = 200" "rp_status misconfigured_reply = 500"
  by (simp_all add: error_reply_def json_reply_def received_reply_def misconfigured_reply_def)

lemma settle_event_counts:
  "settle_event event category inserted mt = ((Inr answer, b'), mt') \<Longrightarrow> category = webhookEventCategory event \<Longrightarrow>
    mt' = recordWebhookEvent (webhookEventCategory event) (counted_outcome answer) mt"
  by (auto simp: settle_event_def counted_outcome_def split: prod.splits sum.splits)

lemma measured_dispatch_counts:
  assumes "measured_dispatch env w event svixId b mt = ((Inr answer, b'), mt')"
  shows "mt' = recordWebhookEvent
    (if isEmailEvent event \<or> isContactEvent event \<or> isDomainEvent event then webhookEventCategory event else ''unknown'')
    (counted_outcome answer) mt"
proof (cases "isEmailEvent event \<or> isContactEvent event \<or> isDomainEvent event")
  case True
  then obtain inserted where "settle_event event (webhookEventCategory event) inserted mt = ((Inr answer, b'), mt')"
    using assms by (auto simp: measured_dispatch_def webhookEventCategory_def split: if_splits)
  from settle_event_counts [OF this refl] True show ?thesis by simp
next
  case False
  then show ?thesis using assms by (auto simp: measured_dispatch_def counted_outcome_def)
qed

text \<open>A request that is answered is counted once, as accepted when the answer is 200, failed when it is 500, rejected
  otherwise.\<close>

lemma webhook_counted_once:
  assumes "measured_webhook env w request raw b mt = ((Inr answer, b'), mt')"
  shows "\<exists>category. mt' = recordWebhookEvent category (counted_outcome answer) mt"
  using assms measured_dispatch_counts
  by (fastforce simp: measured_webhook_def counted_outcome_def split: option.splits sum.splits)

text \<open>A secret that the signature package refuses throws out of the handler: the server answers 500, and the counter does
  not show it, as it would a secret that is missing.\<close>

lemma refused_secret_uncounted:
  assumes "keep_truthy (env ''RESEND_WEBHOOK_SECRET'') = Some secret" and "hw_webhook w secret = Inl e"
    and "svix_headers request = Some headers"
  shows "measured_webhook env w request raw b mt = ((Inl e, b), mt)"
  using assms by (simp add: measured_webhook_def verifyWebhook_def)

end
