(* ===== verification/Spec2Isabelle.thy ===== *)
theory Spec2Isabelle
  imports Js_Prelude Js_Number Schema Threading Routing Conversation_State Conversation_Events Delivery Send_Input
    Lease Provider_Errors Outbox Attachment_Config Attachments Attachment_Outbox Scheduler Event_Runtime
    Send_Validation Row_Changes Conversation_Projection Resend_Client Conversation_Service Http_Api Send_Intents
    Conversation_V2 Direct_Email Conversation_Routes Webhook Attachment_Store Object_Lifetime
    Operations Http_Server Startup Process_Lifecycle Telemetry Nats_Diagnostics Release_Check Reply_Path Queued_Path
    Js_Date Js_Json Conversation_Lists Conversation_Pages Request_Identity Storage_Client Process_Exit Webhook_Metrics
begin

text \<open>
  A verification library for the Resend conversation service (\<open>src/src\<close>, TypeScript): one process over
  one PostgreSQL database that receives the webhooks of the email provider, keeps conversations about
  topics, sends email, stores attachments and publishes conversation events.

  \<^bold>\<open>The program and its parts.\<close> A request comes through \<open>server.ts\<close> (routes, guards, body parsers, error
  handler) to a handler. Handlers validate (\<open>send-validation.ts\<close>, \<open>api.ts\<close>), open transactions on the
  database and answer; sending handlers store an intent first, which is then sent at once
  (\<open>conversation-service.ts\<close>) or left to an outbox lane: batches (\<open>outbox-service.ts\<close>) or, with attachments,
  one message at a time (\<open>attachment-outbox-service.ts\<close>). A drain comes from the scheduler
  (\<open>outbox-drain-scheduler.ts\<close>) or from an external caller. A webhook stores its event and then projects
  it: a delivery event into the state of its message (\<open>email/delivery.ts\<close>), a received email into the
  threads (\<open>email/conversations.ts\<close>), found by the token in its recipients (\<open>email/routing.ts\<close>) or by its
  references (\<open>email/threading.ts\<close>). Every change of a conversation appends an event to a log in the same
  transaction (\<open>conversation-events.ts\<close>), which the event worker publishes in order
  (\<open>conversation-event-runtime.ts\<close>). Attachments have rows, objects and tombstones; a worker fetches
  inbound ones (\<open>attachments/ingest-runtime.ts\<close>) and a reaper deletes what nothing owns
  (\<open>attachments/reaper.ts\<close>).

  \<^bold>\<open>Theories and sources.\<close> Each theory opens with what it models; in the order of the imports:
  \<^item> Foundations. \<open>Js_Prelude\<close> (strings, lists, JSON, errors and table rows as the language has them),
    \<open>Js_Number\<close> (\<open>Number\<close> on texts), \<open>Js_Date\<close> (instants from texts), \<open>Js_Json\<close> (\<open>JSON.parse\<close>, UTF-8 and
    base64url, and that what is printed is read back), \<open>Schema\<close> (\<open>prisma/schema.prisma\<close>: the tables in the record \<open>store\<close>,
    \<open>'a io\<close> for code that awaits the database, \<open>transaction\<close>), \<open>Row_Changes\<close> (unique keys, cascades and the
    tombstone trigger of the migrations), \<open>Lease\<close> (the locales of a leased queue and of a retry ladder).
  \<^item> Pure helpers. \<open>Threading\<close>, \<open>Routing\<close>, \<open>Conversation_State\<close> (the files of that name under \<open>lib/email\<close>),
    \<open>Send_Validation\<close> (\<open>send-validation.ts\<close>), \<open>Send_Input\<close> (the request a stored message becomes),
    \<open>Provider_Errors\<close> (what an error means for a retry), \<open>Attachment_Config\<close>.
  \<^item> The database side. \<open>Conversation_Events\<close>, \<open>Delivery\<close>, \<open>Conversation_Projection\<close> (the locale
    \<open>thread_invariant\<close> says what a projection may touch), \<open>Conversation_Service\<close>, \<open>Outbox\<close>, \<open>Attachments\<close>,
    \<open>Attachment_Outbox\<close>, \<open>Scheduler\<close>, \<open>Event_Runtime\<close>, \<open>Resend_Client\<close>.
  \<^item> Requests. \<open>Http_Api\<close> (\<open>api.ts\<close>), \<open>Send_Intents\<close> (hash, allowlist and the stored intent),
    \<open>Conversation_V2\<close>, \<open>Direct_Email\<close>, \<open>Conversation_Lists\<close> (the lists with cursors), \<open>Conversation_Routes\<close>, \<open>Webhook\<close>,
    \<open>Attachment_Store\<close> (object store, ingest, reaper, attachment routes), \<open>Storage_Client\<close> (what \<open>storage.ts\<close> sends to S3),
    \<open>Operations\<close> (drain and health routes), \<open>Http_Server\<close> (\<open>server.ts\<close>).
  \<^item> The process. \<open>Startup\<close> (\<open>scripts/validate-runtime-env.mjs\<close>, \<open>telemetry.ts\<close>, the NATS connection,
    \<open>startServer\<close>), \<open>Process_Lifecycle\<close> (timers, wake, stop and shutdown as a step relation), \<open>Process_Exit\<close> (when
    the process ends and with which code), \<open>Telemetry\<close>
    (\<open>telemetry-metrics.ts\<close>, \<open>logger.ts\<close>),
    \<open>Webhook_Metrics\<close> (what is counted of webhooks), \<open>Nats_Diagnostics\<close> (texts of startup errors),
    \<open>Release_Check\<close> (\<open>scripts/validate-release-version.mjs\<close>).
  \<^item> Across components. \<open>Object_Lifetime\<close> (who accounts for a stored object, over ingest, upload, deletion
    and reaper), \<open>Reply_Path\<close>, \<open>Queued_Path\<close> and this theory (a reply finds the conversation
    that was opened; a queued opening is sent), \<open>Request_Identity\<close> (the three kinds of sending requests under one key),
    \<open>Conversation_Pages\<close> (a client that follows the cursors; the locale \<open>keyset_list\<close> is the contract of both lists).

  \<^bold>\<open>State and operations.\<close> A table is the list of its rows and a row a record with the columns of the
  schema; an enum is a datatype. A database operation is \<open>store \<Rightarrow> (js_error + 'a) \<times> store\<close>; a thrown error is
  \<open>Inl\<close>, and \<open>transaction\<close> puts the store back. What the code reads from outside is an argument: clocks,
  random tokens, ids, the rows that others hold locked (\<open>SKIP LOCKED\<close>), the answers of the provider, the
  object store and NATS, and, where the code awaits something between two statements, what other
  processes commit meanwhile. Packages and some built-ins (express, svix, croner, the NATS and S3 clients,
  SHA-256, \<open>URL\<close>, the date parser on texts that \<open>toISOString\<close> does not print) are parameters; the theorems assume nothing of them
  unless a hypothesis says so.

  \<^bold>\<open>What is shown.\<close> The properties, each behind its number \<open>C\<close>\<^emph>\<open>n\<close>, come with a witness at a concrete
  input where they have hypotheses.
  \<^item> Reply routing: generated addresses are read back, fit SMTP's limits, and a reply is filed in the
    conversation whose address it was sent to; participants are never mixed; each email is filed once.
  \<^item> Sending: claims of concurrent drains are disjoint and in order, a retry repeats the same request under
    the same key, outcomes are final, a lost lease writes nothing, requests are idempotent, refused requests
    leave no trace, a key that was used refuses every other request, a queued opening is sent by the next drain, and
    recovery refines a life cycle.
  \<^item> Conversations: one per topic, deletion leaves no orphans, events are numbered in each conversation and sent in
    order, terminated conversations stay terminated, pages cover a conversation exactly once,
    and the cursors of the lists are read back and lead a client through the whole summary.
  \<^item> Webhooks: unsigned bodies change nothing, redelivery is idle, an acknowledged email is filed.
  \<^item> Attachments: an upload is claimed once, an attempt of the worker settles its row, no object is leaked.
  \<^item> The process: unauthenticated requests change nothing, an environment that passes the check starts, the
    shutdown is orderly and can complete, gauges agree with the tables, startup errors show no secret.
  The lemmas before the properties are the invariants and their preservation per operation, the effect of
  each operation on a success (\<open>_Inr\<close>, \<open>_effect\<close>) and the frame conditions (\<open>_frame\<close>, \<open>io_keeps\<close>).

  \<^bold>\<open>Bounds and fuel.\<close> No definition of the program has artificial fuel; the client of \<open>follow_pages\<close> makes a given
  number of requests, and one more than there are conversations is shown to be enough. Loops are bounded as in the code: three attempts of a
  projection, \<open>maxBatches\<close> passes of a tick, \<open>limit\<close> rounds of a drain; the others recurse on their data, and
  \<open>message_id_matches\<close>, \<open>strip_subject_prefixes\<close> and \<open>rewrite_all\<close> have termination proofs. Strings are lists of code units
  from 0 to 255; instants are whole milliseconds; counters and sizes are unbounded, as none comes near
  \<open>2^53\<close>.

  \<^bold>\<open>Not modelled.\<close> Code units above 255; \<open>updated_at\<close> columns beyond the responses that show them; advisory
  locks, which only order transactions (the model runs a transaction as one step and takes a refusal to
  serialise as an argument); failures of the database itself, but for the health check and the gauges; the
  work of the S3, NATS and OpenTelemetry packages behind the calls of the service; the documentation pages; the
  generated Prisma client, the re-exporting \<open>index.ts\<close> files, the smoke script of the telemetry. A put to the
  object store that fails stores nothing in the model.
\<close>

section \<open>A reply reaches its conversation\<close>

text \<open>The Reply-To that \<open>open_conversation\<close> stores is the generated address of the new token.\<close>

lemma stored_reply_to:
  assumes "open_conversation env w v subject key hash queued s = (Inr (cid, mid), t)"
    and "distinct (map ms_id (messages t))" and "m \<in> set (messages t)" "ms_id m = mid" "ms_replyToAddress m = Some address"
  shows "buildConversationReplyTo (ii_address (mi_replyTo (cy_message v))) (qw_token w) = Inr address"
proof -
  obtain n address' i created where b: "buildConversationReplyTo (ii_address (mi_replyTo (cy_message v))) (qw_token w) = Inr address'"
    and n: "n = messageCreateData v subject address' (sw_now (qw_send w)) key hash cid mid created" "messages t = messages s @ [n]"
    by (rule open_conversation_effect [OF assms(1)]) blast
  have "ms_id n = ms_id m" using n(1) assms(4) by (simp add: messageCreateData_def)
  then have "n = m" using distinct_key_unique [OF assms(2) _ assms(3)] n(2) by simp
  with n(1) assms(5) b show ?thesis by (simp add: messageCreateData_def outbound_row_def)
qed


definition sample_reply :: resend_email where
  "sample_reply = (sample_email '''')\<lparr>re_to := ['' Us+C_0123456789AB4CDE8F0123456789ABCD@x.io'', ''other@x.io''], re_headers := None\<rparr>"

definition sample_reply_event :: email_event_data where
  "sample_reply_event = sample_event\<lparr>ed_to := []\<rparr>"

lemma sample_reply_run:
  "case validateCreateV2Body keyed_env (Some sample_create) of Inl _ \<Rightarrow> False | Inr v \<Rightarrow>
     (case open_conversation keyed_env plain_world v ''T'' ''k'' ''h'' True sample_allowed of
        (Inr ids, t) \<Rightarrow> length (messages t) = 1 \<and> ms_id (hd (messages t)) = snd ids
          \<and> ms_replyToAddress (hd (messages t)) = Some (js_toLower (js_trim '' Us+C_0123456789AB4CDE8F0123456789ABCD@x.io''))
          \<and> waiting_children (inbound_mail_of sample_reply_event sample_reply) t = []
          \<and> \<not> known_email sample_reply_event (inbound_mail_of sample_reply_event sample_reply) (hd (messages t))
          \<and> im_participantAddress (inbound_mail_of sample_reply_event sample_reply) = js_toLower (ii_address (cy_participant v))
          \<and> (case projectInboundEmail keyed_env quiet_projection sample_reply_event sample_reply ''us@x.io'' t of
               (Inr r, u) \<Rightarrow> True | _ \<Rightarrow> False)
      | _ \<Rightarrow> False)"
  by code_simp

lemma sample_reply_facts:
  "canonical_uuid (qw_token plain_world)" "aliases sample_allowed = []"
  "recipients_read sample_reply_event sample_reply = ['' Us+C_0123456789AB4CDE8F0123456789ABCD@x.io'', ''other@x.io'']"
  "routing_candidate_of ''other@x.io'' = None" "im_references (inbound_mail_of sample_reply_event sample_reply) = []"
  by code_simp+


section \<open>A queued opening is sent\<close>


definition generous_provider :: batch_provider where
  "generous_provider inputs k = Inr (map (\<lambda>_. Some (JString ''re1'')) inputs)"

lemma sample_queued_run:
  "case validateCreateV2Body keyed_env (Some sample_create) of Inl _ \<Rightarrow> False | Inr v \<Rightarrow>
     (case open_conversation keyed_env plain_world v ''T'' ''k'' ''h'' True sample_allowed of
        (Inr ids, t) \<Rightarrow> \<not> has_refs (mi_attachments (cy_message v)) \<and> outbox_batches t = [] \<and> map ms_id (messages t) = [snd ids]
          \<and> map oe_messageId (outbox_entries t) = [snd ids] \<and> map oe_batchId (outbox_entries t) = [None]
          \<and> (case drainEmailOutbox keyed_env generous_provider (\<lambda>s. s) ''tk'' 10 11 nobody nobody 5 t of (Inr r, u) \<Rightarrow> True | _ \<Rightarrow> False)
      | _ \<Rightarrow> False)"
  by code_simp


end
